(* ===== verification/Prelude.thy ===== *)
theory Prelude
  imports Complex_Main "HOL-Library.AList" "HOL-Library.List_Lexorder" "HOL-Library.Char_ord"
    "HOL-Library.Sublist"
begin

text \<open>
  Shared vocabulary of the development: the result type of code that throws, JavaScript's
  insertion-ordered \<open>Map\<close>, decimal rendering of numbers, string splitting and joining, the
  supply of fresh identifiers and clock readings, and the interface \<open>registry\<close> that every
  register-once table of the program satisfies.  Strings are lists of \<open>char\<close>, one per byte of
  the UTF-8 form of the source's string; on the ASCII strings the guards inspect this is one
  \<open>char\<close> per code unit.
\<close>

named_theorems js_map_simps \<open>lookup and key set of an insertion-ordered map\<close>
named_theorems result_simps \<open>case analysis of throwing computations\<close>

section \<open>Exceptions as values\<close>

text \<open>A thrown \<open>Error\<close>: its class name and its message.  A throwing function returns
  \<open>Inl e\<close> for \<open>throw e\<close> and \<open>Inr v\<close> for \<open>return v\<close>.\<close>

datatype js_error = JsError (err_name: string) (err_message: string)

definition plain_error :: "string \<Rightarrow> js_error" where
  "plain_error msg = JsError ''Error'' msg"

definition bindE :: "'e + 'a \<Rightarrow> ('a \<Rightarrow> 'e + 'b) \<Rightarrow> 'e + 'b" where
  "bindE m f = (case m of Inl e \<Rightarrow> Inl e | Inr a \<Rightarrow> f a)"

definition is_ok :: "'e + 'a \<Rightarrow> bool" where
  "is_ok r = (case r of Inl _ \<Rightarrow> False | Inr _ \<Rightarrow> True)"

lemma bindE_simps [simp, result_simps]:
  "bindE (Inl e) f = Inl e"
  "bindE (Inr a) f = f a"
  by (simp_all add: bindE_def)

lemma bindE_Inr [result_simps]: "bindE m f = Inr b \<longleftrightarrow> (\<exists>a. m = Inr a \<and> f a = Inr b)"
  by (cases m) auto

lemma is_ok_simps [simp, result_simps]:
  "is_ok (Inl e) = False"
  "is_ok (Inr a) = True"
  by (simp_all add: is_ok_def)

lemma is_ok_iff: "is_ok r \<longleftrightarrow> (\<exists>a. r = Inr a)"
  by (cases r) auto

text \<open>A \<open>for\<close> loop over a list whose body may throw: the first exception ends it.\<close>

fun foldE :: "('x \<Rightarrow> 's \<Rightarrow> 'e + 's) \<Rightarrow> 'x list \<Rightarrow> 's \<Rightarrow> 'e + 's" where
  "foldE f [] s = Inr s"
| "foldE f (x # xs) s = bindE (f x s) (foldE f xs)"

lemma foldE_append: "foldE f (xs @ ys) s = bindE (foldE f xs s) (foldE f ys)"
proof (induction xs arbitrary: s)
  case Nil
  then show ?case by simp
next
  case (Cons x xs)
  then show ?case by (cases "f x s") simp_all
qed

lemma foldE_invariant:
  assumes step: "\<And>x s s'. x \<in> set xs \<Longrightarrow> I s \<Longrightarrow> f x s = Inr s' \<Longrightarrow> I s'"
    and init: "I s" and run: "foldE f xs s = Inr s'"
  shows "I s'"
  using assms
proof (induction xs arbitrary: s)
  case Nil
  then show ?case by simp
next
  case (Cons x xs)
  then obtain t where t: "f x s = Inr t" "foldE f xs t = Inr s'" by (auto simp: bindE_Inr)
  have "I t" using Cons.prems(1) [of x s t] Cons.prems(2) t(1) by simp
  show ?case
  proof (rule Cons.IH [OF _ \<open>I t\<close> t(2)])
    fix y u u'
    assume "y \<in> set xs" "I u" "f y u = Inr u'"
    then show "I u'" using Cons.prems(1) [of y u u'] by simp
  qed
qed

section \<open>Computations with effects\<close>

text \<open>Asynchronous code as the sequence of its effects: a computation reads and changes a world
  \<open>'w\<close> and returns or throws.  The effects up to a \<open>throw\<close> stay.\<close>

type_synonym ('w, 'a) proc = "'w \<Rightarrow> (js_error + 'a) \<times> 'w"

definition returnP :: "'a \<Rightarrow> ('w, 'a) proc" where
  "returnP a = (\<lambda>w. (Inr a, w))"

definition throwP :: "js_error \<Rightarrow> ('w, 'a) proc" where
  "throwP e = (\<lambda>w. (Inl e, w))"

definition bindP :: "('w, 'a) proc \<Rightarrow> ('a \<Rightarrow> ('w, 'b) proc) \<Rightarrow> ('w, 'b) proc" where
  "bindP p f = (\<lambda>w. case p w of (Inl e, w') \<Rightarrow> (Inl e, w') | (Inr a, w') \<Rightarrow> f a w')"

definition catchP :: "('w, 'a) proc \<Rightarrow> (js_error \<Rightarrow> ('w, 'a) proc) \<Rightarrow> ('w, 'a) proc" where
  "catchP p h = (\<lambda>w. case p w of (Inl e, w') \<Rightarrow> h e w' | (Inr a, w') \<Rightarrow> (Inr a, w'))"

definition liftE :: "js_error + 'a \<Rightarrow> ('w, 'a) proc" where
  "liftE r = (\<lambda>w. (r, w))"

fun forP :: "('x \<Rightarrow> ('w, unit) proc) \<Rightarrow> 'x list \<Rightarrow> ('w, unit) proc" where
  "forP f [] = returnP ()"
| "forP f (x # xs) = bindP (f x) (\<lambda>_. forP f xs)"

lemma bindP_returns:
  assumes "bindP p f s = (Inr a, s')"
  obtains b s1 where "p s = (Inr b, s1)" "f b s1 = (Inr a, s')"
  using assms by (auto simp: bindP_def split: prod.splits sum.splits)

lemma bindP_simps [simp, result_simps]:
  "bindP (returnP a) f = f a"
  "bindP (throwP e) f = throwP e"
  "bindP (bindP p f) g = bindP p (\<lambda>a. bindP (f a) g)"
  by (auto simp: bindP_def returnP_def throwP_def fun_eq_iff split: prod.splits sum.splits)

lemma bindP_app [result_simps]:
  "bindP p f w = (case p w of (Inl e, w') \<Rightarrow> (Inl e, w') | (Inr a, w') \<Rightarrow> f a w')"
  by (simp add: bindP_def)

lemma bindP_ok: "bindP p f w = (Inr b, w'') \<longleftrightarrow> (\<exists>a w'. p w = (Inr a, w') \<and> f a w' = (Inr b, w''))"
  by (auto simp: bindP_def split: prod.splits sum.splits)

lemma bindP_fst: "p w = (Inr a, w') \<Longrightarrow> bindP p f w = f a w'"
  by (simp add: bindP_def)

text \<open>A relation that every step respects is respected by the whole computation.\<close>

lemma bindP_rel:
  assumes "R w (snd (p w))" "\<And>a w'. p w = (Inr a, w') \<Longrightarrow> R w' (snd (f a w'))"
    and "\<And>x y z. R x y \<Longrightarrow> R y z \<Longrightarrow> R x z"
  shows "R w (snd (bindP p f w))"
proof (cases "p w")
  case (Pair r w')
  then show ?thesis
  proof (cases r)
    case (Inl e)
    then show ?thesis using assms(1) Pair by (simp add: bindP_def)
  next
    case (Inr a)
    then show ?thesis using assms(1) assms(2) [of a w'] assms(3) Pair by (auto simp: bindP_def)
  qed
qed

section \<open>Insertion-ordered maps\<close>

text \<open>
  JavaScript's \<open>Map\<close> as an association list in insertion order: \<open>set\<close> overwrites in place or
  appends, \<open>delete\<close> removes, iteration follows the list.
\<close>

type_synonym ('k, 'v) js_map = "('k \<times> 'v) list"

abbreviation map_get :: "('k, 'v) js_map \<Rightarrow> 'k \<Rightarrow> 'v option" where
  "map_get m k \<equiv> map_of m k"

abbreviation map_set :: "'k \<Rightarrow> 'v \<Rightarrow> ('k, 'v) js_map \<Rightarrow> ('k, 'v) js_map" where
  "map_set k v m \<equiv> AList.update k v m"

abbreviation map_del :: "'k \<Rightarrow> ('k, 'v) js_map \<Rightarrow> ('k, 'v) js_map" where
  "map_del k m \<equiv> AList.delete k m"

abbreviation map_has :: "('k, 'v) js_map \<Rightarrow> 'k \<Rightarrow> bool" where
  "map_has m k \<equiv> map_of m k \<noteq> None"

abbreviation map_keys :: "('k, 'v) js_map \<Rightarrow> 'k list" where
  "map_keys m \<equiv> map fst m"

abbreviation map_values :: "('k, 'v) js_map \<Rightarrow> 'v list" where
  "map_values m \<equiv> map snd m"

definition map_wf :: "('k, 'v) js_map \<Rightarrow> bool" where
  "map_wf m \<longleftrightarrow> distinct (map_keys m)"

lemma map_wf_Nil [simp]: "map_wf []"
  by (simp add: map_wf_def)

lemma map_set_conv [simp, js_map_simps]: "map_of (AList.update k v m) = (map_of m)(k \<mapsto> v)"
  by (rule update_conv')

lemma map_del_conv [simp, js_map_simps]: "map_of (AList.delete k m) = (map_of m)(k := None)"
  by (rule delete_conv')

lemma map_set_new [js_map_simps]: "map_of m k = None \<Longrightarrow> AList.update k v m = m @ [(k, v)]"
  by (induction m) (auto split: if_splits)

lemma map_wf_set [simp, intro]: "map_wf m \<Longrightarrow> map_wf (AList.update k v m)"
  by (simp add: map_wf_def distinct_update)

lemma map_wf_del [simp, intro]: "map_wf m \<Longrightarrow> map_wf (AList.delete k m)"
  by (simp add: map_wf_def distinct_delete)

lemma map_keys_set: "map_keys (AList.update k v m)
    = (if k \<in> set (map_keys m) then map_keys m else map_keys m @ [k])"
  by (simp add: update_keys)

lemma map_keys_set_present: "map_of m k \<noteq> None \<Longrightarrow> map_keys (AList.update k v m) = map_keys m"
proof -
  assume "map_of m k \<noteq> None"
  then have "k \<in> set (map_keys m)" by (simp add: map_of_eq_None_iff)
  then show ?thesis by (simp add: map_keys_set)
qed

lemma map_wf_get: "map_wf m \<Longrightarrow> (k, v) \<in> set m \<Longrightarrow> map_of m k = Some v"
  by (simp add: map_wf_def)

lemma length_map_set_present: "map_of m k \<noteq> None \<Longrightarrow> length (AList.update k v m) = length m"
  using map_keys_set_present [of m k v] by (metis length_map)

section \<open>Register-once tables\<close>

text \<open>
  The executor, agent, tool and schema registries of the program and the grant table of the
  policy engine share one contract: registering a free key stores the entry, registering a
  taken key throws and stores nothing.
\<close>

locale registry =
  fixes admissible :: "'k \<Rightarrow> bool"
    and look :: "'s \<Rightarrow> 'k \<Rightarrow> 'v option"
    and register :: "'k \<Rightarrow> 'v \<Rightarrow> 's \<Rightarrow> js_error + 's"
  assumes register_fresh: "look s k = None \<Longrightarrow> admissible k \<Longrightarrow>
      \<exists>s'. register k v s = Inr s' \<and> look s' = (look s)(k \<mapsto> v)"
    and register_ok: "register k v s = Inr s' \<Longrightarrow>
      look s k = None \<and> admissible k \<and> look s' = (look s)(k \<mapsto> v)"
begin

lemma register_iff: "is_ok (register k v s) \<longleftrightarrow> look s k = None \<and> admissible k"
  using register_fresh register_ok by (metis is_ok_iff)

lemma register_look: "register k v s = Inr s' \<Longrightarrow> look s' k = Some v"
  by (simp add: register_ok)

lemma register_keeps: "register k v s = Inr s' \<Longrightarrow> look s j = Some w \<Longrightarrow> look s' j = Some w"
  using register_ok by fastforce

lemma register_twice: "register k v s = Inr s' \<Longrightarrow> \<not> is_ok (register k w s')"
  by (simp add: register_iff register_look)

lemma register_all_keeps:
  "foldE (\<lambda>(k, v). register k v) kvs s = Inr s' \<Longrightarrow> look s j = Some w \<Longrightarrow> look s' j = Some w"
proof (induction kvs arbitrary: s)
  case Nil
  then show ?case by simp
next
  case (Cons kv kvs)
  obtain k v where kv: "kv = (k, v)" by (cases kv)
  with Cons.prems(1) obtain t where t: "register k v s = Inr t"
      "foldE (\<lambda>(k, v). register k v) kvs t = Inr s'" by (auto simp: bindE_Inr)
  show ?case by (rule Cons.IH [OF t(2)]) (rule register_keeps [OF t(1) Cons.prems(2)])
qed

lemma register_all_look:
  "foldE (\<lambda>(k, v). register k v) kvs s = Inr s' \<Longrightarrow> look s' = look s ++ map_of kvs"
proof (induction kvs arbitrary: s)
  case Nil
  then show ?case by simp
next
  case (Cons kv kvs)
  obtain k v where kv: "kv = (k, v)" by (cases kv)
  with Cons.prems obtain t where t: "register k v s = Inr t"
      "foldE (\<lambda>(k, v). register k v) kvs t = Inr s'" by (auto simp: bindE_Inr)
  have lt: "look t = (look s)(k \<mapsto> v)" using register_ok [OF t(1)] by simp
  have ls: "look s' = look t ++ map_of kvs" using Cons.IH [OF t(2)] .
  have "map_of kvs k = None"
  proof (rule ccontr)
    assume "map_of kvs k \<noteq> None"
    then have "k \<in> fst ` set kvs" by (simp add: map_of_eq_None_iff)
    then obtain us vs w where sp: "kvs = us @ (k, w) # vs"
      by (metis imageE split_list surjective_pairing)
    from t(2) sp obtain u where u: "foldE (\<lambda>(k, v). register k v) us t = Inr u"
        "is_ok (register k w u)" by (auto simp: foldE_append bindE_Inr)
    have "look t k = Some v" by (simp add: lt)
    then have "look u k = Some v" by (rule register_all_keeps [OF u(1)])
    then show False using u(2) by (simp add: register_iff)
  qed
  then show ?case using kv lt ls by (auto simp: fun_eq_iff map_add_def split: option.splits)
qed

lemma register_all_ok:
  "distinct (map fst kvs) \<Longrightarrow> \<forall>k \<in> set (map fst kvs). look s k = None \<and> admissible k \<Longrightarrow>
    is_ok (foldE (\<lambda>(k, v). register k v) kvs s)"
proof (induction kvs arbitrary: s)
  case Nil
  then show ?case by simp
next
  case (Cons kv kvs)
  obtain k v where kv: "kv = (k, v)" by (cases kv)
  with Cons.prems obtain t where t: "register k v s = Inr t" "look t = (look s)(k \<mapsto> v)"
    using register_fresh [of s k v] by auto
  have "is_ok (foldE (\<lambda>(k, v). register k v) kvs t)"
    using Cons.prems kv t(2) by (intro Cons.IH) auto
  then show ?case using kv t(1) by simp
qed

end

section \<open>Strings\<close>

abbreviation starts_with :: "string \<Rightarrow> string \<Rightarrow> bool" where
  "starts_with s p \<equiv> prefix p s"

abbreviation ends_with :: "string \<Rightarrow> string \<Rightarrow> bool" where
  "ends_with s p \<equiv> suffix p s"

abbreviation includes_str :: "string \<Rightarrow> string \<Rightarrow> bool" where
  "includes_str s p \<equiv> sublist p s"

text \<open>\<open>'$\<close>-quoting of message templates: the text between single quotes.\<close>

definition quoted :: "string \<Rightarrow> string" where
  "quoted s = CHR 0x27 # s @ [CHR 0x27]"

text \<open>\<open>s.split(c)\<close> for a one-character separator, and \<open>parts.join(sep)\<close>.\<close>

fun split_on :: "char \<Rightarrow> string \<Rightarrow> string list" where
  "split_on c [] = [[]]"
| "split_on c (x # xs) =
     (if x = c then [] # split_on c xs
      else (case split_on c xs of [] \<Rightarrow> [[x]] | p # ps \<Rightarrow> (x # p) # ps))"

fun join_with :: "string \<Rightarrow> string list \<Rightarrow> string" where
  "join_with sep [] = []"
| "join_with sep [p] = p"
| "join_with sep (p # q # ps) = p @ sep @ join_with sep (q # ps)"

lemma split_on_ne [simp]: "split_on c s \<noteq> []"
  by (induction s) (auto split: list.splits)

lemma join_split: "join_with [c] (split_on c s) = s"
proof (induction s)
  case Nil
  then show ?case by simp
next
  case (Cons x s)
  obtain p ps where sp: "split_on c s = p # ps" by (cases "split_on c s") auto
  then show ?case using Cons by (cases ps) auto
qed

lemma split_on_no_sep: "p \<in> set (split_on c s) \<Longrightarrow> c \<notin> set p"
  by (induction s arbitrary: p) (auto split: list.splits if_splits)

lemma split_join:
  "ps \<noteq> [] \<Longrightarrow> \<forall>p \<in> set ps. c \<notin> set p \<Longrightarrow> split_on c (join_with [c] ps) = ps"
proof (induction ps)
  case Nil
  then show ?case by simp
next
  case (Cons p ps)
  have single: "c \<notin> set q \<Longrightarrow> split_on c q = [q]" for q by (induction q) auto
  have step: "c \<notin> set q \<Longrightarrow> split_on c (q @ c # r) = q # split_on c r" for q r
    by (induction q) auto
  show ?case
  proof (cases ps)
    case Nil
    then show ?thesis using Cons.prems single by simp
  next
    case (Cons q qs)
    then show ?thesis using Cons.prems Cons.IH step [of p] by simp
  qed
qed

text \<open>Decimal rendering of natural numbers and integers (\<open>String(n)\<close>, \<open>`${n}`\<close>).\<close>

definition digit_char :: "nat \<Rightarrow> char" where
  "digit_char n = char_of (48 + n)"

definition is_digit :: "char \<Rightarrow> bool" where
  "is_digit c \<longleftrightarrow> 48 \<le> (of_char c :: nat) \<and> (of_char c :: nat) \<le> 57"

fun show_nat :: "nat \<Rightarrow> string" where
  "show_nat n = (if n < 10 then [digit_char n] else show_nat (n div 10) @ [digit_char (n mod 10)])"

declare show_nat.simps [simp del]

definition show_int :: "int \<Rightarrow> string" where
  "show_int i = (if i < 0 then CHR ''-'' # show_nat (nat (- i)) else show_nat (nat i))"

definition digits_value :: "string \<Rightarrow> nat" where
  "digits_value s = foldl (\<lambda>a c. 10 * a + (of_char c - 48)) 0 s"

lemma of_char_digit: "n < 10 \<Longrightarrow> (of_char (digit_char n) :: nat) = 48 + n"
  by (simp add: digit_char_def of_char_of)

lemma digits_value_show_nat [simp]: "digits_value (show_nat n) = n"
proof (induction n rule: show_nat.induct)
  case (1 n)
  show ?case
  proof (cases "n < 10")
    case True
    then show ?thesis by (subst show_nat.simps) (simp add: digits_value_def of_char_digit)
  next
    case False
    then have "digits_value (show_nat (n div 10)) = n div 10" using 1 by simp
    then show ?thesis using False
      by (subst show_nat.simps) (simp add: digits_value_def of_char_digit)
  qed
qed

lemma show_nat_inj: "show_nat m = show_nat n \<Longrightarrow> m = n"
  by (metis digits_value_show_nat)

lemma show_nat_digits: "\<forall>c \<in> set (show_nat n). is_digit c"
proof (induction n rule: show_nat.induct)
  case (1 n)
  then show ?case
    by (subst show_nat.simps) (auto simp: is_digit_def of_char_digit)
qed

lemma show_nat_ne [simp]: "show_nat n \<noteq> []"
  by (subst show_nat.simps) simp

lemma show_int_inj: "show_int i = show_int j \<Longrightarrow> i = j"
proof -
  have hd: "hd (show_nat n) \<noteq> CHR ''-''" for n
    using show_nat_digits [of n] by (cases "show_nat n") (auto simp: is_digit_def)
  have ne: "CHR ''-'' # s \<noteq> show_nat n" for s n using hd [of n] by (metis list.sel(1))
  assume eq: "show_int i = show_int j"
  show ?thesis
  proof (cases "i < 0"; cases "j < 0")
    assume "i < 0" "j < 0"
    with eq have "show_nat (nat (- i)) = show_nat (nat (- j))" by (simp add: show_int_def)
    with \<open>i < 0\<close> \<open>j < 0\<close> show ?thesis by (auto dest!: show_nat_inj)
  next
    assume "i < 0" "\<not> j < 0"
    with eq ne show ?thesis by (simp add: show_int_def)
  next
    assume "\<not> i < 0" "j < 0"
    with eq ne show ?thesis by (simp add: show_int_def) metis
  next
    assume "\<not> i < 0" "\<not> j < 0"
    with eq have "show_nat (nat i) = show_nat (nat j)" by (simp add: show_int_def)
    with \<open>\<not> i < 0\<close> \<open>\<not> j < 0\<close> show ?thesis by (auto dest!: show_nat_inj)
  qed
qed

end
