(* ===== verification/Canonicalize.thy ===== *)
theory Canonicalize
  imports Prelude
begin

text \<open>
  JavaScript values as the kernel sees them, and the canonical serialisation of
  \<open>kernel/events/src/canonicalize.ts\<close> on which every event hash rests.  The main result is that
  the canonical text determines the value up to the order of object keys, for every value built
  from JSON data and \<open>undefined\<close>; the cases left out are exactly the ones where the code maps
  different values to one text (non-finite numbers, big integers, functions and symbols).
\<close>

section \<open>Values\<close>

text \<open>
  \<open>JNonFinite\<close> stands for NaN and the infinities, \<open>JOther s\<close> for a function or symbol whose
  \<open>String(value)\<close> is \<open>s\<close>.  Numbers are the integers (every number the kernel puts in a payload is
  a counter, an amount or an epoch time).  An object is its list of own enumerable properties.
\<close>

datatype jsv =
    JUndefined
  | JNull
  | JBool bool
  | JNum int
  | JNonFinite
  | JBigInt int
  | JStr string
  | JArr "jsv list"
  | JObj "(string \<times> jsv) list"
  | JOther string

text \<open>\<open>JSON.stringify\<close> on strings: the escapes of ECMA-262 QuoteJSONString.\<close>

definition hex_digit :: "nat \<Rightarrow> char" where
  "hex_digit n = (if n < 10 then char_of (48 + n) else char_of (87 + n))"

definition json_esc :: "char \<Rightarrow> string" where
  "json_esc c =
     (let n = (of_char c :: nat) in
      if c = CHR 0x22 then [CHR 0x5C, CHR 0x22]
      else if c = CHR 0x5C then [CHR 0x5C, CHR 0x5C]
      else if n = 8 then [CHR 0x5C, CHR ''b'']
      else if n = 9 then [CHR 0x5C, CHR ''t'']
      else if n = 10 then [CHR 0x5C, CHR ''n'']
      else if n = 12 then [CHR 0x5C, CHR ''f'']
      else if n = 13 then [CHR 0x5C, CHR ''r'']
      else if n < 32 then
        [CHR 0x5C, CHR ''u'', CHR ''0'', CHR ''0'', hex_digit (n div 16), hex_digit (n mod 16)]
      else [c])"

definition json_string :: "string \<Rightarrow> string" where
  "json_string s = CHR 0x22 # concat (map json_esc s) @ [CHR 0x22]"

section \<open>The canonical serialisation\<close>

lemma size_snd_member: "(k, v) \<in> set kvs \<Longrightarrow> size v < Suc (size_list (size_prod (\<lambda>_. 0) size) kvs)"
  by (induction kvs) auto

lemma size_member: "v \<in> set vs \<Longrightarrow> size v < Suc (size_list size vs)"
  by (induction vs) auto

function canonicalize :: "jsv \<Rightarrow> string" where
  "canonicalize JUndefined = ''undefined''"
| "canonicalize JNull = ''null''"
| "canonicalize (JStr s) = json_string s"
| "canonicalize (JNum n) = show_int n"
| "canonicalize JNonFinite = ''null''"
| "canonicalize (JBool b) = (if b then ''true'' else ''false'')"
| "canonicalize (JBigInt n) = json_string (show_int n)"
| "canonicalize (JArr vs) = ''['' @ join_with '','' (map canonicalize vs) @ '']''"
| "canonicalize (JObj kvs) =
     ''{'' @ join_with '',''
        (map (\<lambda>(k, v). json_string k @ '':'' @ canonicalize v) (sort_key fst kvs)) @ ''}''"
| "canonicalize (JOther s) = s"
  by pat_completeness auto
termination
  by (relation "measure size") (auto dest: size_snd_member size_member)

section \<open>Normal form: keys sorted at every level\<close>

fun norm_jsv :: "jsv \<Rightarrow> jsv" where
  "norm_jsv (JArr vs) = JArr (map norm_jsv vs)"
| "norm_jsv (JObj kvs) = JObj (sort_key fst (map (\<lambda>(k, v). (k, norm_jsv v)) kvs))"
| "norm_jsv v = v"

fun render :: "jsv \<Rightarrow> string" where
  "render (JArr vs) = ''['' @ join_with '','' (map render vs) @ '']''"
| "render (JObj kvs) =
     ''{'' @ join_with '','' (map (\<lambda>(k, v). json_string k @ '':'' @ render v) kvs) @ ''}''"
| "render v = canonicalize v"

lemma insort_key_map_fst:
  "insort_key fst (fst p, f p) (map (\<lambda>q. (fst q, f q)) ps)
    = map (\<lambda>q. (fst q, f q)) (insort_key fst p ps)"
  by (induction ps) auto

lemma sort_key_map_fst:
  "sort_key fst (map (\<lambda>q. (fst q, f q)) ps) = map (\<lambda>q. (fst q, f q)) (sort_key fst ps)"
  by (induction ps) (simp_all add: insort_key_map_fst)

lemma canonicalize_norm: "canonicalize v = render (norm_jsv v)"
proof (induction v rule: canonicalize.induct)
  case (8 vs)
  then show ?case by (simp cong: map_cong)
next
  case (9 kvs)
  have "sort_key fst (map (\<lambda>(k, v). (k, norm_jsv v)) kvs)
      = map (\<lambda>(k, v). (k, norm_jsv v)) (sort_key fst kvs)"
    using sort_key_map_fst [of "\<lambda>q. norm_jsv (snd q)" kvs] by (simp add: case_prod_unfold)
  then show ?case using 9 by (auto intro!: arg_cong [where f = "join_with '',''"])
qed auto

text \<open>The values on which the canonical text is unambiguous.\<close>

fun canon_safe :: "jsv \<Rightarrow> bool" where
  "canon_safe JNonFinite = False"
| "canon_safe (JBigInt n) = False"
| "canon_safe (JOther s) = False"
| "canon_safe (JArr vs) = (\<forall>v \<in> set vs. canon_safe v)"
| "canon_safe (JObj kvs) = (\<forall>p \<in> set kvs. canon_safe (snd p))"
| "canon_safe v = True"

lemma canon_safe_norm [simp]: "canon_safe (norm_jsv v) = canon_safe v"
  by (induction v rule: norm_jsv.induct) (auto simp: case_prod_unfold)

section \<open>Unique readability\<close>

lemma hex_digit_inj: "m < 16 \<Longrightarrow> n < 16 \<Longrightarrow> hex_digit m = hex_digit n \<Longrightarrow> m = n"
proof -
  assume m: "m < 16" and n: "n < 16" and eq: "hex_digit m = hex_digit n"
  have code: "(of_char (hex_digit k) :: nat) = (if k < 10 then 48 + k else 87 + k)" if "k < 16" for k
    using that by (simp add: hex_digit_def of_char_of)
  have "(of_char (hex_digit m) :: nat) = of_char (hex_digit n)" by (simp add: eq)
  then show "m = n" by (simp only: code [OF m] code [OF n]) (auto split: if_splits)
qed

text \<open>The escapes form a prefix code that never starts with a quotation mark.\<close>

lemma json_esc_quote: "json_esc c @ r \<noteq> CHR 0x22 # s"
  by (auto simp: json_esc_def Let_def)

lemma json_esc_prefix_free: "json_esc c @ r = json_esc d @ s \<Longrightarrow> c = d \<and> r = s"
proof -
  assume eq: "json_esc c @ r = json_esc d @ s"
  have inj: "(of_char c :: nat) = of_char d \<Longrightarrow> c = d" by simp
  have hx: "hex_digit (of_char c div 16) = hex_digit (of_char d div 16) \<Longrightarrow>
      hex_digit (of_char c mod 16) = hex_digit (of_char d mod 16) \<Longrightarrow>
      (of_char c :: nat) < 32 \<Longrightarrow> (of_char d :: nat) < 32 \<Longrightarrow> c = d"
  proof -
    assume h: "hex_digit (of_char c div 16) = hex_digit (of_char d div 16)"
      "hex_digit (of_char c mod 16) = hex_digit (of_char d mod 16)"
      "(of_char c :: nat) < 32" "(of_char d :: nat) < 32"
    have "(of_char c :: nat) div 16 = of_char d div 16" by (rule hex_digit_inj) (use h in auto)
    moreover have "(of_char c :: nat) mod 16 = of_char d mod 16"
      by (rule hex_digit_inj) (use h in auto)
    ultimately have "(of_char c :: nat) = of_char d" by (metis div_mult_mod_eq)
    then show "c = d" by (rule inj)
  qed
  show ?thesis
    using eq inj hx
    by (simp add: json_esc_def Let_def split: if_splits)
qed

lemma json_esc_ne [simp]: "json_esc c \<noteq> []"
  by (simp add: json_esc_def Let_def)

lemma json_chars_unique:
  "concat (map json_esc s) @ CHR 0x22 # r = concat (map json_esc t) @ CHR 0x22 # u
    \<Longrightarrow> s = t \<and> r = u"
proof (induction s arbitrary: t)
  case Nil
  show ?case
  proof (cases t)
    case Nil
    then show ?thesis using Nil.prems by simp
  next
    case (Cons d t')
    then show ?thesis
      using Nil.prems json_esc_quote [of d "concat (map json_esc t') @ CHR 0x22 # u" r] by simp
  qed
next
  case (Cons c s)
  show ?case
  proof (cases t)
    case Nil
    then show ?thesis
      using Cons.prems json_esc_quote [of c "concat (map json_esc s) @ CHR 0x22 # r" u] by simp
  next
    case (Cons d t')
    have "c = d \<and> concat (map json_esc s) @ CHR 0x22 # r = concat (map json_esc t') @ CHR 0x22 # u"
      by (rule json_esc_prefix_free) (use Cons.prems Cons in simp)
    then show ?thesis using Cons.IH [of t'] Cons by auto
  qed
qed

lemma json_string_unique: "json_string s @ r = json_string t @ u \<Longrightarrow> s = t \<and> r = u"
  by (rule json_chars_unique) (simp add: json_string_def)

lemma json_string_inj: "json_string s = json_string t \<Longrightarrow> s = t"
  using json_string_unique [of s "[]" t "[]"] by simp

text \<open>What may follow a value inside a larger text.\<close>

definition delim :: "string \<Rightarrow> bool" where
  "delim r \<longleftrightarrow> r = [] \<or> hd r \<in> {CHR '','', CHR '']'', CHR ''}''}"

lemma delim_simps [simp]:
  "delim []" "delim (CHR '','' # r)" "delim (CHR '']'' # r)" "delim (CHR ''}'' # r)"
  by (simp_all add: delim_def)

lemma span_unique:
  assumes "\<forall>c \<in> set x. P c" "\<forall>c \<in> set y. P c"
    and "r = [] \<or> \<not> P (hd r)" "s = [] \<or> \<not> P (hd s)" and "x @ r = y @ s"
  shows "x = y \<and> r = s"
proof -
  have tw: "takeWhile P (z @ q) = z" if "\<forall>c \<in> set z. P c" "q = [] \<or> \<not> P (hd q)" for z q
    using that by (cases q) (auto simp: takeWhile_append2)
  have "x = y" using tw [OF assms(1,3)] tw [OF assms(2,4)] assms(5) by simp
  then show ?thesis using assms(5) by simp
qed

lemma show_int_unique:
  assumes "delim r" "delim s" "show_int i @ r = show_int j @ s"
  shows "i = j \<and> r = s"
proof -
  let ?P = "\<lambda>c. c = CHR ''-'' \<or> is_digit c"
  have d: "r = [] \<or> \<not> ?P (hd r)" if "delim r" for r
    using that by (auto simp: delim_def is_digit_def)
  have "\<forall>c \<in> set (show_int k). ?P c" for k
    using show_nat_digits by (auto simp: show_int_def)
  then have "show_int i = show_int j \<and> r = s"
    using span_unique [of "show_int i" ?P "show_int j" r s] d assms by blast
  then show ?thesis using show_int_inj by blast
qed

lemma join_with_Cons: "join_with sep (p # ps) = p @ concat (map (\<lambda>q. sep @ q) ps)"
  by (induction ps arbitrary: p) auto

text \<open>A comma-separated body closed by \<open>c\<close> is unique when its items are.\<close>

lemma body_unique:
  fixes item :: "'a \<Rightarrow> string"
  assumes U: "\<And>a b r s. a \<in> A \<Longrightarrow> b \<in> B \<Longrightarrow> delim r \<Longrightarrow> delim s \<Longrightarrow>
      item a @ r = item b @ s \<Longrightarrow> a = b \<and> r = s"
    and c: "c \<in> {CHR '']'', CHR ''}''}"
    and N: "\<And>a. a \<in> A \<union> B \<Longrightarrow> item a \<noteq> [] \<and> hd (item a) \<noteq> c"
    and sub: "set vs \<subseteq> A" "set ws \<subseteq> B"
    and eq: "join_with '','' (map item vs) @ c # r = join_with '','' (map item ws) @ c # s"
  shows "vs = ws \<and> r = s"
proof -
  let ?t = "\<lambda>us. concat (map (\<lambda>u. CHR '','' # item u) us)"
  have jt: "join_with '','' (map item (u # us)) = item u @ ?t us" for u us
    by (simp only: list.map join_with_Cons) (simp add: comp_def)
  have dl: "delim (?t us @ c # q)" for us q
    using c by (cases us) auto
  have tails: "?t us @ c # r = ?t xs @ c # s \<Longrightarrow> set us \<subseteq> A \<Longrightarrow> set xs \<subseteq> B \<Longrightarrow> us = xs \<and> r = s"
    for us xs
  proof (induction us arbitrary: xs)
    case Nil
    then show ?case using c by (cases xs) auto
  next
    case (Cons u us)
    show ?case
    proof (cases xs)
      case Nil
      then show ?thesis using Cons.prems c by auto
    next
      case (Cons x xs')
      have "item u @ (?t us @ c # r) = item x @ (?t xs' @ c # s)"
        using Cons.prems(1) Cons by simp
      moreover have "u \<in> A" "x \<in> B" using Cons.prems Cons by auto
      ultimately have "u = x \<and> ?t us @ c # r = ?t xs' @ c # s"
        by (intro U dl)
      then show ?thesis using Cons.IH [of xs'] Cons.prems Cons by auto
    qed
  qed
  have ne: "item a @ z \<noteq> c # q" if "a \<in> A \<union> B" for a z q
    using N [OF that] by (cases "item a") auto
  show ?thesis
  proof (cases vs; cases ws)
    fix v vs' w ws'
    assume s: "vs = v # vs'" "ws = w # ws'"
    have "item v @ (?t vs' @ c # r) = item w @ (?t ws' @ c # s)"
      using eq unfolding s jt by simp
    moreover have "v \<in> A" "w \<in> B" using sub s by auto
    ultimately have "v = w \<and> ?t vs' @ c # r = ?t ws' @ c # s"
      by (intro U dl)
    then show ?thesis using tails [of vs' ws'] sub s by auto
  next
    fix w ws'
    assume s: "vs = []" "ws = w # ws'"
    then show ?thesis using eq sub ne [of w] unfolding s jt by (simp add: eq_commute [of "c # _"])
  next
    fix v vs'
    assume s: "vs = v # vs'" "ws = []"
    then show ?thesis using eq sub ne [of v] unfolding s jt by (simp add: eq_commute [of "c # _"])
  qed (use eq in auto)
qed

text \<open>The first character of a rendered value tells its kind.\<close>

lemma show_int_cons: "show_int i = c # cs \<Longrightarrow> c = CHR ''-'' \<or> is_digit c"
  using show_nat_digits by (auto simp: show_int_def split: if_splits) (metis list.set_intros(1))

lemma render_hd:
  assumes "canon_safe v"
  shows "\<exists>c cs. render v = c # cs \<and> c \<noteq> CHR '']'' \<and> c \<noteq> CHR ''}''"
proof (cases v)
  case (JNum n)
  obtain c cs where s: "show_int n = c # cs"
    by (metis list.exhaust show_int_def show_nat_ne list.distinct(1))
  then have "c = CHR ''-'' \<or> is_digit c" by (rule show_int_cons)
  then show ?thesis using s JNum by (auto simp: is_digit_def)
qed (use assms in \<open>auto simp: json_string_def\<close>)

lemma show_int_ne [simp]: "show_int i \<noteq> []"
  by (simp add: show_int_def)

lemma show_int_not_other:
  "c \<notin> {CHR ''-''} \<Longrightarrow> \<not> is_digit c \<Longrightarrow> show_int i @ r \<noteq> c # s"
  using show_int_cons [of i] by (cases "show_int i") auto

lemma not_number_simps [simp]:
  "show_int i @ r \<noteq> CHR ''u'' # s" "CHR ''u'' # s \<noteq> show_int i @ r"
  "show_int i @ r \<noteq> CHR ''n'' # s" "CHR ''n'' # s \<noteq> show_int i @ r"
  "show_int i @ r \<noteq> CHR ''t'' # s" "CHR ''t'' # s \<noteq> show_int i @ r"
  "show_int i @ r \<noteq> CHR ''f'' # s" "CHR ''f'' # s \<noteq> show_int i @ r"
  "show_int i @ r \<noteq> CHR 0x22 # s" "CHR 0x22 # s \<noteq> show_int i @ r"
  "show_int i @ r \<noteq> CHR ''['' # s" "CHR ''['' # s \<noteq> show_int i @ r"
  "show_int i @ r \<noteq> CHR ''{'' # s" "CHR ''{'' # s \<noteq> show_int i @ r"
  by (simp_all add: show_int_not_other is_digit_def not_sym [OF show_int_not_other])

lemma render_unique:
  "canon_safe v \<Longrightarrow> canon_safe w \<Longrightarrow> delim r \<Longrightarrow> delim s \<Longrightarrow>
    render v @ r = render w @ s \<Longrightarrow> v = w \<and> r = s"
proof (induction v arbitrary: w r s)
  case (JNum n)
  show ?case
  proof (cases w)
    case (JNum m)
    then show ?thesis using JNum.prems show_int_unique [of r s n m] by simp
  qed (use JNum.prems in \<open>auto simp: json_string_def split: if_splits\<close>)
next
  case (JStr x)
  show ?case
  proof (cases w)
    case (JStr y)
    then show ?thesis using JStr.prems json_string_unique [of x r y s] by simp
  qed (use JStr.prems in \<open>auto simp: json_string_def split: if_splits\<close>)
next
  case (JArr vs)
  show ?case
  proof (cases w)
    case (JArr ws)
    have "vs = ws \<and> r = s"
    proof (rule body_unique [where item = render and A = "set vs" and B = "set ws" and c = "CHR '']''"])
      show "a = b \<and> q = t" if "a \<in> set vs" "b \<in> set ws" "delim q" "delim t"
          "render a @ q = render b @ t" for a b q t
        by (rule JArr.IH [of a]) (use that JArr.prems JArr in auto)
      show "render a \<noteq> [] \<and> hd (render a) \<noteq> CHR '']''" if "a \<in> set vs \<union> set ws" for a
        using that JArr.prems JArr render_hd [of a] by fastforce
      show "join_with '','' (map render vs) @ CHR '']'' # r = join_with '','' (map render ws) @ CHR '']'' # s"
        using JArr.prems JArr by simp
    qed auto
    then show ?thesis using JArr by simp
  qed (use JArr.prems in \<open>auto simp: json_string_def split: if_splits\<close>)
next
  case (JObj vs)
  let ?item = "\<lambda>(k, v). json_string k @ '':'' @ render v"
  show ?case
  proof (cases w)
    case (JObj ws)
    have "vs = ws \<and> r = s"
    proof (rule body_unique [where item = ?item and A = "set vs" and B = "set ws" and c = "CHR ''}''"])
      show "a = b \<and> q = t" if h: "a \<in> set vs" "b \<in> set ws" "delim q" "delim t"
          "?item a @ q = ?item b @ t" for a b q t
      proof -
        obtain k x l y where ab: "a = (k, x)" "b = (l, y)" by (cases a; cases b)
        have "json_string k @ CHR '':'' # render x @ q = json_string l @ CHR '':'' # render y @ t"
          using h(5) ab by simp
        then have "k = l" "render x @ q = render y @ t" by (auto dest: json_string_unique)
        moreover have "x = y \<and> q = t"
          by (rule JObj.IH [of a]) (use h ab calculation JObj.prems JObj in auto)
        ultimately show ?thesis using ab by simp
      qed
      show "?item a \<noteq> [] \<and> hd (?item a) \<noteq> CHR ''}''" if "a \<in> set vs \<union> set ws" for a
        by (cases a) (simp add: json_string_def)
      show "join_with '','' (map ?item vs) @ CHR ''}'' # r = join_with '','' (map ?item ws) @ CHR ''}'' # s"
        using JObj.prems JObj by simp
    qed auto
    then show ?thesis using JObj by simp
  qed (use JObj.prems in \<open>auto simp: json_string_def split: if_splits\<close>)
qed (case_tac w; auto simp: json_string_def split: if_splits)+

text \<open>The canonical text determines the value up to the order of keys, and nothing less.\<close>

lemma canonicalize_eq_iff_norm:
  assumes "canon_safe v" "canon_safe w"
  shows "canonicalize v = canonicalize w \<longleftrightarrow> norm_jsv v = norm_jsv w"
  using assms render_unique [of "norm_jsv v" "norm_jsv w" "[]" "[]"] by (auto simp: canonicalize_norm)

lemma sort_key_fst_unique:
  assumes "set ps = set qs" "distinct (map fst ps)" "distinct (map fst qs)"
  shows "sort_key fst ps = sort_key fst qs"
proof (rule map_sorted_distinct_set_unique [where f = fst])
  show "inj_on fst (set (sort_key fst ps) \<union> set (sort_key fst qs))"
    using assms by (simp add: distinct_map)
qed (use assms in \<open>simp_all add: distinct_map distinct_sort\<close>)

lemma canonicalize_key_order:
  assumes "set kvs = set kvs'" "distinct (map fst kvs)" "distinct (map fst kvs')"
  shows "canonicalize (JObj kvs) = canonicalize (JObj kvs')"
  by (simp add: sort_key_fst_unique [OF assms])

section \<open>No control character in a canonical text\<close>

lemma json_esc_printable: "\<forall>c \<in> set (json_esc d). 32 \<le> (of_char c :: nat)"
proof -
  have "32 \<le> (of_char (hex_digit k) :: nat)" if "k < 16" for k
    using that by (simp add: hex_digit_def of_char_of)
  moreover have "(of_char d :: nat) < 32 \<Longrightarrow> (of_char d :: nat) div 16 < 16" by simp
  ultimately show ?thesis by (auto simp: json_esc_def Let_def)
qed

lemma json_string_printable: "\<forall>c \<in> set (json_string s). 32 \<le> (of_char c :: nat)"
  using json_esc_printable by (auto simp: json_string_def)

lemma show_int_printable: "\<forall>c \<in> set (show_int i). 32 \<le> (of_char c :: nat)"
proof -
  have "\<forall>c \<in> set (show_nat n). 32 \<le> (of_char c :: nat)" for n
    using show_nat_digits [of n] by (auto simp: is_digit_def)
  then show ?thesis by (simp add: show_int_def)
qed

lemma join_with_set: "set (join_with sep ps) \<subseteq> set sep \<union> \<Union> (set ` set ps)"
  by (induction sep ps rule: join_with.induct) auto

lemma canonicalize_printable:
  "canon_safe v \<Longrightarrow> \<forall>c \<in> set (canonicalize v). 32 \<le> (of_char c :: nat)"
proof (induction v rule: canonicalize.induct)
  case (8 vs)
  then show ?case using join_with_set [of "'',''" "map canonicalize vs"] by fastforce
next
  case (9 kvs)
  let ?f = "\<lambda>(k, v). json_string k @ '':'' @ canonicalize v"
  have "\<forall>c \<in> set (?f p). 32 \<le> (of_char c :: nat)" if "p \<in> set kvs" for p
    using 9 that json_string_printable by (cases p) fastforce
  then show ?case using join_with_set [of "'',''" "map ?f (sort_key fst kvs)"] by fastforce
qed (auto simp: json_string_printable show_int_printable)

lemma canonicalize_no_nul: "canon_safe v \<Longrightarrow> CHR 0x00 \<notin> set (canonicalize v)"
  using canonicalize_printable by fastforce

end
