(* ===== verification/Contracts.thy ===== *)
theory Contracts
  imports Canonicalize
begin

text \<open>
  The data contracts of \<open>kernel/contracts/src\<close>: actors, events and their envelopes, tasks,
  runs and nodes, grants and decisions, claims and verifications, usage and budgets, models,
  tools, secrets and ownership records.  One record per interface, one datatype per string union;
  an optional property is an \<open>option\<close>.  Field names carry a prefix where two interfaces share a
  property name.  A zod schema is a parameter: its \<open>parse\<close> function.
\<close>

section \<open>Actors and events\<close>

datatype actor_kind = ActUser | ActSystem | ActAgent | ActTool

record actor =
  actor_kind :: actor_kind
  actor_id :: string

definition systemActor :: actor where
  "systemActor = \<lparr>actor_kind = ActSystem, actor_id = ''kernel''\<rparr>"

definition actorUser :: "string \<Rightarrow> actor" where
  "actorUser i = \<lparr>actor_kind = ActUser, actor_id = i\<rparr>"

definition actorAgent :: "string \<Rightarrow> actor" where
  "actorAgent i = \<lparr>actor_kind = ActAgent, actor_id = i\<rparr>"

definition actorTool :: "string \<Rightarrow> actor" where
  "actorTool i = \<lparr>actor_kind = ActTool, actor_id = i\<rparr>"

definition EVENT_TYPES :: "string list" where
  "EVENT_TYPES =
     [''RunCreated'', ''TaskCreated'', ''PlanGenerated'', ''NodeStarted'', ''ToolRequested'',
      ''ApprovalRequired'', ''ApprovalGranted'', ''ApprovalDenied'', ''ToolExecuted'',
      ''ArtifactCreated'', ''CommitCreated'', ''DeploymentStarted'', ''VerificationStarted'',
      ''VerificationPassed'', ''VerificationFailed'', ''TaskCompleted'', ''TaskFailed'']"

record evidence_ref =
  evidenceId :: string
  evidence_kind :: string

record ledger_event =
  le_id :: string
  le_seq :: nat
  le_timestamp :: string
  le_actor :: actor
  le_type :: string
  le_taskId :: string
  le_runId :: string
  le_payload :: jsv
  le_evidence :: "evidence_ref list option"
  le_prevHash :: "string option"
  le_hash :: string

record ledger_event_draft =
  ld_actor :: actor
  ld_type :: string
  ld_taskId :: string
  ld_runId :: string
  ld_payload :: jsv
  ld_evidence :: "evidence_ref list option"

section \<open>Primitives\<close>

record entity =
  entity_id :: string
  entity_type :: string
  entity_version :: int

record kernel_event =
  kev_id :: string
  kev_type :: string
  kev_entityId :: string
  kev_actorId :: string
  kev_timestamp :: int
  kev_payload :: jsv

datatype constraint_kind = CApproval | CRateLimit | CBudget | CTime | CDeny

record capability_constraint =
  cc_kind :: constraint_kind
  cc_value :: jsv

record capability_spec =
  cs_id :: string
  cs_action :: string
  cs_scope :: string
  cs_constraints :: "capability_constraint list"

datatype result_status = Success | Failure

record exec_result =
  res_status :: result_status
  res_output :: jsv
  res_evidence :: "evidence_ref list"

definition CAPABILITIES :: "string list" where
  "CAPABILITIES =
     [''repo.read'', ''repo.write'', ''git.commit'', ''git.push'', ''shell.execute'',
      ''network.http'', ''secret.read'', ''deployment.create'', ''deployment.delete'',
      ''browser.navigate'', ''fs.read'', ''fs.write'', ''db.query'']"

section \<open>Tasks, runs, nodes, jobs\<close>

datatype task_state =
    TS_PLANNED | TS_RUNNING | TS_WAITING_APPROVAL | TS_VERIFYING | TS_PAUSED | TS_COMPLETED
  | TS_FAILED | TS_CANCELLED

datatype run_state = RS_ACTIVE | RS_COMPLETED | RS_FAILED | RS_CANCELLED

datatype node_state =
    PN_PENDING | PN_SCHEDULED | PN_RUNNING | PN_WAITING_APPROVAL | PN_SUCCEEDED | PN_FAILED
  | PN_SKIPPED

datatype job_state = JB_QUEUED | JB_RUNNING | JB_SUCCEEDED | JB_FAILED | JB_TIMEOUT | JB_CANCELLED

datatype node_type =
    NT_RESEARCH | NT_CODE | NT_BROWSER | NT_TOOL | NT_REVIEW | NT_VERIFY | NT_APPROVE | NT_SUBTASK

record task =
  task_id :: string
  task_goal :: string
  task_state :: task_state
  task_createdBy :: actor
  task_createdAt :: string
  task_runIds :: "string list"

record run =
  run_id :: string
  run_taskId :: string
  run_attempt :: int
  run_state :: run_state
  run_createdBy :: actor
  run_createdAt :: string

text \<open>What the graph algorithms read of a node: its identifier and the nodes it depends on.
  \<open>PlanNode\<close> and the orchestrator's \<open>WorkflowNode\<close> extend it.\<close>

record dag_node =
  node_id :: string
  node_deps :: "string list"

record plan_node = dag_node +
  pn_runId :: string
  pn_type :: node_type
  pn_agentId :: "string option"
  pn_instructions :: string
  pn_toolIds :: "string list"
  pn_approvalRequired :: bool
  pn_state :: node_state

record job =
  job_id :: string
  job_nodeId :: string
  job_runId :: string
  job_toolId :: string
  job_state :: job_state
  job_inputHash :: string

datatype execution_status = EX_SUCCEEDED | EX_FAILED

record tool_execution =
  te_id :: string
  te_jobId :: string
  te_toolId :: string
  te_inputHash :: string
  te_outputHash :: "string option"
  te_status :: execution_status
  te_result :: "jsv option"
  te_startedAt :: string
  te_finishedAt :: "string option"

section \<open>Policy\<close>

datatype approval_requirement = Auto | Approval

datatype grant_effect = Allow | Deny

record grant =
  grant_id :: string
  grant_principal :: string
  grant_capability :: string
  grant_scope :: string
  grant_effect :: grant_effect

record policy_decision =
  pd_allowed :: bool
  pd_approvalRequired :: bool
  pd_reason :: string

type_synonym approval_policy = "(string, approval_requirement) js_map"

definition DEFAULT_APPROVAL_POLICY :: approval_policy where
  "DEFAULT_APPROVAL_POLICY =
     [(''repo.read'', Auto), (''repo.write'', Auto), (''git.commit'', Auto),
      (''git.push'', Approval), (''shell.execute'', Approval), (''network.http'', Auto),
      (''secret.read'', Approval), (''deployment.create'', Approval),
      (''deployment.delete'', Approval), (''browser.navigate'', Auto), (''fs.read'', Auto),
      (''fs.write'', Auto), (''db.query'', Approval)]"

section \<open>Claims and verification\<close>

datatype verdict = V_PENDING | V_PASSED | V_FAILED | V_UNKNOWN

record claim =
  claim_id :: string
  claim_statement :: string
  claim_taskId :: string
  claim_madeBy :: actor
  claim_at :: string

record verification_check =
  vc_id :: string
  vc_name :: string
  vc_verdict :: verdict
  vc_evidence :: "evidence_ref list option"
  vc_detail :: "string option"

record verification =
  ver_id :: string
  ver_target :: string
  ver_checks :: "verification_check list"
  ver_evidence :: "evidence_ref list"
  ver_verdict :: verdict

section \<open>Economics\<close>

datatype usage_resource =
    Execution_seconds | Tool_calls | Model_calls | Network_requests | Tokens | Runs

record usage_event =
  ue_resource :: usage_resource
  ue_amount :: int
  ue_at :: int
  ue_actorId :: string
  ue_runId :: string
  ue_note :: "string option"
  ue_tenantId :: "string option"
  ue_userId :: "string option"

type_synonym usage = "usage_resource \<Rightarrow> int"

record budget_policy =
  maxExecutionSeconds :: int
  maxToolCalls :: int
  maxModelCalls :: int
  maxNetworkRequests :: int
  maxTokens :: "int option"
  maxRuns :: "int option"
  maxEstimatedCostUsd :: "rat option"

datatype plan_id = Plan_free | Plan_byok

record usage_plan =
  plan_id :: plan_id
  plan_budget :: budget_policy
  plan_billingRequired :: bool

record quota_subject =
  qs_tenantId :: string
  qs_userId :: "string option"

record usage_increment =
  inc_resource :: usage_resource
  inc_amount :: int

record quota_decision =
  qd_allowed :: bool
  qd_reason :: string

section \<open>Models, tools, secrets, sandboxes, ownership\<close>

datatype task_type_hint =
    Planning | Coding | Review | Research | Summarization | Extraction | Vision | Embedding

datatype model_capability = MC_completion | MC_vision | MC_tool_use | MC_structured_output | MC_embedding

record model_info =
  model_id :: string
  model_providerId :: string
  contextWindow :: int
  maxOutputTokens :: int
  supportsTools :: bool
  supportsStructuredOutput :: bool
  costPer1kInputUsd :: rat
  costPer1kOutputUsd :: rat
  latencyMs :: rat
  model_capabilities :: "model_capability list"

record routing_requirement =
  rr_taskType :: task_type_hint
  rr_minContext :: "int option"
  rr_needsTools :: bool
  rr_needsStructuredOutput :: bool
  rr_maxCostPer1kInputUsd :: "rat option"
  rr_maxLatencyMs :: "rat option"
  rr_preferredProviders :: "string list option"

type_synonym schema = "jsv \<Rightarrow> js_error + jsv"

datatype side_effect = SE_none | SE_read | SE_write | SE_network | SE_shell | SE_deploy | SE_secret

datatype network_policy = NetNone | NetAllowlist "string list option"

record tool_contract =
  tool_id :: string
  tool_version :: string
  tool_description :: string
  tool_inputSchema :: schema
  tool_outputSchema :: schema
  tool_permissions :: "string list"
  tool_sideEffects :: "side_effect list"
  tool_networkPolicy :: network_policy
  tool_timeoutMs :: int

record tool_execution_context =
  tec_runId :: string
  tec_taskId :: string
  tec_jobId :: string
  tec_actor :: actor

record secret_ref =
  secret_id :: string
  secret_vault :: string
  secret_key :: string

record short_lived_credential =
  cred_value :: string
  cred_expiresAt :: string

datatype sandbox_network = SbNone | SbAllowlist | SbAll

record sandbox_limits =
  sb_fsRoot :: string
  sb_cpuMs :: "int option"
  sb_ramMb :: "int option"
  sb_timeoutMs :: int
  sb_maxProcesses :: "int option"
  sb_networkPolicy :: sandbox_network
  sb_networkDomains :: "string list option"

definition OWNERSHIP_EVENT_TYPES :: "string list" where
  "OWNERSHIP_EVENT_TYPES =
     [''ownership.project.created'', ''ownership.source.authored'',
      ''ownership.contribution.accepted'', ''ownership.license.declared'',
      ''ownership.release.signed'', ''ownership.artifact.attested'',
      ''ownership.plugin.registered'', ''ownership.transfer.recorded'']"

record genesis_record =
  gr_projectId :: string
  gr_name :: string
  gr_namespace :: string
  gr_primaryOwner :: string
  gr_repositoryOwner :: string
  gr_repository :: string
  gr_genesisCommit :: string
  gr_genesisTimestamp :: string
  gr_architectureGenesisCommit :: string
  gr_license :: string
  gr_genesisHash :: string

record artifact_attestation =
  aa_path :: string
  aa_sha256 :: string
  aa_sourceCommit :: string
  aa_sbomRef :: string
  aa_attestedAt :: string
  aa_evidence :: "evidence_ref list"

text \<open>Evidence as it is embedded in an event payload.\<close>

definition evidence_jsv :: "evidence_ref \<Rightarrow> jsv" where
  "evidence_jsv e = JObj [(''evidenceId'', JStr (evidenceId e)), (''kind'', JStr (evidence_kind e))]"

definition status_string :: "result_status \<Rightarrow> string" where
  "status_string s = (case s of Success \<Rightarrow> ''success'' | Failure \<Rightarrow> ''failure'')"

end
