(* ===== verification/Host.thy ===== *)
theory Host
  imports Contracts
begin

text \<open>
  What the code takes from its host: fresh identifiers (\<open>randomUUID()\<close>), the clock
  (\<open>Date.now()\<close>, \<open>new Date().toISOString()\<close>) and the hash function of \<open>node:crypto\<close>.  The
  first two are sequences of answers with the number of answers already consumed, so a model
  reads them in the order in which the code calls them; the hash function is a parameter
  \<open>sha\<close> of every definition that hashes.
\<close>

record host =
  uuid_of :: "nat \<Rightarrow> string"
  clock_of :: "nat \<Rightarrow> int"
  uuid_calls :: nat
  clock_calls :: nat

definition randomUUID :: "host \<Rightarrow> string \<times> host" where
  "randomUUID h = (uuid_of h (uuid_calls h), h\<lparr>uuid_calls := Suc (uuid_calls h)\<rparr>)"

definition date_now :: "host \<Rightarrow> int \<times> host" where
  "date_now h = (clock_of h (clock_calls h), h\<lparr>clock_calls := Suc (clock_calls h)\<rparr>)"

text \<open>\<open>Date.prototype.toISOString\<close> for the years 0 to 9999: the proleptic Gregorian date of an
  epoch time in milliseconds.\<close>

definition pad0 :: "nat \<Rightarrow> int \<Rightarrow> string" where
  "pad0 w n = (let s = show_int n in replicate (w - length s) (CHR ''0'') @ s)"

definition civil_from_days :: "int \<Rightarrow> int \<times> int \<times> int" where
  "civil_from_days days =
     (let z = days + 719468;
          era = z div 146097;
          doe = z - era * 146097;
          yoe = (doe - doe div 1460 + doe div 36524 - doe div 146096) div 365;
          doy = doe - (365 * yoe + yoe div 4 - yoe div 100);
          mp = (5 * doy + 2) div 153;
          d = doy - (153 * mp + 2) div 5 + 1;
          m = (if mp < 10 then mp + 3 else mp - 9);
          y = yoe + era * 400 + (if m \<le> 2 then 1 else 0)
      in (y, m, d))"

definition iso_string :: "int \<Rightarrow> string" where
  "iso_string ms =
     (let days = ms div 86400000; r = ms mod 86400000; (y, m, d) = civil_from_days days
      in pad0 4 y @ ''-'' @ pad0 2 m @ ''-'' @ pad0 2 d @ ''T'' @ pad0 2 (r div 3600000) @ '':'' @
         pad0 2 (r div 60000 mod 60) @ '':'' @ pad0 2 (r div 1000 mod 60) @ ''.'' @
         pad0 3 (r mod 1000) @ ''Z'')"

definition new_date_iso :: "host \<Rightarrow> string \<times> host" where
  "new_date_iso h = (case date_now h of (t, h') \<Rightarrow> (iso_string t, h'))"

text \<open>\<open>Math.round\<close>: ties go up.\<close>

definition math_round :: "rat \<Rightarrow> int" where
  "math_round x = \<lfloor>x + 1 / 2\<rfloor>"

lemma iso_string_epoch: "iso_string 0 = ''1970-01-01T00:00:00.000Z''"
  by code_simp

lemma iso_string_leap_day: "iso_string 951827696789 = ''2000-02-29T12:34:56.789Z''"
  by code_simp

lemma randomUUID_simps [simp]:
  "fst (randomUUID h) = uuid_of h (uuid_calls h)"
  "uuid_of (snd (randomUUID h)) = uuid_of h"
  "clock_of (snd (randomUUID h)) = clock_of h"
  "uuid_calls (snd (randomUUID h)) = Suc (uuid_calls h)"
  "clock_calls (snd (randomUUID h)) = clock_calls h"
  by (simp_all add: randomUUID_def)

lemma new_date_iso_simps [simp]:
  "uuid_of (snd (new_date_iso h)) = uuid_of h"
  "clock_of (snd (new_date_iso h)) = clock_of h"
  "uuid_calls (snd (new_date_iso h)) = uuid_calls h"
  "clock_calls (snd (new_date_iso h)) = Suc (clock_calls h)"
  by (simp_all add: new_date_iso_def date_now_def)

text \<open>A concrete host for the witnesses: identifiers \<open>u0, u1, \<dots>\<close>, a clock that ticks a second
  per reading.\<close>

definition demo_host :: host where
  "demo_host = \<lparr>uuid_of = (\<lambda>n. CHR ''u'' # show_nat n), clock_of = (\<lambda>n. 1000 * int n),
     uuid_calls = 0, clock_calls = 0\<rparr>"

end
