(* ===== verification/Ledger.thy ===== *)
theory Ledger
  imports Host
begin

text \<open>
  The append-only, hash-chained event ledger of \<open>kernel/events/src/ledger.ts\<close>: the event hash,
  the chain check, the Merkle root and the \<open>Ledger\<close> class, whose state is its array of events.
  The lemmas characterise the chain check exactly, show that appending keeps it, and reduce
  tampering with a payload to a collision of the hash function.
\<close>

section \<open>Event hash and chain check\<close>

definition hash_input :: "jsv \<Rightarrow> string option \<Rightarrow> string" where
  "hash_input payload prevHash =
     canonicalize payload @ [CHR 0x00] @ (case prevHash of None \<Rightarrow> [] | Some h \<Rightarrow> h)"

definition eventHash :: "(string \<Rightarrow> string) \<Rightarrow> jsv \<Rightarrow> string option \<Rightarrow> string" where
  "eventHash sha payload prevHash = sha (hash_input payload prevHash)"

record chain_verification =
  cv_valid :: bool
  cv_index :: "nat option"
  cv_expected :: "string option"
  cv_actual :: "string option"

definition cv_ok :: chain_verification where
  "cv_ok = \<lparr>cv_valid = True, cv_index = None, cv_expected = None, cv_actual = None\<rparr>"

definition hash_or_null :: "string option \<Rightarrow> string" where
  "hash_or_null p = (case p of None \<Rightarrow> ''(null)'' | Some h \<Rightarrow> h)"

text \<open>The loop of \<open>verifyChain\<close>, from index \<open>i\<close> with \<open>prev\<close> the hash of the event before.\<close>

fun verify_from :: "(string \<Rightarrow> string) \<Rightarrow> nat \<Rightarrow> string option \<Rightarrow> ledger_event list \<Rightarrow> chain_verification" where
  "verify_from sha i prev [] = cv_ok"
| "verify_from sha i prev (ev # evs) =
     (let expected = eventHash sha (le_payload ev) prev in
      if le_hash ev \<noteq> expected then
        \<lparr>cv_valid = False, cv_index = Some i, cv_expected = Some expected, cv_actual = Some (le_hash ev)\<rparr>
      else if le_prevHash ev \<noteq> prev then
        \<lparr>cv_valid = False, cv_index = Some i, cv_expected = Some (hash_or_null prev),
         cv_actual = Some (hash_or_null (le_prevHash ev))\<rparr>
      else verify_from sha (Suc i) (Some (le_hash ev)) evs)"

definition verifyChain :: "(string \<Rightarrow> string) \<Rightarrow> ledger_event list \<Rightarrow> chain_verification" where
  "verifyChain sha events = verify_from sha 0 None events"

section \<open>Merkle root\<close>

fun merkle_level :: "(string \<Rightarrow> string) \<Rightarrow> string list \<Rightarrow> string list" where
  "merkle_level sha [] = []"
| "merkle_level sha [left] = [sha (left @ left)]"
| "merkle_level sha (left # right # rest) = sha (left @ right) # merkle_level sha rest"

lemma length_merkle_level [simp]: "length (merkle_level sha xs) = (length xs + 1) div 2"
  by (induction sha xs rule: merkle_level.induct) auto

function merkle_loop :: "(string \<Rightarrow> string) \<Rightarrow> string list \<Rightarrow> string" where
  "merkle_loop sha level =
     (if 1 < length level then merkle_loop sha (merkle_level sha level) else hd level)"
  by pat_completeness auto
termination
  by (relation "measure (\<lambda>(sha, level). length level)") auto

declare merkle_loop.simps [simp del]

definition merkleRoot :: "(string \<Rightarrow> string) \<Rightarrow> ledger_event list \<Rightarrow> string" where
  "merkleRoot sha events = (if events = [] then [] else merkle_loop sha (map le_hash events))"

section \<open>The ledger\<close>

type_synonym ledger = "ledger_event list"

definition append_event ::
  "(string \<Rightarrow> string) \<Rightarrow> ledger_event_draft \<Rightarrow> host \<times> ledger \<Rightarrow> ledger_event \<times> host \<times> ledger" where
  "append_event sha draft = (\<lambda>(h, events).
     (let seq = length events;
          prevHash = (if events = [] then None else Some (le_hash (last events)));
          (uuid, h1) = randomUUID h;
          (now, h2) = new_date_iso h1;
          event = \<lparr>le_id = uuid, le_seq = seq, le_timestamp = now, le_actor = ld_actor draft,
            le_type = ld_type draft, le_taskId = ld_taskId draft, le_runId = ld_runId draft,
            le_payload = ld_payload draft, le_evidence = ld_evidence draft, le_prevHash = prevHash,
            le_hash = eventHash sha (ld_payload draft) prevHash\<rparr>
      in (event, h2, events @ [event])))"

definition ledger_at :: "ledger \<Rightarrow> nat \<Rightarrow> ledger_event option" where
  "ledger_at events seq = (if seq < length events then Some (events ! seq) else None)"

definition ledger_replay :: "ledger \<Rightarrow> ledger_event list" where
  "ledger_replay events = events"

definition verifyIntegrity :: "(string \<Rightarrow> string) \<Rightarrow> ledger \<Rightarrow> chain_verification" where
  "verifyIntegrity sha events = verifyChain sha events"

text \<open>A sequence of appends.\<close>

fun append_all ::
  "(string \<Rightarrow> string) \<Rightarrow> ledger_event_draft list \<Rightarrow> host \<times> ledger \<Rightarrow> host \<times> ledger" where
  "append_all sha [] s = s"
| "append_all sha (d # ds) s = append_all sha ds (snd (append_event sha d s))"

section \<open>The chain as a predicate\<close>

text \<open>The hash of the last event, the \<open>prev\<close> of the next one.\<close>

definition head_hash :: "string option \<Rightarrow> ledger_event list \<Rightarrow> string option" where
  "head_hash prev es = (if es = [] then prev else Some (le_hash (last es)))"

definition linked :: "(string \<Rightarrow> string) \<Rightarrow> string option \<Rightarrow> ledger_event \<Rightarrow> bool" where
  "linked sha prev e \<longleftrightarrow> le_hash e = eventHash sha (le_payload e) prev \<and> le_prevHash e = prev"

fun chain_ok :: "(string \<Rightarrow> string) \<Rightarrow> string option \<Rightarrow> ledger_event list \<Rightarrow> bool" where
  "chain_ok sha prev [] = True"
| "chain_ok sha prev (e # es) = (linked sha prev e \<and> chain_ok sha (Some (le_hash e)) es)"

lemma head_hash_simps [simp]:
  "head_hash prev [] = prev"
  "head_hash prev (es @ [e]) = Some (le_hash e)"
  by (simp_all add: head_hash_def)

lemma head_hash_Cons [simp]: "head_hash prev (e # es) = head_hash (Some (le_hash e)) es"
  by (simp add: head_hash_def)

lemma chain_ok_append:
  "chain_ok sha prev (es @ fs) \<longleftrightarrow> chain_ok sha prev es \<and> chain_ok sha (head_hash prev es) fs"
  by (induction es arbitrary: prev) auto

lemma verify_from_valid: "cv_valid (verify_from sha i prev es) \<longleftrightarrow> chain_ok sha prev es"
  by (induction es arbitrary: i prev) (auto simp: cv_ok_def linked_def Let_def)

lemma verifyChain_valid: "cv_valid (verifyChain sha es) \<longleftrightarrow> chain_ok sha None es"
  by (simp add: verifyChain_def verify_from_valid)

lemma chain_ok_nth:
  "chain_ok sha prev es \<longleftrightarrow> (\<forall>i < length es. linked sha (head_hash prev (take i es)) (es ! i))"
proof (induction es rule: rev_induct)
  case Nil
  then show ?case by simp
next
  case (snoc e es)
  have "(\<forall>i < length (es @ [e]). linked sha (head_hash prev (take i (es @ [e]))) ((es @ [e]) ! i))
      \<longleftrightarrow> (\<forall>i < length es. linked sha (head_hash prev (take i es)) (es ! i)) \<and>
          linked sha (head_hash prev es) e"
    by (auto simp: less_Suc_eq nth_append)
  then show ?case using snoc by (simp add: chain_ok_append)
qed

text \<open>The index a failed check reports is the first event that does not link.\<close>

lemma verify_from_index:
  "cv_index (verify_from sha i prev es) = Some j \<Longrightarrow>
    \<exists>us e vs. es = us @ e # vs \<and> j = i + length us \<and> chain_ok sha prev us \<and>
      \<not> linked sha (head_hash prev us) e"
proof (induction es arbitrary: i prev)
  case Nil
  then show ?case by (simp add: cv_ok_def)
next
  case (Cons a es)
  show ?case
  proof (cases "linked sha prev a")
    case True
    then have "cv_index (verify_from sha (Suc i) (Some (le_hash a)) es) = Some j"
      using Cons.prems by (simp add: linked_def Let_def)
    from Cons.IH [OF this] obtain us e vs where
      "es = us @ e # vs" "j = Suc i + length us" "chain_ok sha (Some (le_hash a)) us"
      "\<not> linked sha (head_hash (Some (le_hash a)) us) e" by blast
    then have "a # es = (a # us) @ e # vs \<and> j = i + length (a # us) \<and> chain_ok sha prev (a # us) \<and>
        \<not> linked sha (head_hash prev (a # us)) e"
      using True by simp
    then show ?thesis by blast
  next
    case False
    then have "j = i" using Cons.prems by (auto simp: linked_def Let_def split: if_splits)
    then have "a # es = [] @ a # es \<and> j = i + length [] \<and> chain_ok sha prev [] \<and>
        \<not> linked sha (head_hash prev []) a"
      using False by simp
    then show ?thesis by blast
  qed
qed

lemma verify_from_index_None: "cv_index (verify_from sha i prev es) = None \<longleftrightarrow> chain_ok sha prev es"
  by (induction es arbitrary: i prev) (auto simp: cv_ok_def linked_def Let_def)

section \<open>Appending keeps the chain\<close>

definition ledger_wf :: "(string \<Rightarrow> string) \<Rightarrow> ledger \<Rightarrow> bool" where
  "ledger_wf sha es \<longleftrightarrow> chain_ok sha None es \<and> (\<forall>i < length es. le_seq (es ! i) = i)"

inductive ledger_reach :: "(string \<Rightarrow> string) \<Rightarrow> ledger \<Rightarrow> bool" for sha where
  empty: "ledger_reach sha []"
| append: "ledger_reach sha es \<Longrightarrow> ledger_reach sha (snd (snd (append_event sha d (h, es))))"

definition draft_of :: "ledger_event \<Rightarrow> ledger_event_draft" where
  "draft_of e = \<lparr>ld_actor = le_actor e, ld_type = le_type e, ld_taskId = le_taskId e,
     ld_runId = le_runId e, ld_payload = le_payload e, ld_evidence = le_evidence e\<rparr>"

lemma append_event_shape:
  "\<exists>e. append_event sha d (h, es) = (e, snd (new_date_iso (snd (randomUUID h))), es @ [e]) \<and>
     linked sha (head_hash None es) e \<and> le_seq e = length es \<and> draft_of e = d"
  by (auto simp: append_event_def head_hash_def linked_def draft_of_def Let_def case_prod_beta)

lemma append_event_ledger [simp]:
  "snd (snd (append_event sha d s)) = snd s @ [fst (append_event sha d s)]"
  using append_event_shape [of sha d "fst s" "snd s"] by auto

lemma append_event_linked [simp]:
  "linked sha (head_hash None (snd s)) (fst (append_event sha d s))"
  "le_seq (fst (append_event sha d s)) = length (snd s)"
  "draft_of (fst (append_event sha d s)) = d"
  using append_event_shape [of sha d "fst s" "snd s"] by auto

lemma append_event_fields [simp]:
  "le_payload (fst (append_event sha d s)) = ld_payload d"
  "le_type (fst (append_event sha d s)) = ld_type d"
  "le_runId (fst (append_event sha d s)) = ld_runId d"
  "le_taskId (fst (append_event sha d s)) = ld_taskId d"
  "le_actor (fst (append_event sha d s)) = ld_actor d"
  "le_evidence (fst (append_event sha d s)) = ld_evidence d"
  by (cases s; simp add: append_event_def Let_def case_prod_beta)+

lemma append_event_wf: "ledger_wf sha (snd s) \<Longrightarrow> ledger_wf sha (snd (snd (append_event sha d s)))"
  by (auto simp: ledger_wf_def chain_ok_append nth_append less_Suc_eq)

lemma append_event_host:
  "uuid_of (fst (snd (append_event sha d s))) = uuid_of (fst s)"
  "clock_of (fst (snd (append_event sha d s))) = clock_of (fst s)"
  using append_event_shape [of sha d "fst s" "snd s"] by auto

lemma ledger_reach_wf: "ledger_reach sha es \<Longrightarrow> ledger_wf sha es"
proof (induction rule: ledger_reach.induct)
  case empty
  then show ?case by (simp add: ledger_wf_def)
next
  case (append es d h)
  then show ?case using append_event_wf [of sha "(h, es)" d] by simp
qed

lemma ledger_reach_append_all:
  "ledger_reach sha (snd s) \<Longrightarrow> ledger_reach sha (snd (append_all sha ds s))"
proof (induction ds arbitrary: s)
  case Nil
  then show ?case by simp
next
  case (Cons d ds)
  have "ledger_reach sha (snd (snd (append_event sha d s)))"
    using ledger_reach.append [OF Cons.prems, of d "fst s"] by simp
  then show ?case using Cons.IH by simp
qed

lemma append_all_drafts: "map draft_of (snd (append_all sha ds s)) = map draft_of (snd s) @ ds"
  by (induction ds arbitrary: s) auto

lemma append_all_prefix: "\<exists>fs. snd (append_all sha ds s) = snd s @ fs \<and> length fs = length ds"
proof (induction ds arbitrary: s)
  case Nil
  then show ?case by simp
next
  case (Cons d ds)
  obtain fs where "snd (append_all sha ds (snd (append_event sha d s)))
      = snd (snd (append_event sha d s)) @ fs" "length fs = length ds"
    using Cons.IH by blast
  then show ?case by (auto intro!: exI [of _ "fst (append_event sha d s) # fs"])
qed

section \<open>Tampering reduces to a collision\<close>

text \<open>The inputs the chain hashes, in order.\<close>

fun chain_inputs :: "string option \<Rightarrow> ledger_event list \<Rightarrow> string list" where
  "chain_inputs prev [] = []"
| "chain_inputs prev (e # es) = hash_input (le_payload e) prev # chain_inputs (Some (le_hash e)) es"

definition collision :: "(string \<Rightarrow> string) \<Rightarrow> string list \<Rightarrow> string list \<Rightarrow> bool" where
  "collision sha xs ys \<longleftrightarrow> (\<exists>x \<in> set xs. \<exists>y \<in> set ys. x \<noteq> y \<and> sha x = sha y)"

lemma chain_inputs_append:
  "chain_inputs prev (es @ [e]) = chain_inputs prev es @ [hash_input (le_payload e) (head_hash prev es)]"
  by (induction es arbitrary: prev) (auto simp: head_hash_def)

lemma collision_mono:
  "collision sha xs ys \<Longrightarrow> set xs \<subseteq> set xs' \<Longrightarrow> set ys \<subseteq> set ys' \<Longrightarrow> collision sha xs' ys'"
  by (auto simp: collision_def)

lemma collisionI: "x \<in> set xs \<Longrightarrow> y \<in> set ys \<Longrightarrow> x \<noteq> y \<Longrightarrow> sha x = sha y \<Longrightarrow> collision sha xs ys"
  by (auto simp: collision_def)

lemma hash_input_inj:
  assumes "canon_safe p" "canon_safe q" "hash_input p a = hash_input q b"
  shows "norm_jsv p = norm_jsv q \<and> (case a of None \<Rightarrow> [] | Some h \<Rightarrow> h) = (case b of None \<Rightarrow> [] | Some h \<Rightarrow> h)"
proof -
  have nul: "\<forall>c \<in> set (canonicalize v). c \<noteq> CHR 0x00" if "canon_safe v" for v
    using canonicalize_no_nul [OF that] by auto
  have "canonicalize p = canonicalize q \<and>
      CHR 0x00 # (case a of None \<Rightarrow> [] | Some h \<Rightarrow> h) = CHR 0x00 # (case b of None \<Rightarrow> [] | Some h \<Rightarrow> h)"
    by (rule span_unique [where P = "\<lambda>c. c \<noteq> CHR 0x00"])
      (use nul assms in \<open>auto simp: hash_input_def\<close>)
  then show ?thesis using canonicalize_eq_iff_norm assms by simp
qed

definition norm_payloads :: "ledger_event list \<Rightarrow> jsv list" where
  "norm_payloads es = map (\<lambda>e. norm_jsv (le_payload e)) es"

lemma chains_with_same_head:
  assumes ne: "\<And>x. sha x \<noteq> []"
  shows "chain_ok sha None es \<Longrightarrow> chain_ok sha None fs \<Longrightarrow>
    \<forall>e \<in> set es \<union> set fs. canon_safe (le_payload e) \<Longrightarrow> head_hash None es = head_hash None fs \<Longrightarrow>
    norm_payloads es = norm_payloads fs \<or> collision sha (chain_inputs None es) (chain_inputs None fs)"
proof (induction es arbitrary: fs rule: rev_induct)
  case Nil
  then show ?case by (cases fs rule: rev_cases) (auto simp: norm_payloads_def)
next
  case (snoc e es)
  obtain f fs' where fs: "fs = fs' @ [f]"
    using snoc.prems(4) by (cases fs rule: rev_cases) auto
  let ?x = "hash_input (le_payload e) (head_hash None es)"
  let ?y = "hash_input (le_payload f) (head_hash None fs')"
  have le: "le_hash e = sha ?x" "le_hash f = sha ?y" "le_hash e = le_hash f"
    using snoc.prems fs by (auto simp: chain_ok_append linked_def eventHash_def)
  show ?case
  proof (cases "?x = ?y")
    case False
    then have "collision sha (chain_inputs None (es @ [e])) (chain_inputs None fs)"
      using le fs by (intro collisionI [of ?x _ ?y]) (auto simp: chain_inputs_append)
    then show ?thesis by simp
  next
    case True
    then have eq: "norm_jsv (le_payload e) = norm_jsv (le_payload f)"
      "(case head_hash None es of None \<Rightarrow> [] | Some h \<Rightarrow> h) =
       (case head_hash None fs' of None \<Rightarrow> [] | Some h \<Rightarrow> h)"
      using hash_input_inj [of "le_payload e" "le_payload f"] snoc.prems(3) fs by auto
    have nonempty: "le_hash g \<noteq> []" if "chain_ok sha None (gs @ [g])" for gs g
      using that ne by (simp add: chain_ok_append linked_def eventHash_def)
    have "head_hash None es = head_hash None fs'"
      using eq(2) nonempty snoc.prems(1,2) fs
      by (cases es rule: rev_cases; cases fs' rule: rev_cases)
        (auto simp: chain_ok_append linked_def eventHash_def ne ne [THEN not_sym])
    moreover have "chain_ok sha None es" "chain_ok sha None fs'"
      "\<forall>e \<in> set es \<union> set fs'. canon_safe (le_payload e)"
      using snoc.prems fs by (auto simp: chain_ok_append)
    ultimately have "norm_payloads es = norm_payloads fs' \<or>
        collision sha (chain_inputs None es) (chain_inputs None fs')"
      by (intro snoc.IH)
    then show ?thesis
    proof
      assume "norm_payloads es = norm_payloads fs'"
      then show ?thesis using eq(1) fs by (simp add: norm_payloads_def)
    next
      assume "collision sha (chain_inputs None es) (chain_inputs None fs')"
      then have "collision sha (chain_inputs None (es @ [e])) (chain_inputs None fs)"
        by (rule collision_mono) (auto simp: chain_inputs_append fs)
      then show ?thesis by simp
    qed
  qed
qed

section \<open>What the chain does not cover\<close>

text \<open>Replacing every field but the payload and the two hashes of an event.\<close>

definition same_hashed_fields :: "ledger_event \<Rightarrow> ledger_event \<Rightarrow> bool" where
  "same_hashed_fields e f \<longleftrightarrow>
     le_payload f = le_payload e \<and> le_prevHash f = le_prevHash e \<and> le_hash f = le_hash e"

lemma chain_ok_same_hashed_fields:
  "list_all2 same_hashed_fields es fs \<Longrightarrow> chain_ok sha prev fs = chain_ok sha prev es"
  by (induction arbitrary: prev rule: list_all2_induct) (auto simp: same_hashed_fields_def linked_def)

section \<open>Merkle root\<close>

text \<open>One level binds the level below when the hashes have one length.\<close>

fun merkle_pairs :: "string list \<Rightarrow> string list" where
  "merkle_pairs [] = []"
| "merkle_pairs [left] = [left @ left]"
| "merkle_pairs (left # right # rest) = (left @ right) # merkle_pairs rest"

lemma merkle_level_pairs: "merkle_level sha xs = map sha (merkle_pairs xs)"
  by (induction xs rule: merkle_pairs.induct) auto

lemma merkle_pairs_inj:
  "length xs = length ys \<Longrightarrow> \<forall>x \<in> set xs \<union> set ys. length x = n \<Longrightarrow>
    merkle_pairs xs = merkle_pairs ys \<Longrightarrow> xs = ys"
proof (induction xs arbitrary: ys rule: merkle_pairs.induct)
  case 1
  then show ?case by simp
next
  case (2 a)
  then show ?case by (cases ys) auto
next
  case (3 a b rest)
  then obtain c d rest' where ys: "ys = c # d # rest'"
    by (cases ys; cases "tl ys") auto
  with 3 show ?case by (simp add: append_eq_append_conv)
qed

lemma merkle_pairs_twin: "even (length xs) \<Longrightarrow> merkle_pairs (xs @ [x]) = merkle_pairs (xs @ [x, x])"
  by (induction xs rule: merkle_pairs.induct) auto

lemma map_hash_eq:
  "map sha xs = map sha ys \<Longrightarrow> xs = ys \<or> collision sha xs ys"
proof (induction xs arbitrary: ys)
  case Nil
  then show ?case by simp
next
  case (Cons x xs)
  then obtain y ys' where ys: "ys = y # ys'" by (cases ys) auto
  show ?case
  proof (cases "x = y")
    case True
    then show ?thesis using Cons ys by (auto simp: collision_def)
  next
    case False
    then show ?thesis using Cons.prems ys by (auto intro: collisionI)
  qed
qed

text \<open>The inputs of the hash function while the root is computed.\<close>

function merkle_inputs :: "(string \<Rightarrow> string) \<Rightarrow> string list \<Rightarrow> string list" where
  "merkle_inputs sha level =
     (if 1 < length level then merkle_pairs level @ merkle_inputs sha (merkle_level sha level) else [])"
  by pat_completeness auto
termination
  by (relation "measure (\<lambda>(sha, level). length level)") auto

declare merkle_inputs.simps [simp del]

lemma merkle_loop_binding:
  "length xs = length ys \<Longrightarrow> xs \<noteq> [] \<Longrightarrow> \<forall>x \<in> set xs \<union> set ys. length x = n \<Longrightarrow>
    \<forall>x. length (sha x) = n \<Longrightarrow> merkle_loop sha xs = merkle_loop sha ys \<Longrightarrow>
    xs = ys \<or> collision sha (merkle_inputs sha xs) (merkle_inputs sha ys)"
proof (induction sha xs arbitrary: ys rule: merkle_inputs.induct)
  case (1 sha xs)
  show ?case
  proof (cases "1 < length xs")
    case False
    then show ?thesis using "1.prems" by (cases xs; cases ys) (auto simp: merkle_loop.simps)
  next
    case True
    let ?xs = "merkle_level sha xs" and ?ys = "merkle_level sha ys"
    have "?xs = ?ys \<or> collision sha (merkle_inputs sha ?xs) (merkle_inputs sha ?ys)"
    proof (rule "1.IH" [OF True])
      show "length ?xs = length ?ys" using "1.prems"(1) by simp
      show "?xs \<noteq> []" using True by (cases xs; cases "tl xs") auto
      show "\<forall>x \<in> set ?xs \<union> set ?ys. length x = n" using "1.prems"(4) by (auto simp: merkle_level_pairs)
      show "merkle_loop sha ?xs = merkle_loop sha ?ys"
        using "1.prems" True by (simp add: merkle_loop.simps [of sha xs] merkle_loop.simps [of sha ys])
    qed (use "1.prems" in auto)
    then show ?thesis
    proof
      assume "?xs = ?ys"
      then have "merkle_pairs xs = merkle_pairs ys \<or> collision sha (merkle_pairs xs) (merkle_pairs ys)"
        by (simp add: merkle_level_pairs map_hash_eq)
      then show ?thesis
        using merkle_pairs_inj "1.prems" True
        by (auto simp: merkle_inputs.simps [of sha xs] merkle_inputs.simps [of sha ys] collision_def)
    next
      assume "collision sha (merkle_inputs sha ?xs) (merkle_inputs sha ?ys)"
      then show ?thesis using "1.prems"(1) True
        by (auto simp: merkle_inputs.simps [of sha xs] merkle_inputs.simps [of sha ys] collision_def)
    qed
  qed
qed

section \<open>Properties\<close>

lemma verify_from_ok: "chain_ok sha prev es \<Longrightarrow> verify_from sha i prev es = cv_ok"
  by (induction es arbitrary: i prev) (auto simp: linked_def Let_def)

lemma append_all_wf: "ledger_wf sha (snd s) \<Longrightarrow> ledger_wf sha (snd (append_all sha ds s))"
proof (induction ds arbitrary: s)
  case Nil
  then show ?case by simp
next
  case (Cons d ds)
  then show ?case using append_event_wf [of sha s d] by simp
qed

text \<open>C11.  Whatever drafts are appended to an empty ledger, in whatever environment, the ledger
  passes its integrity check, holds exactly those drafts in order, and numbers them from 0.\<close>

theorem appended_ledger_verifies:
  "verifyIntegrity sha (snd (append_all sha ds (h, []))) = cv_ok \<and>
   map draft_of (ledger_replay (snd (append_all sha ds (h, [])))) = ds \<and>
   map le_seq (ledger_replay (snd (append_all sha ds (h, [])))) = [0..<length ds]"
proof -
  let ?es = "snd (append_all sha ds (h, []))"
  have wf: "ledger_wf sha ?es"
    using append_all_wf [of sha "(h, [])" ds] by (simp add: ledger_wf_def)
  have drafts: "map draft_of ?es = ds" using append_all_drafts [of sha ds "(h, [])"] by simp
  then have "length ?es = length ds" by (metis length_map)
  then have "map le_seq ?es = [0..<length ds]"
    using wf by (intro nth_equalityI) (auto simp: ledger_wf_def)
  with wf drafts show ?thesis
    by (simp add: ledger_wf_def verifyIntegrity_def verifyChain_def verify_from_ok ledger_replay_def)
qed

text \<open>C36.  Tamper evidence.  Two ledgers that both pass the chain check and end in the same hash
  carry the same payloads (up to the order of object keys), or the hash function collides on two
  inputs the two ledgers hash.  The payloads are JSON data or \<open>undefined\<close> (\<open>canon_safe\<close>).\<close>

theorem same_head_same_payloads:
  assumes "\<And>x. sha x \<noteq> []"
    and "cv_valid (verifyChain sha es)" "cv_valid (verifyChain sha fs)"
    and "\<forall>e \<in> set es \<union> set fs. canon_safe (le_payload e)"
    and "head_hash None es = head_hash None fs"
  shows "norm_payloads es = norm_payloads fs \<or>
    collision sha (chain_inputs None es) (chain_inputs None fs)"
  using assms by (intro chains_with_same_head) (auto simp: verifyChain_valid)

definition demo_sha :: "string \<Rightarrow> string" where
  "demo_sha x = ''h'' @ x"

definition demo_draft :: "string \<Rightarrow> jsv \<Rightarrow> ledger_event_draft" where
  "demo_draft t v = \<lparr>ld_actor = systemActor, ld_type = t, ld_taskId = ''t'', ld_runId = ''r'',
     ld_payload = v, ld_evidence = None\<rparr>"

definition demo_events :: "jsv list \<Rightarrow> ledger_event list" where
  "demo_events vs = snd (append_all demo_sha (map (demo_draft ''RunCreated'') vs) (demo_host, []))"

definition demo_obj1 :: jsv where
  "demo_obj1 = JObj [(''a'', JBool True), (''b'', JNull)]"

definition demo_obj2 :: jsv where
  "demo_obj2 = JObj [(''b'', JNull), (''a'', JBool True)]"

lemma demo_obj_canonical: "canonicalize demo_obj1 = canonicalize demo_obj2"
  by code_simp

theorem same_head_same_payloads_witness:
  "norm_payloads (demo_events [demo_obj1, JStr ''x'']) = norm_payloads (demo_events [demo_obj2, JStr ''x'']) \<or>
   collision demo_sha (chain_inputs None (demo_events [demo_obj1, JStr ''x'']))
     (chain_inputs None (demo_events [demo_obj2, JStr ''x'']))"
proof (rule same_head_same_payloads)
  show "demo_sha x \<noteq> []" for x by (simp add: demo_sha_def)
  have "cv_valid (verifyChain demo_sha (demo_events vs))" for vs
    using append_all_wf [of demo_sha "(demo_host, [])" "map (demo_draft ''RunCreated'') vs"]
    by (simp add: ledger_wf_def verifyChain_valid demo_events_def)
  then show "cv_valid (verifyChain demo_sha (demo_events [demo_obj1, JStr ''x'']))"
    "cv_valid (verifyChain demo_sha (demo_events [demo_obj2, JStr ''x'']))" by auto
  show "\<forall>e \<in> set (demo_events [demo_obj1, JStr ''x'']) \<union> set (demo_events [demo_obj2, JStr ''x'']).
      canon_safe (le_payload e)"
    by (simp add: demo_events_def append_event_def Let_def case_prod_beta demo_draft_def demo_obj1_def
        demo_obj2_def)
  show "head_hash None (demo_events [demo_obj1, JStr ''x'']) = head_hash None (demo_events [demo_obj2, JStr ''x''])"
    by (simp add: demo_events_def append_event_def Let_def case_prod_beta demo_draft_def eventHash_def
        hash_input_def demo_obj_canonical head_hash_def)
qed

text \<open>C33.  The chain check is exact: it fails at the first event whose hash or whose link to its
  predecessor is wrong, and passes when there is none.\<close>

theorem verifyChain_first_bad:
  "case cv_index (verifyChain sha es) of
     None \<Rightarrow> cv_valid (verifyChain sha es) \<and> chain_ok sha None es
   | Some i \<Rightarrow> \<not> cv_valid (verifyChain sha es) \<and> i < length es \<and> chain_ok sha None (take i es) \<and>
       \<not> linked sha (head_hash None (take i es)) (es ! i)"
proof (cases "cv_index (verifyChain sha es)")
  case None
  then have "chain_ok sha None es" by (simp add: verifyChain_def verify_from_index_None)
  then show ?thesis using None by (simp add: verifyChain_valid)
next
  case (Some i)
  then obtain us e vs where w: "es = us @ e # vs" "i = length us" "chain_ok sha None us"
      "\<not> linked sha (head_hash None us) e"
    using verify_from_index [of sha 0 None es i] by (auto simp: verifyChain_def)
  have "\<not> cv_valid (verifyChain sha es)"
    using w by (simp add: verifyChain_valid chain_ok_append)
  then show ?thesis using Some w by simp
qed

lemma verify_from_same_hashed_fields:
  "list_all2 same_hashed_fields es fs \<Longrightarrow> verify_from sha i prev fs = verify_from sha i prev es"
  by (induction arbitrary: i prev rule: list_all2_induct) (auto simp: same_hashed_fields_def Let_def)

text \<open>The chain covers payloads only: rewriting the actor, type, time, task, run, evidence,
  identifier and sequence number of any event leaves the result of the check unchanged.\<close>

theorem chain_ignores_metadata:
  "verifyChain sha (es[i := (es ! i)\<lparr>le_id := u, le_seq := n, le_timestamp := tm, le_actor := a,
      le_type := t, le_taskId := k, le_runId := r, le_evidence := ev\<rparr>]) = verifyChain sha es"
  unfolding verifyChain_def
proof (rule verify_from_same_hashed_fields, rule list_all2_all_nthI)
  show "length es = length (es[i := (es ! i)\<lparr>le_id := u, le_seq := n, le_timestamp := tm,
      le_actor := a, le_type := t, le_taskId := k, le_runId := r, le_evidence := ev\<rparr>])" by simp
next
  fix m assume m: "m < length es"
  show "same_hashed_fields (es ! m) (es[i := (es ! i)\<lparr>le_id := u, le_seq := n, le_timestamp := tm,
      le_actor := a, le_type := t, le_taskId := k, le_runId := r, le_evidence := ev\<rparr>] ! m)"
    by (cases "i = m") (use m in \<open>simp_all add: same_hashed_fields_def\<close>)
qed

text \<open>The Merkle root binds the event hashes of two ledgers of the same length, or the hash
  function collides on two inputs of the two computations.\<close>

theorem merkleRoot_binds:
  assumes "\<forall>x. length (sha x) = n"
    and "length es = length fs" "es \<noteq> []"
    and "\<forall>e \<in> set es \<union> set fs. length (le_hash e) = n"
    and "merkleRoot sha es = merkleRoot sha fs"
  shows "map le_hash es = map le_hash fs \<or>
    collision sha (merkle_inputs sha (map le_hash es)) (merkle_inputs sha (map le_hash fs))"
proof (rule merkle_loop_binding)
  have "fs \<noteq> []" using assms(2,3) by auto
  then show "merkle_loop sha (map le_hash es) = merkle_loop sha (map le_hash fs)"
    using assms(3,5) by (simp add: merkleRoot_def)
qed (use assms in auto)

definition demo_digest :: "string \<Rightarrow> string" where
  "demo_digest x = [if x = [] then CHR ''0'' else last x]"

theorem merkleRoot_binds_witness:
  "map le_hash (snd (append_all demo_digest [demo_draft ''TaskCreated'' JNull] (demo_host, []))) =
   map le_hash (snd (append_all demo_digest [demo_draft ''TaskFailed'' JNull] (demo_host, []))) \<or>
   collision demo_digest
     (merkle_inputs demo_digest
       (map le_hash (snd (append_all demo_digest [demo_draft ''TaskCreated'' JNull] (demo_host, [])))))
     (merkle_inputs demo_digest
       (map le_hash (snd (append_all demo_digest [demo_draft ''TaskFailed'' JNull] (demo_host, [])))))"
proof (rule merkleRoot_binds [where n = 1])
  show "merkleRoot demo_digest (snd (append_all demo_digest [demo_draft ''TaskCreated'' JNull] (demo_host, []))) =
      merkleRoot demo_digest (snd (append_all demo_digest [demo_draft ''TaskFailed'' JNull] (demo_host, [])))"
    by (simp add: append_event_def Let_def case_prod_beta demo_draft_def merkleRoot_def merkle_loop.simps)
qed (simp_all add: demo_digest_def append_event_def Let_def case_prod_beta eventHash_def)

text \<open>Without the length the root does not bind: an odd level duplicates its last hash.\<close>

lemma merkleRoot_twin:
  assumes "even (length es)" "es \<noteq> []"
  shows "merkleRoot sha (es @ [e]) = merkleRoot sha (es @ [e, e])"
  using assms merkle_pairs_twin [of "map le_hash es" "le_hash e"]
  by (cases es)
    (auto simp: merkleRoot_def merkle_loop.simps [of _ "_ # _"] merkle_level_pairs)

end
