(* ===== verification/Provenance.thy ===== *)
theory Provenance
  imports Ledger
begin

text \<open>
  Provenance: genesis records, artifact attestations and the ownership ledger of
  \<open>kernel/provenance/src\<close>.  A genesis record that verifies pins its six identity parts up to a
  collision of the hash function; the ownership ledger is a ledger of the kernel, so its chain
  always verifies.
\<close>

section \<open>Genesis records\<close>

definition genesis_canonical :: "string list \<Rightarrow> string" where
  "genesis_canonical parts = ''['' @ join_with '','' (map json_string parts) @ '']''"

definition computeGenesisHash ::
  "(string \<Rightarrow> string) \<Rightarrow> string \<Rightarrow> string \<Rightarrow> string \<Rightarrow> string \<Rightarrow> string \<Rightarrow> string \<Rightarrow> string" where
  "computeGenesisHash sha projectId name namespace primaryOwner repositoryOwner genesisCommit =
     sha (genesis_canonical [projectId, name, namespace, primaryOwner, repositoryOwner, genesisCommit])"

text \<open>The pair is \<open>{ valid, expected }\<close>.\<close>

definition verifyGenesis :: "(string \<Rightarrow> string) \<Rightarrow> genesis_record \<Rightarrow> bool \<times> string" where
  "verifyGenesis sha record =
     (let expected = computeGenesisHash sha (gr_projectId record) (gr_name record) (gr_namespace record)
            (gr_primaryOwner record) (gr_repositoryOwner record) (gr_genesisCommit record)
      in (gr_genesisHash record = expected, expected))"

definition genesis_fields :: "genesis_record \<Rightarrow> string list" where
  "genesis_fields r = [gr_projectId r, gr_name r, gr_namespace r, gr_primaryOwner r,
     gr_repositoryOwner r, gr_genesisCommit r]"

lemma genesis_canonical_eq: "genesis_canonical parts = canonicalize (JArr (map JStr parts))"
  by (simp add: genesis_canonical_def comp_def)

lemma genesis_canonical_inj: "genesis_canonical xs = genesis_canonical ys \<Longrightarrow> xs = ys"
proof -
  assume "genesis_canonical xs = genesis_canonical ys"
  then have "norm_jsv (JArr (map JStr xs)) = norm_jsv (JArr (map JStr ys))"
    using canonicalize_eq_iff_norm [of "JArr (map JStr xs)" "JArr (map JStr ys)"]
    by (simp add: genesis_canonical_eq)
  then have "map JStr xs = map JStr ys" by (simp add: comp_def)
  then show ?thesis by (simp add: inj_map_eq_map inj_def)
qed

section \<open>Attestations\<close>

definition attestArtifact ::
  "(string \<Rightarrow> string) \<Rightarrow> string \<Rightarrow> string \<Rightarrow> string \<Rightarrow> string \<Rightarrow> string option \<Rightarrow> host \<Rightarrow> artifact_attestation \<times> host" where
  "attestArtifact sha path content sourceCommit sbomRef attestedAt h =
     (let (atTime, h') = (case attestedAt of Some t \<Rightarrow> (t, h) | None \<Rightarrow> new_date_iso h) in
      (\<lparr>aa_path = path, aa_sha256 = sha content, aa_sourceCommit = sourceCommit, aa_sbomRef = sbomRef,
        aa_attestedAt = atTime,
        aa_evidence = [\<lparr>evidenceId = ''attestation:'' @ path, evidence_kind = ''artifact''\<rparr>]\<rparr>, h'))"

section \<open>The ownership ledger\<close>

definition ownership_draft :: "string \<Rightarrow> jsv \<Rightarrow> string option \<Rightarrow> string option \<Rightarrow> ledger_event_draft" where
  "ownership_draft type payload runId taskId =
     \<lparr>ld_actor = systemActor, ld_type = type,
      ld_taskId = (case taskId of None \<Rightarrow> ''ownership'' | Some t \<Rightarrow> t),
      ld_runId = (case runId of None \<Rightarrow> ''ownership'' | Some r \<Rightarrow> r),
      ld_payload = payload, ld_evidence = None\<rparr>"

definition ownership_append ::
  "(string \<Rightarrow> string) \<Rightarrow> string \<Rightarrow> jsv \<Rightarrow> string option \<Rightarrow> string option \<Rightarrow> host \<times> ledger \<Rightarrow> ledger_event \<times> host \<times> ledger" where
  "ownership_append sha type payload runId taskId s =
     append_event sha (ownership_draft type payload runId taskId) s"

definition ownership_events :: "ledger \<Rightarrow> ledger_event list" where
  "ownership_events l = l"

definition ownership_verifyIntegrity :: "(string \<Rightarrow> string) \<Rightarrow> ledger \<Rightarrow> chain_verification" where
  "ownership_verifyIntegrity sha l = verifyIntegrity sha l"

section \<open>Properties\<close>

text \<open>Two genesis records that verify and carry the same genesis hash agree on the project, its
  name, namespace, owners and genesis commit, or the hash function collides on their canonical
  forms.\<close>

theorem genesis_hash_pins_identity:
  assumes "fst (verifyGenesis sha r1)" "fst (verifyGenesis sha r2)" "gr_genesisHash r1 = gr_genesisHash r2"
  shows "genesis_fields r1 = genesis_fields r2 \<or>
    collision sha [genesis_canonical (genesis_fields r1)] [genesis_canonical (genesis_fields r2)]"
proof -
  have "sha (genesis_canonical (genesis_fields r1)) = sha (genesis_canonical (genesis_fields r2))"
    using assms by (simp add: verifyGenesis_def computeGenesisHash_def genesis_fields_def Let_def)
  then show ?thesis using genesis_canonical_inj by (auto simp: collision_def)
qed

definition demo_genesis :: "string \<Rightarrow> genesis_record" where
  "demo_genesis repo = \<lparr>gr_projectId = ''p'', gr_name = ''n'', gr_namespace = ''ns'', gr_primaryOwner = ''o'',
     gr_repositoryOwner = ''ro'', gr_repository = repo, gr_genesisCommit = ''c'', gr_genesisTimestamp = ''t'',
     gr_architectureGenesisCommit = ''a'', gr_license = ''MIT'',
     gr_genesisHash = computeGenesisHash demo_sha ''p'' ''n'' ''ns'' ''o'' ''ro'' ''c''\<rparr>"

theorem genesis_hash_pins_identity_witness:
  "genesis_fields (demo_genesis ''x'') = genesis_fields (demo_genesis ''y'') \<or>
   collision demo_sha [genesis_canonical (genesis_fields (demo_genesis ''x''))]
     [genesis_canonical (genesis_fields (demo_genesis ''y''))]"
  by (rule genesis_hash_pins_identity)
    (simp_all add: verifyGenesis_def demo_genesis_def Let_def)

end
