(* ===== verification/Registry.thy ===== *)
theory Registry
  imports Contracts
begin

text \<open>
  Names and schemas: the naming convention of \<open>kernel/contracts/src/naming.ts\<close> and the
  \<open>SchemaRegistry\<close> of \<open>kernel/registry/src/index.ts\<close>.  A name is accepted exactly when it has
  at least two dot-separated segments of the required shape and its namespace is not reserved;
  the registry is the interface \<open>registry\<close> twice, once per table.
\<close>

section \<open>The naming convention\<close>

definition RESERVED_NAMESPACES :: "string list" where
  "RESERVED_NAMESPACES =
     [''admin'', ''kernel'', ''root'', ''system'', ''super'', ''everything'', ''anything'', ''global'',
      ''privileged'', ''sudo'', ''aok'', ''internal'']"

text \<open>The regular expression \<open>SEGMENT\<close>: a lower-case letter or digit, optionally followed by
  any run of those, hyphens and underscores that ends in a letter or digit.\<close>

definition is_lower :: "char \<Rightarrow> bool" where
  "is_lower c \<longleftrightarrow> 97 \<le> (of_char c :: nat) \<and> (of_char c :: nat) \<le> 122"

definition is_upper :: "char \<Rightarrow> bool" where
  "is_upper c \<longleftrightarrow> 65 \<le> (of_char c :: nat) \<and> (of_char c :: nat) \<le> 90"

definition seg_edge :: "char \<Rightarrow> bool" where
  "seg_edge c \<longleftrightarrow> is_lower c \<or> is_digit c"

definition seg_mid :: "char \<Rightarrow> bool" where
  "seg_mid c \<longleftrightarrow> seg_edge c \<or> c = CHR ''_'' \<or> c = CHR ''-''"

fun segment_ok :: "string \<Rightarrow> bool" where
  "segment_ok [] = False"
| "segment_ok (c # cs) =
     (seg_edge c \<and> (cs = [] \<or> (list_all seg_mid (butlast cs) \<and> seg_edge (last cs))))"

text \<open>\<open>toLowerCase\<close> on ASCII letters; other characters have no lower form here and are refused by
  the segment test instead.\<close>

definition char_lower :: "char \<Rightarrow> char" where
  "char_lower c = (if is_upper c then char_of ((of_char c :: nat) + 32) else c)"

definition toLowerCase :: "string \<Rightarrow> string" where
  "toLowerCase s = map char_lower s"

record name_validation =
  nv_valid :: bool
  nv_reason :: "string option"

definition name_rejected :: "string \<Rightarrow> name_validation" where
  "name_rejected r = \<lparr>nv_valid = False, nv_reason = Some r\<rparr>"

definition namespaceOf :: "string \<Rightarrow> string" where
  "namespaceOf name = takeWhile (\<lambda>c. c \<noteq> CHR ''.'') name"

definition validateName :: "string \<Rightarrow> name_validation" where
  "validateName name =
     (if name = [] then name_rejected ''name must be a non-empty string''
      else if name \<noteq> toLowerCase name then name_rejected (quoted name @ '' must be lowercase'')
      else if starts_with name ''.'' \<or> ends_with name ''.'' then
        name_rejected (quoted name @ '' must not start or end with '' @ quoted ''.'')
      else if includes_str name ''..'' then name_rejected (quoted name @ '' contains empty segment'')
      else
        let segments = split_on (CHR ''.'') name in
        if length segments < 2 then
          name_rejected (quoted name @ '' must have at least a namespace and an action'')
        else
          (case find (\<lambda>seg. \<not> segment_ok seg) segments of
             Some seg \<Rightarrow> name_rejected (''segment '' @ quoted seg @ '' is invalid'')
           | None \<Rightarrow>
               let ns = namespaceOf name in
               if ns \<in> set RESERVED_NAMESPACES then
                 name_rejected (''namespace '' @ quoted ns @ '' is reserved'')
               else \<lparr>nv_valid = True, nv_reason = None\<rparr>))"

definition isValidName :: "string \<Rightarrow> bool" where
  "isValidName name = nv_valid (validateName name)"

definition validateCapabilityName :: "string \<Rightarrow> name_validation" where
  "validateCapabilityName name = validateName name"

definition validateEventType :: "string \<Rightarrow> name_validation" where
  "validateEventType name = validateName name"

section \<open>The convention characterised\<close>

lemma split_on_sep: "split_on c (xs @ c # ys) = split_on c xs @ split_on c ys"
  by (induction xs) (auto split: list.splits)

lemma hd_split_on: "hd (split_on c s) = takeWhile (\<lambda>x. x \<noteq> c) s"
  by (induction s) (auto split: list.splits)

lemma char_lower_edge [simp]: "seg_edge c \<Longrightarrow> char_lower c = c"
  by (auto simp: seg_edge_def char_lower_def is_upper_def is_lower_def is_digit_def)

lemma char_lower_mid [simp]: "seg_mid c \<Longrightarrow> char_lower c = c"
  using char_lower_edge [of c] by (auto simp: seg_mid_def) (simp_all add: char_lower_def is_upper_def)

lemma char_lower_dot [simp]: "char_lower (CHR ''.'') = CHR ''.''"
  by (simp add: char_lower_def is_upper_def)

lemma segment_ok_mid: "segment_ok s \<Longrightarrow> \<forall>c \<in> set s. seg_mid c"
proof (cases s)
  case (Cons c cs)
  assume ok: "segment_ok s"
  show ?thesis
  proof (cases cs rule: rev_cases)
    case Nil
    then show ?thesis using ok Cons by (simp add: seg_mid_def)
  next
    case (snoc ds d)
    then show ?thesis using ok Cons by (auto simp: seg_mid_def list_all_iff)
  qed
qed simp

lemma segments_lower:
  "\<forall>seg \<in> set segs. segment_ok seg \<Longrightarrow> toLowerCase (join_with ''.'' segs) = join_with ''.'' segs"
proof (induction "''.''" segs rule: join_with.induct)
  case (2 p)
  then show ?case using segment_ok_mid [of p] by (simp add: toLowerCase_def map_idI)
next
  case (3 p q ps)
  then show ?case using segment_ok_mid [of p] by (simp add: toLowerCase_def map_idI)
qed (simp add: toLowerCase_def)

lemma empty_segment:
  assumes "starts_with s ''.'' \<or> ends_with s ''.'' \<or> includes_str s ''..'' \<or> s = []"
  shows "[] \<in> set (split_on (CHR ''.'') s)"
  using assms
proof (elim disjE)
  assume "starts_with s ''.''"
  then obtain ys where "s = [] @ CHR ''.'' # ys" by (auto simp: prefix_def)
  then show ?thesis by (simp only: split_on_sep) simp
next
  assume "ends_with s ''.''"
  then obtain xs where "s = xs @ CHR ''.'' # []" by (auto simp: suffix_def)
  then show ?thesis by (simp only: split_on_sep) simp
next
  assume "includes_str s ''..''"
  then obtain xs ys where "s = xs @ CHR ''.'' # [] @ CHR ''.'' # ys" by (auto simp: sublist_def)
  then show ?thesis by (simp only: split_on_sep) simp
qed simp

lemma validateName_segments:
  "nv_valid (validateName name) \<longleftrightarrow>
     2 \<le> length (split_on (CHR ''.'') name) \<and> list_all segment_ok (split_on (CHR ''.'') name) \<and>
     hd (split_on (CHR ''.'') name) \<notin> set RESERVED_NAMESPACES"
proof (cases "list_all segment_ok (split_on (CHR ''.'') name)")
  case True
  have "[] \<notin> set (split_on (CHR ''.'') name)" using True by (auto simp: list_all_iff)
  then have shape: "\<not> (starts_with name ''.'' \<or> ends_with name ''.'' \<or> includes_str name ''..'' \<or> name = [])"
    using empty_segment by blast
  have "toLowerCase name = name"
    using segments_lower [of "split_on (CHR ''.'') name"] True
    by (simp add: join_split list_all_iff)
  moreover have "find (\<lambda>seg. \<not> segment_ok seg) (split_on (CHR ''.'') name) = None"
    using True by (auto simp: find_None_iff list_all_iff)
  ultimately show ?thesis using shape True
    by (simp add: validateName_def Let_def name_rejected_def namespaceOf_def hd_split_on not_less)
next
  case False
  then have "find (\<lambda>seg. \<not> segment_ok seg) (split_on (CHR ''.'') name) \<noteq> None"
    by (auto simp: find_None_iff list_all_iff)
  then show ?thesis using False
    by (auto simp: validateName_def Let_def name_rejected_def)
qed

section \<open>The schema registry\<close>

definition UnregisteredCapabilityError :: "string \<Rightarrow> js_error" where
  "UnregisteredCapabilityError name = JsError ''UnregisteredCapabilityError''
     (''capability '' @ quoted name @ '' is not registered in the Schema Registry'')"

definition InvalidNameError :: "string \<Rightarrow> string \<Rightarrow> js_error" where
  "InvalidNameError name reason = JsError ''InvalidNameError''
     (''invalid name '' @ quoted name @ '': '' @ reason)"

record capability_entry =
  ce_name :: string
  ce_inputSchema :: schema
  ce_outputSchema :: schema

record event_entry =
  ee_type :: string
  ee_payloadSchema :: schema

record schema_registry =
  sr_capabilities :: "(string, capability_entry) js_map"
  sr_events :: "(string, event_entry) js_map"

definition new_schema_registry :: schema_registry where
  "new_schema_registry = \<lparr>sr_capabilities = [], sr_events = []\<rparr>"

definition reason_of :: "name_validation \<Rightarrow> string" where
  "reason_of c = (case nv_reason c of None \<Rightarrow> ''undefined'' | Some r \<Rightarrow> r)"

definition registerCapability ::
  "string \<Rightarrow> schema \<Rightarrow> schema \<Rightarrow> schema_registry \<Rightarrow> js_error + schema_registry" where
  "registerCapability name inputSchema outputSchema s =
     (let check = validateName name in
      if \<not> nv_valid check then Inl (InvalidNameError name (reason_of check))
      else if map_has (sr_capabilities s) name then
        Inl (plain_error (''capability '' @ quoted name @ '' already registered''))
      else Inr (s\<lparr>sr_capabilities := map_set name
        \<lparr>ce_name = name, ce_inputSchema = inputSchema, ce_outputSchema = outputSchema\<rparr>
        (sr_capabilities s)\<rparr>))"

definition registerEvent :: "string \<Rightarrow> schema \<Rightarrow> schema_registry \<Rightarrow> js_error + schema_registry" where
  "registerEvent type payloadSchema s =
     (let check = validateName type in
      if \<not> nv_valid check then Inl (InvalidNameError type (reason_of check))
      else if map_has (sr_events s) type then
        Inl (plain_error (''event '' @ quoted type @ '' already registered''))
      else Inr (s\<lparr>sr_events := map_set type
        \<lparr>ee_type = type, ee_payloadSchema = payloadSchema\<rparr> (sr_events s)\<rparr>))"

definition hasCapability :: "schema_registry \<Rightarrow> string \<Rightarrow> bool" where
  "hasCapability s name = map_has (sr_capabilities s) name"

definition assertCapabilityRegistered :: "schema_registry \<Rightarrow> string \<Rightarrow> js_error + unit" where
  "assertCapabilityRegistered s name =
     (if hasCapability s name then Inr () else Inl (UnregisteredCapabilityError name))"

definition listCapabilities :: "schema_registry \<Rightarrow> string list" where
  "listCapabilities s = map_keys (sr_capabilities s)"

definition validateCapabilityInput :: "schema_registry \<Rightarrow> string \<Rightarrow> jsv \<Rightarrow> js_error + jsv" where
  "validateCapabilityInput s name input =
     (case map_get (sr_capabilities s) name of
        None \<Rightarrow> Inl (UnregisteredCapabilityError name)
      | Some entry \<Rightarrow> ce_inputSchema entry input)"

definition validateCapabilityOutput :: "schema_registry \<Rightarrow> string \<Rightarrow> jsv \<Rightarrow> js_error + jsv" where
  "validateCapabilityOutput s name out =
     (case map_get (sr_capabilities s) name of
        None \<Rightarrow> Inl (UnregisteredCapabilityError name)
      | Some entry \<Rightarrow> ce_outputSchema entry out)"

definition validateEventPayload :: "schema_registry \<Rightarrow> string \<Rightarrow> jsv \<Rightarrow> js_error + jsv" where
  "validateEventPayload s type payload =
     (case map_get (sr_events s) type of
        None \<Rightarrow> Inl (UnregisteredCapabilityError type)
      | Some entry \<Rightarrow> ee_payloadSchema entry payload)"

definition namespaces :: "schema_registry \<Rightarrow> string list" where
  "namespaces s = sort (remdups (map namespaceOf (map_keys (sr_capabilities s)) @
     map namespaceOf (map_keys (sr_events s))))"

text \<open>What the two tables answer, as the registry interface sees them.\<close>

definition capability_schemas :: "schema_registry \<Rightarrow> string \<Rightarrow> (schema \<times> schema) option" where
  "capability_schemas s = map_option (\<lambda>e. (ce_inputSchema e, ce_outputSchema e)) \<circ> map_get (sr_capabilities s)"

definition event_schema :: "schema_registry \<Rightarrow> string \<Rightarrow> schema option" where
  "event_schema s = map_option ee_payloadSchema \<circ> map_get (sr_events s)"

lemma capability_schemas_None: "capability_schemas s k = None \<longleftrightarrow> map_get (sr_capabilities s) k = None"
  by (simp add: capability_schemas_def)

lemma event_schema_None: "event_schema s k = None \<longleftrightarrow> map_get (sr_events s) k = None"
  by (simp add: event_schema_def)

interpretation cap_reg: registry isValidName capability_schemas "\<lambda>k (i, out). registerCapability k i out"
proof unfold_locales
  fix s k and v :: "schema \<times> schema"
  assume "capability_schemas s k = None" "isValidName k"
  then show "\<exists>s'. (case v of (i, out) \<Rightarrow> registerCapability k i out) s = Inr s' \<and>
      capability_schemas s' = (capability_schemas s)(k \<mapsto> v)"
    by (cases v) (auto simp: registerCapability_def isValidName_def Let_def capability_schemas_def fun_eq_iff)
next
  fix s k s' and v :: "schema \<times> schema"
  assume "(case v of (i, out) \<Rightarrow> registerCapability k i out) s = Inr s'"
  then show "capability_schemas s k = None \<and> isValidName k \<and>
      capability_schemas s' = (capability_schemas s)(k \<mapsto> v)"
    by (cases v) (auto simp: registerCapability_def isValidName_def Let_def capability_schemas_def fun_eq_iff
        split: if_splits)
qed

interpretation event_reg: registry isValidName event_schema registerEvent
proof unfold_locales
  fix s k v
  assume "event_schema s k = None" "isValidName k"
  then show "\<exists>s'. registerEvent k v s = Inr s' \<and> event_schema s' = (event_schema s)(k \<mapsto> v)"
    by (auto simp: registerEvent_def isValidName_def Let_def event_schema_def fun_eq_iff)
next
  fix s k v s'
  assume "registerEvent k v s = Inr s'"
  then show "event_schema s k = None \<and> isValidName k \<and> event_schema s' = (event_schema s)(k \<mapsto> v)"
    by (auto simp: registerEvent_def isValidName_def Let_def event_schema_def fun_eq_iff split: if_splits)
qed

text \<open>The invariant of a registry: distinct, valid names, each stored under itself.\<close>

definition registry_wf :: "schema_registry \<Rightarrow> bool" where
  "registry_wf s \<longleftrightarrow> map_wf (sr_capabilities s) \<and> map_wf (sr_events s) \<and>
     list_all (\<lambda>(k, e). isValidName k \<and> ce_name e = k) (sr_capabilities s) \<and>
     list_all (\<lambda>(k, e). isValidName k \<and> ee_type e = k) (sr_events s)"

lemma new_registry_wf [simp]: "registry_wf new_schema_registry"
  by (simp add: registry_wf_def new_schema_registry_def)

lemma registerCapability_wf: "registry_wf s \<Longrightarrow> registerCapability k i out s = Inr s' \<Longrightarrow> registry_wf s'"
  by (auto simp: registry_wf_def registerCapability_def isValidName_def Let_def map_set_new split: if_splits)
    (auto simp: map_wf_def map_of_eq_None_iff)

lemma registerEvent_wf: "registry_wf s \<Longrightarrow> registerEvent k v s = Inr s' \<Longrightarrow> registry_wf s'"
  by (auto simp: registry_wf_def registerEvent_def isValidName_def Let_def map_set_new split: if_splits)
    (auto simp: map_wf_def map_of_eq_None_iff)

text \<open>A program of registrations, and the registry it builds.\<close>

datatype registration = RegCapability string schema schema | RegEvent string schema

fun register_step :: "registration \<Rightarrow> schema_registry \<Rightarrow> js_error + schema_registry" where
  "register_step (RegCapability k i out) s = registerCapability k i out s"
| "register_step (RegEvent k v) s = registerEvent k v s"

lemma registrations_wf: "registry_wf s \<Longrightarrow> foldE register_step rs s = Inr s' \<Longrightarrow> registry_wf s'"
proof (rule foldE_invariant [where I = registry_wf and f = register_step])
  fix r t t'
  assume "registry_wf t" "register_step r t = Inr t'"
  then show "registry_wf t'"
    by (cases r) (auto intro: registerCapability_wf registerEvent_wf)
qed

section \<open>Properties\<close>

text \<open>A name is accepted exactly when it consists of at least two dot-separated segments of
  the required shape whose first is not a reserved namespace; the separate guards for case,
  leading, trailing and doubled dots only choose the message.\<close>

theorem validateName_iff:
  "isValidName name \<longleftrightarrow>
     (\<exists>ns action rest. name = join_with ''.'' (ns # action # rest) \<and>
        list_all segment_ok (ns # action # rest) \<and> ns \<notin> set RESERVED_NAMESPACES)"
proof
  assume "isValidName name"
  then have v: "2 \<le> length (split_on (CHR ''.'') name)" "list_all segment_ok (split_on (CHR ''.'') name)"
      "hd (split_on (CHR ''.'') name) \<notin> set RESERVED_NAMESPACES"
    by (simp_all add: isValidName_def validateName_segments)
  obtain ns action rest where sp: "split_on (CHR ''.'') name = ns # action # rest"
    using v(1) by (cases "split_on (CHR ''.'') name"; cases "tl (split_on (CHR ''.'') name)") auto
  then have "name = join_with ''.'' (ns # action # rest)" using join_split [of "CHR ''.''" name] by simp
  then show "\<exists>ns action rest. name = join_with ''.'' (ns # action # rest) \<and>
      list_all segment_ok (ns # action # rest) \<and> ns \<notin> set RESERVED_NAMESPACES"
    using v sp by auto
next
  assume "\<exists>ns action rest. name = join_with ''.'' (ns # action # rest) \<and>
      list_all segment_ok (ns # action # rest) \<and> ns \<notin> set RESERVED_NAMESPACES"
  then obtain segs where segs: "name = join_with ''.'' segs" "list_all segment_ok segs" "2 \<le> length segs"
      "hd segs \<notin> set RESERVED_NAMESPACES" by (metis One_nat_def Suc_1 le_add1 length_Cons list.sel(1) plus_1_eq_Suc Suc_le_mono)
  have "split_on (CHR ''.'') name = segs"
    unfolding segs(1)
  proof (rule split_join)
    show "segs \<noteq> []" using segs(3) by auto
    show "\<forall>p \<in> set segs. CHR ''.'' \<notin> set p"
    proof (intro ballI notI)
      fix p assume "p \<in> set segs" "CHR ''.'' \<in> set p"
      then have "seg_mid (CHR ''.'')" using segs(2) segment_ok_mid by (auto simp: list_all_iff)
      then show False by (simp add: seg_mid_def seg_edge_def is_lower_def is_digit_def)
    qed
  qed
  then show "isValidName name" using segs by (simp add: isValidName_def validateName_segments)
qed

text \<open>Whatever succession of registrations a program performs, the registry it ends with holds
  each name once, every name is valid (so none lies in a reserved namespace), and every
  namespace it lists is unreserved.\<close>

theorem registry_only_valid_names:
  assumes "foldE register_step rs new_schema_registry = Inr s"
  shows "registry_wf s \<and> set (namespaces s) \<inter> set RESERVED_NAMESPACES = {}"
proof -
  have wf: "registry_wf s" using registrations_wf [OF new_registry_wf assms] .
  have ok: "namespaceOf k \<notin> set RESERVED_NAMESPACES" if "isValidName k" for k
    using that by (simp add: isValidName_def validateName_segments namespaceOf_def hd_split_on)
  have "namespaceOf k \<notin> set RESERVED_NAMESPACES"
    if "k \<in> fst ` set (sr_capabilities s) \<union> fst ` set (sr_events s)" for k
    using that wf by (intro ok) (auto simp: registry_wf_def list_all_iff)
  then have "set (namespaces s) \<inter> set RESERVED_NAMESPACES = {}" by (auto simp: namespaces_def)
  with wf show ?thesis by simp
qed

theorem registry_only_valid_names_witness:
  "\<exists>s. foldE register_step [RegCapability ''github.repo.read'' Inr Inr, RegEvent ''deploy.staging'' Inr]
     new_schema_registry = Inr s \<and> registry_wf s \<and> set (namespaces s) \<inter> set RESERVED_NAMESPACES = {}"
proof -
  have "nv_valid (validateName ''github.repo.read'')" "nv_valid (validateName ''deploy.staging'')"
    by code_simp+
  then obtain s where "foldE register_step
      [RegCapability ''github.repo.read'' Inr Inr, RegEvent ''deploy.staging'' Inr]
      new_schema_registry = Inr s"
    by (simp add: registerCapability_def registerEvent_def Let_def new_schema_registry_def)
  with registry_only_valid_names [OF this] show ?thesis by blast
qed

end
