(* ===== verification/Transition.thy ===== *)
theory Transition
  imports Contracts
begin

text \<open>
  State machines as code: \<open>StateMachine\<close> of \<open>kernel/transition/src/state-machine.ts\<close>, the task
  and node machines of \<open>task-state-machine.ts\<close>, and the orchestrator's node machine
  (\<open>runtime/orchestrator/src/node-machine.ts\<close>).  A table is an object literal: an association
  list from states to association lists from events to states.  The interface \<open>machine\<close> holds
  what every table guarantees; it is interpreted on the three tables.
\<close>

section \<open>Tables and transitions\<close>

type_synonym ('s, 'e) transition_table = "('s \<times> ('e \<times> 's) list) list"

definition next_state :: "('s, 'e) transition_table \<Rightarrow> 's \<Rightarrow> 'e \<Rightarrow> 's option" where
  "next_state tab from event = Option.bind (map_of tab from) (\<lambda>row. map_of row event)"

definition IllegalTransitionError :: "string \<Rightarrow> string \<Rightarrow> js_error" where
  "IllegalTransitionError from event = JsError ''IllegalTransitionError''
     (''Illegal state transition: event '' @ quoted event @ '' is not allowed from state '' @ quoted from)"

definition canTransition :: "('s, 'e) transition_table \<Rightarrow> 's \<Rightarrow> 'e \<Rightarrow> bool" where
  "canTransition tab from event \<longleftrightarrow> next_state tab from event \<noteq> None"

text \<open>\<open>show_s\<close> and \<open>show_e\<close> are the strings of the union types.\<close>

definition transition ::
  "('s \<Rightarrow> string) \<Rightarrow> ('e \<Rightarrow> string) \<Rightarrow> ('s, 'e) transition_table \<Rightarrow> 's \<Rightarrow> 'e \<Rightarrow> js_error + 's" where
  "transition show_s show_e tab from event =
     (case next_state tab from event of
        None \<Rightarrow> Inl (IllegalTransitionError (show_s from) (show_e event))
      | Some s \<Rightarrow> Inr s)"

lemma transition_iff: "transition show_s show_e tab s e = Inr t \<longleftrightarrow> next_state tab s e = Some t"
  by (simp add: transition_def split: option.splits)

lemma canTransition_ok: "canTransition tab s e \<longleftrightarrow> is_ok (transition show_s show_e tab s e)"
  by (simp add: canTransition_def transition_def split: option.splits)

text \<open>A walk: a succession of legal transitions with the states they enter.\<close>

inductive walk :: "('s, 'e) transition_table \<Rightarrow> 's \<Rightarrow> ('e \<times> 's) list \<Rightarrow> 's \<Rightarrow> bool" for tab where
  stay: "walk tab s [] s"
| go: "next_state tab s e = Some t \<Longrightarrow> walk tab t ws u \<Longrightarrow> walk tab s ((e, t) # ws) u"

inductive_simps walk_simps [simp]:
  "walk tab s [] u"
  "walk tab s (w # ws) u"

lemma walk_append: "walk tab s ws t \<Longrightarrow> walk tab t vs u \<Longrightarrow> walk tab s (ws @ vs) u"
  by (induction rule: walk.induct) auto

lemma walk_prefix: "walk tab s (ws @ (e, t) # vs) u \<Longrightarrow> walk tab s (ws @ [(e, t)]) t"
  by (induction ws arbitrary: s) auto

lemma walk_last: "walk tab s ws u \<Longrightarrow> u = last (s # map snd ws)"
  by (induction rule: walk.induct) auto

lemma walk_run: "walk tab s ws u \<Longrightarrow>
    foldE (\<lambda>e st. transition show_s show_e tab st e) (map fst ws) s = Inr u"
  by (induction rule: walk.induct) (simp_all add: transition_def)

lemma run_walk: "foldE (\<lambda>e st. transition show_s show_e tab st e) es s = Inr u \<Longrightarrow>
    \<exists>ws. walk tab s ws u \<and> map fst ws = es"
proof (induction es arbitrary: s)
  case Nil
  then show ?case by auto
next
  case (Cons e es)
  then obtain t where "next_state tab s e = Some t"
      "foldE (\<lambda>e st. transition show_s show_e tab st e) es t = Inr u"
    by (auto simp: bindE_Inr transition_iff)
  moreover from this(2) obtain ws where "walk tab t ws u" "map fst ws = es" using Cons.IH by blast
  ultimately show ?case by (intro exI [of _ "(e, t) # ws"]) simp
qed

section \<open>What a table guarantees\<close>

text \<open>A machine has terminal states, which no event leaves.  The client's lemmas: a walk from a
  terminal state is empty, and a walk into a set of states that is entered only from a gate
  passes the gate.\<close>

locale machine =
  fixes tab :: "('s, 'e) transition_table" and final :: "'s \<Rightarrow> bool"
  assumes final_stuck: "final s \<Longrightarrow> next_state tab s e = None"
begin

lemma walk_final: "walk tab s ws u \<Longrightarrow> final s \<Longrightarrow> ws = [] \<and> u = s"
  by (cases ws) (auto simp: final_stuck)

lemma final_rejects: "final s \<Longrightarrow> \<not> is_ok (transition show_s show_e tab s e)"
  by (simp add: transition_def final_stuck)

lemma must_pass:
  assumes gate: "\<And>s e t. next_state tab s e = Some t \<Longrightarrow> t \<in> T \<Longrightarrow> s \<notin> T \<Longrightarrow> s \<in> G"
  shows "walk tab s ws u \<Longrightarrow> s \<notin> T \<Longrightarrow> u \<in> T \<Longrightarrow> s \<in> G \<or> (\<exists>g \<in> G. g \<in> set (map snd ws))"
proof (induction rule: walk.induct)
  case (stay s)
  then show ?case by simp
next
  case (go s e t ws u)
  show ?case
  proof (cases "t \<in> T")
    case True
    then show ?thesis using gate [OF go.hyps(1)] go.prems by simp
  next
    case False
    then show ?thesis using go.IH go.prems by auto
  qed
qed

lemma walk_invariant:
  assumes step: "\<And>s e t. next_state tab s e = Some t \<Longrightarrow> I s \<Longrightarrow> I t"
  shows "walk tab s ws u \<Longrightarrow> I s \<Longrightarrow> I u \<and> list_all I (map snd ws)"
  by (induction rule: walk.induct) (auto intro: step)

end

section \<open>The task machine\<close>

datatype task_event =
    TE_START | TE_REQUIRE_APPROVAL | TE_APPROVE | TE_REJECT | TE_PAUSE | TE_RESUME
  | TE_START_VERIFY | TE_VERIFY_PASS | TE_VERIFY_FAIL | TE_COMPLETE | TE_FAIL | TE_CANCEL

definition taskStateMachine :: "(task_state, task_event) transition_table" where
  "taskStateMachine =
     [(TS_PLANNED, [(TE_START, TS_RUNNING), (TE_CANCEL, TS_CANCELLED)]),
      (TS_RUNNING, [(TE_REQUIRE_APPROVAL, TS_WAITING_APPROVAL), (TE_START_VERIFY, TS_VERIFYING),
         (TE_PAUSE, TS_PAUSED), (TE_COMPLETE, TS_COMPLETED), (TE_FAIL, TS_FAILED)]),
      (TS_WAITING_APPROVAL, [(TE_APPROVE, TS_RUNNING), (TE_REJECT, TS_CANCELLED), (TE_FAIL, TS_FAILED)]),
      (TS_VERIFYING, [(TE_VERIFY_PASS, TS_COMPLETED), (TE_VERIFY_FAIL, TS_FAILED)]),
      (TS_PAUSED, [(TE_RESUME, TS_RUNNING), (TE_CANCEL, TS_CANCELLED)]),
      (TS_COMPLETED, []), (TS_FAILED, []), (TS_CANCELLED, [])]"

definition task_final :: "task_state \<Rightarrow> bool" where
  "task_final s \<longleftrightarrow> s \<in> {TS_COMPLETED, TS_FAILED, TS_CANCELLED}"

lemma task_next_simps:
  "next_state taskStateMachine TS_PLANNED e = map_of [(TE_START, TS_RUNNING), (TE_CANCEL, TS_CANCELLED)] e"
  "next_state taskStateMachine TS_RUNNING e = map_of [(TE_REQUIRE_APPROVAL, TS_WAITING_APPROVAL),
     (TE_START_VERIFY, TS_VERIFYING), (TE_PAUSE, TS_PAUSED), (TE_COMPLETE, TS_COMPLETED), (TE_FAIL, TS_FAILED)] e"
  "next_state taskStateMachine TS_WAITING_APPROVAL e =
     map_of [(TE_APPROVE, TS_RUNNING), (TE_REJECT, TS_CANCELLED), (TE_FAIL, TS_FAILED)] e"
  "next_state taskStateMachine TS_VERIFYING e = map_of [(TE_VERIFY_PASS, TS_COMPLETED), (TE_VERIFY_FAIL, TS_FAILED)] e"
  "next_state taskStateMachine TS_PAUSED e = map_of [(TE_RESUME, TS_RUNNING), (TE_CANCEL, TS_CANCELLED)] e"
  "next_state taskStateMachine TS_COMPLETED e = None"
  "next_state taskStateMachine TS_FAILED e = None"
  "next_state taskStateMachine TS_CANCELLED e = None"
  by (simp_all add: next_state_def taskStateMachine_def)

interpretation task_sm: machine taskStateMachine task_final
  by unfold_locales (auto simp: task_final_def task_next_simps)

section \<open>The plan node machine\<close>

datatype node_event =
    NE_SCHEDULE | NE_START | NE_REQUIRE_APPROVAL | NE_APPROVE | NE_SUCCEED | NE_FAIL | NE_RETRY | NE_SKIP

definition nodeStateMachine :: "(node_state, node_event) transition_table" where
  "nodeStateMachine =
     [(PN_PENDING, [(NE_SCHEDULE, PN_SCHEDULED), (NE_SKIP, PN_SKIPPED)]),
      (PN_SCHEDULED, [(NE_START, PN_RUNNING)]),
      (PN_RUNNING, [(NE_REQUIRE_APPROVAL, PN_WAITING_APPROVAL), (NE_SUCCEED, PN_SUCCEEDED), (NE_FAIL, PN_FAILED)]),
      (PN_WAITING_APPROVAL, [(NE_APPROVE, PN_RUNNING), (NE_FAIL, PN_FAILED)]),
      (PN_FAILED, [(NE_RETRY, PN_SCHEDULED)]),
      (PN_SUCCEEDED, []), (PN_SKIPPED, [])]"

definition plan_node_final :: "node_state \<Rightarrow> bool" where
  "plan_node_final s \<longleftrightarrow> s \<in> {PN_SUCCEEDED, PN_SKIPPED}"

lemma node_next_simps:
  "next_state nodeStateMachine PN_PENDING e = map_of [(NE_SCHEDULE, PN_SCHEDULED), (NE_SKIP, PN_SKIPPED)] e"
  "next_state nodeStateMachine PN_SCHEDULED e = map_of [(NE_START, PN_RUNNING)] e"
  "next_state nodeStateMachine PN_RUNNING e =
     map_of [(NE_REQUIRE_APPROVAL, PN_WAITING_APPROVAL), (NE_SUCCEED, PN_SUCCEEDED), (NE_FAIL, PN_FAILED)] e"
  "next_state nodeStateMachine PN_WAITING_APPROVAL e = map_of [(NE_APPROVE, PN_RUNNING), (NE_FAIL, PN_FAILED)] e"
  "next_state nodeStateMachine PN_FAILED e = map_of [(NE_RETRY, PN_SCHEDULED)] e"
  "next_state nodeStateMachine PN_SUCCEEDED e = None"
  "next_state nodeStateMachine PN_SKIPPED e = None"
  by (simp_all add: next_state_def nodeStateMachine_def)

interpretation node_sm: machine nodeStateMachine plan_node_final
  by unfold_locales (auto simp: plan_node_final_def node_next_simps)

section \<open>The orchestrator's node machine\<close>

datatype node_status =
    WS_PLANNED | WS_READY | WS_RUNNING | WS_WAITING | WS_VERIFYING | WS_COMPLETED | WS_FAILED
  | WS_RETRYING | WS_COMPENSATING | WS_ROLLED_BACK | WS_QUARANTINED | WS_CANCELLED | WS_SKIPPED

datatype workflow_event =
    WE_PREPARE | WE_START | WE_WAIT | WE_APPROVE | WE_DENY | WE_VERIFY | WE_COMPLETE | WE_FAIL
  | WE_RETRY | WE_RESUME | WE_COMPENSATE | WE_ROLLBACK | WE_QUARANTINE | WE_CANCEL | WE_SKIP

definition workflowNodeMachine :: "(node_status, workflow_event) transition_table" where
  "workflowNodeMachine =
     [(WS_PLANNED, [(WE_PREPARE, WS_READY), (WE_CANCEL, WS_CANCELLED), (WE_SKIP, WS_SKIPPED)]),
      (WS_READY, [(WE_START, WS_RUNNING), (WE_CANCEL, WS_CANCELLED)]),
      (WS_RUNNING, [(WE_WAIT, WS_WAITING), (WE_VERIFY, WS_VERIFYING), (WE_FAIL, WS_FAILED),
         (WE_CANCEL, WS_CANCELLED)]),
      (WS_WAITING, [(WE_APPROVE, WS_RUNNING), (WE_DENY, WS_FAILED), (WE_CANCEL, WS_CANCELLED)]),
      (WS_VERIFYING, [(WE_COMPLETE, WS_COMPLETED), (WE_FAIL, WS_FAILED)]),
      (WS_FAILED, [(WE_RETRY, WS_RETRYING), (WE_COMPENSATE, WS_COMPENSATING),
         (WE_QUARANTINE, WS_QUARANTINED), (WE_CANCEL, WS_CANCELLED)]),
      (WS_RETRYING, [(WE_RESUME, WS_RUNNING)]),
      (WS_COMPENSATING, [(WE_ROLLBACK, WS_ROLLED_BACK)]),
      (WS_COMPLETED, []), (WS_ROLLED_BACK, []), (WS_QUARANTINED, []), (WS_CANCELLED, []), (WS_SKIPPED, [])]"

definition TERMINAL_STATUSES :: "node_status list" where
  "TERMINAL_STATUSES =
     [WS_COMPLETED, WS_FAILED, WS_ROLLED_BACK, WS_QUARANTINED, WS_CANCELLED, WS_SKIPPED]"

definition isTerminal :: "node_status \<Rightarrow> bool" where
  "isTerminal status \<longleftrightarrow> status \<in> set TERMINAL_STATUSES"

text \<open>The statuses that no event leaves: the terminal ones without \<open>FAILED\<close>.\<close>

definition status_final :: "node_status \<Rightarrow> bool" where
  "status_final s \<longleftrightarrow> isTerminal s \<and> s \<noteq> WS_FAILED"

lemma workflow_next_simps:
  "next_state workflowNodeMachine WS_PLANNED e =
     map_of [(WE_PREPARE, WS_READY), (WE_CANCEL, WS_CANCELLED), (WE_SKIP, WS_SKIPPED)] e"
  "next_state workflowNodeMachine WS_READY e = map_of [(WE_START, WS_RUNNING), (WE_CANCEL, WS_CANCELLED)] e"
  "next_state workflowNodeMachine WS_RUNNING e =
     map_of [(WE_WAIT, WS_WAITING), (WE_VERIFY, WS_VERIFYING), (WE_FAIL, WS_FAILED), (WE_CANCEL, WS_CANCELLED)] e"
  "next_state workflowNodeMachine WS_WAITING e =
     map_of [(WE_APPROVE, WS_RUNNING), (WE_DENY, WS_FAILED), (WE_CANCEL, WS_CANCELLED)] e"
  "next_state workflowNodeMachine WS_VERIFYING e = map_of [(WE_COMPLETE, WS_COMPLETED), (WE_FAIL, WS_FAILED)] e"
  "next_state workflowNodeMachine WS_FAILED e = map_of [(WE_RETRY, WS_RETRYING), (WE_COMPENSATE, WS_COMPENSATING),
     (WE_QUARANTINE, WS_QUARANTINED), (WE_CANCEL, WS_CANCELLED)] e"
  "next_state workflowNodeMachine WS_RETRYING e = map_of [(WE_RESUME, WS_RUNNING)] e"
  "next_state workflowNodeMachine WS_COMPENSATING e = map_of [(WE_ROLLBACK, WS_ROLLED_BACK)] e"
  "next_state workflowNodeMachine WS_COMPLETED e = None"
  "next_state workflowNodeMachine WS_ROLLED_BACK e = None"
  "next_state workflowNodeMachine WS_QUARANTINED e = None"
  "next_state workflowNodeMachine WS_CANCELLED e = None"
  "next_state workflowNodeMachine WS_SKIPPED e = None"
  by (simp_all add: next_state_def workflowNodeMachine_def)

lemma isTerminal_simps [simp]:
  "\<not> isTerminal WS_PLANNED" "\<not> isTerminal WS_READY" "\<not> isTerminal WS_RUNNING" "\<not> isTerminal WS_WAITING"
  "\<not> isTerminal WS_VERIFYING" "isTerminal WS_COMPLETED" "isTerminal WS_FAILED" "\<not> isTerminal WS_RETRYING"
  "\<not> isTerminal WS_COMPENSATING" "isTerminal WS_ROLLED_BACK" "isTerminal WS_QUARANTINED"
  "isTerminal WS_CANCELLED" "isTerminal WS_SKIPPED"
  by (simp_all add: isTerminal_def TERMINAL_STATUSES_def)

interpretation workflow_sm: machine workflowNodeMachine status_final
  by unfold_locales (auto simp: status_final_def isTerminal_def TERMINAL_STATUSES_def workflow_next_simps)

section \<open>Properties\<close>

lemma task_completion_gate:
  "next_state taskStateMachine s e = Some t \<Longrightarrow> t \<in> {TS_COMPLETED, TS_VERIFYING} \<Longrightarrow>
    s \<notin> {TS_COMPLETED, TS_VERIFYING} \<Longrightarrow> s \<in> {TS_RUNNING}"
  by (cases s) (auto simp: task_next_simps split: if_splits)

lemma workflow_verify_gate:
  "next_state workflowNodeMachine s e = Some t \<Longrightarrow> t \<in> {WS_COMPLETED} \<Longrightarrow> s \<notin> {WS_COMPLETED} \<Longrightarrow>
    s \<in> {WS_VERIFYING}"
  by (cases s) (auto simp: workflow_next_simps split: if_splits)

lemma workflow_running_gate:
  "next_state workflowNodeMachine s e = Some t \<Longrightarrow> t \<in> {WS_COMPLETED, WS_VERIFYING} \<Longrightarrow>
    s \<notin> {WS_COMPLETED, WS_VERIFYING} \<Longrightarrow> s \<in> {WS_RUNNING}"
  by (cases s) (auto simp: workflow_next_simps split: if_splits)

text \<open>\<open>isTerminal\<close> counts \<open>FAILED\<close> in although the machine leaves it.\<close>

lemma failed_is_left: "isTerminal WS_FAILED \<and> canTransition workflowNodeMachine WS_FAILED WE_RETRY"
  by (simp add: canTransition_def workflow_next_simps)

text \<open>Whatever events a planned task is fed, if every one is legal and the task ends up
  \<open>COMPLETED\<close>, it was \<open>RUNNING\<close> in between; and once it has completed every further event is
  rejected.\<close>

theorem task_completes_through_running:
  assumes "foldE (\<lambda>e s. transition show_s show_e taskStateMachine s e) es TS_PLANNED = Inr TS_COMPLETED"
  shows "(\<exists>us vs. es = us @ vs \<and>
      foldE (\<lambda>e s. transition show_s show_e taskStateMachine s e) us TS_PLANNED = Inr TS_RUNNING) \<and>
    \<not> is_ok (foldE (\<lambda>e s. transition show_s show_e taskStateMachine s e) (es @ [e]) TS_PLANNED)"
proof
  let ?step = "\<lambda>e s. transition show_s show_e taskStateMachine s e"
  obtain ws where ws: "walk taskStateMachine TS_PLANNED ws TS_COMPLETED" "map fst ws = es"
    using run_walk [OF assms] by blast
  have "TS_RUNNING \<in> set (map snd ws)"
    using task_sm.must_pass [where T = "{TS_COMPLETED, TS_VERIFYING}" and G = "{TS_RUNNING}",
        OF task_completion_gate ws(1)] by simp
  then obtain e xs ys where sp: "ws = (xs @ [(e, TS_RUNNING)]) @ ys"
    by (auto simp: in_set_conv_decomp)
  have "walk taskStateMachine TS_PLANNED (xs @ [(e, TS_RUNNING)]) TS_RUNNING"
    using walk_prefix [of taskStateMachine TS_PLANNED xs e TS_RUNNING ys] ws(1) sp by simp
  from walk_run [OF this] show "\<exists>us vs. es = us @ vs \<and> foldE ?step us TS_PLANNED = Inr TS_RUNNING"
    using ws(2) sp by (intro exI [of _ "map fst (xs @ [(e, TS_RUNNING)])"] exI [of _ "map fst ys"]) simp
  show "\<not> is_ok (foldE ?step (es @ [e]) TS_PLANNED)" for e
    using assms by (simp add: foldE_append transition_def task_sm.final_stuck task_final_def)
qed

theorem task_completes_through_running_witness:
  "(\<exists>us vs. [TE_START, TE_START_VERIFY, TE_VERIFY_PASS] = us @ vs \<and>
      foldE (\<lambda>e s. transition (\<lambda>_. []) (\<lambda>_. []) taskStateMachine s e) us TS_PLANNED = Inr TS_RUNNING) \<and>
    \<not> is_ok (foldE (\<lambda>e s. transition (\<lambda>_. []) (\<lambda>_. []) taskStateMachine s e)
      ([TE_START, TE_START_VERIFY, TE_VERIFY_PASS] @ [TE_RESUME]) TS_PLANNED)"
  by (rule task_completes_through_running) (simp add: transition_def task_next_simps)

text \<open>A node of a workflow reaches \<open>COMPLETED\<close> only through \<open>RUNNING\<close> and then \<open>VERIFYING\<close>: any
  legal succession of events from \<open>PLANNED\<close> to \<open>COMPLETED\<close> passes both.\<close>

theorem workflow_node_completes_verified:
  assumes "walk workflowNodeMachine WS_PLANNED ws WS_COMPLETED"
  shows "WS_RUNNING \<in> set (map snd ws) \<and> WS_VERIFYING \<in> set (map snd ws)"
  using workflow_sm.must_pass [where T = "{WS_COMPLETED}" and G = "{WS_VERIFYING}",
      OF workflow_verify_gate assms]
    workflow_sm.must_pass [where T = "{WS_COMPLETED, WS_VERIFYING}" and G = "{WS_RUNNING}",
      OF workflow_running_gate assms] by simp

theorem workflow_node_completes_verified_witness:
  "WS_RUNNING \<in> set (map snd [(WE_PREPARE, WS_READY), (WE_START, WS_RUNNING), (WE_VERIFY, WS_VERIFYING),
      (WE_COMPLETE, WS_COMPLETED)]) \<and>
   WS_VERIFYING \<in> set (map snd [(WE_PREPARE, WS_READY), (WE_START, WS_RUNNING), (WE_VERIFY, WS_VERIFYING),
      (WE_COMPLETE, WS_COMPLETED)])"
  by (rule workflow_node_completes_verified) (simp add: workflow_next_simps)

end
