(* ===== verification/Dag.thy ===== *)
theory Dag
  imports Contracts "HOL-Library.Multiset"
begin

text \<open>
  The task graph: \<open>validateDag\<close>, \<open>detectCycle\<close> and \<open>topologicalLayers\<close> of
  \<open>kernel/transition/src/dag.ts\<close>, and their twins \<open>validateGraph\<close> and \<open>topologicalLayers\<close> of
  \<open>runtime/orchestrator/src/dag.ts\<close>, which have the same code over another node type.  The
  definitions are polymorphic in the node record.  The cycle check is a depth-first search that
  marks nodes; its recursion carries fuel, and the fuel given (one more than the number of
  nodes) is proved to be enough.  Acceptance is proved equivalent to the graph being
  well-formed and acyclic, and the layers to be a complete schedule of an accepted graph.
\<close>

section \<open>Cycle detection\<close>

definition DagError :: "string \<Rightarrow> js_error" where
  "DagError message = JsError ''DagError'' message"

datatype mark = Visiting | Visited

type_synonym marks = "(string, mark) js_map"
type_synonym dep_map = "(string, string list) js_map"

text \<open>\<open>new Map(nodes.map((n) => [n.id, n]))\<close>, reduced to what the search reads.\<close>

definition by_id :: "'a dag_node_scheme list \<Rightarrow> dep_map" where
  "by_id nodes = fold (\<lambda>n m. map_set (node_id n) (node_deps n) m) nodes []"

text \<open>The closure \<open>visit\<close> and the loop over the dependencies of a node.  \<open>None\<close> is exhausted fuel.\<close>

fun visit :: "nat \<Rightarrow> dep_map \<Rightarrow> string \<Rightarrow> marks \<Rightarrow> (bool \<times> marks) option"
  and visit_all :: "nat \<Rightarrow> dep_map \<Rightarrow> string list \<Rightarrow> marks \<Rightarrow> (bool \<times> marks) option" where
  "visit 0 byId i st = None"
| "visit (Suc fuel) byId i st =
     (case map_get st i of
        Some Visiting \<Rightarrow> Some (True, st)
      | Some Visited \<Rightarrow> Some (False, st)
      | None \<Rightarrow>
          let st1 = map_set i Visiting st in
          (case map_get byId i of
             None \<Rightarrow> Some (False, map_set i Visited st1)
           | Some deps \<Rightarrow>
               (case visit_all fuel byId deps st1 of
                  None \<Rightarrow> None
                | Some (True, st2) \<Rightarrow> Some (True, st2)
                | Some (False, st2) \<Rightarrow> Some (False, map_set i Visited st2))))"
| "visit_all fuel byId [] st = Some (False, st)"
| "visit_all fuel byId (d # ds) st =
     (case visit fuel byId d st of
        None \<Rightarrow> None
      | Some (True, st') \<Rightarrow> Some (True, st')
      | Some (False, st') \<Rightarrow> visit_all fuel byId ds st')"

definition search :: "'a dag_node_scheme list \<Rightarrow> (bool \<times> marks) option" where
  "search nodes = visit_all (Suc (length nodes)) (by_id nodes) (map node_id nodes) []"

definition detectCycle :: "'a dag_node_scheme list \<Rightarrow> bool" where
  "detectCycle nodes = (case search nodes of None \<Rightarrow> False | Some (r, _) \<Rightarrow> r)"

section \<open>Validation and layers\<close>

definition unknown_dep :: "'a dag_node_scheme list \<Rightarrow> (string \<times> string) option" where
  "unknown_dep nodes =
     find (\<lambda>(n, d). d \<notin> set (map node_id nodes))
       (concat (map (\<lambda>n. map (Pair (node_id n)) (node_deps n)) nodes))"

definition validateDag :: "'a dag_node_scheme list \<Rightarrow> js_error + unit" where
  "validateDag nodes =
     (if length (remdups (map node_id nodes)) \<noteq> length nodes then Inl (DagError ''duplicate node ids'')
      else
        (case unknown_dep nodes of
           Some (n, d) \<Rightarrow> Inl (DagError (''node '' @ quoted n @ '' depends on unknown node '' @ quoted d))
         | None \<Rightarrow>
             if detectCycle nodes then Inl (DagError ''plan contains a cycle'') else Inr ()))"

text \<open>The orchestrator's copy.\<close>

definition validateGraph :: "'a dag_node_scheme list \<Rightarrow> js_error + unit" where
  "validateGraph nodes =
     (let ids = map node_id nodes in
      if length (remdups ids) \<noteq> length nodes then Inl (DagError ''duplicate node ids'')
      else
        (case unknown_dep nodes of
           Some (n, d) \<Rightarrow> Inl (DagError (''node '' @ quoted n @ '' depends on unknown node '' @ quoted d))
         | None \<Rightarrow> if detectCycle nodes then Inl (DagError ''plan contains a cycle'') else Inr ()))"

lemma validateGraph_validateDag: "validateGraph nodes = validateDag nodes"
  by (simp add: validateGraph_def validateDag_def Let_def)

definition ready_layer :: "string list \<Rightarrow> 'a dag_node_scheme list \<Rightarrow> 'a dag_node_scheme list" where
  "ready_layer satisfied remaining = filter (\<lambda>n. list_all (\<lambda>d. d \<in> set satisfied) (node_deps n)) remaining"

text \<open>The loop of \<open>topologicalLayers\<close>; \<open>remaining\<close> lists the values of the map in its order.\<close>

function layers_loop ::
  "string list \<Rightarrow> 'a dag_node_scheme list \<Rightarrow> js_error + 'a dag_node_scheme list list" where
  "layers_loop satisfied remaining =
     (if remaining = [] then Inr []
      else
        let layer = ready_layer satisfied remaining in
        if layer = [] then Inl (DagError ''unreachable nodes (cycle or missing dependency)'')
        else
          bindE (layers_loop (satisfied @ map node_id layer)
                   (filter (\<lambda>n. node_id n \<notin> set (map node_id layer)) remaining))
            (\<lambda>layers. Inr (layer # layers)))"
  by pat_completeness auto
termination
proof (relation "measure (\<lambda>(satisfied, remaining). length remaining)")
  show "wf (measure (\<lambda>(satisfied :: string list, remaining :: 'a dag_node_scheme list). length remaining))"
    by simp
  fix satisfied and remaining layer :: "'a dag_node_scheme list"
  assume layer: "layer = ready_layer satisfied remaining" "layer \<noteq> []"
  then obtain n where n: "n \<in> set layer" by (metis hd_in_set)
  then have "n \<in> set remaining" "node_id n \<in> set (map node_id layer)"
    using layer(1) by (auto simp: ready_layer_def)
  then have "length (filter (\<lambda>n. node_id n \<notin> set (map node_id layer)) remaining) < length remaining"
    by (intro length_filter_less) auto
  then show "((satisfied @ map node_id layer, filter (\<lambda>n. node_id n \<notin> set (map node_id layer)) remaining),
      satisfied, remaining) \<in> measure (\<lambda>(satisfied, remaining). length remaining)"
    by simp
qed

declare layers_loop.simps [simp del]

definition topologicalLayers ::
  "'a dag_node_scheme list \<Rightarrow> js_error + 'a dag_node_scheme list list" where
  "topologicalLayers nodes = bindE (validateDag nodes) (\<lambda>_. layers_loop [] nodes)"

section \<open>The search is a cycle check\<close>

definition edges :: "dep_map \<Rightarrow> (string \<times> string) set" where
  "edges g = {(u, v). \<exists>ds. map_get g u = Some ds \<and> v \<in> set ds}"

definition grey :: "marks \<Rightarrow> string set" where
  "grey st = {x. map_get st x = Some Visiting}"

definition black :: "marks \<Rightarrow> string set" where
  "black st = {x. map_get st x = Some Visited}"

definition search_inv :: "dep_map \<Rightarrow> marks \<Rightarrow> bool" where
  "search_inv g st \<longleftrightarrow> edges g `` black st \<subseteq> black st \<and> (\<forall>u \<in> black st. (u, u) \<notin> (edges g)\<^sup>+)"

lemma grey_black_set [simp]:
  "grey (map_set i Visiting st) = insert i (grey st)"
  "grey (map_set i Visited st) = grey st - {i}"
  "black (map_set i Visiting st) = black st - {i}"
  "black (map_set i Visited st) = insert i (black st)"
  by (auto simp: grey_def black_def split: if_splits)

lemma closed_trancl:
  assumes "E `` B \<subseteq> B" "(u, v) \<in> E\<^sup>+" "u \<in> B"
  shows "v \<in> B"
  using assms(2,1,3) by (induction rule: trancl_induct) auto

lemma edges_Some: "map_get g i = Some ds \<Longrightarrow> (i, d) \<in> edges g \<longleftrightarrow> d \<in> set ds"
  by (simp add: edges_def)

lemma search_inv_finish:
  assumes inv: "search_inv g st" and grey: "i \<in> grey st"
    and deps: "edges g `` {i} \<subseteq> black st"
  shows "search_inv g (map_set i Visited st)"
proof -
  have closed: "edges g `` black st \<subseteq> black st" using inv by (simp add: search_inv_def)
  have nb: "i \<notin> black st" using grey by (simp add: grey_def black_def)
  have "(i, i) \<notin> (edges g)\<^sup>+"
  proof
    assume "(i, i) \<in> (edges g)\<^sup>+"
    then obtain d where d: "(i, d) \<in> edges g" "(d, i) \<in> (edges g)\<^sup>*" by (auto dest: tranclD)
    then have "d \<in> black st" using deps by auto
    then have "d \<noteq> i" using nb by auto
    with d(2) have "(d, i) \<in> (edges g)\<^sup>+" by (simp add: rtrancl_eq_or_trancl)
    then show False using closed_trancl [OF closed] \<open>d \<in> black st\<close> nb by blast
  qed
  then show ?thesis using inv deps by (auto simp: search_inv_def)
qed

text \<open>A search that answers \<open>False\<close> blackens its roots and keeps the invariant; one that answers
  \<open>True\<close> has found a cycle, provided every grey node reaches the roots.\<close>

lemma visit_False:
  "visit fuel g i st = Some (False, st') \<Longrightarrow> search_inv g st \<Longrightarrow>
     search_inv g st' \<and> grey st' = grey st \<and> insert i (black st) \<subseteq> black st'"
  "visit_all fuel g ds st = Some (False, st') \<Longrightarrow> search_inv g st \<Longrightarrow>
     search_inv g st' \<and> grey st' = grey st \<and> set ds \<union> black st \<subseteq> black st'"
proof (induction fuel g i st and fuel g ds st arbitrary: st' and st' rule: visit_visit_all.induct)
  case (2 fuel g i st)
  show ?case
  proof (cases "map_get st i")
    case (Some m)
    then show ?thesis using "2.prems" by (cases m) (auto simp: black_def)
  next
    case None
    let ?st1 = "map_set i Visiting st"
    have fresh: "i \<notin> black st" "i \<notin> grey st" using None by (auto simp: black_def grey_def)
    have inv1: "search_inv g ?st1" using "2.prems"(2) fresh by (auto simp: search_inv_def)
    show ?thesis
    proof (cases "map_get g i")
      case n: None
      then have "edges g `` {i} = {}" by (auto simp: edges_def)
      then have "search_inv g (map_set i Visited ?st1)" by (intro search_inv_finish inv1) auto
      moreover have "st' = map_set i Visited ?st1" using "2.prems"(1) None n by (simp add: Let_def)
      ultimately show ?thesis using fresh by auto
    next
      case (Some ds)
      then obtain st2 where st2: "visit_all fuel g ds ?st1 = Some (False, st2)" "st' = map_set i Visited st2"
        using "2.prems"(1) None by (auto simp: Let_def split: option.splits bool.splits)
      have r: "search_inv g st2" "grey st2 = insert i (grey st)" "set ds \<union> (black st - {i}) \<subseteq> black st2"
        using "2.IH" [OF None refl Some st2(1) inv1] by auto
      have "search_inv g (map_set i Visited st2)"
        using r edges_Some [OF Some] by (intro search_inv_finish) auto
      then show ?thesis using r st2(2) fresh by auto
    qed
  qed
next
  case (4 fuel g d ds st)
  then obtain st1 where st1: "visit fuel g d st = Some (False, st1)" "visit_all fuel g ds st1 = Some (False, st')"
    by (auto split: option.splits bool.splits)
  with "4.IH"(1) [OF st1(1) "4.prems"(2)] "4.IH"(2) [OF st1(1) refl _ st1(2)] show ?case by auto
qed auto

lemma visit_True:
  "visit fuel g i st = Some (True, st') \<Longrightarrow> search_inv g st \<Longrightarrow> grey st \<times> {i} \<subseteq> (edges g)\<^sup>+ \<Longrightarrow>
     \<exists>x. (x, x) \<in> (edges g)\<^sup>+"
  "visit_all fuel g ds st = Some (True, st') \<Longrightarrow> search_inv g st \<Longrightarrow> grey st \<times> set ds \<subseteq> (edges g)\<^sup>+ \<Longrightarrow>
     \<exists>x. (x, x) \<in> (edges g)\<^sup>+"
proof (induction fuel g i st and fuel g ds st arbitrary: st' and st' rule: visit_visit_all.induct)
  case (2 fuel g i st)
  show ?case
  proof (cases "map_get st i")
    case (Some m)
    then have "i \<in> grey st" using "2.prems"(1) by (cases m) (auto simp: grey_def)
    then show ?thesis using "2.prems"(3) by auto
  next
    case None
    let ?st1 = "map_set i Visiting st"
    have fresh: "i \<notin> black st" using None by (auto simp: black_def)
    have inv1: "search_inv g ?st1" using "2.prems"(2) fresh by (auto simp: search_inv_def)
    from None "2.prems"(1) obtain ds where ds: "map_get g i = Some ds" "visit_all fuel g ds ?st1 = Some (True, st')"
      by (auto simp: Let_def split: option.splits bool.splits)
    have "(x, d) \<in> (edges g)\<^sup>+" if "x \<in> grey ?st1" "d \<in> set ds" for x d
    proof -
      have e: "(i, d) \<in> edges g" using that(2) edges_Some [OF ds(1)] by simp
      show ?thesis using that(1) "2.prems"(3) e by (auto intro: trancl_into_trancl)
    qed
    then show ?thesis using "2.IH" [OF None refl ds inv1] by auto
  qed
next
  case (4 fuel g d ds st)
  show ?case
  proof (cases "visit fuel g d st")
    case None
    then show ?thesis using "4.prems"(1) by simp
  next
    case (Some r)
    obtain b st1 where r: "r = (b, st1)" by (cases r)
    show ?thesis
    proof (cases b)
      case True
      then show ?thesis using "4.IH"(1) [of st1] "4.prems" Some r by auto
    next
      case False
      then have "search_inv g st1 \<and> grey st1 = grey st"
        using visit_False(1) [of fuel g d st st1] Some r "4.prems"(2) by simp
      then show ?thesis using "4.IH"(2) [OF Some [unfolded r] refl, of st'] "4.prems" Some r False by auto
    qed
  qed
qed auto

section \<open>The fuel is enough\<close>

definition white :: "dep_map \<Rightarrow> marks \<Rightarrow> string set" where
  "white g st = {x. map_get g x \<noteq> None \<and> map_get st x = None}"

lemma finite_white [simp]: "finite (white g st)"
  by (rule finite_subset [OF _ finite_dom_map_of [of g]]) (auto simp: white_def)

lemma visit_total:
  "card (white g st) < fuel \<Longrightarrow> \<exists>r st'. visit fuel g i st = Some (r, st') \<and> white g st' \<subseteq> white g st"
  "card (white g st) < fuel \<Longrightarrow> \<exists>r st'. visit_all fuel g ds st = Some (r, st') \<and> white g st' \<subseteq> white g st"
proof (induction fuel g i st and fuel g ds st rule: visit_visit_all.induct)
  case (2 fuel g i st)
  show ?case
  proof (cases "map_get st i")
    case (Some m)
    then show ?thesis by (cases m) auto
  next
    case None
    let ?st1 = "map_set i Visiting st"
    show ?thesis
    proof (cases "map_get g i")
      case n: None
      then show ?thesis using None by (auto simp: Let_def white_def)
    next
      case (Some ds)
      have w: "white g ?st1 = white g st - {i}" "i \<in> white g st"
        using None Some by (auto simp: white_def split: if_splits)
      then have "card (white g ?st1) < card (white g st)" by (metis card_Diff1_less finite_white)
      then have "card (white g ?st1) < fuel" using "2.prems" by simp
      then obtain r st2 where st2: "visit_all fuel g ds ?st1 = Some (r, st2)" "white g st2 \<subseteq> white g ?st1"
        using "2.IH" [OF None refl Some] by blast
      have "white g (map_set i Visited st2) \<subseteq> white g st2" by (auto simp: white_def split: if_splits)
      then show ?thesis using st2 None Some w by (cases r) (auto simp: Let_def)
    qed
  qed
next
  case (4 fuel g d ds st)
  obtain r st1 where r: "visit fuel g d st = Some (r, st1)" "white g st1 \<subseteq> white g st"
    using "4.IH"(1) "4.prems" by blast
  have "card (white g st1) \<le> card (white g st)" using r(2) by (simp add: card_mono)
  then have w: "card (white g st1) < fuel" using "4.prems" by simp
  show ?case
  proof (cases r)
    case True
    then show ?thesis using r by (intro exI [of _ True] exI [of _ st1]) simp
  next
    case False
    then obtain r' st2 where "visit_all fuel g ds st1 = Some (r', st2)" "white g st2 \<subseteq> white g st1"
      using "4.IH"(2) [OF r(1) refl] w by auto
    then show ?thesis using r False by auto
  qed
qed auto

section \<open>The graph of a node list\<close>

definition node_edges :: "'a dag_node_scheme list \<Rightarrow> (string \<times> string) set" where
  "node_edges nodes = (\<Union>n \<in> set nodes. {node_id n} \<times> set (node_deps n))"

definition deps_known :: "'a dag_node_scheme list \<Rightarrow> bool" where
  "deps_known nodes \<longleftrightarrow> list_all (\<lambda>n. set (node_deps n) \<subseteq> set (map node_id nodes)) nodes"

lemma finite_node_edges [simp]: "finite (node_edges nodes)"
  by (simp add: node_edges_def)

lemma node_edges_iff: "(u, v) \<in> node_edges nodes \<longleftrightarrow> (\<exists>n \<in> set nodes. node_id n = u \<and> v \<in> set (node_deps n))"
  by (auto simp: node_edges_def)

lemma by_id_from:
  "distinct (map fst m @ map node_id nodes) \<Longrightarrow>
    fold (\<lambda>n m. map_set (node_id n) (node_deps n) m) nodes m = m @ map (\<lambda>n. (node_id n, node_deps n)) nodes"
proof (induction nodes arbitrary: m)
  case Nil
  then show ?case by simp
next
  case (Cons n nodes)
  have "map_set (node_id n) (node_deps n) m = m @ [(node_id n, node_deps n)]"
    using Cons.prems by (intro map_set_new) (auto simp: map_of_eq_None_iff)
  then show ?case using Cons.prems Cons.IH [of "m @ [(node_id n, node_deps n)]"] by auto
qed

lemma by_id_distinct:
  "distinct (map node_id nodes) \<Longrightarrow> by_id nodes = map (\<lambda>n. (node_id n, node_deps n)) nodes"
  using by_id_from [of "[]" nodes] by (simp add: by_id_def)

lemma by_id_keys: "dom (map_of (by_id nodes)) \<subseteq> set (map node_id nodes)"
proof -
  have "dom (map_of (fold (\<lambda>n m. map_set (node_id n) (node_deps n) m) ns m)) \<subseteq>
      dom (map_of m) \<union> set (map node_id ns)" for ns m
    by (induction ns arbitrary: m) (force split: if_splits)+
  from this [of nodes "[]"] show ?thesis by (simp add: by_id_def)
qed

text \<open>The fuel given to the search is enough for every node list.\<close>

lemma search_total: "search nodes \<noteq> None"
proof -
  have "white (by_id nodes) [] \<subseteq> set (map node_id nodes)"
    using by_id_keys by (force simp: white_def)
  then have "card (white (by_id nodes) []) \<le> card (set (map node_id nodes))" by (intro card_mono) auto
  also have "\<dots> \<le> length nodes" using card_length [of "map node_id nodes"] by simp
  finally have "card (white (by_id nodes) []) < Suc (length nodes)" by simp
  from visit_total(2) [OF this, of "map node_id nodes"] show ?thesis by (auto simp: search_def)
qed

lemma detectCycle_iff:
  assumes "distinct (map node_id nodes)"
  shows "detectCycle nodes \<longleftrightarrow> \<not> acyclic (node_edges nodes)"
proof -
  have "map_get (by_id nodes) u = Some ds \<longleftrightarrow> (\<exists>n \<in> set nodes. node_id n = u \<and> node_deps n = ds)" for u ds
    using assms by (simp add: by_id_distinct map_of_eq_Some_iff comp_def) (auto simp: image_iff)
  then have E: "edges (by_id nodes) = node_edges nodes" by (simp add: edges_def node_edges_def) blast
  obtain r st where r: "search nodes = Some (r, st)" using search_total [of nodes] by auto
  have inv0: "search_inv (by_id nodes) []" by (simp add: search_inv_def black_def)
  show ?thesis
  proof (cases r)
    case True
    then have "\<exists>x. (x, x) \<in> (edges (by_id nodes))\<^sup>+"
      using r visit_True(2) [OF _ inv0] by (simp add: search_def grey_def)
    then show ?thesis using E r True by (auto simp: detectCycle_def acyclic_def)
  next
    case False
    then have st: "search_inv (by_id nodes) st" "set (map node_id nodes) \<subseteq> black st"
      using r visit_False(2) [OF _ inv0, of "Suc (length nodes)" "map node_id nodes" st]
      by (auto simp: search_def)
    have "(x, x) \<notin> (node_edges nodes)\<^sup>+" for x
    proof
      assume c: "(x, x) \<in> (node_edges nodes)\<^sup>+"
      then obtain y where "(x, y) \<in> node_edges nodes" by (auto dest: tranclD)
      then have "x \<in> black st" using st(2) by (auto simp: node_edges_iff)
      then show False using st(1) c E by (auto simp: search_inv_def)
    qed
    then show ?thesis using r False by (simp add: detectCycle_def acyclic_def)
  qed
qed

lemma unknown_dep_None: "unknown_dep nodes = None \<longleftrightarrow> deps_known nodes"
  by (simp add: unknown_dep_def find_None_iff deps_known_def list_all_iff) fastforce

section \<open>Layers\<close>

text \<open>\<open>sat\<close> lists the identifiers already scheduled when the first layer runs.\<close>

fun layers_respect :: "string list \<Rightarrow> 'a dag_node_scheme list list \<Rightarrow> bool" where
  "layers_respect sat [] = True"
| "layers_respect sat (layer # layers) =
     (layer \<noteq> [] \<and> list_all (\<lambda>n. set (node_deps n) \<subseteq> set sat) layer \<and>
      layers_respect (sat @ map node_id layer) layers)"

lemma node_edges_mono: "set ns \<subseteq> set ms \<Longrightarrow> node_edges ns \<subseteq> node_edges ms"
  by (auto simp: node_edges_def)

lemma ready_layer_ne:
  assumes "remaining \<noteq> []" "acyclic (node_edges remaining)"
    and known: "list_all (\<lambda>n. set (node_deps n) \<subseteq> set sat \<union> set (map node_id remaining)) remaining"
  shows "ready_layer sat remaining \<noteq> []"
proof -
  have "wf ((node_edges remaining)\<inverse>)" using assms(2) by (simp add: finite_acyclic_wf_converse)
  moreover have "node_id (hd remaining) \<in> set (map node_id remaining)" using assms(1) by simp
  ultimately obtain x where x: "x \<in> set (map node_id remaining)"
      "\<And>y. (y, x) \<in> (node_edges remaining)\<inverse> \<Longrightarrow> y \<notin> set (map node_id remaining)"
    by (rule wfE_min) blast
  then obtain n where n: "n \<in> set remaining" "node_id n = x" by auto
  have "d \<in> set sat" if "d \<in> set (node_deps n)" for d
  proof -
    have "(d, x) \<in> (node_edges remaining)\<inverse>" using that n by (auto simp: node_edges_iff)
    then have "d \<notin> set (map node_id remaining)" using x(2) by blast
    then show ?thesis using known that n(1) by (auto simp: list_all_iff)
  qed
  then have "n \<in> set (ready_layer sat remaining)" using n(1) by (simp add: ready_layer_def list_all_iff)
  then show ?thesis by auto
qed

lemma layers_loop_complete:
  "distinct (map node_id remaining) \<Longrightarrow> acyclic (node_edges remaining) \<Longrightarrow>
    list_all (\<lambda>n. set (node_deps n) \<subseteq> set sat \<union> set (map node_id remaining)) remaining \<Longrightarrow>
    \<exists>layers. layers_loop sat remaining = Inr layers \<and> mset (concat layers) = mset remaining \<and> layers_respect sat layers"
proof (induction sat remaining rule: layers_loop.induct)
  case (1 sat remaining)
  show ?case
  proof (cases "remaining = []")
    case True
    then show ?thesis by (simp add: layers_loop.simps)
  next
    case False
    define layer where "layer = ready_layer sat remaining"
    define rest where "rest = filter (\<lambda>n. node_id n \<notin> set (map node_id layer)) remaining"
    have ne: "layer \<noteq> []" unfolding layer_def by (rule ready_layer_ne [OF False "1.prems"(2,3)])
    have sub: "set layer \<subseteq> set remaining" by (auto simp: layer_def ready_layer_def)
    have rest: "rest = filter (\<lambda>n. \<not> list_all (\<lambda>d. d \<in> set sat) (node_deps n)) remaining"
      using "1.prems"(1) unfolding rest_def layer_def ready_layer_def
      by (intro filter_cong) (auto simp: distinct_map inj_on_def)
    have "\<exists>layers. layers_loop (sat @ map node_id layer) rest = Inr layers \<and>
        mset (concat layers) = mset rest \<and> layers_respect (sat @ map node_id layer) layers"
    proof (rule "1.IH" [OF False layer_def ne, folded rest_def])
      show "distinct (map node_id rest)" using "1.prems"(1) by (simp add: rest distinct_map_filter)
      show "acyclic (node_edges rest)"
        using "1.prems"(2) node_edges_mono [of rest remaining] by (auto simp: rest intro: acyclic_subset)
      show "list_all (\<lambda>n. set (node_deps n) \<subseteq> set (sat @ map node_id layer) \<union> set (map node_id rest)) rest"
        using "1.prems"(3) by (fastforce simp: list_all_iff rest_def)
    qed
    then obtain layers where l: "layers_loop (sat @ map node_id layer) rest = Inr layers"
        "mset (concat layers) = mset rest" "layers_respect (sat @ map node_id layer) layers" by blast
    have "mset layer + mset rest = mset remaining"
      by (simp add: layer_def ready_layer_def rest mset_filter)
    moreover have "list_all (\<lambda>n. set (node_deps n) \<subseteq> set sat) layer"
      by (auto simp: layer_def ready_layer_def list_all_iff)
    moreover have "layers_loop sat remaining = Inr (layer # layers)"
      using l(1) ne False by (subst layers_loop.simps)
        (simp only: Let_def layer_def [symmetric] rest_def [symmetric] if_False bindE_simps)
    ultimately show ?thesis using l ne by auto
  qed
qed

lemma validateDag_ok:
  "is_ok (validateDag nodes) \<longleftrightarrow>
     distinct (map node_id nodes) \<and> deps_known nodes \<and> acyclic (node_edges nodes)"
proof (cases "distinct (map node_id nodes)")
  case True
  then have "length (remdups (map node_id nodes)) = length nodes" by (simp add: distinct_remdups_id)
  then show ?thesis using True detectCycle_iff [OF True]
    by (cases "unknown_dep nodes") (auto simp: validateDag_def unknown_dep_None [symmetric])
next
  case False
  have "length (remdups (map node_id nodes)) \<noteq> length (map node_id nodes)"
    using False by (simp only: length_remdups_eq) (metis distinct_remdups)
  then show ?thesis using False by (simp add: validateDag_def)
qed

section \<open>Properties\<close>

text \<open>C29.  A graph is accepted exactly when its node identifiers are distinct, every dependency is
  a node, and the dependency relation is acyclic; the depth-first search never runs out of
  fuel.\<close>

theorem validateDag_iff:
  "is_ok (validateDag nodes) \<longleftrightarrow>
     distinct (map node_id nodes) \<and> deps_known nodes \<and> acyclic (node_edges nodes)"
  by (rule validateDag_ok)

text \<open>C30.  \<open>topologicalLayers\<close> fails only as \<open>validateDag\<close> does; on an accepted graph it returns
  non-empty layers that contain every node exactly once and put each node after all of its
  dependencies.\<close>

theorem topologicalLayers_correct:
  "case topologicalLayers nodes of
     Inl e \<Rightarrow> validateDag nodes = Inl e
   | Inr layers \<Rightarrow> is_ok (validateDag nodes) \<and> mset (concat layers) = mset nodes \<and> layers_respect [] layers"
proof (cases "validateDag nodes")
  case (Inl e)
  then show ?thesis by (simp add: topologicalLayers_def)
next
  case (Inr u)
  then have "distinct (map node_id nodes) \<and> deps_known nodes \<and> acyclic (node_edges nodes)"
    using validateDag_ok [of nodes] by simp
  then obtain layers where "layers_loop [] nodes = Inr layers" "mset (concat layers) = mset nodes"
      "layers_respect [] layers"
    using layers_loop_complete [of nodes "[]"] by (auto simp: deps_known_def)
  then show ?thesis using Inr by (simp add: topologicalLayers_def)
qed

end
