(* ===== verification/Economics.thy ===== *)
theory Economics
  imports Contracts
begin

text \<open>
  Usage metering and quotas: \<open>kernel/economics/src/index.ts\<close> and the billing adapter of
  \<open>adapters/billing/src/index.ts\<close>.  Usage is a total per resource.  The main result is
  budget safety: a tenant whose work is checked before it is recorded never exceeds the limit of
  any metered resource of its plan, whatever other tenants do; the resources a plan leaves
  unmetered are characterised.
\<close>

section \<open>Usage\<close>

definition EMPTY_USAGE :: usage where
  "EMPTY_USAGE = (\<lambda>_. 0)"

definition add_usage :: "usage_event \<Rightarrow> usage \<Rightarrow> usage" where
  "add_usage e acc = acc(ue_resource e := acc (ue_resource e) + ue_amount e)"

record usage_meter =
  um_total :: usage
  um_events :: "usage_event list"

definition new_usage_meter :: usage_meter where
  "new_usage_meter = \<lparr>um_total = EMPTY_USAGE, um_events = []\<rparr>"

definition meter_record :: "usage_event \<Rightarrow> usage_meter \<Rightarrow> usage_meter" where
  "meter_record event m =
     m\<lparr>um_total := add_usage event (um_total m), um_events := um_events m @ [event]\<rparr>"

definition meter_usage :: "usage_meter \<Rightarrow> usage" where
  "meter_usage m = um_total m"

definition meter_history :: "usage_meter \<Rightarrow> usage_event list" where
  "meter_history m = um_events m"

section \<open>Quotas\<close>

definition resource_string :: "usage_resource \<Rightarrow> string" where
  "resource_string r =
     (case r of Execution_seconds \<Rightarrow> ''execution_seconds'' | Tool_calls \<Rightarrow> ''tool_calls''
      | Model_calls \<Rightarrow> ''model_calls'' | Network_requests \<Rightarrow> ''network_requests''
      | Tokens \<Rightarrow> ''tokens'' | Runs \<Rightarrow> ''runs'')"

definition limitFor :: "budget_policy \<Rightarrow> usage_resource \<Rightarrow> int option" where
  "limitFor budget resource =
     (case resource of
        Execution_seconds \<Rightarrow> Some (maxExecutionSeconds budget)
      | Tool_calls \<Rightarrow> Some (maxToolCalls budget)
      | Model_calls \<Rightarrow> Some (maxModelCalls budget)
      | Network_requests \<Rightarrow> Some (maxNetworkRequests budget)
      | Tokens \<Rightarrow> maxTokens budget
      | Runs \<Rightarrow> maxRuns budget)"

definition budget_allows :: "budget_policy \<Rightarrow> usage \<Rightarrow> usage_increment \<Rightarrow> quota_decision" where
  "budget_allows budget current increment =
     (case limitFor budget (inc_resource increment) of
        None \<Rightarrow> \<lparr>qd_allowed = True, qd_reason = ''unmetered resource''\<rparr>
      | Some limit \<Rightarrow>
          let next = current (inc_resource increment) + inc_amount increment in
          if limit < next then
            \<lparr>qd_allowed = False, qd_reason = resource_string (inc_resource increment) @
               '' quota exceeded ('' @ show_int next @ '' > '' @ show_int limit @ '')''\<rparr>
          else \<lparr>qd_allowed = True, qd_reason = ''within budget''\<rparr>)"

definition FREE_PLAN :: usage_plan where
  "FREE_PLAN = \<lparr>plan_id = Plan_free,
     plan_budget = \<lparr>maxExecutionSeconds = 300, maxToolCalls = 100, maxModelCalls = 20,
       maxNetworkRequests = 20, maxTokens = None, maxRuns = Some 10, maxEstimatedCostUsd = None\<rparr>,
     plan_billingRequired = False\<rparr>"

definition BYOK_PLAN :: usage_plan where
  "BYOK_PLAN = \<lparr>plan_id = Plan_byok,
     plan_budget = \<lparr>maxExecutionSeconds = 3600, maxToolCalls = 1000, maxModelCalls = 200,
       maxNetworkRequests = 200, maxTokens = None, maxRuns = Some 100, maxEstimatedCostUsd = None\<rparr>,
     plan_billingRequired = False\<rparr>"

type_synonym plan_catalog = "usage_plan list"

definition default_catalog :: plan_catalog where
  "default_catalog = [FREE_PLAN, BYOK_PLAN]"

definition plan_string :: "plan_id \<Rightarrow> string" where
  "plan_string i = (case i of Plan_free \<Rightarrow> ''free'' | Plan_byok \<Rightarrow> ''byok'')"

definition catalog_get :: "plan_catalog \<Rightarrow> plan_id \<Rightarrow> js_error + usage_plan" where
  "catalog_get plans i =
     (case find (\<lambda>p. plan_id p = i) plans of
        None \<Rightarrow> Inl (plain_error (''unknown usage plan: '' @ plan_string i))
      | Some p \<Rightarrow> Inr p)"

section \<open>Tenant quotas\<close>

record tenant_quota =
  tq_plans :: plan_catalog
  tq_usage :: "(string, usage) js_map"

definition new_tenant_quota :: "plan_catalog \<Rightarrow> tenant_quota" where
  "new_tenant_quota plans = \<lparr>tq_plans = plans, tq_usage = []\<rparr>"

definition tenant_usage :: "tenant_quota \<Rightarrow> quota_subject \<Rightarrow> usage" where
  "tenant_usage q subject =
     (case map_get (tq_usage q) (qs_tenantId subject) of None \<Rightarrow> EMPTY_USAGE | Some u \<Rightarrow> u)"

definition tenant_allows ::
  "tenant_quota \<Rightarrow> quota_subject \<Rightarrow> plan_id \<Rightarrow> usage_increment \<Rightarrow> js_error + quota_decision" where
  "tenant_allows q subject planId increment =
     bindE (catalog_get (tq_plans q) planId)
       (\<lambda>plan. Inr (budget_allows (plan_budget plan) (tenant_usage q subject) increment))"

definition tenant_record :: "quota_subject \<Rightarrow> usage_event \<Rightarrow> tenant_quota \<Rightarrow> tenant_quota" where
  "tenant_record subject event q =
     (let current = tenant_usage q subject in
      q\<lparr>tq_usage := map_set (qs_tenantId subject) (add_usage event current) (tq_usage q)\<rparr>)"

text \<open>The protocol the class asks of its callers: check, then dispatch and record.\<close>

definition check_then_record :: "quota_subject \<times> plan_id \<times> usage_event \<Rightarrow> tenant_quota \<Rightarrow> tenant_quota" where
  "check_then_record r q =
     (case r of (subject, planId, event) \<Rightarrow>
        (case tenant_allows q subject planId
            \<lparr>inc_resource = ue_resource event, inc_amount = ue_amount event\<rparr> of
           Inl _ \<Rightarrow> q
         | Inr d \<Rightarrow> if qd_allowed d then tenant_record subject event q else q))"

lemma tenant_usage_record:
  "tenant_usage (tenant_record s e q) t =
     (if qs_tenantId t = qs_tenantId s then add_usage e (tenant_usage q s) else tenant_usage q t)"
  by (simp add: tenant_usage_def tenant_record_def Let_def)

lemma tenant_record_plans [simp]: "tq_plans (tenant_record s e q) = tq_plans q"
  by (simp add: tenant_record_def Let_def)

lemma budget_allows_iff:
  "qd_allowed (budget_allows b u inc) \<longleftrightarrow>
     (case limitFor b (inc_resource inc) of None \<Rightarrow> True
      | Some l \<Rightarrow> u (inc_resource inc) + inc_amount inc \<le> l)"
  by (auto simp: budget_allows_def Let_def split: option.splits)

definition within_limit :: "budget_policy \<Rightarrow> usage \<Rightarrow> usage_resource \<Rightarrow> bool" where
  "within_limit b u r = (case limitFor b r of None \<Rightarrow> True | Some l \<Rightarrow> u r \<le> l)"

lemma within_limit_add:
  assumes "qd_allowed (budget_allows b u \<lparr>inc_resource = ue_resource e, inc_amount = ue_amount e\<rparr>)"
    and "within_limit b u r"
  shows "within_limit b (add_usage e u) r"
  using assms by (auto simp: budget_allows_iff within_limit_def add_usage_def split: option.splits)

section \<open>Billing adapters\<close>

text \<open>The adapters receive usage reports; none of them charges.\<close>

definition noop_report :: "usage \<Rightarrow> unit \<Rightarrow> unit" where
  "noop_report u s = ()"

definition inmemory_report :: "usage \<Rightarrow> usage list \<Rightarrow> usage list" where
  "inmemory_report u reports = reports @ [u]"

record mock_billing =
  mb_reports :: "usage list"
  mb_suspended :: "string list"

definition mock_report :: "usage \<Rightarrow> mock_billing \<Rightarrow> mock_billing" where
  "mock_report u b = b\<lparr>mb_reports := mb_reports b @ [u]\<rparr>"

definition mock_suspend :: "string \<Rightarrow> mock_billing \<Rightarrow> mock_billing" where
  "mock_suspend subjectId b = b\<lparr>mb_suspended := List.insert subjectId (mb_suspended b)\<rparr>"

section \<open>The meter\<close>

lemma meter_total_is_history:
  "um_total (fold meter_record es new_usage_meter) =
     (\<lambda>r. \<Sum>e \<leftarrow> es. if ue_resource e = r then ue_amount e else 0) \<and>
   um_events (fold meter_record es new_usage_meter) = es"
proof (induction es rule: rev_induct)
  case Nil
  then show ?case by (simp add: new_usage_meter_def EMPTY_USAGE_def)
next
  case (snoc e es)
  then show ?case by (auto simp: meter_record_def add_usage_def fun_eq_iff)
qed

section \<open>Budget safety\<close>

text \<open>One request reads and changes only the usage of its own tenant.\<close>

lemma check_then_record_plans [simp]: "tq_plans (check_then_record r q) = tq_plans q"
  by (auto simp: check_then_record_def split: prod.splits sum.splits)

lemma check_then_record_other:
  "qs_tenantId (fst r) \<noteq> qs_tenantId t \<Longrightarrow> tenant_usage (check_then_record r q) t = tenant_usage q t"
  by (auto simp: check_then_record_def tenant_usage_record split: prod.splits sum.splits)

lemma tenant_usage_cong: "qs_tenantId s = qs_tenantId t \<Longrightarrow> tenant_usage q s = tenant_usage q t"
  by (simp add: tenant_usage_def)

lemma check_then_record_own:
  assumes "qs_tenantId (fst r) = qs_tenantId t"
    and "tq_plans q = tq_plans q'" "tenant_usage q t = tenant_usage q' t"
  shows "tenant_usage (check_then_record r q) t = tenant_usage (check_then_record r q') t"
proof -
  obtain s p e where r: "r = (s, p, e)" by (cases r)
  then have "tenant_usage q s = tenant_usage q' s" using assms tenant_usage_cong [of s t] by simp
  then show ?thesis using assms r
    by (auto simp: check_then_record_def tenant_usage_record tenant_allows_def split: sum.splits)
qed

lemma tenant_isolation:
  "tq_plans q = tq_plans q' \<Longrightarrow> tenant_usage q t = tenant_usage q' t \<Longrightarrow>
    tenant_usage (fold check_then_record rs q) t =
    tenant_usage (fold check_then_record (filter (\<lambda>r. qs_tenantId (fst r) = qs_tenantId t) rs) q') t"
proof (induction rs arbitrary: q q')
  case Nil
  then show ?case by simp
next
  case (Cons r rs)
  show ?case
  proof (cases "qs_tenantId (fst r) = qs_tenantId t")
    case True
    have "tenant_usage (check_then_record r q) t = tenant_usage (check_then_record r q') t"
      by (rule check_then_record_own [OF True Cons.prems])
    then show ?thesis using Cons True by simp
  next
    case False
    have "tenant_usage (check_then_record r q) t = tenant_usage q' t"
      using check_then_record_other [OF False] Cons.prems by simp
    then show ?thesis using Cons False by simp
  qed
qed

definition plan_requests :: "string \<Rightarrow> plan_id \<Rightarrow> (quota_subject \<times> plan_id \<times> usage_event) list \<Rightarrow> bool" where
  "plan_requests tid pid rs = list_all (\<lambda>(s, p, e). qs_tenantId s = tid \<longrightarrow> p = pid) rs"

lemma check_then_record_within:
  assumes "catalog_get (tq_plans q) pid = Inr plan" "qs_tenantId (fst r) = qs_tenantId t \<longrightarrow> fst (snd r) = pid"
    and "within_limit (plan_budget plan) (tenant_usage q t) res"
  shows "within_limit (plan_budget plan) (tenant_usage (check_then_record r q) t) res"
proof (cases "qs_tenantId (fst r) = qs_tenantId t")
  case True
  obtain s p e where r: "r = (s, p, e)" by (cases r)
  have u: "tenant_usage q s = tenant_usage q t" using True r tenant_usage_cong [of s t] by simp
  show ?thesis using assms True r u
    by (auto simp: check_then_record_def tenant_usage_record tenant_allows_def intro: within_limit_add)
next
  case False
  then show ?thesis using check_then_record_other assms(3) by simp
qed

section \<open>Properties\<close>

text \<open>C24.  Budget safety.  If all work of a tenant is checked and then recorded under one plan whose
  limits are not negative, the tenant's total of every metered resource stays within the plan,
  in whatever order the requests of this and of other tenants arrive.\<close>

theorem tenant_within_budget:
  assumes "catalog_get plans pid = Inr plan" "plan_requests (qs_tenantId t) pid rs"
    and "within_limit (plan_budget plan) EMPTY_USAGE r"
  shows "within_limit (plan_budget plan) (tenant_usage (fold check_then_record rs (new_tenant_quota plans)) t) r"
proof -
  have "within_limit (plan_budget plan) (tenant_usage q t) r \<Longrightarrow> tq_plans q = plans \<Longrightarrow>
      plan_requests (qs_tenantId t) pid rs \<Longrightarrow>
      within_limit (plan_budget plan) (tenant_usage (fold check_then_record rs q) t) r" for q
  proof (induction rs arbitrary: q)
    case Nil
    then show ?case by simp
  next
    case (Cons x rs)
    have "within_limit (plan_budget plan) (tenant_usage (check_then_record x q) t) r"
      using Cons.prems assms(1) by (intro check_then_record_within) (auto simp: plan_requests_def split: prod.splits)
    then show ?case using Cons by (simp add: plan_requests_def)
  qed
  then show ?thesis using assms(2,3) by (simp add: new_tenant_quota_def tenant_usage_def)
qed

definition demo_subject :: "string \<Rightarrow> quota_subject" where
  "demo_subject i = \<lparr>qs_tenantId = i, qs_userId = None\<rparr>"

definition demo_usage :: "usage_resource \<Rightarrow> int \<Rightarrow> usage_event" where
  "demo_usage r n = \<lparr>ue_resource = r, ue_amount = n, ue_at = 0, ue_actorId = ''a'', ue_runId = ''r'',
     ue_note = None, ue_tenantId = None, ue_userId = None\<rparr>"

theorem tenant_within_budget_witness:
  "within_limit (plan_budget FREE_PLAN)
     (tenant_usage (fold check_then_record
       [(demo_subject ''a'', Plan_free, demo_usage Model_calls 15),
        (demo_subject ''b'', Plan_byok, demo_usage Model_calls 150),
        (demo_subject ''a'', Plan_free, demo_usage Model_calls 15)]
       (new_tenant_quota default_catalog)) (demo_subject ''a'')) Model_calls"
  by (rule tenant_within_budget [where pid = Plan_free])
    (simp_all add: catalog_get_def default_catalog_def FREE_PLAN_def plan_requests_def demo_subject_def
      within_limit_def limitFor_def EMPTY_USAGE_def)

text \<open>Tenant isolation: a tenant's usage after any sequence of requests is what it would be if
  the other tenants' requests had not been made.\<close>

theorem quota_tenant_isolation:
  "tenant_usage (fold check_then_record rs (new_tenant_quota plans)) t =
   tenant_usage (fold check_then_record (filter (\<lambda>r. qs_tenantId (fst r) = qs_tenantId t) rs)
     (new_tenant_quota plans)) t"
  by (rule tenant_isolation) simp_all

text \<open>Neither built-in plan limits tokens.\<close>

lemma tokens_unmetered:
  "qd_allowed (budget_allows (plan_budget FREE_PLAN) u \<lparr>inc_resource = Tokens, inc_amount = n\<rparr>)"
  "qd_allowed (budget_allows (plan_budget BYOK_PLAN) u \<lparr>inc_resource = Tokens, inc_amount = n\<rparr>)"
  by (simp_all add: budget_allows_def limitFor_def FREE_PLAN_def BYOK_PLAN_def)

end
