(* ===== verification/Projection.thy ===== *)
theory Projection
  imports Contracts
begin

text \<open>
  State as a fold of events: \<open>Projection\<close>, \<open>InMemoryEventStore\<close> and the run and task reducers of
  \<open>kernel/events/src/projection.ts\<close>.  The reducers are characterised by the last event that
  matters, and replaying a log is shown to be resumable at any point.
\<close>

section \<open>Projections\<close>

record 's projection =
  proj_reducer :: "'s \<Rightarrow> kernel_event \<Rightarrow> 's"
  proj_initial :: 's

definition projection_fold :: "'s projection \<Rightarrow> kernel_event list \<Rightarrow> 's" where
  "projection_fold p events = foldl (proj_reducer p) (proj_initial p) events"

type_synonym event_store = "kernel_event list"

definition store_append :: "kernel_event list \<Rightarrow> event_store \<Rightarrow> event_store" where
  "store_append es store = store @ es"

definition store_all :: "event_store \<Rightarrow> kernel_event list" where
  "store_all store = store"

section \<open>The reducers\<close>

datatype run_status = RunActive | RunCompleted | RunFailed

record run_state_view =
  rsv_status :: run_status
  rsv_step :: nat

definition initialRunState :: run_state_view where
  "initialRunState = \<lparr>rsv_status = RunActive, rsv_step = 0\<rparr>"

definition runReducer :: "run_state_view \<Rightarrow> kernel_event \<Rightarrow> run_state_view" where
  "runReducer state event =
     (if kev_type event = ''run.created'' then \<lparr>rsv_status = RunActive, rsv_step = 0\<rparr>
      else if kev_type event = ''node.completed'' then state\<lparr>rsv_step := rsv_step state + 1\<rparr>
      else if kev_type event = ''run.completed'' then state\<lparr>rsv_status := RunCompleted\<rparr>
      else if kev_type event = ''run.failed'' then state\<lparr>rsv_status := RunFailed\<rparr>
      else state)"

datatype task_view_state = TvPlanned | TvRunning | TvCompleted | TvFailed

definition initialTaskState :: task_view_state where
  "initialTaskState = TvPlanned"

definition taskReducer :: "task_view_state \<Rightarrow> kernel_event \<Rightarrow> task_view_state" where
  "taskReducer state event =
     (if kev_type event = ''task.created'' then TvPlanned
      else if kev_type event = ''task.started'' then TvRunning
      else if kev_type event = ''task.completed'' then TvCompleted
      else if kev_type event = ''task.failed'' then TvFailed
      else state)"

definition run_projection :: "run_state_view projection" where
  "run_projection = \<lparr>proj_reducer = runReducer, proj_initial = initialRunState\<rparr>"

definition task_projection :: "task_view_state projection" where
  "task_projection = \<lparr>proj_reducer = taskReducer, proj_initial = initialTaskState\<rparr>"

section \<open>What a replay computes\<close>

definition run_status_of :: "string \<Rightarrow> run_status option" where
  "run_status_of t = (if t = ''run.created'' then Some RunActive else if t = ''run.completed'' then Some RunCompleted
     else if t = ''run.failed'' then Some RunFailed else None)"

definition task_state_of :: "string \<Rightarrow> task_view_state option" where
  "task_state_of t = (if t = ''task.created'' then Some TvPlanned else if t = ''task.started'' then Some TvRunning
     else if t = ''task.completed'' then Some TvCompleted else if t = ''task.failed'' then Some TvFailed else None)"

text \<open>The value of the last element on which \<open>f\<close> is defined.\<close>

definition last_defined :: "('a \<Rightarrow> 'b option) \<Rightarrow> 'b \<Rightarrow> 'a list \<Rightarrow> 'b" where
  "last_defined f d xs = fold (\<lambda>x acc. case f x of None \<Rightarrow> acc | Some y \<Rightarrow> y) xs d"

lemma last_defined_simps [simp]:
  "last_defined f d [] = d"
  "last_defined f d (xs @ [x]) = (case f x of None \<Rightarrow> last_defined f d xs | Some y \<Rightarrow> y)"
  by (simp_all add: last_defined_def split: option.splits)

text \<open>The nodes completed since the last (re)creation of the run.\<close>

definition steps_since_creation :: "kernel_event list \<Rightarrow> nat" where
  "steps_since_creation es =
     length (filter (\<lambda>e. kev_type e = ''node.completed'') (takeWhile (\<lambda>e. kev_type e \<noteq> ''run.created'') (rev es)))"

lemma steps_since_creation_snoc [simp]:
  "steps_since_creation [] = 0"
  "steps_since_creation (es @ [e]) =
     (if kev_type e = ''run.created'' then 0
      else steps_since_creation es + (if kev_type e = ''node.completed'' then 1 else 0))"
  by (simp_all add: steps_since_creation_def)

section \<open>Properties\<close>

text \<open>Replaying the events of a run gives the status of the last status event and the number of
  nodes completed since the run was last created; replaying the events of a task gives the state
  of the last task event.\<close>

theorem replay_reads_last_events:
  "projection_fold run_projection es =
     \<lparr>rsv_status = last_defined (run_status_of \<circ> kev_type) RunActive es, rsv_step = steps_since_creation es\<rparr> \<and>
   projection_fold task_projection es = last_defined (task_state_of \<circ> kev_type) TvPlanned es"
proof (induction es rule: rev_induct)
  case Nil
  then show ?case
    by (simp add: projection_fold_def run_projection_def task_projection_def initialRunState_def initialTaskState_def)
next
  case (snoc e es)
  then show ?case
    by (simp add: projection_fold_def run_projection_def task_projection_def runReducer_def taskReducer_def
        run_status_of_def task_state_of_def)
qed

text \<open>Replay is resumable: appending to the store and folding from the start is folding the new
  events from the state already reached.\<close>

theorem replay_resumes:
  "projection_fold p (store_all (store_append new (store_append old []))) =
   projection_fold (p\<lparr>proj_initial := projection_fold p old\<rparr>) new"
  by (simp add: projection_fold_def store_append_def store_all_def)

end
