(* ===== verification/Policy.thy ===== *)
theory Policy
  imports Contracts
begin

text \<open>
  The policy engine of \<open>kernel/policy/src/policy-engine.ts\<close> and the capability sets of
  \<open>kernel/capability/src/compose.ts\<close>.  A decision is characterised by the grants that match:
  a matching \<open>deny\<close> wins over every \<open>allow\<close>, nothing is allowed without an \<open>allow\<close>, and the
  approval requirement comes from the approval policy, an object literal whose inherited
  properties the lookup sees too.
\<close>

section \<open>Scopes\<close>

definition scopeMatches :: "string \<Rightarrow> string \<Rightarrow> bool" where
  "scopeMatches pattern scope =
     (if pattern = ''*'' then True
      else if ends_with pattern ''**'' then starts_with scope (take (length pattern - 2) pattern)
      else if ends_with pattern ''*'' then starts_with scope (take (length pattern - 1) pattern)
      else pattern = scope)"

lemma scopeMatches_star [simp]: "scopeMatches ''*'' s"
  by (simp add: scopeMatches_def)

lemma scopeMatches_prefix: "scopeMatches (p @ ''*'') s \<Longrightarrow> \<not> suffix ''*'' p \<Longrightarrow> prefix p s"
proof -
  have "\<not> suffix ''**'' (p @ ''*'')" if "\<not> suffix ''*'' p"
    using that by (auto simp: suffix_def)
  then show "scopeMatches (p @ ''*'') s \<Longrightarrow> \<not> suffix ''*'' p \<Longrightarrow> prefix p s"
    by (auto simp: scopeMatches_def split: if_splits)
qed

lemma scopeMatches_exact: "\<not> suffix ''*'' p \<Longrightarrow> scopeMatches p s \<longleftrightarrow> p = s"
proof -
  assume ns: "\<not> suffix ''*'' p"
  have "suffix ''*'' q" if "suffix ''**'' q" for q
    using that by (auto simp: suffix_def)
  then show ?thesis using ns by (auto simp: scopeMatches_def)
qed

section \<open>The engine\<close>

record policy_engine =
  pe_grants :: "grant list"
  pe_approvalPolicy :: approval_policy

definition new_policy_engine :: "grant list \<Rightarrow> policy_engine" where
  "new_policy_engine grants = \<lparr>pe_grants = grants, pe_approvalPolicy = DEFAULT_APPROVAL_POLICY\<rparr>"

definition addGrant :: "grant \<Rightarrow> policy_engine \<Rightarrow> js_error + policy_engine" where
  "addGrant g pe =
     (if list_ex (\<lambda>x. grant_id x = grant_id g) (pe_grants pe) then
        Inl (plain_error (''grant '' @ quoted (grant_id g) @ '' already exists''))
      else Inr (pe\<lparr>pe_grants := pe_grants pe @ [g]\<rparr>))"

definition removeGrant :: "string \<Rightarrow> policy_engine \<Rightarrow> policy_engine" where
  "removeGrant i pe = pe\<lparr>pe_grants := filter (\<lambda>g. grant_id g \<noteq> i) (pe_grants pe)\<rparr>"

definition listGrants :: "policy_engine \<Rightarrow> grant list" where
  "listGrants pe = pe_grants pe"

text \<open>The names every object literal inherits from \<open>Object.prototype\<close>; reading one of them yields
  a value that is neither \<open>undefined\<close> nor \<open>'approval'\<close>.\<close>

definition OBJECT_PROTOTYPE :: "string list" where
  "OBJECT_PROTOTYPE =
     [''constructor'', ''__defineGetter__'', ''__defineSetter__'', ''hasOwnProperty'',
      ''__lookupGetter__'', ''__lookupSetter__'', ''isPrototypeOf'', ''propertyIsEnumerable'',
      ''toString'', ''valueOf'', ''__proto__'', ''toLocaleString'']"

text \<open>\<open>(this.approvalPolicy[capability] ?? 'approval') === 'approval'\<close>.\<close>

definition requires_approval :: "approval_policy \<Rightarrow> string \<Rightarrow> bool" where
  "requires_approval ap capability =
     (case map_get ap capability of
        Some r \<Rightarrow> r = Approval
      | None \<Rightarrow> capability \<notin> set OBJECT_PROTOTYPE)"

definition relevant_grants :: "policy_engine \<Rightarrow> string \<Rightarrow> string \<Rightarrow> string \<Rightarrow> grant list" where
  "relevant_grants pe who capability scope =
     filter (\<lambda>g. grant_principal g = who \<and> grant_capability g = capability \<and>
       scopeMatches (grant_scope g) scope) (pe_grants pe)"

definition evaluate :: "policy_engine \<Rightarrow> string \<Rightarrow> string \<Rightarrow> string \<Rightarrow> policy_decision" where
  "evaluate pe who capability scope =
     (let relevant = relevant_grants pe who capability scope in
      case find (\<lambda>g. grant_effect g = Deny) relevant of
        Some deny \<Rightarrow>
          \<lparr>pd_allowed = False, pd_approvalRequired = False,
           pd_reason = ''denied by grant '' @ quoted (grant_id deny) @ '' ('' @ grant_scope deny @ '')''\<rparr>
      | None \<Rightarrow>
          (case find (\<lambda>g. grant_effect g = Allow) relevant of
             None \<Rightarrow>
               \<lparr>pd_allowed = False, pd_approvalRequired = False,
                pd_reason = ''no allow grant for '' @ quoted capability @ '' on '' @ quoted scope\<rparr>
           | Some allow \<Rightarrow>
               if requires_approval (pe_approvalPolicy pe) capability then
                 \<lparr>pd_allowed = True, pd_approvalRequired = True,
                  pd_reason = quoted capability @ '' requires approval by policy''\<rparr>
               else
                 \<lparr>pd_allowed = True, pd_approvalRequired = False, pd_reason = ''allowed by policy''\<rparr>))"

text \<open>A grant of effect \<open>eff\<close> that speaks about the request.\<close>

definition speaks :: "grant_effect \<Rightarrow> string \<Rightarrow> string \<Rightarrow> string \<Rightarrow> grant \<Rightarrow> bool" where
  "speaks eff who capability scope g \<longleftrightarrow>
     grant_effect g = eff \<and> grant_principal g = who \<and> grant_capability g = capability \<and>
     scopeMatches (grant_scope g) scope"

lemma find_relevant:
  "find (\<lambda>g. grant_effect g = eff) (relevant_grants pe p c s) = None \<longleftrightarrow>
     \<not> list_ex (speaks eff p c s) (pe_grants pe)"
  by (auto simp: find_None_iff relevant_grants_def speaks_def list_ex_iff)

lemma evaluate_allowed_iff:
  "pd_allowed (evaluate pe p c s) \<longleftrightarrow>
     list_ex (speaks Allow p c s) (pe_grants pe) \<and> \<not> list_ex (speaks Deny p c s) (pe_grants pe)"
  using find_relevant [of Deny pe p c s] find_relevant [of Allow pe p c s]
  by (auto simp: evaluate_def Let_def split: option.splits)

lemma evaluate_approval_iff:
  "pd_approvalRequired (evaluate pe p c s) \<longleftrightarrow>
     pd_allowed (evaluate pe p c s) \<and> requires_approval (pe_approvalPolicy pe) c"
  by (auto simp: evaluate_def Let_def split: option.splits)

section \<open>The grant table as a registry\<close>

type_synonym grant_body = "string \<times> string \<times> string \<times> grant_effect"

definition grant_of :: "string \<Rightarrow> grant_body \<Rightarrow> grant" where
  "grant_of i b = (case b of (p, c, s, e) \<Rightarrow>
     \<lparr>grant_id = i, grant_principal = p, grant_capability = c, grant_scope = s, grant_effect = e\<rparr>)"

definition body_of :: "grant \<Rightarrow> grant_body" where
  "body_of g = (grant_principal g, grant_capability g, grant_scope g, grant_effect g)"

definition grant_lookup :: "policy_engine \<Rightarrow> string \<Rightarrow> grant_body option" where
  "grant_lookup pe i = map_option body_of (find (\<lambda>g. grant_id g = i) (pe_grants pe))"

lemma body_of_grant_of [simp]: "body_of (grant_of i b) = b" "grant_id (grant_of i b) = i"
  by (cases b; simp add: body_of_def grant_of_def)+

lemma find_append: "find P (xs @ ys) = (case find P xs of None \<Rightarrow> find P ys | Some x \<Rightarrow> Some x)"
  by (induction xs) auto

lemma grant_lookup_None: "grant_lookup pe i = None \<longleftrightarrow> \<not> list_ex (\<lambda>x. grant_id x = i) (pe_grants pe)"
  by (auto simp: grant_lookup_def find_None_iff list_ex_iff)

lemma grant_lookup_add:
  "\<not> list_ex (\<lambda>x. grant_id x = i) (pe_grants pe) \<Longrightarrow>
    grant_lookup (pe\<lparr>pe_grants := pe_grants pe @ [grant_of i b]\<rparr>) = (grant_lookup pe)(i \<mapsto> b)"
proof -
  assume "\<not> list_ex (\<lambda>x. grant_id x = i) (pe_grants pe)"
  then have "find (\<lambda>g. grant_id g = i) (pe_grants pe) = None" by (simp add: find_None_iff list_ex_iff)
  then show ?thesis by (auto simp: grant_lookup_def fun_eq_iff find_append split: option.splits)
qed

interpretation grants: registry "\<lambda>_. True" grant_lookup "\<lambda>i b. addGrant (grant_of i b)"
proof unfold_locales
  fix s k v
  assume "grant_lookup s k = None"
  then show "\<exists>s'. addGrant (grant_of k v) s = Inr s' \<and> grant_lookup s' = (grant_lookup s)(k \<mapsto> v)"
    by (simp add: addGrant_def grant_lookup_None grant_lookup_add)
next
  fix s k v s'
  assume "addGrant (grant_of k v) s = Inr s'"
  then show "grant_lookup s k = None \<and> True \<and> grant_lookup s' = (grant_lookup s)(k \<mapsto> v)"
    by (auto simp: addGrant_def grant_lookup_None grant_lookup_add split: if_splits)
qed

lemma removeGrant_lookup:
  "grant_lookup (removeGrant i pe) j = (if j = i then None else grant_lookup pe j)"
proof -
  have "find (\<lambda>g. grant_id g = j) (filter (\<lambda>g. grant_id g \<noteq> i) gs) =
      (if j = i then None else find (\<lambda>g. grant_id g = j) gs)" for gs :: "grant list"
    by (induction gs) auto
  then show ?thesis by (simp add: grant_lookup_def removeGrant_def)
qed

lemma removeGrant_addGrant: "addGrant g pe = Inr pe' \<Longrightarrow> removeGrant (grant_id g) pe' = pe"
  by (auto simp: addGrant_def removeGrant_def list_ex_iff split: if_splits intro!: filter_True)

section \<open>Capability sets\<close>

definition cap_spec :: "string \<Rightarrow> string \<Rightarrow> capability_constraint list \<Rightarrow> capability_spec" where
  "cap_spec action scope constraints =
     \<lparr>cs_id = action @ ''@'' @ scope, cs_action = action, cs_scope = scope, cs_constraints = constraints\<rparr>"

record capability_set =
  cset_id :: string
  cset_capabilities :: "capability_spec list"

datatype cap_part = PartSet capability_set | PartSpecs "capability_spec list"

fun part_specs :: "cap_part \<Rightarrow> capability_spec list" where
  "part_specs (PartSet s) = cset_capabilities s"
| "part_specs (PartSpecs cs) = cs"

text \<open>The \<open>filter\<close> with the growing set \<open>seen\<close>.\<close>

fun unique_actions :: "string list \<Rightarrow> capability_spec list \<Rightarrow> capability_spec list" where
  "unique_actions seen [] = []"
| "unique_actions seen (c # cs) =
     (if cs_action c \<in> set seen then unique_actions seen cs
      else c # unique_actions (cs_action c # seen) cs)"

definition compose :: "string \<Rightarrow> cap_part list \<Rightarrow> capability_set" where
  "compose i parts = \<lparr>cset_id = i, cset_capabilities = unique_actions [] (concat (map part_specs parts))\<rparr>"

definition has_capability :: "capability_set \<Rightarrow> string \<Rightarrow> bool" where
  "has_capability s action = list_ex (\<lambda>c. cs_action c = action) (cset_capabilities s)"

lemma unique_actions_find:
  "a \<notin> set seen \<Longrightarrow> find (\<lambda>c. cs_action c = a) (unique_actions seen cs) = find (\<lambda>c. cs_action c = a) cs"
  by (induction cs arbitrary: seen) auto

lemma unique_actions_distinct:
  "distinct (map cs_action (unique_actions seen cs)) \<and>
   set (map cs_action (unique_actions seen cs)) = set (map cs_action cs) - set seen"
  by (induction cs arbitrary: seen) auto

section \<open>Properties\<close>

text \<open>C26.  Deny precedence and deny by default: a request is allowed exactly when some \<open>allow\<close> grant
  matches it and no \<open>deny\<close> grant does; approval is required exactly for the allowed requests
  whose capability the approval policy maps to \<open>approval\<close> or does not map at all.  A name that every object
  inherits from \<open>Object.prototype\<close> is found by the lookup and so counts as mapped to something else:
  it needs no approval (\<open>prototype_capability_auto\<close>).\<close>

theorem evaluate_decides:
  "pd_allowed (evaluate pe p c s) =
     (list_ex (speaks Allow p c s) (pe_grants pe) \<and> \<not> list_ex (speaks Deny p c s) (pe_grants pe)) \<and>
   pd_approvalRequired (evaluate pe p c s) =
     (pd_allowed (evaluate pe p c s) \<and> requires_approval (pe_approvalPolicy pe) c)"
  by (simp add: evaluate_allowed_iff evaluate_approval_iff)

text \<open>A deny is final while it stands: once a \<open>deny\<close> grant is added, no grant added after it
  makes a request allowed that it matches.\<close>

theorem deny_is_final:
  assumes "addGrant d pe = Inr pe1" "speaks Deny p c s d"
    and "foldE addGrant gs pe1 = Inr pe2"
  shows "\<not> pd_allowed (evaluate pe2 p c s)"
proof -
  have "list_ex (speaks Deny p c s) (pe_grants pe2)"
  proof (rule foldE_invariant [where I = "\<lambda>x. list_ex (speaks Deny p c s) (pe_grants x)", OF _ _ assms(3)])
    show "list_ex (speaks Deny p c s) (pe_grants pe1)"
      using assms(1,2) by (auto simp: addGrant_def split: if_splits)
  qed (auto simp: addGrant_def split: if_splits)
  then show ?thesis by (simp add: evaluate_allowed_iff)
qed

definition demo_grant :: "string \<Rightarrow> string \<Rightarrow> grant_effect \<Rightarrow> grant" where
  "demo_grant i s e = \<lparr>grant_id = i, grant_principal = ''agent'', grant_capability = ''fs.write'',
     grant_scope = s, grant_effect = e\<rparr>"

theorem deny_is_final_witness:
  "\<exists>pe1 pe2. addGrant (demo_grant ''d'' ''/etc/**'' Deny) (new_policy_engine []) = Inr pe1 \<and>
     foldE addGrant [demo_grant ''a'' ''*'' Allow] pe1 = Inr pe2 \<and>
     \<not> pd_allowed (evaluate pe2 ''agent'' ''fs.write'' ''/etc/passwd'')"
proof -
  obtain pe1 pe2 where pe: "addGrant (demo_grant ''d'' ''/etc/**'' Deny) (new_policy_engine []) = Inr pe1"
      "foldE addGrant [demo_grant ''a'' ''*'' Allow] pe1 = Inr pe2"
    by (simp add: addGrant_def new_policy_engine_def demo_grant_def)
  have "speaks Deny ''agent'' ''fs.write'' ''/etc/passwd'' (demo_grant ''d'' ''/etc/**'' Deny)"
    by code_simp
  from deny_is_final [OF pe(1) this pe(2)] pe show ?thesis by blast
qed

text \<open>Composition of capability sets: the composed set has exactly the actions of its parts, each
  once, and for each action the first specification in the order of the parts.\<close>

theorem compose_first_wins:
  "distinct (map cs_action (cset_capabilities (compose i parts))) \<and>
   has_capability (compose i parts) a = list_ex (\<lambda>p. list_ex (\<lambda>c. cs_action c = a) (part_specs p)) parts \<and>
   find (\<lambda>c. cs_action c = a) (cset_capabilities (compose i parts)) =
     find (\<lambda>c. cs_action c = a) (concat (map part_specs parts))"
proof (intro conjI)
  let ?all = "concat (map part_specs parts)"
  have u: "distinct (map cs_action (unique_actions [] ?all))"
      "set (map cs_action (unique_actions [] ?all)) = set (map cs_action ?all)"
    using unique_actions_distinct [of "[]" ?all] by simp_all
  show "distinct (map cs_action (cset_capabilities (compose i parts)))"
    using u(1) by (simp add: compose_def)
  have "has_capability (compose i parts) a \<longleftrightarrow> a \<in> set (map cs_action (unique_actions [] ?all))"
    by (auto simp: has_capability_def compose_def list_ex_iff)
  then show "has_capability (compose i parts) a = list_ex (\<lambda>p. list_ex (\<lambda>c. cs_action c = a) (part_specs p)) parts"
    unfolding u(2) by (auto simp: list_ex_iff)
  show "find (\<lambda>c. cs_action c = a) (cset_capabilities (compose i parts)) = find (\<lambda>c. cs_action c = a) ?all"
    by (simp add: compose_def unique_actions_find)
qed

text \<open>A capability named like an inherited property needs no approval although the policy does not
  list it.\<close>

lemma prototype_capability_auto: "\<not> requires_approval DEFAULT_APPROVAL_POLICY ''constructor''"
  by code_simp

lemma unknown_capability_needs_approval: "requires_approval DEFAULT_APPROVAL_POLICY ''github.release.create''"
  by code_simp

end
