(* ===== verification/Execution.thy ===== *)
theory Execution
  imports Policy Host
begin

text \<open>
  The one execution primitive of the kernel (\<open>kernel/execution/src\<close>): the executor registry, the
  execution context and \<open>execute\<close>.  A world \<open>'w\<close> stands for everything an executor or the
  event sink can change; \<open>execute\<close> is a computation over it.  The interface \<open>event_sink\<close> says what a
  sink that records does; under it every execution leaves one of four event patterns, which is the
  kernel's promise that everything leaves a trace.  The ledger of the local runner is such a sink
  (RunnerTrace); the default sink keeps nothing.
\<close>

section \<open>Contexts\<close>

record event_draft =
  ed_type :: string
  ed_entityId :: string
  ed_actorId :: string
  ed_payload :: jsv

record 'w execution_context =
  ctx_runId :: string
  ctx_actorId :: string
  ctx_parentId :: "string option"
  ctx_capabilities :: "capability_spec list"
  ctx_workspaceRoot :: string
  ctx_policy :: "string \<Rightarrow> policy_decision"
  ctx_emit :: "event_draft \<Rightarrow> ('w, kernel_event) proc"
  ctx_verify :: "jsv \<Rightarrow> ('w, verification) proc"

definition CapabilityRequiredError :: "string \<Rightarrow> js_error" where
  "CapabilityRequiredError capability = JsError ''CapabilityRequiredError''
     (''capability '' @ quoted capability @ '' is required but not granted to this actor'')"

definition defaultPolicy :: "capability_spec list \<Rightarrow> string \<Rightarrow> policy_decision" where
  "defaultPolicy capabilities action =
     (if list_ex (\<lambda>c. cs_action c = action) capabilities then
        \<lparr>pd_allowed = True, pd_approvalRequired = False, pd_reason = ''granted by capabilities''\<rparr>
      else \<lparr>pd_allowed = False, pd_approvalRequired = False, pd_reason = quoted action @ '' is not granted''\<rparr>)"

text \<open>The default sink builds an event and keeps no trace of it.  It reads the host.\<close>

definition defaultEmit :: "event_draft \<Rightarrow> (host, kernel_event) proc" where
  "defaultEmit e h =
     (let (uuid, h1) = randomUUID h; (now, h2) = date_now h1 in
      (Inr \<lparr>kev_id = uuid, kev_type = ed_type e, kev_entityId = ed_entityId e, kev_actorId = ed_actorId e,
         kev_timestamp = now, kev_payload = ed_payload e\<rparr>, h2))"

definition defaultVerify :: "jsv \<Rightarrow> (host, verification) proc" where
  "defaultVerify input h =
     (let (uuid, h1) = randomUUID h in
      (Inr \<lparr>ver_id = uuid, ver_target = ''unverified'', ver_checks = [], ver_evidence = [],
         ver_verdict = V_UNKNOWN\<rparr>, h1))"

text \<open>\<open>createExecutionContext\<close>: an absent option takes its default.\<close>

definition createExecutionContext ::
  "string \<Rightarrow> string \<Rightarrow> string option \<Rightarrow> capability_spec list option \<Rightarrow> string option \<Rightarrow>
   (string \<Rightarrow> policy_decision) option \<Rightarrow> (jsv \<Rightarrow> (host, verification) proc) option \<Rightarrow>
   (event_draft \<Rightarrow> (host, kernel_event) proc) option \<Rightarrow> host execution_context" where
  "createExecutionContext runId actorId parentId capabilities workspaceRoot policy verify emit =
     (let caps = (case capabilities of None \<Rightarrow> [] | Some cs \<Rightarrow> cs) in
      \<lparr>ctx_runId = runId, ctx_actorId = actorId, ctx_parentId = parentId, ctx_capabilities = caps,
       ctx_workspaceRoot = (case workspaceRoot of None \<Rightarrow> ''/workspace'' | Some r \<Rightarrow> r),
       ctx_policy = (case policy of None \<Rightarrow> defaultPolicy caps | Some p \<Rightarrow> p),
       ctx_emit = (case emit of None \<Rightarrow> defaultEmit | Some e \<Rightarrow> e),
       ctx_verify = (case verify of None \<Rightarrow> defaultVerify | Some v \<Rightarrow> v)\<rparr>)"

definition ctx_require :: "'w execution_context \<Rightarrow> string \<Rightarrow> js_error + unit" where
  "ctx_require ctx capability =
     (if list_ex (\<lambda>c. cs_action c = capability) (ctx_capabilities ctx) then Inr ()
      else Inl (CapabilityRequiredError capability))"

section \<open>Executors\<close>

record 'w executor =
  ex_canExecute :: "'w execution_context \<Rightarrow> ('w, bool) proc"
  ex_execute :: "jsv \<Rightarrow> 'w execution_context \<Rightarrow> ('w, exec_result) proc"

type_synonym 'w executor_registry = "(string, 'w executor) js_map"

definition ExecutorNotFoundError :: "string \<Rightarrow> js_error" where
  "ExecutorNotFoundError action = JsError ''ExecutorNotFoundError''
     (''no executor registered for action '' @ quoted action)"

definition executor_register ::
  "string \<Rightarrow> 'w executor \<Rightarrow> 'w executor_registry \<Rightarrow> js_error + 'w executor_registry" where
  "executor_register action executor r =
     (if map_has r action then Inl (plain_error (''executor for '' @ quoted action @ '' is already registered''))
      else Inr (map_set action executor r))"

definition executor_resolve :: "'w executor_registry \<Rightarrow> string \<Rightarrow> js_error + 'w executor" where
  "executor_resolve r action =
     (case map_get r action of None \<Rightarrow> Inl (ExecutorNotFoundError action) | Some e \<Rightarrow> Inr e)"

definition executor_list :: "'w executor_registry \<Rightarrow> string list" where
  "executor_list r = map_keys r"

interpretation executors: registry "\<lambda>_. True" map_get executor_register
  by unfold_locales (auto simp: executor_register_def split: if_splits)

section \<open>The primitive\<close>

definition fail_result :: "string \<Rightarrow> exec_result" where
  "fail_result reason = \<lparr>res_status = Failure, res_output = JObj [(''error'', JStr reason)], res_evidence = []\<rparr>"

definition ctx_event :: "'w execution_context \<Rightarrow> string \<Rightarrow> (string \<times> jsv) list \<Rightarrow> event_draft" where
  "ctx_event ctx type payload =
     \<lparr>ed_type = type, ed_entityId = ctx_runId ctx, ed_actorId = ctx_actorId ctx, ed_payload = JObj payload\<rparr>"

definition denied_event :: "'w execution_context \<Rightarrow> string \<Rightarrow> event_draft" where
  "denied_event ctx action = ctx_event ctx ''execution.denied''
     [(''action'', JStr action), (''reason'', JStr (pd_reason (ctx_policy ctx action)))]"

definition requested_event :: "'w execution_context \<Rightarrow> string \<Rightarrow> jsv \<Rightarrow> event_draft" where
  "requested_event ctx action input = ctx_event ctx ''execution.requested''
     [(''action'', JStr action), (''input'', input)]"

definition rejected_event :: "'w execution_context \<Rightarrow> string \<Rightarrow> event_draft" where
  "rejected_event ctx action = ctx_event ctx ''execution.rejected''
     [(''action'', JStr action), (''reason'', JStr ''executor cannot execute'')]"

definition completed_event :: "'w execution_context \<Rightarrow> string \<Rightarrow> exec_result \<Rightarrow> event_draft" where
  "completed_event ctx action result = ctx_event ctx ''execution.completed''
     [(''action'', JStr action), (''status'', JStr (status_string (res_status result))),
      (''evidence'', JArr (map evidence_jsv (res_evidence result)))]"

definition execute ::
  "string \<Rightarrow> jsv \<Rightarrow> 'w execution_context \<Rightarrow> 'w executor_registry \<Rightarrow> ('w, exec_result) proc" where
  "execute action input ctx reg =
     (let decision = ctx_policy ctx action in
      if \<not> pd_allowed decision then
        bindP (ctx_emit ctx (denied_event ctx action)) (\<lambda>_. returnP (fail_result (pd_reason decision)))
      else
        bindP (ctx_emit ctx (requested_event ctx action input)) (\<lambda>_.
        bindP (liftE (executor_resolve reg action)) (\<lambda>executor.
        bindP (ex_canExecute executor ctx) (\<lambda>can.
          if \<not> can then
            bindP (ctx_emit ctx (rejected_event ctx action))
              (\<lambda>_. returnP (fail_result ''executor cannot execute''))
          else
            bindP (ex_execute executor input ctx) (\<lambda>result.
            bindP (ctx_emit ctx (completed_event ctx action result)) (\<lambda>_. returnP result))))))"

section \<open>What a recording sink guarantees\<close>

text \<open>Whatever runs between two emissions may extend the trace but not rewrite it.\<close>

definition only_appends :: "('w \<Rightarrow> 'e list) \<Rightarrow> ('w, 'a) proc \<Rightarrow> bool" where
  "only_appends trace p \<longleftrightarrow> (\<forall>w. prefix (trace w) (trace (snd (p w))))"

definition tame :: "('w \<Rightarrow> 'e list) \<Rightarrow> 'w executor \<Rightarrow> bool" where
  "tame trace ex \<longleftrightarrow>
     (\<forall>ctx. only_appends trace (ex_canExecute ex ctx)) \<and> (\<forall>i ctx. only_appends trace (ex_execute ex i ctx))"

text \<open>A sink that records: emitting never throws and appends what is kept of the draft to the trace.\<close>

locale event_sink =
  fixes trace :: "'w \<Rightarrow> 'e list" and kept :: "event_draft \<Rightarrow> 'e" and emit :: "event_draft \<Rightarrow> ('w, kernel_event) proc"
  assumes emit_returns: "\<exists>ev w'. emit d w = (Inr ev, w')"
    and emit_records: "emit d w = (r, w') \<Longrightarrow> trace w' = trace w @ [kept d]"
begin

lemma emit_bind: "\<exists>w'. bindP (emit d) (\<lambda>_. p) w = p w' \<and> trace w' = trace w @ [kept d]"
proof -
  obtain ev w' where e: "emit d w = (Inr ev, w')" using emit_returns by blast
  then show ?thesis using emit_records [OF e] by (auto simp: bindP_def)
qed

text \<open>A denied action leaves one event and runs no executor.\<close>

lemma execute_denied:
  assumes "ctx_emit ctx = emit" "\<not> pd_allowed (ctx_policy ctx a)"
  shows "\<exists>w'. execute a i ctx reg w = (Inr (fail_result (pd_reason (ctx_policy ctx a))), w') \<and>
    trace w' = trace w @ [kept (denied_event ctx a)]"
  using assms emit_bind [of "denied_event ctx a" "returnP (fail_result (pd_reason (ctx_policy ctx a)))" w]
  by (auto simp: execute_def Let_def returnP_def)

text \<open>An allowed action leaves its request first; if it returns, the last event says how it went.\<close>

lemma execute_allowed:
  assumes emit: "ctx_emit ctx = emit" and allowed: "pd_allowed (ctx_policy ctx a)"
    and tame: "\<And>ex. map_get reg a = Some ex \<Longrightarrow> tame trace ex"
  shows "prefix (trace w @ [kept (requested_event ctx a i)]) (trace (snd (execute a i ctx reg w))) \<and>
    (case fst (execute a i ctx reg w) of
       Inl _ \<Rightarrow> True
     | Inr r \<Rightarrow> last (trace (snd (execute a i ctx reg w))) = kept (completed_event ctx a r) \<or>
         (r = fail_result ''executor cannot execute'' \<and>
          last (trace (snd (execute a i ctx reg w))) = kept (rejected_event ctx a)))"
proof -
  obtain ev w1 where e1: "emit (requested_event ctx a i) w = (Inr ev, w1)" using emit_returns by blast
  have t1: "trace w1 = trace w @ [kept (requested_event ctx a i)]" by (rule emit_records [OF e1])
  show ?thesis
  proof (cases "map_get reg a")
    case None
    then show ?thesis using emit allowed e1 t1
      by (simp add: execute_def Let_def bindP_def executor_resolve_def liftE_def)
  next
    case (Some ex)
    have tx: "tame trace ex" by (rule tame [OF Some])
    obtain rc w2 where c: "ex_canExecute ex ctx w1 = (rc, w2)" by (cases "ex_canExecute ex ctx w1")
    have t2: "prefix (trace w1) (trace w2)" using tx c by (metis only_appends_def snd_conv tame_def)
    show ?thesis
    proof (cases rc)
      case (Inl err)
      then show ?thesis using emit allowed e1 t1 t2 c Some
        by (simp add: execute_def Let_def bindP_def executor_resolve_def liftE_def)
    next
      case (Inr can)
      show ?thesis
      proof (cases can)
        case False
        obtain ev3 w3 where e3: "emit (rejected_event ctx a) w2 = (Inr ev3, w3)" using emit_returns by blast
        then have "trace w3 = trace w2 @ [kept (rejected_event ctx a)]" by (rule emit_records)
        then show ?thesis using emit allowed e1 t1 t2 c Some Inr False e3
          by (simp add: execute_def Let_def bindP_def executor_resolve_def liftE_def returnP_def prefix_append)
      next
        case True
        obtain rr w3 where x: "ex_execute ex i ctx w2 = (rr, w3)" by (cases "ex_execute ex i ctx w2")
        have t3: "prefix (trace w2) (trace w3)" using tx x by (metis only_appends_def snd_conv tame_def)
        then have t13: "prefix (trace w1) (trace w3)" using t2 prefix_order.order_trans by blast
        show ?thesis
        proof (cases rr)
          case (Inl err)
          then show ?thesis using emit allowed e1 t1 t13 c Some Inr True x
            by (simp add: execute_def Let_def bindP_def executor_resolve_def liftE_def)
        next
          case rr: (Inr res)
          obtain ev4 w4 where e4: "emit (completed_event ctx a res) w3 = (Inr ev4, w4)" using emit_returns by blast
          then have "trace w4 = trace w3 @ [kept (completed_event ctx a res)]" by (rule emit_records)
          then show ?thesis using emit allowed e1 t1 t13 c Some Inr True x rr e4
            by (simp add: execute_def Let_def bindP_def executor_resolve_def liftE_def returnP_def prefix_append)
        qed
      qed
    qed
  qed
qed

end

end
