(* ===== verification/Verifier.thy ===== *)
theory Verifier
  imports Host
begin

text \<open>
  The verification engine of \<open>plugins/verification/src/verification-engine.ts\<close> and the agent
  registry of \<open>plugins/agents/src/registry.ts\<close>.  The engine never reports \<open>PASSED\<close> without
  evidence; the registry is an instance of the interface \<open>registry\<close>.
\<close>

section \<open>Verdicts\<close>

definition deriveVerdict :: "verification_check list \<Rightarrow> verdict" where
  "deriveVerdict checks =
     (if length checks = 0 then V_UNKNOWN
      else if list_ex (\<lambda>c. vc_verdict c = V_FAILED) checks then V_FAILED
      else if list_all (\<lambda>c. vc_verdict c = V_PASSED) checks then V_PASSED
      else V_UNKNOWN)"

definition checks_evidence :: "verification_check list \<Rightarrow> evidence_ref list" where
  "checks_evidence checks = concat (map (\<lambda>c. case vc_evidence c of None \<Rightarrow> [] | Some es \<Rightarrow> es) checks)"

definition verify :: "string \<Rightarrow> verification_check list \<Rightarrow> host \<Rightarrow> verification \<times> host" where
  "verify tgt checks h =
     (let evidence = checks_evidence checks;
          verdict0 = deriveVerdict checks;
          verdict = (if verdict0 = V_PASSED \<and> length evidence = 0 then V_UNKNOWN else verdict0);
          (uuid, h') = randomUUID h
      in (\<lparr>ver_id = uuid, ver_target = tgt, ver_checks = checks, ver_evidence = evidence,
          ver_verdict = verdict\<rparr>, h'))"

definition verifyClaim :: "claim \<Rightarrow> verification_check list \<Rightarrow> host \<Rightarrow> verification \<times> host" where
  "verifyClaim cl checks h =
     (case verify (claim_statement cl) checks h of (v, h') \<Rightarrow> (v\<lparr>ver_target := claim_statement cl\<rparr>, h'))"

section \<open>The agent registry\<close>

text \<open>An agent contract: its identifier and everything else, which the registry does not read.\<close>

record 'b agent_contract =
  agent_id :: string
  agent_body :: 'b

type_synonym 'b agent_registry = "(string, 'b agent_contract) js_map"

definition AgentNotFoundError :: "string \<Rightarrow> js_error" where
  "AgentNotFoundError i = JsError ''AgentNotFoundError'' (''agent '' @ quoted i @ '' is not registered'')"

definition agent_register :: "'b agent_contract \<Rightarrow> 'b agent_registry \<Rightarrow> js_error + 'b agent_registry" where
  "agent_register contract r =
     (if map_has r (agent_id contract) then
        Inl (plain_error (''agent '' @ quoted (agent_id contract) @ '' is already registered''))
      else Inr (map_set (agent_id contract) contract r))"

definition agent_unregister :: "string \<Rightarrow> 'b agent_registry \<Rightarrow> 'b agent_registry" where
  "agent_unregister i r = map_del i r"

definition agent_resolve :: "'b agent_registry \<Rightarrow> string \<Rightarrow> js_error + 'b agent_contract" where
  "agent_resolve r i = (case map_get r i of None \<Rightarrow> Inl (AgentNotFoundError i) | Some a \<Rightarrow> Inr a)"

definition agent_list :: "'b agent_registry \<Rightarrow> 'b agent_contract list" where
  "agent_list r = map_values r"

definition agent_lookup :: "'b agent_registry \<Rightarrow> string \<Rightarrow> 'b option" where
  "agent_lookup r i = map_option agent_body (map_get r i)"

interpretation agents: registry "\<lambda>_. True" agent_lookup
    "\<lambda>i b. agent_register \<lparr>agent_id = i, agent_body = b\<rparr>"
  by unfold_locales (auto simp: agent_register_def agent_lookup_def fun_eq_iff split: if_splits)

section \<open>Properties\<close>

text \<open>C31.  "Done" needs evidence: a verification, of a target or of an agent's claim, passes exactly
  when every check passed and at least one check carries evidence; one failed check fails it.\<close>

theorem passed_iff_evidence:
  "(ver_verdict (fst (verify tgt checks h)) = V_PASSED) =
     (list_all (\<lambda>c. vc_verdict c = V_PASSED) checks \<and> checks_evidence checks \<noteq> []) \<and>
   (ver_verdict (fst (verify tgt checks h)) = V_FAILED) = list_ex (\<lambda>c. vc_verdict c = V_FAILED) checks \<and>
   ver_verdict (fst (verifyClaim cl checks h)) = ver_verdict (fst (verify tgt checks h))"
proof -
  have ex: "\<not> list_ex (\<lambda>c. vc_verdict c = V_FAILED) checks"
    if "list_all (\<lambda>c. vc_verdict c = V_PASSED) checks"
    using that by (auto simp: list_all_iff list_ex_iff)
  have ne: "checks_evidence checks \<noteq> [] \<Longrightarrow> checks \<noteq> []" by (auto simp: checks_evidence_def)
  have "ver_verdict (fst (verifyClaim cl checks h)) = ver_verdict (fst (verify tgt checks h))"
    by (simp add: verifyClaim_def verify_def Let_def case_prod_beta)
  moreover have "ver_verdict (fst (verify tgt checks h)) =
      (if deriveVerdict checks = V_PASSED \<and> checks_evidence checks = [] then V_UNKNOWN else deriveVerdict checks)"
    by (simp add: verify_def Let_def case_prod_beta)
  moreover have "(deriveVerdict checks = V_PASSED) = (checks \<noteq> [] \<and> list_all (\<lambda>c. vc_verdict c = V_PASSED) checks)"
    using ex by (auto simp: deriveVerdict_def)
  moreover have "(deriveVerdict checks = V_FAILED) = list_ex (\<lambda>c. vc_verdict c = V_FAILED) checks"
    by (simp add: deriveVerdict_def)
  ultimately show ?thesis using ne by (cases "checks_evidence checks = []") auto
qed

end
