(* ===== verification/Tools.thy ===== *)
theory Tools
  imports Host
begin

text \<open>
  Tools: the registry of \<open>plugins/tools/src/registry.ts\<close>, whose \<open>invoke\<close> enforces the input and
  output contracts, and the shell command check of \<open>restricted-shell.ts\<close>, which looks at the first
  word of a command only.
\<close>

section \<open>The tool registry\<close>

record 'w registered_tool =
  rt_contract :: tool_contract
  rt_handler :: "jsv \<Rightarrow> tool_execution_context \<Rightarrow> ('w, jsv) proc"

type_synonym 'w tool_registry = "(string, 'w registered_tool) js_map"

definition ToolNotFoundError :: "string \<Rightarrow> js_error" where
  "ToolNotFoundError i = JsError ''ToolNotFoundError'' (''tool '' @ quoted i @ '' is not registered'')"

definition tool_register ::
  "tool_contract \<Rightarrow> (jsv \<Rightarrow> tool_execution_context \<Rightarrow> ('w, jsv) proc) \<Rightarrow> 'w tool_registry \<Rightarrow> js_error + 'w tool_registry" where
  "tool_register contract handler r =
     (if map_has r (tool_id contract) then
        Inl (plain_error (''tool '' @ quoted (tool_id contract) @ '' is already registered''))
      else Inr (map_set (tool_id contract) \<lparr>rt_contract = contract, rt_handler = handler\<rparr> r))"

definition tool_unregister :: "string \<Rightarrow> 'w tool_registry \<Rightarrow> 'w tool_registry" where
  "tool_unregister i r = map_del i r"

definition tool_has :: "'w tool_registry \<Rightarrow> string \<Rightarrow> bool" where
  "tool_has r i = map_has r i"

definition tool_get :: "'w tool_registry \<Rightarrow> string \<Rightarrow> js_error + 'w registered_tool" where
  "tool_get r i = (case map_get r i of None \<Rightarrow> Inl (ToolNotFoundError i) | Some t \<Rightarrow> Inr t)"

definition tool_list :: "'w tool_registry \<Rightarrow> tool_contract list" where
  "tool_list r = map rt_contract (map_values r)"

definition tool_invoke ::
  "'w tool_registry \<Rightarrow> string \<Rightarrow> jsv \<Rightarrow> tool_execution_context \<Rightarrow> ('w, jsv) proc" where
  "tool_invoke r i input ctx =
     bindP (liftE (tool_get r i)) (\<lambda>t.
     bindP (liftE (tool_inputSchema (rt_contract t) input)) (\<lambda>parsedInput.
     bindP (rt_handler t parsedInput ctx) (\<lambda>out.
     liftE (tool_outputSchema (rt_contract t) out))))"

text \<open>The table as the registry interface sees it: the contract without its identifier.\<close>

type_synonym 'w tool_body =
  "(string \<times> string \<times> schema \<times> schema \<times> string list \<times> side_effect list \<times> network_policy \<times> int) \<times>
   (jsv \<Rightarrow> tool_execution_context \<Rightarrow> ('w, jsv) proc)"

definition contract_of :: "string \<Rightarrow> 'w tool_body \<Rightarrow> tool_contract" where
  "contract_of i b = (case b of ((v, d, ins, outs, ps, se, np, ms), _) \<Rightarrow>
     \<lparr>tool_id = i, tool_version = v, tool_description = d, tool_inputSchema = ins, tool_outputSchema = outs,
      tool_permissions = ps, tool_sideEffects = se, tool_networkPolicy = np, tool_timeoutMs = ms\<rparr>)"

definition tool_body_of :: "'w registered_tool \<Rightarrow> 'w tool_body" where
  "tool_body_of t = (let c = rt_contract t in
     ((tool_version c, tool_description c, tool_inputSchema c, tool_outputSchema c, tool_permissions c,
       tool_sideEffects c, tool_networkPolicy c, tool_timeoutMs c), rt_handler t))"

definition tool_lookup :: "'w tool_registry \<Rightarrow> string \<Rightarrow> 'w tool_body option" where
  "tool_lookup r i = map_option tool_body_of (map_get r i)"

lemma tool_body_inverse:
  "tool_id (contract_of i b) = i"
  "tool_body_of \<lparr>rt_contract = contract_of i (p, hh), rt_handler = hh\<rparr> = (p, hh)"
  by (auto simp: contract_of_def tool_body_of_def Let_def split: prod.splits)

interpretation tools: registry "\<lambda>_. True" tool_lookup "\<lambda>i b. tool_register (contract_of i b) (snd b)"
  by unfold_locales
    (auto simp: tool_register_def tool_lookup_def tool_body_inverse fun_eq_iff simp del: split_paired_Ex
      split: if_splits)

section \<open>The restricted shell\<close>

record shell_policy =
  sp_allowlist :: "string list"
  sp_deny :: "string list"
  sp_timeoutMs :: int
  sp_allowedCwd :: string
  sp_envAllowlist :: "string list"
  sp_maxStdoutBytes :: nat
  sp_maxStderrBytes :: nat

record shell_decision =
  sd_allowed :: bool
  sd_reason :: "string option"
  sd_binary :: "string option"

text \<open>The characters \<open>\s\<close> matches and \<open>trim\<close> removes, among the ASCII ones.\<close>

definition is_space :: "char \<Rightarrow> bool" where
  "is_space c \<longleftrightarrow> (of_char c :: nat) \<in> {9, 10, 11, 12, 13, 32}"

text \<open>\<open>command.trim().split(/\s+/)[0]\<close>, then the part after the last slash.\<close>

definition first_word :: "string \<Rightarrow> string" where
  "first_word command = takeWhile (\<lambda>c. \<not> is_space c) (dropWhile is_space command)"

definition extractBinary :: "string \<Rightarrow> string" where
  "extractBinary command = last (split_on (CHR ''/'') (first_word command))"

definition shell_matches :: "string \<Rightarrow> string \<Rightarrow> bool" where
  "shell_matches entry binary =
     (if entry = ''*'' then True
      else if ends_with entry ''*'' then starts_with binary (take (length entry - 1) entry)
      else entry = binary)"

definition validateShellCommand :: "string \<Rightarrow> shell_policy \<Rightarrow> shell_decision" where
  "validateShellCommand command policy =
     (let binary = extractBinary command in
      if list_ex (\<lambda>d. shell_matches d binary) (sp_deny policy) then
        \<lparr>sd_allowed = False, sd_reason = Some (quoted binary @ '' is explicitly denied''), sd_binary = Some binary\<rparr>
      else if \<not> list_ex (\<lambda>a. shell_matches a binary) (sp_allowlist policy) then
        \<lparr>sd_allowed = False, sd_reason = Some (quoted binary @ '' is not in the allowlist''), sd_binary = Some binary\<rparr>
      else if sp_maxStdoutBytes policy < length command then
        \<lparr>sd_allowed = False, sd_reason = Some ''command exceeds max length'', sd_binary = Some binary\<rparr>
      else \<lparr>sd_allowed = True, sd_reason = None, sd_binary = Some binary\<rparr>)"

lemma first_word_blank: "is_space b \<Longrightarrow> first_word (c @ b # rest) =
    (if list_all is_space c then first_word rest else first_word c)"
proof -
  assume b: "is_space b"
  show ?thesis
  proof (cases "list_all is_space c")
    case True
    then have "dropWhile is_space (c @ b # rest) = dropWhile is_space rest"
      using b by (induction c) auto
    then show ?thesis using True by (simp add: first_word_def)
  next
    case False
    then have "dropWhile is_space (c @ b # rest) = dropWhile is_space c @ b # rest"
      by (induction c) auto
    then show ?thesis using b False by (simp add: first_word_def takeWhile_append)
      (metis (mono_tags, lifting) takeWhile_eq_all_conv)
  qed
qed

section \<open>Properties\<close>

text \<open>C37.  No tool runs outside its contract: an invocation that returns went through a registered
  tool, its handler received the parsed input, and the value returned is the output schema's
  parse of what the handler produced; an unknown tool or a rejected input changes nothing.\<close>

theorem invoke_enforces_contract:
  "case tool_invoke r i input ctx w of
     (Inr v, w') \<Rightarrow>
       (\<exists>t parsed out. map_get r i = Some t \<and> tool_inputSchema (rt_contract t) input = Inr parsed \<and>
          rt_handler t parsed ctx w = (Inr out, w') \<and> tool_outputSchema (rt_contract t) out = Inr v)
   | (Inl e, w') \<Rightarrow>
       w' = w \<or> (\<exists>t parsed. map_get r i = Some t \<and> tool_inputSchema (rt_contract t) input = Inr parsed \<and>
          w' = snd (rt_handler t parsed ctx w))"
proof (cases "map_get r i")
  case None
  then show ?thesis by (simp add: tool_invoke_def bindP_def liftE_def tool_get_def)
next
  case (Some t)
  show ?thesis
  proof (cases "tool_inputSchema (rt_contract t) input")
    case (Inl e)
    then show ?thesis using Some by (simp add: tool_invoke_def bindP_def liftE_def tool_get_def)
  next
    case (Inr parsed)
    obtain x w' where h: "rt_handler t parsed ctx w = (x, w')" by (cases "rt_handler t parsed ctx w")
    show ?thesis
    proof (cases x)
      case (Inl e)
      then show ?thesis using Some Inr h by (simp add: tool_invoke_def bindP_def liftE_def tool_get_def)
    next
      case x: (Inr out)
      then show ?thesis using Some Inr h
        by (cases "tool_outputSchema (rt_contract t) out")
          (simp_all add: tool_invoke_def bindP_def liftE_def tool_get_def)
    qed
  qed
qed

text \<open>The shell check reads one word: whatever follows the first word of an accepted command is
  accepted with it, up to the length limit, shell operators included.\<close>

theorem shell_checks_first_word:
  assumes "sd_allowed (validateShellCommand command policy)" "\<not> list_all is_space command" "is_space b"
    and "length (command @ b # rest) \<le> sp_maxStdoutBytes policy"
  shows "sd_allowed (validateShellCommand (command @ b # rest) policy)"
  using assms by (auto simp: validateShellCommand_def Let_def extractBinary_def first_word_blank split: if_splits)

definition demo_shell :: shell_policy where
  "demo_shell = \<lparr>sp_allowlist = [''git''], sp_deny = [''rm''], sp_timeoutMs = 1000, sp_allowedCwd = ''/workspace'',
     sp_envAllowlist = [], sp_maxStdoutBytes = 100, sp_maxStderrBytes = 100\<rparr>"

theorem shell_checks_first_word_witness:
  "sd_allowed (validateShellCommand (''git status;'' @ CHR '' '' # ''rm -rf /'') demo_shell)"
proof (rule shell_checks_first_word)
  show "sd_allowed (validateShellCommand ''git status;'' demo_shell)" by code_simp
  show "\<not> list_all is_space ''git status;''" by code_simp
  show "is_space (CHR '' '')" by code_simp
  show "length (''git status;'' @ CHR '' '' # ''rm -rf /'') \<le> sp_maxStdoutBytes demo_shell" by code_simp
qed

end
