(* ===== verification/Models.thy ===== *)
theory Models
  imports Host
begin

text \<open>
  Model routing: the router, the gateway and the mock provider of \<open>plugins/models/src\<close>.  A provider is
  its identifier, its models and its \<open>invoke\<close>, a computation over a world \<open>'w\<close>; streams are left
  out.  Prices and latencies are rationals.
\<close>

section \<open>Providers\<close>

record 'w model_provider =
  mp_id :: string
  mp_models :: "model_info list"
  mp_invoke :: "jsv \<Rightarrow> ('w, jsv) proc"

datatype provider_credentials = Byok secret_ref | Managed "string option" | NoCredentials

definition byokCredentials :: "secret_ref \<Rightarrow> provider_credentials" where
  "byokCredentials r = Byok r"

definition managedCredentials :: "string option \<Rightarrow> provider_credentials" where
  "managedCredentials plan = Managed plan"

definition noCredentials :: provider_credentials where
  "noCredentials = NoCredentials"

text \<open>Credentials as they are embedded in a provider request.\<close>

definition credentials_jsv :: "provider_credentials \<Rightarrow> jsv" where
  "credentials_jsv c =
     (case c of
        Byok r \<Rightarrow> JObj [(''kind'', JStr ''byok''),
          (''secretRef'', JObj [(''id'', JStr (secret_id r)), (''vault'', JStr (secret_vault r)), (''key'', JStr (secret_key r))])]
      | Managed plan \<Rightarrow> JObj [(''kind'', JStr ''managed''), (''plan'', case plan of None \<Rightarrow> JUndefined | Some p \<Rightarrow> JStr p)]
      | NoCredentials \<Rightarrow> JObj [(''kind'', JStr ''none'')])"

definition MOCK_MODEL :: model_info where
  "MOCK_MODEL = \<lparr>model_id = ''mock-1'', model_providerId = ''mock'', contextWindow = 100000,
     maxOutputTokens = 2000, supportsTools = True, supportsStructuredOutput = True,
     costPer1kInputUsd = 0, costPer1kOutputUsd = 0, latencyMs = 0,
     model_capabilities = [MC_completion, MC_structured_output, MC_tool_use]\<rparr>"

text \<open>\<open>generate\<close>: \<open>req?.taskType === 'planning'\<close> selects the fixed plan.\<close>

definition mock_generate :: "jsv \<Rightarrow> string" where
  "mock_generate req =
     (case req of
        JObj kvs \<Rightarrow>
          if map_get kvs ''taskType'' = Some (JStr ''planning'') then
            canonicalize (JObj [(''plan'', JArr [JStr ''repo.read'', JStr ''test.run'', JStr ''github.pull_request.create''])])
          else ''mock response (deterministic, $0)''
      | _ \<Rightarrow> ''mock response (deterministic, $0)'')"

definition mockProvider :: "'w model_provider" where
  "mockProvider = \<lparr>mp_id = ''mock'', mp_models = [MOCK_MODEL],
     mp_invoke = (\<lambda>req. returnP (JObj [(''provider'', JStr ''mock''), (''content'', JStr (mock_generate req))]))\<rparr>"

definition stubProvider :: "string \<Rightarrow> model_info list \<Rightarrow> 'w model_provider" where
  "stubProvider i models = \<lparr>mp_id = i, mp_models = models,
     mp_invoke = (\<lambda>_. returnP (JObj [(''provider'', JStr i), (''content'', JStr [])]))\<rparr>"

section \<open>The router\<close>

type_synonym 'w router = "'w model_provider list"

definition NoModelAvailableError :: "string \<Rightarrow> js_error" where
  "NoModelAvailableError taskType = JsError ''NoModelAvailableError''
     (''no model satisfies the routing requirement (taskType='' @ taskType @ '')'')"

definition task_type_string :: "task_type_hint \<Rightarrow> string" where
  "task_type_string t =
     (case t of Planning \<Rightarrow> ''planning'' | Coding \<Rightarrow> ''coding'' | Review \<Rightarrow> ''review'' | Research \<Rightarrow> ''research''
      | Summarization \<Rightarrow> ''summarization'' | Extraction \<Rightarrow> ''extraction'' | Vision \<Rightarrow> ''vision''
      | Embedding \<Rightarrow> ''embedding'')"

definition registerProvider :: "'w model_provider \<Rightarrow> 'w router \<Rightarrow> 'w router" where
  "registerProvider p r = r @ [p]"

definition discover :: "'w router \<Rightarrow> model_info list" where
  "discover r = concat (map mp_models r)"

definition model_satisfies :: "routing_requirement \<Rightarrow> model_info \<Rightarrow> bool" where
  "model_satisfies req m =
     (if (case rr_minContext req of Some n \<Rightarrow> contextWindow m < n | None \<Rightarrow> False) then False
      else if rr_needsTools req \<and> \<not> supportsTools m then False
      else if rr_needsStructuredOutput req \<and> \<not> supportsStructuredOutput m then False
      else if (case rr_maxCostPer1kInputUsd req of Some c \<Rightarrow> c < costPer1kInputUsd m | None \<Rightarrow> False) then False
      else if (case rr_maxLatencyMs req of Some l \<Rightarrow> l < latencyMs m | None \<Rightarrow> False) then False
      else True)"

definition candidates :: "'w router \<Rightarrow> routing_requirement \<Rightarrow> model_info list" where
  "candidates r req = filter (model_satisfies req) (discover r)"

definition preferred_providers :: "routing_requirement \<Rightarrow> string list" where
  "preferred_providers req = (case rr_preferredProviders req of None \<Rightarrow> [] | Some ps \<Rightarrow> ps)"

text \<open>The index of the first occurrence, or the length when there is none.\<close>

fun rank_of :: "string list \<Rightarrow> string \<Rightarrow> nat" where
  "rank_of [] p = 0"
| "rank_of (x # xs) p = (if x = p then 0 else Suc (rank_of xs p))"

definition provider_rank :: "routing_requirement \<Rightarrow> model_info \<Rightarrow> nat" where
  "provider_rank req m = rank_of (preferred_providers req) (model_providerId m)"

definition score :: "routing_requirement \<Rightarrow> model_info \<Rightarrow> rat" where
  "score req m = of_nat (provider_rank req m) * 1000000 + costPer1kInputUsd m * 1000 + latencyMs m"

definition choose_model :: "'w router \<Rightarrow> routing_requirement \<Rightarrow> js_error + model_info" where
  "choose_model r req =
     (let cs = candidates r req in
      if length cs = 0 then Inl (NoModelAvailableError (task_type_string (rr_taskType req)))
      else Inr (hd (sort_key (score req) cs)))"

section \<open>The gateway\<close>

record 'w gateway =
  gw_router :: "'w router"
  gw_providers :: "(string, 'w model_provider) js_map"

definition gateway_register :: "'w model_provider \<Rightarrow> 'w gateway \<Rightarrow> 'w gateway" where
  "gateway_register p g =
     g\<lparr>gw_providers := map_set (mp_id p) p (gw_providers g), gw_router := registerProvider p (gw_router g)\<rparr>"

definition new_gateway :: "'w router \<Rightarrow> 'w model_provider list \<Rightarrow> 'w gateway" where
  "new_gateway r ps = fold gateway_register ps \<lparr>gw_router = r, gw_providers = []\<rparr>"

record gateway_request =
  gq_requirement :: routing_requirement
  gq_input :: jsv
  gq_credentials :: "provider_credentials option"

record gateway_response =
  gs_provider :: string
  gs_modelId :: string
  gs_content :: jsv
  gs_attempts :: "string list"

definition GatewayInvocationError :: "string list \<Rightarrow> js_error" where
  "GatewayInvocationError attempts = JsError ''GatewayInvocationError''
     (''all model gateway providers failed: '' @ join_with '', '' attempts)"

text \<open>\<open>{ ...(request.input ?? {}), model, credentials }\<close>.\<close>

definition provider_request :: "gateway_request \<Rightarrow> model_info \<Rightarrow> jsv" where
  "provider_request q m =
     JObj (map_set ''credentials''
             (case gq_credentials q of None \<Rightarrow> JUndefined | Some c \<Rightarrow> credentials_jsv c)
          (map_set ''model'' (JStr (model_id m))
             (case gq_input q of JObj kvs \<Rightarrow> kvs | _ \<Rightarrow> [])))"

definition ranked_candidates :: "'w gateway \<Rightarrow> gateway_request \<Rightarrow> model_info list" where
  "ranked_candidates g q =
     sort_key (provider_rank (gq_requirement q)) (candidates (gw_router g) (gq_requirement q))"

text \<open>The loop over the ranked candidates; a failing provider is recorded and skipped.\<close>

fun try_models ::
  "'w gateway \<Rightarrow> gateway_request \<Rightarrow> string list \<Rightarrow> model_info list \<Rightarrow> ('w, gateway_response) proc" where
  "try_models g q attempts [] = throwP (GatewayInvocationError attempts)"
| "try_models g q attempts (m # ms) =
     (case map_get (gw_providers g) (model_providerId m) of
        None \<Rightarrow> try_models g q attempts ms
      | Some p \<Rightarrow>
          let attempts' = attempts @ [model_providerId m] in
          catchP
            (bindP (mp_invoke p (provider_request q m)) (\<lambda>content.
              returnP \<lparr>gs_provider = model_providerId m, gs_modelId = model_id m, gs_content = content,
                gs_attempts = attempts'\<rparr>))
            (\<lambda>_. try_models g q attempts' ms))"

definition gateway_invoke :: "'w gateway \<Rightarrow> gateway_request \<Rightarrow> ('w, gateway_response) proc" where
  "gateway_invoke g q = try_models g q [] (ranked_candidates g q)"

section \<open>Lemmas\<close>

lemma hd_sort_key:
  fixes f :: "'a \<Rightarrow> 'b::linorder"
  assumes "xs \<noteq> []"
  shows "hd (sort_key f xs) \<in> set xs" "x \<in> set xs \<Longrightarrow> f (hd (sort_key f xs)) \<le> f x"
proof -
  have ne: "sort_key f xs \<noteq> []" using assms by (metis length_0_conv length_sort)
  show "hd (sort_key f xs) \<in> set xs" using ne by (metis hd_in_set set_sort)
  obtain y ys where s: "sort_key f xs = y # ys" using ne by (cases "sort_key f xs") auto
  have "sorted (map f (y # ys))" using s sorted_sort_key [of f xs] by simp
  moreover have "set xs = set (y # ys)" using s by (metis set_sort)
  ultimately show "f (hd (sort_key f xs)) \<le> f x" if "x \<in> set xs" using that s by auto
qed

lemma find_filter: "find P xs = (case filter P xs of [] \<Rightarrow> None | x # _ \<Rightarrow> Some x)"
  by (induction xs) auto

lemma candidates_satisfy: "m \<in> set (candidates r req) \<Longrightarrow> m \<in> set (discover r) \<and> model_satisfies req m"
  by (simp add: candidates_def)

definition callable :: "'w gateway \<Rightarrow> model_info \<Rightarrow> bool" where
  "callable g m \<longleftrightarrow> map_has (gw_providers g) (model_providerId m)"

lemma try_models_Inr:
  "try_models g q attempts ms w = (Inr resp, w') \<Longrightarrow>
    \<exists>us m vs. filter (callable g) ms = us @ m # vs \<and> gs_provider resp = model_providerId m \<and>
      gs_modelId resp = model_id m \<and> gs_attempts resp = attempts @ map model_providerId (us @ [m])"
proof (induction g q attempts ms arbitrary: w rule: try_models.induct)
  case (1 g q attempts)
  then show ?case by (simp add: throwP_def)
next
  case (2 g q attempts m ms)
  show ?case
  proof (cases "map_get (gw_providers g) (model_providerId m)")
    case None
    then have "try_models g q attempts ms w = (Inr resp, w')" using "2.prems" by simp
    from "2.IH"(1) [OF None this] show ?thesis using None by (simp add: callable_def)
  next
    case (Some p)
    then have c: "filter (callable g) (m # ms) = m # filter (callable g) ms" by (simp add: callable_def)
    obtain x w1 where i: "mp_invoke p (provider_request q m) w = (x, w1)"
      by (cases "mp_invoke p (provider_request q m) w")
    show ?thesis
    proof (cases x)
      case (Inl e)
      then have "try_models g q (attempts @ [model_providerId m]) ms w1 = (Inr resp, w')"
        using "2.prems" Some i by (simp add: catchP_def bindP_def Let_def)
      from "2.IH"(2) [OF Some refl this] obtain us k vs where
        "filter (callable g) ms = us @ k # vs" "gs_provider resp = model_providerId k"
        "gs_modelId resp = model_id k"
        "gs_attempts resp = (attempts @ [model_providerId m]) @ map model_providerId (us @ [k])" by blast
      then show ?thesis using c by (intro exI [of _ "m # us"] exI [of _ k] exI [of _ vs]) simp
    next
      case (Inr v)
      then show ?thesis using "2.prems" Some i c
        by (intro exI [of _ "[]"] exI [of _ m] exI [of _ "filter (callable g) ms"])
          (auto simp: catchP_def bindP_def Let_def returnP_def)
    qed
  qed
qed

lemma try_models_Inl:
  "try_models g q attempts ms w = (Inl e, w') \<Longrightarrow>
    e = GatewayInvocationError (attempts @ map model_providerId (filter (callable g) ms))"
proof (induction g q attempts ms arbitrary: w rule: try_models.induct)
  case (1 g q attempts)
  then show ?case by (simp add: throwP_def)
next
  case (2 g q attempts m ms)
  show ?case
  proof (cases "map_get (gw_providers g) (model_providerId m)")
    case None
    then show ?thesis using "2.IH"(1) [OF None] "2.prems" by (simp add: callable_def)
  next
    case (Some p)
    obtain x w1 where i: "mp_invoke p (provider_request q m) w = (x, w1)"
      by (cases "mp_invoke p (provider_request q m) w")
    then obtain e' where "x = Inl e'" using "2.prems" Some
      by (cases x) (auto simp: catchP_def bindP_def Let_def returnP_def)
    then have "try_models g q (attempts @ [model_providerId m]) ms w1 = (Inl e, w')"
      using "2.prems" Some i by (simp add: catchP_def bindP_def Let_def)
    from "2.IH"(2) [OF Some refl this] show ?thesis using Some by (simp add: callable_def)
  qed
qed

section \<open>Properties\<close>

text \<open>The router's choice: it throws exactly when no discovered model satisfies the requirement;
  otherwise it returns a satisfying model of minimal score, the first one registered among
  those.\<close>

theorem choose_minimal:
  "case choose_model r req of
     Inl e \<Rightarrow> candidates r req = [] \<and> e = NoModelAvailableError (task_type_string (rr_taskType req))
   | Inr m \<Rightarrow> m \<in> set (discover r) \<and> model_satisfies req m \<and>
       find (\<lambda>x. score req x = score req m) (candidates r req) = Some m \<and>
       list_all (\<lambda>x. score req m \<le> score req x) (candidates r req)"
proof (cases "candidates r req = []")
  case True
  then show ?thesis by (simp add: choose_model_def)
next
  case False
  define m where "m = hd (sort_key (score req) (candidates r req))"
  have "m \<in> set (candidates r req)" unfolding m_def by (rule hd_sort_key(1) [OF False])
  moreover have "list_all (\<lambda>x. score req m \<le> score req x) (candidates r req)"
    unfolding m_def list_all_iff using hd_sort_key(2) [OF False] by blast
  moreover have "find (\<lambda>x. score req x = score req m) (candidates r req) = Some m"
  proof -
    let ?P = "\<lambda>x. score req x = score req m"
    obtain ys where s: "sort_key (score req) (candidates r req) = m # ys"
      using False unfolding m_def by (metis length_0_conv length_sort list.collapse)
    have "filter ?P (candidates r req) = filter ?P (sort_key (score req) (candidates r req))"
      using sort_key_stable [of "score req" "score req m" "candidates r req"] by simp
    then have "filter ?P (candidates r req) = m # filter ?P ys" using s by simp
    then show ?thesis by (simp add: find_filter)
  qed
  moreover have "choose_model r req = Inr m" using False by (simp add: choose_model_def m_def Let_def)
  ultimately show ?thesis using candidates_satisfy by auto
qed

text \<open>The gateway's answer: it tries the registered candidates in the order of preference; a
  response names the first provider that answered and lists the ones tried, all failures before
  it; it throws only after every candidate with a registered provider has failed.\<close>

theorem gateway_tries_in_order:
  "case gateway_invoke g q w of
     (Inr resp, _) \<Rightarrow>
       \<exists>us m vs. filter (callable g) (ranked_candidates g q) = us @ m # vs \<and>
         gs_provider resp = model_providerId m \<and> gs_modelId resp = model_id m \<and>
         gs_attempts resp = map model_providerId (us @ [m])
   | (Inl e, _) \<Rightarrow>
       e = GatewayInvocationError (map model_providerId (filter (callable g) (ranked_candidates g q)))"
proof (cases "gateway_invoke g q w")
  case (Pair x w')
  show ?thesis
  proof (cases x)
    case (Inl e)
    then show ?thesis using try_models_Inl [of g q "[]" "ranked_candidates g q" w e w'] Pair
      by (simp add: gateway_invoke_def)
  next
    case (Inr resp)
    then show ?thesis using try_models_Inr [of g q "[]" "ranked_candidates g q" w resp w'] Pair
      by (simp add: gateway_invoke_def)
  qed
qed

text \<open>Preference is strict only while cost and latency stay below the step of the score: a cheap
  model of a later provider wins against a preferred one that costs enough.\<close>

lemma preference_respected:
  assumes "choose_model r req = Inr m" "x \<in> set (candidates r req)"
    and small: "\<forall>y \<in> set (candidates r req). 0 \<le> costPer1kInputUsd y \<and> 0 \<le> latencyMs y \<and>
      costPer1kInputUsd y * 1000 + latencyMs y < 1000000"
  shows "provider_rank req m \<le> provider_rank req x"
proof (rule ccontr)
  assume "\<not> provider_rank req m \<le> provider_rank req x"
  then have "of_nat (provider_rank req x) + 1 \<le> (of_nat (provider_rank req m) :: rat)"
    by (metis Suc_leI leI of_nat_Suc of_nat_le_iff add.commute)
  moreover have ne: "candidates r req \<noteq> []" using assms(2) by auto
  have m: "m = hd (sort_key (score req) (candidates r req))"
    using assms(1) ne by (simp add: choose_model_def Let_def)
  have "score req m \<le> score req x" "m \<in> set (candidates r req)"
    unfolding m using hd_sort_key [OF ne] assms(2) by auto
  moreover have "0 \<le> costPer1kInputUsd m * 1000 + latencyMs m" using small calculation by simp
  moreover have "costPer1kInputUsd x * 1000 + latencyMs x < 1000000" using small assms(2) by simp
  ultimately show False by (simp add: score_def)
qed

end
