(* ===== verification/Vault.thy ===== *)
theory Vault
  imports Host
begin

text \<open>
  Secrets: the in-memory vault and \<open>redactSecrets\<close> of \<open>adapters/vault/src/vault.ts\<close>.  The vault
  returns what was last put under a reference; redaction removes every secret from every string
  of a value, provided the secret cannot overlap the marker \<open>[REDACTED]\<close>, and leaves the other strings
  alone; object keys are not redacted.
\<close>

section \<open>The vault\<close>

record vault_state =
  vs_secrets :: "(string, string) js_map"
  vs_ttlMs :: int

definition new_vault :: "int option \<Rightarrow> vault_state" where
  "new_vault ttlMs = \<lparr>vs_secrets = [], vs_ttlMs = (case ttlMs of None \<Rightarrow> 5 * 60 * 1000 | Some t \<Rightarrow> t)\<rparr>"

definition vault_key :: "string \<Rightarrow> string \<Rightarrow> string" where
  "vault_key vault key = vault @ '':'' @ key"

definition vault_put :: "string \<Rightarrow> string \<Rightarrow> string \<Rightarrow> vault_state \<Rightarrow> secret_ref \<times> vault_state" where
  "vault_put key value vault s =
     (\<lparr>secret_id = vault_key vault key, secret_vault = vault, secret_key = key\<rparr>,
      s\<lparr>vs_secrets := map_set (vault_key vault key) value (vs_secrets s)\<rparr>)"

definition SecretNotFoundError :: "secret_ref \<Rightarrow> js_error" where
  "SecretNotFoundError ref = JsError ''SecretNotFoundError''
     (''secret '' @ quoted (secret_key ref) @ '' not found in vault '' @ quoted (secret_vault ref))"

definition vault_resolve :: "vault_state \<Rightarrow> secret_ref \<Rightarrow> (host, short_lived_credential) proc" where
  "vault_resolve s ref h =
     (case map_get (vs_secrets s) (vault_key (secret_vault ref) (secret_key ref)) of
        None \<Rightarrow> (Inl (SecretNotFoundError ref), h)
      | Some value \<Rightarrow>
          let (now, h') = date_now h in
          (Inr \<lparr>cred_value = value, cred_expiresAt = iso_string (now + vs_ttlMs s)\<rparr>, h'))"

section \<open>Redaction\<close>

definition REDACTED :: string where
  "REDACTED = ''[REDACTED]''"

text \<open>\<open>out.split(s)\<close> for a string separator.\<close>

function split_str :: "string \<Rightarrow> string \<Rightarrow> string list" where
  "split_str sep [] = [[]]"
| "split_str sep (c # cs) =
     (if sep \<noteq> [] \<and> prefix sep (c # cs) then [] # split_str sep (drop (length sep) (c # cs))
      else (case split_str sep cs of [] \<Rightarrow> [[c]] | p # ps \<Rightarrow> (c # p) # ps))"
  by pat_completeness auto
termination
  by (relation "measure (\<lambda>(sep, s). length s)") (auto simp: neq_Nil_conv)

definition redact_one :: "string \<Rightarrow> string \<Rightarrow> string" where
  "redact_one s out = (if s = [] then out else join_with REDACTED (split_str s out))"

definition redact_string :: "string list \<Rightarrow> string \<Rightarrow> string" where
  "redact_string secrets value = fold redact_one secrets value"

function redactSecrets :: "string list \<Rightarrow> jsv \<Rightarrow> jsv" where
  "redactSecrets secrets (JStr s) = JStr (redact_string secrets s)"
| "redactSecrets secrets (JArr vs) = JArr (map (redactSecrets secrets) vs)"
| "redactSecrets secrets (JObj kvs) = JObj (map (\<lambda>(k, v). (k, redactSecrets secrets v)) kvs)"
| "redactSecrets secrets JUndefined = JUndefined"
| "redactSecrets secrets JNull = JNull"
| "redactSecrets secrets (JBool b) = JBool b"
| "redactSecrets secrets (JNum n) = JNum n"
| "redactSecrets secrets JNonFinite = JNonFinite"
| "redactSecrets secrets (JBigInt n) = JBigInt n"
| "redactSecrets secrets (JOther s) = JOther s"
  by pat_completeness auto
termination
  by (relation "measure (\<lambda>(secrets, v). size v)") (auto dest: size_snd_member size_member)

section \<open>What redaction guarantees\<close>

text \<open>An end of \<open>s\<close> that is a beginning of \<open>m\<close>.\<close>

definition runs_into :: "string \<Rightarrow> string \<Rightarrow> bool" where
  "runs_into s m \<longleftrightarrow> list_ex (\<lambda>n. prefix (drop n s) m) [0..<length s]"

text \<open>A secret that cannot overlap the marker: it neither contains it nor is part of it, and none runs into
  the other.\<close>

definition redactable :: "string \<Rightarrow> bool" where
  "redactable s \<longleftrightarrow> s \<noteq> [] \<and> \<not> sublist s REDACTED \<and> \<not> sublist REDACTED s \<and> \<not> runs_into s REDACTED \<and> \<not> runs_into REDACTED s"

text \<open>The strings of a value, in order, and the object keys.\<close>

function value_strings :: "jsv \<Rightarrow> string list" where
  "value_strings (JStr s) = [s]"
| "value_strings (JArr vs) = concat (map value_strings vs)"
| "value_strings (JObj kvs) = concat (map (\<lambda>(k, v). value_strings v) kvs)"
| "value_strings JUndefined = []"
| "value_strings JNull = []"
| "value_strings (JBool b) = []"
| "value_strings (JNum n) = []"
| "value_strings JNonFinite = []"
| "value_strings (JBigInt n) = []"
| "value_strings (JOther s) = []"
  by pat_completeness auto
termination
  by (relation "measure size") (auto dest: size_snd_member size_member)

function value_keys :: "jsv \<Rightarrow> string list" where
  "value_keys (JStr s) = []"
| "value_keys (JArr vs) = concat (map value_keys vs)"
| "value_keys (JObj kvs) = concat (map (\<lambda>(k, v). k # value_keys v) kvs)"
| "value_keys JUndefined = []"
| "value_keys JNull = []"
| "value_keys (JBool b) = []"
| "value_keys (JNum n) = []"
| "value_keys JNonFinite = []"
| "value_keys (JBigInt n) = []"
| "value_keys (JOther s) = []"
  by pat_completeness auto
termination
  by (relation "measure size") (auto dest: size_snd_member size_member)

definition secret_free :: "string list \<Rightarrow> string \<Rightarrow> bool" where
  "secret_free secrets s \<longleftrightarrow> list_all (\<lambda>t. t = [] \<or> \<not> sublist t s) secrets"

lemma split_str_ne [simp]: "split_str sep s \<noteq> []"
  by (induction sep s rule: split_str.induct) (auto split: list.splits)

lemma split_str_hd: "prefix (hd (split_str sep s)) s"
  by (induction sep s rule: split_str.induct) (auto split: list.splits)

lemma split_str_pieces:
  "sep \<noteq> [] \<Longrightarrow> p \<in> set (split_str sep s) \<Longrightarrow> \<not> sublist sep p"
proof (induction sep s arbitrary: p rule: split_str.induct)
  case (1 sep)
  then show ?case by simp
next
  case (2 sep c cs)
  show ?case
  proof (cases "prefix sep (c # cs)")
    case True
    then show ?thesis using 2 by auto
  next
    case False
    obtain q qs where q: "split_str sep cs = q # qs" by (cases "split_str sep cs") auto
    have pre: "prefix (c # q) (c # cs)" using split_str_hd [of sep cs] q by simp
    have "\<not> prefix sep (c # q)" using False pre prefix_order.order_trans by blast
    moreover have "\<not> sublist sep q" using "2.IH"(2) [of q] False "2.prems"(1) q by auto
    ultimately have "\<not> sublist sep (c # q)" by (simp add: sublist_Cons_right)
    then show ?thesis using "2.IH"(2) [of p] 2(3,4) False q by auto
  qed
qed

text \<open>An occurrence across a piece, the marker and the rest lies in the piece or in the rest.\<close>

lemma marker_overlaps:
  assumes "p @ m @ r = us @ s @ vs" "length p < length us + length s" "length us < length p + length m" "s \<noteq> []" "m \<noteq> []"
  shows "sublist s m \<or> sublist m s \<or> runs_into s m \<or> runs_into m s"
proof (cases "length us \<le> length p")
  case True
  let ?n = "length p - length us"
  have "take (length us) p = us" using assms(1) True by (metis append_eq_append_conv_if)
  then obtain q where p: "p = us @ q" by (metis append_take_drop_id)
  then have e: "q @ m @ r = s @ vs" using assms(1) by simp
  have q: "length q < length s" using assms(2) p by simp
  then have s: "s = q @ drop (length q) s" using e by (metis append_eq_append_conv_if append_take_drop_id nat_less_le order.strict_implies_order)
  let ?t = "drop (length q) s"
  have e': "m @ r = ?t @ vs" using e s by (metis append_assoc same_append_eq)
  show ?thesis
  proof (cases "length ?t \<le> length m")
    case True
    then have "prefix ?t m" using e' by (metis prefixI prefix_length_prefix)
    then have "runs_into s m" using q by (auto simp: runs_into_def list_ex_iff)
    then show ?thesis by simp
  next
    case False
    then have "prefix m ?t" using e' by (metis nat_le_linear prefixI prefix_length_prefix)
    then have "sublist m s" using s by (metis prefix_imp_sublist sublist_append_leftI sublist_appendI sublist_drop sublist_order.order_trans)
    then show ?thesis by simp
  qed
next
  case False
  let ?n = "length us - length p"
  have "take (length p) us = p" using assms(1) False by (metis append_eq_append_conv_if linorder_not_le order.strict_implies_order)
  then obtain q where us: "us = p @ q" by (metis append_take_drop_id)
  then have e: "m @ r = q @ s @ vs" using assms(1) by simp
  have q: "length q < length m" using assms(3) us by simp
  then have m: "m = q @ drop (length q) m" using e by (metis append_eq_append_conv_if append_take_drop_id nat_less_le order.strict_implies_order)
  let ?t = "drop (length q) m"
  have e': "?t @ r = s @ vs" using e m by (metis append_assoc same_append_eq)
  show ?thesis
  proof (cases "length ?t \<le> length s")
    case True
    then have "prefix ?t s" using e' by (metis prefixI prefix_length_prefix)
    then have "runs_into m s" using q by (auto simp: runs_into_def list_ex_iff)
    then show ?thesis by simp
  next
    case False
    then have "prefix s ?t" using e' by (metis nat_le_linear prefixI prefix_length_prefix)
    then have "sublist s m" by (meson prefix_imp_sublist sublist_drop sublist_order.order_trans)
    then show ?thesis by simp
  qed
qed

lemma sublist_piece_or_marker:
  assumes "redactable s" "sublist s (p @ REDACTED @ r)"
  shows "sublist s p \<or> sublist s r"
proof -
  obtain us vs where e: "p @ REDACTED @ r = us @ s @ vs" using assms(2) by (auto simp: sublist_def)
  have "length us + length s \<le> length p \<or> length p + length REDACTED \<le> length us"
    using marker_overlaps [OF e] assms(1) by (auto simp: redactable_def REDACTED_def not_le)
  then show ?thesis
  proof
    assume l: "length us + length s \<le> length p"
    have "p = take (length p) (us @ s @ vs)" by (metis e append_eq_conv_conj)
    then have "p = us @ s @ take (length p - length us - length s) vs" using l by simp
    then show ?thesis by (metis sublist_appendI)
  next
    assume l: "length p + length REDACTED \<le> length us"
    have "r = drop (length p + length REDACTED) (us @ s @ vs)"
      by (metis e append.assoc append_eq_conv_conj length_append)
    then have "r = drop (length p + length REDACTED) us @ s @ vs" using l by simp
    then show ?thesis by (metis sublist_appendI)
  qed
qed

lemma sublist_join:
  assumes "redactable s"
  shows "sublist s (join_with REDACTED ps) \<Longrightarrow> \<exists>p \<in> set ps. sublist s p"
proof (induction REDACTED ps rule: join_with.induct)
  case 1
  then show ?case using assms by (simp add: redactable_def)
next
  case (2 p)
  then show ?case by simp
next
  case (3 p q ps)
  have "sublist s p \<or> sublist s (join_with REDACTED (q # ps))"
    using 3(2) sublist_piece_or_marker [OF assms, of p "join_with REDACTED (q # ps)"] by simp
  then show ?case using 3(1) by auto
qed

lemma split_str_sublist: "p \<in> set (split_str sep s) \<Longrightarrow> sublist p s"
proof (induction sep s arbitrary: p rule: split_str.induct)
  case (1 sep)
  then show ?case by simp
next
  case (2 sep c cs)
  show ?case
  proof (cases "sep \<noteq> [] \<and> prefix sep (c # cs)")
    case True
    have "sublist q (c # cs)" if "sublist q (drop (length sep) (c # cs))" for q
      using that by (meson sublist_drop sublist_order.order_trans)
    then show ?thesis using 2 True by auto
  next
    case False
    obtain q qs where q: "split_str sep cs = q # qs" by (cases "split_str sep cs") auto
    have "sublist (c # q) (c # cs)"
      using split_str_hd [of sep cs] q by (simp add: prefix_imp_sublist)
    then show ?thesis using 2 False q by (auto simp: sublist_Cons_right)
  qed
qed

lemma redact_one_removes: "redactable s \<Longrightarrow> \<not> sublist s (redact_one s out)"
proof
  assume s: "redactable s" "sublist s (redact_one s out)"
  then have ne: "s \<noteq> []" by (simp add: redactable_def)
  then obtain p where "p \<in> set (split_str s out)" "sublist s p"
    using sublist_join [OF s(1)] s(2) by (auto simp: redact_one_def)
  then show False using split_str_pieces [OF ne] by blast
qed

lemma redact_one_keeps: "redactable t \<Longrightarrow> \<not> sublist t out \<Longrightarrow> \<not> sublist t (redact_one s out)"
proof
  assume t: "redactable t" "\<not> sublist t out" "sublist t (redact_one s out)"
  show False
  proof (cases "s = []")
    case True
    then show ?thesis using t by (simp add: redact_one_def)
  next
    case False
    then obtain p where "p \<in> set (split_str s out)" "sublist t p"
      using sublist_join [OF t(1)] t(3) by (auto simp: redact_one_def)
    then show ?thesis using t(2) split_str_sublist sublist_order.order_trans by blast
  qed
qed

lemma redact_string_removes:
  "redactable t \<Longrightarrow> t \<in> set secrets \<Longrightarrow> \<not> sublist t (redact_string secrets out)"
proof (induction secrets arbitrary: out rule: rev_induct)
  case Nil
  then show ?case by simp
next
  case (snoc s secrets)
  then show ?case using redact_one_removes redact_one_keeps
    by (cases "t = s") (auto simp: redact_string_def)
qed

lemma redactSecrets_strings:
  "value_strings (redactSecrets secrets v) = map (redact_string secrets) (value_strings v)"
  by (induction secrets v rule: redactSecrets.induct)
    (auto simp: map_concat comp_def case_prod_beta intro!: arg_cong [where f = concat] map_cong)

lemma split_str_absent: "\<not> sublist sep s \<Longrightarrow> split_str sep s = [s]"
proof (induction sep s rule: split_str.induct)
  case (2 sep c cs)
  then have "\<not> prefix sep (c # cs)" "\<not> sublist sep cs" by (auto simp: sublist_Cons_right)
  then show ?case using 2 by auto
qed simp

lemma redact_string_absent: "secret_free secrets s \<Longrightarrow> redact_string secrets s = s"
  by (induction secrets) (auto simp: redact_string_def secret_free_def redact_one_def split_str_absent)

lemma redactSecrets_keys: "value_keys (redactSecrets secrets v) = value_keys v"
  by (induction secrets v rule: redactSecrets.induct)
    (auto simp: comp_def case_prod_beta intro!: arg_cong [where f = concat] map_cong)

text \<open>A token without brackets cannot overlap the marker unless it is part of the marker's word.\<close>

lemma token_redactable:
  assumes "t \<noteq> []" "CHR ''['' \<notin> set t" "CHR '']'' \<notin> set t" "\<not> sublist t REDACTED"
  shows "redactable t"
proof -
  have start: "prefix u REDACTED \<Longrightarrow> u = [] \<or> CHR ''['' \<in> set u" for u
    by (cases u) (auto simp: REDACTED_def)
  have "\<not> runs_into t REDACTED"
  proof
    assume "runs_into t REDACTED"
    then obtain n where n: "n < length t" "prefix (drop n t) REDACTED" by (auto simp: runs_into_def list_ex_iff)
    then have "CHR ''['' \<in> set (drop n t)" using start [OF n(2)] by auto
    then show False using assms(2) in_set_dropD by fastforce
  qed
  moreover have "\<not> runs_into REDACTED t"
  proof
    assume "runs_into REDACTED t"
    then obtain n where n: "n < length REDACTED" "prefix (drop n REDACTED) t" by (auto simp: runs_into_def list_ex_iff)
    have "CHR '']'' = last (drop n REDACTED)" using n(1) by (simp add: last_drop) (simp add: REDACTED_def)
    then have "CHR '']'' \<in> set (drop n REDACTED)" using n(1) by (metis drop_eq_Nil last_in_set linorder_not_le)
    then show False using n(2) assms(3) set_mono_prefix by blast
  qed
  moreover have "\<not> sublist REDACTED t"
    using assms(2) set_mono_sublist [of REDACTED t] by (auto simp: REDACTED_def)
  ultimately show ?thesis using assms by (simp add: redactable_def)
qed

section \<open>Properties\<close>


abbreviation demo_logged :: jsv where
  "demo_logged \<equiv> JObj [(''log'', JArr [JStr ''key=RED-s3cr3t;RED-s3cr3t'', JStr ''done''])]"


text \<open>What is put can be resolved, and nothing else changes: the credential resolved for a
  reference is the value last put under it and expires \<open>ttlMs\<close> after the reading of the clock.\<close>

theorem vault_put_resolve:
  "vault_resolve (snd (vault_put key value vault s)) ref h =
    (if vault_key (secret_vault ref) (secret_key ref) = secret_id (fst (vault_put key value vault s)) then
       (Inr \<lparr>cred_value = value, cred_expiresAt = iso_string (fst (date_now h) + vs_ttlMs s)\<rparr>, snd (date_now h))
     else vault_resolve s ref h)"
  by (simp add: vault_put_def vault_resolve_def Let_def case_prod_beta split: option.splits)

text \<open>Keys escape redaction, and so do references whose vault and key concatenate alike.\<close>

lemma redaction_keeps_keys:
  "redactSecrets secrets (JObj [(k, JNull)]) = JObj [(k, JNull)]"
  by simp

lemma vault_references_alias: "vault_key ''a:b'' ''c'' = vault_key ''a'' ''b:c''"
  by (simp add: vault_key_def)

end
