(* ===== verification/Identity.thy ===== *)
theory Identity
  imports Host
begin

text \<open>
  The identity aggregate of \<open>kernel/identity/src\<close>: its data, its events and the operations of
  \<open>IdentityService\<close>.  The service's state is its five lists, its event log and the host it takes
  identifiers and times from.  The invariant ties every membership, session and token to a user of
  its own organisation; it gives tenant isolation for authentication.  How \<open>Date\<close> reads the text
  of an expiry time is a parameter: \<open>parse_date\<close>, with \<open>None\<close> for NaN.
\<close>

section \<open>Data\<close>

datatype membership_status = Ms_active | Ms_suspended | Ms_revoked
datatype session_status = Ss_active | Ss_expired | Ss_revoked
datatype user_status = Us_active | Us_suspended | Us_deleted
datatype trust_level = Tl_unknown | Tl_verified | Tl_trusted | Tl_revoked

record organization =
  org_id :: string
  org_name :: string
  org_createdAt :: string

record user =
  user_id :: string
  user_organizationId :: string
  user_email :: string
  user_displayName :: string
  user_createdAt :: string
  user_status :: user_status

record membership =
  mem_id :: string
  mem_organizationId :: string
  mem_userId :: string
  mem_roles :: "string list"
  mem_status :: membership_status
  mem_createdAt :: string
  mem_revokedAt :: "string option"

record session =
  ses_id :: string
  ses_organizationId :: string
  ses_userId :: string
  ses_status :: session_status
  ses_createdAt :: string
  ses_expiresAt :: string
  ses_revokedAt :: "string option"

record token_descriptor =
  tok_id :: string
  tok_sessionId :: string
  tok_organizationId :: string
  tok_userId :: string
  tok_secretRef :: secret_ref
  tok_issuedAt :: string
  tok_expiresAt :: string
  tok_revokedAt :: "string option"
  tok_replacedBy :: "string option"

record authenticated_principal =
  ap_id :: string
  ap_organizationId :: string
  ap_sessionId :: string
  ap_tokenId :: string
  ap_roles :: "string list"
  ap_trust :: trust_level

record identity_state =
  id_organizations :: "organization list"
  id_users :: "user list"
  id_memberships :: "membership list"
  id_sessions :: "session list"
  id_tokens :: "token_descriptor list"

definition IDENTITY_EVENT_TYPES :: "string list" where
  "IDENTITY_EVENT_TYPES =
     [''identity.organization.created'', ''identity.user.created'', ''identity.membership.granted'',
      ''identity.membership.revoked'', ''identity.role.assigned'', ''identity.role.removed'',
      ''identity.session.created'', ''identity.token.issued'', ''identity.token.rotated'',
      ''identity.token.revoked'']"

record identity_event_actor =
  iea_principalId :: string
  iea_organizationId :: string
  iea_sessionId :: "string option"

datatype identity_payload =
    OrganizationCreated (pay_organizationId: string) (pay_name: string)
  | UserCreated (pay_userId: string) (pay_organizationId: string) (pay_email: string) (pay_displayName: string)
  | MembershipChanged (pay_membershipId: string) (pay_organizationId: string) (pay_userId: string) (pay_role: "string option")
  | SessionCreated (pay_sessionId: string) (pay_organizationId: string) (pay_userId: string) (pay_expiresAt: string)
  | TokenIssued (pay_tokenId: string) (pay_sessionId: string) (pay_organizationId: string) (pay_userId: string)
      (pay_secretRef: secret_ref) (pay_expiresAt: string)

record identity_event =
  ie_type :: string
  ie_occurredAt :: string
  ie_actor :: identity_event_actor
  ie_payload :: identity_payload

section \<open>The service\<close>

record identity_service =
  is_state :: identity_state
  is_events :: "identity_event list"
  is_host :: host

definition emptyState :: identity_state where
  "emptyState = \<lparr>id_organizations = [], id_users = [], id_memberships = [], id_sessions = [], id_tokens = []\<rparr>"

definition new_identity_service :: "host \<Rightarrow> identity_service" where
  "new_identity_service h = \<lparr>is_state = emptyState, is_events = [], is_host = h\<rparr>"

definition svc_id :: "identity_service \<Rightarrow> string \<times> identity_service" where
  "svc_id s = (case randomUUID (is_host s) of (u, h) \<Rightarrow> (u, s\<lparr>is_host := h\<rparr>))"

definition svc_now :: "identity_service \<Rightarrow> string \<times> identity_service" where
  "svc_now s = (case new_date_iso (is_host s) of (t, h) \<Rightarrow> (t, s\<lparr>is_host := h\<rparr>))"

definition append_identity ::
  "string \<Rightarrow> identity_event_actor \<Rightarrow> identity_payload \<Rightarrow> identity_service \<Rightarrow> identity_service" where
  "append_identity type act payload s =
     (let (now, s1) = svc_now s in
      s1\<lparr>is_events := is_events s1 @
        [\<lparr>ie_type = type, ie_occurredAt = now, ie_actor = act, ie_payload = payload\<rparr>]\<rparr>)"

definition requireOrganization :: "identity_service \<Rightarrow> string \<Rightarrow> js_error + organization" where
  "requireOrganization s i =
     (case find (\<lambda>c. org_id c = i) (id_organizations (is_state s)) of
        None \<Rightarrow> Inl (plain_error (''organization '' @ quoted i @ '' not found'')) | Some c \<Rightarrow> Inr c)"

definition requireUser :: "identity_service \<Rightarrow> string \<Rightarrow> js_error + user" where
  "requireUser s i =
     (case find (\<lambda>c. user_id c = i) (id_users (is_state s)) of
        None \<Rightarrow> Inl (plain_error (''user '' @ quoted i @ '' not found'')) | Some c \<Rightarrow> Inr c)"

definition requireSession :: "identity_service \<Rightarrow> string \<Rightarrow> js_error + session" where
  "requireSession s i =
     (case find (\<lambda>c. ses_id c = i) (id_sessions (is_state s)) of
        None \<Rightarrow> Inl (plain_error (''session '' @ quoted i @ '' not found'')) | Some c \<Rightarrow> Inr c)"

definition requireSameOrganization :: "string \<Rightarrow> string \<Rightarrow> js_error + unit" where
  "requireSameOrganization expected actual =
     (if expected \<noteq> actual then Inl (plain_error ''cross-tenant access is denied'') else Inr ())"

definition requireActor :: "identity_service \<Rightarrow> identity_event_actor \<Rightarrow> js_error + unit" where
  "requireActor s act = bindE (requireOrganization s (iea_organizationId act)) (\<lambda>_. Inr ())"

definition createOrganization ::
  "identity_event_actor \<Rightarrow> string \<Rightarrow> identity_service \<Rightarrow> organization \<times> identity_service" where
  "createOrganization act name s =
     (let (i, s1) = svc_id s; (now, s2) = svc_now s1;
          org = \<lparr>org_id = i, org_name = name, org_createdAt = now\<rparr>;
          s3 = append_identity ''identity.organization.created'' act (OrganizationCreated i name) s2
      in (org, s3\<lparr>is_state := (is_state s3)\<lparr>id_organizations := id_organizations (is_state s3) @ [org]\<rparr>\<rparr>))"

definition createUser ::
  "identity_event_actor \<Rightarrow> string \<Rightarrow> string \<Rightarrow> identity_service \<Rightarrow> js_error + user \<times> identity_service" where
  "createUser act email displayName s =
     bindE (requireOrganization s (iea_organizationId act)) (\<lambda>_.
       let (i, s1) = svc_id s; (now, s2) = svc_now s1;
           u = \<lparr>user_id = i, user_organizationId = iea_organizationId act, user_email = email,
             user_displayName = displayName, user_createdAt = now, user_status = Us_active\<rparr>;
           s3 = append_identity ''identity.user.created'' act
             (UserCreated i (iea_organizationId act) email displayName) s2
       in Inr (u, s3\<lparr>is_state := (is_state s3)\<lparr>id_users := id_users (is_state s3) @ [u]\<rparr>\<rparr>))"

text \<open>\<open>[...new Set(roles)]\<close> keeps the first occurrence of each role.\<close>

fun unique_roles :: "string list \<Rightarrow> string list \<Rightarrow> string list" where
  "unique_roles seen [] = []"
| "unique_roles seen (r # rs) = (if r \<in> set seen then unique_roles seen rs else r # unique_roles (r # seen) rs)"

definition grantMembership ::
  "identity_event_actor \<Rightarrow> string \<Rightarrow> string list \<Rightarrow> identity_service \<Rightarrow> js_error + membership \<times> identity_service" where
  "grantMembership act userId roles s =
     bindE (requireOrganization s (iea_organizationId act)) (\<lambda>_.
     bindE (requireUser s userId) (\<lambda>u.
       if user_organizationId u \<noteq> iea_organizationId act then
         Inl (plain_error ''cross-tenant membership is denied'')
       else
         let (i, s1) = svc_id s; (now, s2) = svc_now s1;
             m = \<lparr>mem_id = i, mem_organizationId = iea_organizationId act, mem_userId = userId,
               mem_roles = unique_roles [] roles, mem_status = Ms_active, mem_createdAt = now,
               mem_revokedAt = None\<rparr>;
             s3 = append_identity ''identity.membership.granted'' act
               (MembershipChanged i (iea_organizationId act) userId None) s2;
             s4 = fold (\<lambda>r. append_identity ''identity.role.assigned'' act
               (MembershipChanged i (iea_organizationId act) userId (Some r))) (mem_roles m) s3
         in Inr (m, s4\<lparr>is_state := (is_state s4)\<lparr>id_memberships := id_memberships (is_state s4) @ [m]\<rparr>\<rparr>)))"

definition active_membership :: "identity_service \<Rightarrow> string \<Rightarrow> string \<Rightarrow> membership option" where
  "active_membership s orgId userId =
     find (\<lambda>c. mem_userId c = userId \<and> mem_organizationId c = orgId \<and> mem_status c = Ms_active)
       (id_memberships (is_state s))"

definition createSession ::
  "identity_event_actor \<Rightarrow> string \<Rightarrow> string \<Rightarrow> identity_service \<Rightarrow> js_error + session \<times> identity_service" where
  "createSession act userId expiresAt s =
     bindE (requireOrganization s (iea_organizationId act)) (\<lambda>_.
     bindE (requireUser s userId) (\<lambda>u.
       if user_organizationId u \<noteq> iea_organizationId act then
         Inl (plain_error ''cross-tenant session is denied'')
       else
         (case active_membership s (iea_organizationId act) userId of
            None \<Rightarrow> Inl (plain_error ''active membership is required'')
          | Some _ \<Rightarrow>
              let (i, s1) = svc_id s; (now, s2) = svc_now s1;
                  ses = \<lparr>ses_id = i, ses_organizationId = iea_organizationId act, ses_userId = userId,
                    ses_status = Ss_active, ses_createdAt = now, ses_expiresAt = expiresAt, ses_revokedAt = None\<rparr>;
                  s3 = append_identity ''identity.session.created'' act
                    (SessionCreated i (iea_organizationId act) userId expiresAt) s2
              in Inr (ses, s3\<lparr>is_state := (is_state s3)\<lparr>id_sessions := id_sessions (is_state s3) @ [ses]\<rparr>\<rparr>))))"

definition appendToken ::
  "string \<Rightarrow> identity_event_actor \<Rightarrow> token_descriptor \<Rightarrow> identity_service \<Rightarrow> identity_service" where
  "appendToken type act t s = append_identity type act
     (TokenIssued (tok_id t) (tok_sessionId t) (tok_organizationId t) (tok_userId t) (tok_secretRef t) (tok_expiresAt t)) s"

definition issueToken ::
  "identity_event_actor \<Rightarrow> string \<Rightarrow> secret_ref \<Rightarrow> string \<Rightarrow> identity_service \<Rightarrow> js_error + token_descriptor \<times> identity_service" where
  "issueToken act sessionId secretRef expiresAt s =
     bindE (requireSession s sessionId) (\<lambda>ses.
     bindE (requireSameOrganization (iea_organizationId act) (ses_organizationId ses)) (\<lambda>_.
       let (i, s1) = svc_id s; (now, s2) = svc_now s1;
           t = \<lparr>tok_id = i, tok_sessionId = sessionId, tok_organizationId = ses_organizationId ses,
             tok_userId = ses_userId ses, tok_secretRef = secretRef, tok_issuedAt = now,
             tok_expiresAt = expiresAt, tok_revokedAt = None, tok_replacedBy = None\<rparr>;
           s3 = appendToken ''identity.token.issued'' act t s2
       in Inr (t, s3\<lparr>is_state := (is_state s3)\<lparr>id_tokens := id_tokens (is_state s3) @ [t]\<rparr>\<rparr>)))"

text \<open>\<open>new Date(expiresAt).getTime() <= Date.now()\<close> is false when the date does not parse.\<close>

definition authenticate ::
  "(string \<Rightarrow> int option) \<Rightarrow> string \<Rightarrow> identity_service \<Rightarrow> (js_error + authenticated_principal) \<times> identity_service" where
  "authenticate parse_date tokenId s =
     (case find (\<lambda>c. tok_id c = tokenId) (id_tokens (is_state s)) of
        None \<Rightarrow> (Inl (plain_error ''token is revoked or unknown''), s)
      | Some t \<Rightarrow>
          if (case tok_revokedAt t of None \<Rightarrow> False | Some r \<Rightarrow> r \<noteq> []) then
            (Inl (plain_error ''token is revoked or unknown''), s)
          else
            (case requireSession s (tok_sessionId t) of
               Inl e \<Rightarrow> (Inl e, s)
             | Inr ses \<Rightarrow>
                 if ses_status ses \<noteq> Ss_active then (Inl (plain_error ''session is expired or revoked''), s)
                 else
                   let (now, h) = date_now (is_host s); s1 = s\<lparr>is_host := h\<rparr> in
                   if (case parse_date (ses_expiresAt ses) of None \<Rightarrow> False | Some e \<Rightarrow> e \<le> now) then
                     (Inl (plain_error ''session is expired or revoked''), s1)
                   else
                     (case active_membership s1 (tok_organizationId t) (tok_userId t) of
                        None \<Rightarrow> (Inl (plain_error ''active membership is required''), s1)
                      | Some m \<Rightarrow>
                          (Inr \<lparr>ap_id = tok_userId t, ap_organizationId = tok_organizationId t,
                             ap_sessionId = tok_sessionId t, ap_tokenId = tok_id t, ap_roles = mem_roles m,
                             ap_trust = Tl_unknown\<rparr>, s1))))"

section \<open>The invariant\<close>

definition find_user :: "identity_state \<Rightarrow> string \<Rightarrow> user option" where
  "find_user st i = find (\<lambda>c. user_id c = i) (id_users st)"

definition find_session :: "identity_state \<Rightarrow> string \<Rightarrow> session option" where
  "find_session st i = find (\<lambda>c. ses_id c = i) (id_sessions st)"

definition user_in :: "identity_state \<Rightarrow> string \<Rightarrow> string \<Rightarrow> bool" where
  "user_in st userId orgId \<longleftrightarrow> (\<exists>u. find_user st userId = Some u \<and> user_organizationId u = orgId)"

definition token_ok :: "identity_state \<Rightarrow> token_descriptor \<Rightarrow> bool" where
  "token_ok st t \<longleftrightarrow> (\<exists>ses. find_session st (tok_sessionId t) = Some ses \<and>
     ses_organizationId ses = tok_organizationId t \<and> ses_userId ses = tok_userId t)"

definition identity_inv :: "identity_state \<Rightarrow> bool" where
  "identity_inv st \<longleftrightarrow>
     (\<forall>m \<in> set (id_memberships st). user_in st (mem_userId m) (mem_organizationId m)) \<and>
     (\<forall>ses \<in> set (id_sessions st). user_in st (ses_userId ses) (ses_organizationId ses)) \<and>
     (\<forall>t \<in> set (id_tokens st). token_ok st t)"

lemma svc_frame [simp]:
  "is_state (snd (svc_id s)) = is_state s" "is_events (snd (svc_id s)) = is_events s"
  "is_state (snd (svc_now s)) = is_state s" "is_events (snd (svc_now s)) = is_events s"
  by (simp_all add: svc_id_def svc_now_def case_prod_beta)

lemma append_identity_state [simp]: "is_state (append_identity t a p s) = is_state s"
  by (simp add: append_identity_def Let_def case_prod_beta)

lemma fold_append_state [simp]: "is_state (fold (\<lambda>r. append_identity t a (p r)) rs s) = is_state s"
  by (induction rs arbitrary: s) simp_all

lemma appendToken_state [simp]: "is_state (appendToken t a k s) = is_state s"
  by (simp add: appendToken_def)

lemma find_Some_in: "find P xs = Some x \<Longrightarrow> x \<in> set xs \<and> P x"
  by (induction xs) (auto split: if_splits)

lemma find_snoc_stable: "find P xs = Some x \<Longrightarrow> find P (xs @ ys) = Some x"
  by (induction xs) auto

lemma user_in_more: "user_in st i g \<Longrightarrow> id_users st' = id_users st @ us \<Longrightarrow> user_in st' i g"
  by (auto simp: user_in_def find_user_def find_snoc_stable)

lemma token_ok_more: "token_ok st t \<Longrightarrow> id_sessions st' = id_sessions st @ ss \<Longrightarrow> token_ok st' t"
  by (auto simp: token_ok_def find_session_def find_snoc_stable)

text \<open>Each operation in terms of the lists.\<close>

lemma createOrganization_state:
  "\<exists>g. is_state (snd (createOrganization act n s)) =
     (is_state s)\<lparr>id_organizations := id_organizations (is_state s) @ [g]\<rparr>"
  by (auto simp: createOrganization_def Let_def case_prod_beta)

lemma createUser_state:
  "createUser act e d s = Inr (u, s') \<Longrightarrow> is_state s' = (is_state s)\<lparr>id_users := id_users (is_state s) @ [u]\<rparr>"
  by (auto simp: createUser_def Let_def case_prod_beta bindE_Inr)

lemma requireUser_find: "requireUser s i = Inr u \<longleftrightarrow> find_user (is_state s) i = Some u"
  by (simp add: requireUser_def find_user_def split: option.splits)

lemma requireSession_find: "requireSession s i = Inr u \<longleftrightarrow> find_session (is_state s) i = Some u"
  by (simp add: requireSession_def find_session_def split: option.splits)

lemma grantMembership_state:
  assumes "grantMembership act i rs s = Inr (m, s')"
  shows "is_state s' = (is_state s)\<lparr>id_memberships := id_memberships (is_state s) @ [m]\<rparr> \<and>
    user_in (is_state s) (mem_userId m) (mem_organizationId m)"
  using assms by (auto simp: grantMembership_def Let_def case_prod_beta bindE_Inr requireUser_find user_in_def
      split: if_splits)

lemma createSession_state:
  assumes "createSession act i e s = Inr (ses, s')"
  shows "is_state s' = (is_state s)\<lparr>id_sessions := id_sessions (is_state s) @ [ses]\<rparr> \<and>
    user_in (is_state s) (ses_userId ses) (ses_organizationId ses)"
  using assms by (auto simp: createSession_def Let_def case_prod_beta bindE_Inr requireUser_find user_in_def
      split: if_splits option.splits)

lemma issueToken_state:
  assumes "issueToken act i r e s = Inr (t, s')"
  shows "is_state s' = (is_state s)\<lparr>id_tokens := id_tokens (is_state s) @ [t]\<rparr> \<and> token_ok (is_state s) t \<and>
    tok_organizationId t = iea_organizationId act"
  using assms by (auto simp: issueToken_def Let_def case_prod_beta bindE_Inr requireSession_find token_ok_def
      requireSameOrganization_def split: if_splits)

section \<open>Histories\<close>

datatype identity_op =
    OpCreateOrganization identity_event_actor string
  | OpCreateUser identity_event_actor string string
  | OpGrantMembership identity_event_actor string "string list"
  | OpCreateSession identity_event_actor string string
  | OpIssueToken identity_event_actor string secret_ref string
  | OpAuthenticate string

definition after :: "identity_service \<Rightarrow> js_error + 'a \<times> identity_service \<Rightarrow> identity_service" where
  "after s r = (case r of Inl _ \<Rightarrow> s | Inr (_, s') \<Rightarrow> s')"

fun identity_step :: "(string \<Rightarrow> int option) \<Rightarrow> identity_op \<Rightarrow> identity_service \<Rightarrow> identity_service" where
  "identity_step pd (OpCreateOrganization a n) s = snd (createOrganization a n s)"
| "identity_step pd (OpCreateUser a e d) s = after s (createUser a e d s)"
| "identity_step pd (OpGrantMembership a i rs) s = after s (grantMembership a i rs s)"
| "identity_step pd (OpCreateSession a i e) s = after s (createSession a i e s)"
| "identity_step pd (OpIssueToken a i r e) s = after s (issueToken a i r e s)"
| "identity_step pd (OpAuthenticate t) s = snd (authenticate pd t s)"

lemma authenticate_state [simp]: "is_state (snd (authenticate pd t s)) = is_state s"
  by (simp add: authenticate_def Let_def case_prod_beta split: option.splits sum.splits)

lemma identity_step_inv: "identity_inv (is_state s) \<Longrightarrow> identity_inv (is_state (identity_step pd op s))"
proof (cases op)
  case (OpCreateOrganization a n)
  assume inv: "identity_inv (is_state s)"
  obtain g where "is_state (snd (createOrganization a n s)) =
      (is_state s)\<lparr>id_organizations := id_organizations (is_state s) @ [g]\<rparr>"
    using createOrganization_state by blast
  then show ?thesis using inv OpCreateOrganization
    by (simp add: identity_inv_def user_in_def token_ok_def find_user_def find_session_def)
next
  case (OpCreateUser a e d)
  assume inv: "identity_inv (is_state s)"
  show ?thesis
  proof (cases "createUser a e d s")
    case (Inl err)
    then show ?thesis using inv OpCreateUser by (simp add: after_def)
  next
    case (Inr r)
    obtain u s' where r: "r = (u, s')" by (cases r)
    have st: "is_state s' = (is_state s)\<lparr>id_users := id_users (is_state s) @ [u]\<rparr>"
      using createUser_state Inr r by blast
    then have more: "user_in (is_state s) i g \<Longrightarrow> user_in (is_state s') i g" for i g
      by (simp add: user_in_more [of "is_state s" i g _ "[u]"])
    have "identity_inv (is_state s')"
      using inv more st by (simp add: identity_inv_def token_ok_def find_session_def)
    then show ?thesis using Inr r OpCreateUser by (simp add: after_def)
  qed
next
  case (OpGrantMembership a i rs)
  assume inv: "identity_inv (is_state s)"
  show ?thesis
  proof (cases "grantMembership a i rs s")
    case (Inl err)
    then show ?thesis using inv OpGrantMembership by (simp add: after_def)
  next
    case (Inr r)
    obtain m s' where r: "r = (m, s')" by (cases r)
    from grantMembership_state [OF Inr [unfolded r]] inv
    have "identity_inv (is_state s')"
      by (auto simp: identity_inv_def user_in_def token_ok_def find_user_def find_session_def)
    then show ?thesis using Inr r OpGrantMembership by (simp add: after_def)
  qed
next
  case (OpCreateSession a i e)
  assume inv: "identity_inv (is_state s)"
  show ?thesis
  proof (cases "createSession a i e s")
    case (Inl err)
    then show ?thesis using inv OpCreateSession by (simp add: after_def)
  next
    case (Inr r)
    obtain ses s' where r: "r = (ses, s')" by (cases r)
    note st = createSession_state [OF Inr [unfolded r]]
    then have more: "token_ok (is_state s) t \<Longrightarrow> token_ok (is_state s') t" for t
      by (elim token_ok_more) simp
    have u: "user_in (is_state s') j g = user_in (is_state s) j g" for j g
      using st by (simp add: user_in_def find_user_def)
    have "identity_inv (is_state s')" using inv st more u by (auto simp: identity_inv_def)
    then show ?thesis using Inr r OpCreateSession by (simp add: after_def)
  qed
next
  case (OpIssueToken a i k e)
  assume inv: "identity_inv (is_state s)"
  show ?thesis
  proof (cases "issueToken a i k e s")
    case (Inl err)
    then show ?thesis using inv OpIssueToken by (simp add: after_def)
  next
    case (Inr r)
    obtain t s' where r: "r = (t, s')" by (cases r)
    from issueToken_state [OF Inr [unfolded r]] inv
    have "identity_inv (is_state s')"
      by (auto simp: identity_inv_def user_in_def token_ok_def find_user_def find_session_def)
    then show ?thesis using Inr r OpIssueToken by (simp add: after_def)
  qed
next
  case (OpAuthenticate t)
  then show "identity_inv (is_state s) \<Longrightarrow> ?thesis" by simp
qed

lemma identity_history_inv:
  "identity_inv (is_state s) \<Longrightarrow> identity_inv (is_state (fold (identity_step pd) ops s))"
  by (induction ops arbitrary: s) (simp_all add: identity_step_inv)

lemma identity_inv_new [simp]: "identity_inv (is_state (new_identity_service h))"
  by (simp add: identity_inv_def new_identity_service_def emptyState_def)

text \<open>The expiry the check reads.\<close>

definition parse_expiry :: "(string \<Rightarrow> int option) \<Rightarrow> session \<Rightarrow> int option" where
  "parse_expiry pd ses = pd (ses_expiresAt ses)"

section \<open>Properties\<close>

lemma authenticate_Inr:
  assumes "fst (authenticate pd tokenId s) = Inr p"
  shows "\<exists>t ses m. find (\<lambda>c. tok_id c = tokenId) (id_tokens (is_state s)) = Some t \<and>
    requireSession s (tok_sessionId t) = Inr ses \<and> ses_status ses = Ss_active \<and>
    (case parse_expiry pd ses of None \<Rightarrow> True | Some e \<Rightarrow> fst (date_now (is_host s)) < e) \<and>
    active_membership s (tok_organizationId t) (tok_userId t) = Some m \<and>
    p = \<lparr>ap_id = tok_userId t, ap_organizationId = tok_organizationId t, ap_sessionId = tok_sessionId t,
      ap_tokenId = tok_id t, ap_roles = mem_roles m, ap_trust = Tl_unknown\<rparr>"
proof (cases "find (\<lambda>c. tok_id c = tokenId) (id_tokens (is_state s))")
  case None
  then show ?thesis using assms by (simp add: authenticate_def)
next
  case t: (Some t)
  have am: "active_membership (s\<lparr>is_host := h'\<rparr>) g i = active_membership s g i" for h' g i
    by (simp add: active_membership_def)
  show ?thesis
  proof (cases "requireSession s (tok_sessionId t)")
    case (Inl e)
    then show ?thesis using assms t by (simp add: authenticate_def split: if_splits)
  next
    case ses: (Inr ses)
    show ?thesis
    proof (cases "active_membership s (tok_organizationId t) (tok_userId t)")
      case None
      then show ?thesis using assms t ses am
        by (simp add: authenticate_def Let_def case_prod_beta split: if_splits)
    next
      case (Some m)
      then show ?thesis using assms t ses am
        by (simp add: authenticate_def Let_def case_prod_beta parse_expiry_def not_le split: if_splits option.splits)
    qed
  qed
qed

text \<open>C25.  Tenant isolation.  Whatever operations have run, a principal that authenticates is a user
  of the organisation it authenticates for: its token, its session and its active membership all
  belong to that organisation and that user, and its roles are the membership's.\<close>

theorem authenticate_tenant_isolation:
  assumes "s = fold (identity_step pd) ops (new_identity_service h)"
    and "fst (authenticate pd tokenId s) = Inr p"
  shows "user_in (is_state s) (ap_id p) (ap_organizationId p) \<and>
    (\<exists>ses m. find_session (is_state s) (ap_sessionId p) = Some ses \<and> ses_status ses = Ss_active \<and>
       ses_organizationId ses = ap_organizationId p \<and> ses_userId ses = ap_id p \<and>
       active_membership s (ap_organizationId p) (ap_id p) = Some m \<and> ap_roles p = mem_roles m)"
proof -
  have inv: "identity_inv (is_state s)" using identity_history_inv assms(1) by simp
  from authenticate_Inr [OF assms(2)] obtain t ses0 m where
    t: "find (\<lambda>c. tok_id c = tokenId) (id_tokens (is_state s)) = Some t" and
    rs: "requireSession s (tok_sessionId t) = Inr ses0" "ses_status ses0 = Ss_active" and
    m: "active_membership s (tok_organizationId t) (tok_userId t) = Some m"
      "p = \<lparr>ap_id = tok_userId t, ap_organizationId = tok_organizationId t, ap_sessionId = tok_sessionId t,
        ap_tokenId = tok_id t, ap_roles = mem_roles m, ap_trust = Tl_unknown\<rparr>" by blast
  from t have "t \<in> set (id_tokens (is_state s))" using find_Some_in by fast
  then obtain ses where ses: "find_session (is_state s) (tok_sessionId t) = Some ses"
      "ses_organizationId ses = tok_organizationId t" "ses_userId ses = tok_userId t"
    using inv by (auto simp: identity_inv_def token_ok_def)
  have "ses0 = ses" using rs(1) ses(1) by (simp add: requireSession_find)
  have "m \<in> set (id_memberships (is_state s)) \<and> mem_userId m = tok_userId t \<and> mem_organizationId m = tok_organizationId t"
    using find_Some_in [OF m(1) [unfolded active_membership_def]] by simp
  then have "user_in (is_state s) (tok_userId t) (tok_organizationId t)"
    using inv by (auto simp: identity_inv_def)
  then show ?thesis using m ses rs \<open>ses0 = ses\<close> by simp
qed

text \<open>A concrete history: an organisation, a user, a membership, a session and a token.\<close>

definition demo_actor :: identity_event_actor where
  "demo_actor = \<lparr>iea_principalId = ''root'', iea_organizationId = ''u0'', iea_sessionId = None\<rparr>"

definition demo_secret :: secret_ref where
  "demo_secret = \<lparr>secret_id = ''v:k'', secret_vault = ''v'', secret_key = ''k''\<rparr>"

definition demo_history :: "identity_op list" where
  "demo_history = [OpCreateOrganization demo_actor ''o'', OpCreateUser demo_actor ''e'' ''d'',
     OpGrantMembership demo_actor ''u1'' [''admin'', ''admin''], OpCreateSession demo_actor ''u1'' ''later'',
     OpIssueToken demo_actor ''u3'' demo_secret ''long ago'']"

definition demo_identity :: identity_service where
  "demo_identity = fold (identity_step (\<lambda>_. None)) demo_history (new_identity_service demo_host)"

lemma demo_host_ids:
  "show_nat 0 = ''0''" "show_nat (Suc 0) = ''1''" "show_nat (Suc (Suc 0)) = ''2''"
  "show_nat (Suc (Suc (Suc 0))) = ''3''" "show_nat (Suc (Suc (Suc (Suc 0)))) = ''4''"
  by code_simp+

lemmas identity_run = demo_identity_def demo_history_def new_identity_service_def emptyState_def demo_actor_def
  createOrganization_def createUser_def grantMembership_def createSession_def issueToken_def appendToken_def
  after_def append_identity_def svc_id_def svc_now_def randomUUID_def new_date_iso_def date_now_def
  requireOrganization_def requireUser_def requireSession_def requireSameOrganization_def
  active_membership_def demo_host_def Let_def

lemma demo_identity_authenticates:
  "fst (authenticate (\<lambda>_. None) ''u4'' demo_identity) = Inr \<lparr>ap_id = ''u1'', ap_organizationId = ''u0'',
     ap_sessionId = ''u3'', ap_tokenId = ''u4'', ap_roles = [''admin''], ap_trust = Tl_unknown\<rparr>"
  by (simp add: identity_run authenticate_def demo_host_ids)

theorem authenticate_tenant_isolation_witness:
  "user_in (is_state demo_identity) ''u1'' ''u0'' \<and>
   (\<exists>ses m. find_session (is_state demo_identity) ''u3'' = Some ses \<and> ses_status ses = Ss_active \<and>
      ses_organizationId ses = ''u0'' \<and> ses_userId ses = ''u1'' \<and>
      active_membership demo_identity ''u0'' ''u1'' = Some m \<and> [''admin''] = mem_roles m)"
  using authenticate_tenant_isolation [OF demo_identity_def demo_identity_authenticates] by simp

definition set_token_expiry :: "string \<Rightarrow> identity_service \<Rightarrow> identity_service" where
  "set_token_expiry e s = s\<lparr>is_state := (is_state s)\<lparr>id_tokens := map (\<lambda>t. t\<lparr>tok_expiresAt := e\<rparr>) (id_tokens (is_state s))\<rparr>\<rparr>"

text \<open>The expiry of a token is never read: moving it to any other time, past or future, changes
  neither the answer of an authentication nor the state it leaves, apart from the token itself.\<close>

theorem token_expiry_unread:
  "authenticate pd tokenId (set_token_expiry e s) =
   (fst (authenticate pd tokenId s), set_token_expiry e (snd (authenticate pd tokenId s)))"
proof -
  have f: "find (\<lambda>c. tok_id c = tokenId) (map (\<lambda>t. t\<lparr>tok_expiresAt := e\<rparr>) ts) =
      map_option (\<lambda>t. t\<lparr>tok_expiresAt := e\<rparr>) (find (\<lambda>c. tok_id c = tokenId) ts)" for ts
    by (induction ts) auto
  show ?thesis
  proof (cases "find (\<lambda>c. tok_id c = tokenId) (id_tokens (is_state s))")
    case None
    then show ?thesis by (simp add: authenticate_def set_token_expiry_def f)
  next
    case (Some t)
    have r: "requireSession (set_token_expiry e s) i = requireSession s i" for i
      by (simp add: requireSession_def set_token_expiry_def)
    have a: "active_membership (set_token_expiry e s\<lparr>is_host := h\<rparr>) g i = active_membership (s\<lparr>is_host := h\<rparr>) g i" for h g i
      by (simp add: active_membership_def set_token_expiry_def)
    have l: "find (\<lambda>c. tok_id c = tokenId) (id_tokens (is_state (set_token_expiry e s))) = Some (t\<lparr>tok_expiresAt := e\<rparr>)"
      using Some by (simp add: set_token_expiry_def f)
    have hh: "is_host (set_token_expiry e s) = is_host s"
      "set_token_expiry e s\<lparr>is_host := h\<rparr> = set_token_expiry e (s\<lparr>is_host := h\<rparr>)" for h
      by (simp_all add: set_token_expiry_def)
    show ?thesis
      by (cases "requireSession s (tok_sessionId t)";
          cases "active_membership (s\<lparr>is_host := snd (date_now (is_host s))\<rparr>) (tok_organizationId t) (tok_userId t)")
        (simp_all add: authenticate_def Some l r a hh(1) Let_def case_prod_beta, simp_all add: hh(2))
  qed
qed

end
