(* ===== verification/ImmuneTypes.thy ===== *)
theory ImmuneTypes
  imports Policy Ledger
begin

text \<open>
  The vocabulary of the immune system, \<open>kernel/immune/src/types.ts\<close>, and its three pure judges:
  the risk engine, the policy firewall and the blast radius.  Immunity levels are a linear order,
  the order of \<open>IMMUNITY_ORDER\<close>.  Scores are integers between 0 and 100.
\<close>

section \<open>Levels, risks and principals\<close>

datatype immunity_level = GREEN | YELLOW | ORANGE | RED | BLACK

fun IMMUNITY_ORDER :: "immunity_level \<Rightarrow> nat" where
  "IMMUNITY_ORDER GREEN = 0"
| "IMMUNITY_ORDER YELLOW = 1"
| "IMMUNITY_ORDER ORANGE = 2"
| "IMMUNITY_ORDER RED = 3"
| "IMMUNITY_ORDER BLACK = 4"

lemma IMMUNITY_ORDER_inj: "IMMUNITY_ORDER a = IMMUNITY_ORDER b \<Longrightarrow> a = b"
  by (cases a; cases b) simp_all

instantiation immunity_level :: linorder
begin

definition less_eq_immunity_level :: "immunity_level \<Rightarrow> immunity_level \<Rightarrow> bool" where
  "less_eq_immunity_level a b \<longleftrightarrow> IMMUNITY_ORDER a \<le> IMMUNITY_ORDER b"

definition less_immunity_level :: "immunity_level \<Rightarrow> immunity_level \<Rightarrow> bool" where
  "less_immunity_level a b \<longleftrightarrow> IMMUNITY_ORDER a < IMMUNITY_ORDER b"

instance
  by standard (auto simp: less_eq_immunity_level_def less_immunity_level_def dest: IMMUNITY_ORDER_inj)

end

datatype risk_severity = LOW | MEDIUM | HIGH | CRITICAL

datatype risk_kind =
    Normal_tool_call | Unusual_tool_sequence | Permission_escalation | Credential_misuse
  | Secret_access_anomaly | Ledger_tampering_attempt | Kernel_integrity_failure | Artifact_tampering
  | Prompt_injection | Tool_poisoning | Memory_poisoning | Dependency_anomaly | Resource_exhaustion
  | Repeated_failure | Unexpected_transition | Runaway_loop | Usage_velocity | Blast_radius_exceeded

fun SIGNAL_WEIGHTS :: "risk_kind \<Rightarrow> int" where
  "SIGNAL_WEIGHTS Normal_tool_call = 5"
| "SIGNAL_WEIGHTS Unusual_tool_sequence = 30"
| "SIGNAL_WEIGHTS Permission_escalation = 60"
| "SIGNAL_WEIGHTS Credential_misuse = 80"
| "SIGNAL_WEIGHTS Secret_access_anomaly = 85"
| "SIGNAL_WEIGHTS Ledger_tampering_attempt = 95"
| "SIGNAL_WEIGHTS Kernel_integrity_failure = 100"
| "SIGNAL_WEIGHTS Artifact_tampering = 85"
| "SIGNAL_WEIGHTS Prompt_injection = 80"
| "SIGNAL_WEIGHTS Tool_poisoning = 75"
| "SIGNAL_WEIGHTS Memory_poisoning = 70"
| "SIGNAL_WEIGHTS Dependency_anomaly = 75"
| "SIGNAL_WEIGHTS Resource_exhaustion = 50"
| "SIGNAL_WEIGHTS Repeated_failure = 45"
| "SIGNAL_WEIGHTS Unexpected_transition = 55"
| "SIGNAL_WEIGHTS Runaway_loop = 90"
| "SIGNAL_WEIGHTS Usage_velocity = 90"
| "SIGNAL_WEIGHTS Blast_radius_exceeded = 70"

record risk_reason =
  rr_kind :: risk_kind
  rr_detail :: string
  rr_weight :: int

record risk_score =
  rs_score :: int
  rs_confidence :: rat
  rs_reasons :: "risk_reason list"
  rs_severity :: risk_severity

datatype principal_type = PtUser | PtAgent | PtRunner | PtPlugin | PtTool | PtModel | PtService

datatype trust_state = Tr_UNKNOWN | Tr_SUSPICIOUS | Tr_VERIFIED | Tr_TRUSTED | Tr_QUARANTINED | Tr_REVOKED

record immune_principal =
  pr_id :: string
  pr_type :: principal_type
  pr_trust :: trust_state
  pr_credentials :: "string list"

definition systemPrincipal :: immune_principal where
  "systemPrincipal = \<lparr>pr_id = ''immune'', pr_type = PtService, pr_trust = Tr_TRUSTED, pr_credentials = []\<rparr>"

datatype input_source = Src_system | Src_user | Src_tool | Src_repository | Src_web | Src_memory | Src_model

record input_origin =
  io_source :: input_source
  io_trustLevel :: rat
  io_label :: "string option"

definition UNTRUSTED_SOURCES :: "input_source list" where
  "UNTRUSTED_SOURCES = [Src_tool, Src_repository, Src_web, Src_memory, Src_model]"

definition systemOrigin :: input_origin where
  "systemOrigin = \<lparr>io_source = Src_system, io_trustLevel = 1, io_label = Some ''system''\<rparr>"

definition userOrigin :: input_origin where
  "userOrigin = \<lparr>io_source = Src_user, io_trustLevel = 9 / 10, io_label = Some ''user''\<rparr>"

section \<open>Blast radius\<close>

record blast_radius =
  br_repositories :: "string list"
  br_paths :: "string list"
  br_tools :: "string list"
  br_networks :: "string list"
  br_secrets :: "string list"
  br_environments :: "string list"

definition emptyBlastRadius :: blast_radius where
  "emptyBlastRadius = \<lparr>br_repositories = [], br_paths = [], br_tools = [], br_networks = [], br_secrets = [],
     br_environments = []\<rparr>"

definition blastRadiusScore :: "blast_radius option \<Rightarrow> int" where
  "blastRadiusScore radius =
     (case radius of
        None \<Rightarrow> 0
      | Some r \<Rightarrow>
          let counts = [length (br_repositories r), length (br_paths r), length (br_tools r),
                length (br_networks r), length (br_secrets r), length (br_environments r)]
          in min 100 (foldl (\<lambda>acc n. acc + int n * 10) 0 counts))"

definition blastRadiusProduct :: "risk_score \<Rightarrow> blast_radius option \<Rightarrow> int" where
  "blastRadiusProduct risk radius = rs_score risk * blastRadiusScore radius"

definition blastRequiresApproval :: "risk_score \<Rightarrow> blast_radius option \<Rightarrow> int \<Rightarrow> bool" where
  "blastRequiresApproval risk radius threshold \<longleftrightarrow>
     0 < blastRadiusScore radius \<and> threshold \<le> blastRadiusProduct risk radius"

section \<open>Decisions and requests\<close>

datatype immune_action =
    Act_allow | Act_monitor | Act_restrict | Act_quarantine | Act_kill | Act_block | Act_approval_required

record immune_decision =
  dec_allowed :: bool
  dec_action :: immune_action
  dec_level :: immunity_level
  dec_risk :: risk_score
  dec_reasons :: "string list"
  dec_approvalRequired :: bool
  dec_evidenceRequired :: bool

datatype kill_target = KillRun | KillAgent | KillPlugin | KillRunner

record kill_request =
  kr_targetType :: kill_target
  kr_targetId :: string
  kr_reason :: string
  kr_requester :: string

record kill_outcome =
  ko_approved :: bool
  ko_applied :: bool
  ko_reason :: string

record cascade_config =
  cas_maxAgentDepth :: int
  cas_maxChildren :: int
  cas_maxRetry :: int
  cas_blastRadiusApprovalThreshold :: int
  cas_maxToolCallsPerSecond :: int
  cas_maxModelCallsPerSecond :: int

definition DEFAULT_CASCADE :: cascade_config where
  "DEFAULT_CASCADE = \<lparr>cas_maxAgentDepth = 5, cas_maxChildren = 10, cas_maxRetry = 3,
     cas_blastRadiusApprovalThreshold = 1200, cas_maxToolCallsPerSecond = 10, cas_maxModelCallsPerSecond = 2\<rparr>"

datatype dependency_drift =
    New_transitive | Version_drift | Install_script | Known_vulnerability | License_change
  | Maintainer_change | Network_dependency

fun drift_string :: "dependency_drift \<Rightarrow> string" where
  "drift_string New_transitive = ''new_transitive''"
| "drift_string Version_drift = ''version_drift''"
| "drift_string Install_script = ''install_script''"
| "drift_string Known_vulnerability = ''known_vulnerability''"
| "drift_string License_change = ''license_change''"
| "drift_string Maintainer_change = ''maintainer_change''"
| "drift_string Network_dependency = ''network_dependency''"

record dependency_obs =
  dep_name :: string
  dep_drift :: "dependency_drift option"
  dep_knownVulnerability :: bool
  dep_hasInstallScript :: bool

record usage_obs =
  uo_toolCalls :: int
  uo_modelCalls :: int
  uo_windowMs :: int

record run_stats =
  rst_depth :: int
  rst_children :: int
  rst_retries :: int

text \<open>An observation; the triples are \<open>toolResult\<close> (origin, text, tool), \<open>memoryWrite\<close> (origin,
  content, actor), \<open>artifact\<close> (id, expected, actual) and \<open>integrity\<close> (target, expected, runtime).\<close>

record observation =
  obs_principal :: "immune_principal option"
  obs_capability :: "string option"
  obs_scope :: "string option"
  obs_input :: "(input_origin \<times> string) option"
  obs_toolResult :: "(input_origin \<times> string \<times> string) option"
  obs_memoryWrite :: "(input_origin \<times> string \<times> string) option"
  obs_artifact :: "(string \<times> string \<times> string) option"
  obs_dependency :: "dependency_obs option"
  obs_usage :: "usage_obs option"
  obs_runStats :: "run_stats option"
  obs_integrity :: "(string \<times> string \<times> string) option"
  obs_repeatedFailures :: "int option"
  obs_toolSequence :: "string list option"
  obs_unexpectedTransition :: "(string \<times> string) option"

definition no_observation :: observation where
  "no_observation = \<lparr>obs_principal = None, obs_capability = None, obs_scope = None, obs_input = None,
     obs_toolResult = None, obs_memoryWrite = None, obs_artifact = None, obs_dependency = None,
     obs_usage = None, obs_runStats = None, obs_integrity = None, obs_repeatedFailures = None,
     obs_toolSequence = None, obs_unexpectedTransition = None\<rparr>"

record detection =
  det_id :: string
  det_kind :: risk_kind
  det_detail :: string
  det_weight :: int
  det_at :: int
  det_actorId :: "string option"

record immune_request =
  irq_principal :: immune_principal
  irq_capability :: string
  irq_scope :: "string option"
  irq_origin :: "input_origin option"
  irq_blastRadius :: "blast_radius option"
  irq_observation :: "observation option"

section \<open>The risk engine\<close>

definition severityOf :: "int \<Rightarrow> risk_severity" where
  "severityOf score = (if 90 \<le> score then CRITICAL else if 70 \<le> score then HIGH
     else if 40 \<le> score then MEDIUM else LOW)"

definition clamp :: "'a::linorder \<Rightarrow> 'a \<Rightarrow> 'a \<Rightarrow> 'a" where
  "clamp n lo hi = min hi (max lo n)"

definition risk_evaluate :: "detection list \<Rightarrow> risk_score" where
  "risk_evaluate detections =
     (let reasons = map (\<lambda>d. \<lparr>rr_kind = det_kind d, rr_detail = det_detail d, rr_weight = det_weight d\<rparr>) detections;
          raw = foldl (\<lambda>acc r. acc + rr_weight r) 0 reasons;
          score = clamp raw 0 100;
          confidence = (if length detections = 0 then 1
            else clamp (1 / 2 + min (1 / 2) (of_nat (length detections) * (15 / 100))) 0 1)
      in \<lparr>rs_score = score, rs_confidence = confidence, rs_reasons = reasons, rs_severity = severityOf score\<rparr>)"

lemma foldl_weights: "foldl (\<lambda>acc d. acc + f d) (a::int) ds = a + sum_list (map f ds)"
  by (induction ds arbitrary: a) simp_all

lemma risk_score_eq: "rs_score (risk_evaluate ds) = min 100 (max 0 (sum_list (map det_weight ds)))"
  by (simp add: risk_evaluate_def Let_def clamp_def foldl_weights comp_def)

lemma risk_reasons_details: "map rr_detail (rs_reasons (risk_evaluate ds)) = map det_detail ds"
  by (simp add: risk_evaluate_def Let_def)

section \<open>The firewall\<close>

record firewall_verdict =
  fv_blocked :: bool
  fv_action :: immune_action
  fv_reason :: string

definition firewall_block :: "immune_action \<Rightarrow> string \<Rightarrow> firewall_verdict" where
  "firewall_block a r = \<lparr>fv_blocked = True, fv_action = a, fv_reason = r\<rparr>"

fun firewall_evaluate :: "detection list \<Rightarrow> firewall_verdict option" where
  "firewall_evaluate [] = None"
| "firewall_evaluate (d # ds) =
     (case det_kind d of
        Prompt_injection \<Rightarrow> Some (firewall_block Act_block (''prompt injection: '' @ det_detail d))
      | Memory_poisoning \<Rightarrow> Some (firewall_block Act_block (''memory poisoning: '' @ det_detail d))
      | Tool_poisoning \<Rightarrow> Some (firewall_block Act_quarantine (''tool poisoning: '' @ det_detail d))
      | Permission_escalation \<Rightarrow> Some (firewall_block Act_block (''privilege escalation: '' @ det_detail d))
      | Secret_access_anomaly \<Rightarrow> Some (firewall_block Act_block (''secret access anomaly: '' @ det_detail d))
      | Ledger_tampering_attempt \<Rightarrow> Some (firewall_block Act_block (''ledger tampering: '' @ det_detail d))
      | Kernel_integrity_failure \<Rightarrow> Some (firewall_block Act_kill (''kernel integrity failure: '' @ det_detail d))
      | _ \<Rightarrow> firewall_evaluate ds)"

definition deterministic_block :: "risk_kind \<Rightarrow> bool" where
  "deterministic_block k \<longleftrightarrow> k \<in> {Prompt_injection, Memory_poisoning, Tool_poisoning, Permission_escalation,
     Secret_access_anomaly, Ledger_tampering_attempt, Kernel_integrity_failure}"

lemma firewall_None: "firewall_evaluate ds = None \<longleftrightarrow> \<not> list_ex (\<lambda>d. deterministic_block (det_kind d)) ds"
  by (induction ds) (auto simp: deterministic_block_def split: risk_kind.splits)

lemma firewall_Some: "firewall_evaluate ds = Some v \<Longrightarrow>
    fv_blocked v \<and> fv_action v \<in> {Act_block, Act_quarantine, Act_kill}"
  by (induction ds) (auto simp: firewall_block_def split: risk_kind.splits)

section \<open>Monotonicity of the score\<close>

text \<open>Adding a detection of non-negative weight never lowers the score, and scores stay in range.\<close>

lemma risk_score_mono: "0 \<le> det_weight d \<Longrightarrow> rs_score (risk_evaluate ds) \<le> rs_score (risk_evaluate (ds @ [d]))"
  by (simp add: risk_score_eq)

lemma risk_score_range: "0 \<le> rs_score (risk_evaluate ds) \<and> rs_score (risk_evaluate ds) \<le> 100"
  by (simp add: risk_score_eq)

lemma weights_positive: "0 < SIGNAL_WEIGHTS k"
  by (cases k) simp_all

lemma blastRadiusScore_range: "0 \<le> blastRadiusScore r \<and> blastRadiusScore r \<le> 100"
  by (cases r) (simp_all add: blastRadiusScore_def Let_def)

end
