(* ===== verification/JsString.thy ===== *)
theory JsString
  imports Prelude "HOL-Library.Sublist"
begin

text \<open>
  JavaScript's strings in their UTF-8 form: code points, white space, \<open>trim\<close>, and \<open>length\<close> and
  \<open>slice\<close>, which count units of UTF-16.
\<close>

section \<open>Code points\<close>

text \<open>The UTF-8 form of a code point.\<close>

definition utf8 :: "nat \<Rightarrow> string" where
  "utf8 n =
     map char_of
       (if n < 128 then [n]
        else if n < 2048 then [192 + n div 64, 128 + n mod 64]
        else if n < 65536 then [224 + n div 4096, 128 + n div 64 mod 64, 128 + n mod 64]
        else [240 + n div 262144, 128 + n div 4096 mod 64, 128 + n div 64 mod 64, 128 + n mod 64])"

text \<open>The number of bytes of the code point that a byte begins.\<close>

definition point_bytes :: "char \<Rightarrow> nat" where
  "point_bytes c = (let n = (of_char c :: nat) in if n < 192 then 1 else if n < 224 then 2 else if n < 240 then 3 else 4)"

lemma point_bytes_pos [simp]: "0 < point_bytes c"
  by (simp add: point_bytes_def Let_def)

text \<open>The high surrogate of a code point beyond the first plane, alone.\<close>

definition high_surrogate_of :: "string \<Rightarrow> string" where
  "high_surrogate_of bytes =
     (case map of_char bytes of
        [a, b, c, d] \<Rightarrow> utf8 (55296 + ((a - 240) * 262144 + (b - 128) * 4096 + (c - 128) * 64 + (d - 128) - 65536) div 1024)
      | _ \<Rightarrow> [])"

text \<open>\<open>s.slice(0, n)\<close>.\<close>

function slice_units :: "nat \<Rightarrow> string \<Rightarrow> string" where
  "slice_units n s =
     (if n = 0 \<or> s = [] then []
      else
        let k = point_bytes (hd s) in
        if k < 4 then take k s @ slice_units (n - 1) (drop k s)
        else if n = 1 then high_surrogate_of (take 4 s)
        else take 4 s @ slice_units (n - 2) (drop 4 s))"
  by pat_completeness auto
termination
  by (relation "measure fst") auto

declare slice_units.simps [simp del]

lemma slice_units_ascii: "list_all (\<lambda>c. (of_char c :: nat) < 128) s \<Longrightarrow> slice_units n s = take n s"
proof (induction s arbitrary: n)
  case (Cons c s)
  then show ?case by (cases n) (simp_all add: slice_units.simps [of _ "c # s"] point_bytes_def)
qed (simp add: slice_units.simps)

text \<open>\<open>s.length\<close>, and \<open>s\<close> without its first \<open>n\<close> units.\<close>

function utf16_length :: "string \<Rightarrow> nat" where
  "utf16_length s =
     (if s = [] then 0
      else let k = point_bytes (hd s) in (if k < 4 then 1 else 2) + utf16_length (drop k s))"
  by pat_completeness auto
termination
  by (relation "measure length") auto

declare utf16_length.simps [simp del]

definition low_surrogate_of :: "string \<Rightarrow> string" where
  "low_surrogate_of bytes =
     (case map of_char bytes of
        [a, b, c, d] \<Rightarrow> utf8 (56320 + ((a - 240) * 262144 + (b - 128) * 4096 + (c - 128) * 64 + (d - 128) - 65536) mod 1024)
      | _ \<Rightarrow> [])"

function drop_units :: "nat \<Rightarrow> string \<Rightarrow> string" where
  "drop_units n s =
     (if n = 0 \<or> s = [] then s
      else
        let k = point_bytes (hd s) in
        if k < 4 then drop_units (n - 1) (drop k s)
        else if n = 1 then low_surrogate_of (take 4 s) @ drop 4 s
        else drop_units (n - 2) (drop 4 s))"
  by pat_completeness auto
termination
  by (relation "measure fst") auto

declare drop_units.simps [simp del]

lemma utf16_length_ascii: "list_all (\<lambda>c. (of_char c :: nat) < 128) s \<Longrightarrow> utf16_length s = length s"
proof (induction s)
  case (Cons c s)
  then show ?case by (simp add: utf16_length.simps [of "c # s"] point_bytes_def)
qed (simp add: utf16_length.simps)

lemma drop_units_ascii: "list_all (\<lambda>c. (of_char c :: nat) < 128) s \<Longrightarrow> drop_units n s = drop n s"
proof (induction s arbitrary: n)
  case (Cons c s)
  then show ?case by (cases n) (simp_all add: drop_units.simps [of _ "c # s"] point_bytes_def)
qed (simp add: drop_units.simps)

section \<open>Trimming\<close>

text \<open>The white space and line terminators of ECMA-262, in UTF-8.\<close>

definition JS_SPACES :: "string list" where
  "JS_SPACES =
    [[CHR 0x09], [CHR 0x0A], [CHR 0x0B], [CHR 0x0C], [CHR 0x0D], [CHR 0x20], [CHR 0xC2, CHR 0xA0],
     [CHR 0xE1, CHR 0x9A, CHR 0x80], [CHR 0xE2, CHR 0x80, CHR 0x80], [CHR 0xE2, CHR 0x80, CHR 0x81],
     [CHR 0xE2, CHR 0x80, CHR 0x82], [CHR 0xE2, CHR 0x80, CHR 0x83], [CHR 0xE2, CHR 0x80, CHR 0x84],
     [CHR 0xE2, CHR 0x80, CHR 0x85], [CHR 0xE2, CHR 0x80, CHR 0x86], [CHR 0xE2, CHR 0x80, CHR 0x87],
     [CHR 0xE2, CHR 0x80, CHR 0x88], [CHR 0xE2, CHR 0x80, CHR 0x89], [CHR 0xE2, CHR 0x80, CHR 0x8A],
     [CHR 0xE2, CHR 0x80, CHR 0xA8], [CHR 0xE2, CHR 0x80, CHR 0xA9], [CHR 0xE2, CHR 0x80, CHR 0xAF],
     [CHR 0xE2, CHR 0x81, CHR 0x9F], [CHR 0xE3, CHR 0x80, CHR 0x80], [CHR 0xEF, CHR 0xBB, CHR 0xBF]]"

function strip :: "string list \<Rightarrow> string \<Rightarrow> string" where
  "strip ps s = (case find (\<lambda>p. p \<noteq> [] \<and> prefix p s) ps of None \<Rightarrow> s | Some p \<Rightarrow> strip ps (drop (length p) s))"
  by pat_completeness auto
termination
  by (relation "measure (length \<circ> snd)") (auto simp: find_Some_iff prefix_def)

declare strip.simps [simp del]

definition js_trim :: "string \<Rightarrow> string" where
  "js_trim s = rev (strip (map rev JS_SPACES) (rev (strip JS_SPACES s)))"

text \<open>A text that begins and ends with printable ASCII characters is not changed; spaces are removed.\<close>

definition printable :: "char \<Rightarrow> bool" where
  "printable c \<longleftrightarrow> 33 \<le> (of_char c :: nat) \<and> (of_char c :: nat) < 127"

lemma spaces_ends: "list_all (\<lambda>p. p \<noteq> [] \<and> \<not> printable (hd p) \<and> \<not> printable (last p)) JS_SPACES"
  by (simp add: JS_SPACES_def printable_def upt_rec)

lemma strip_stays:
  assumes "s \<noteq> []" "printable (hd s)" "list_all (\<lambda>p. p \<noteq> [] \<longrightarrow> \<not> printable (hd p)) ps"
  shows "strip ps s = s"
proof -
  have "find (\<lambda>p. p \<noteq> [] \<and> prefix p s) ps = None"
    using assms by (auto simp: find_None_iff list_all_iff prefix_def hd_append split: if_splits)
  then show ?thesis by (simp add: strip.simps)
qed

lemma js_trim_plain: "s \<noteq> [] \<Longrightarrow> printable (hd s) \<Longrightarrow> printable (last s) \<Longrightarrow> js_trim s = s"
  using spaces_ends unfolding js_trim_def
  by (subst (1 2) strip_stays) (auto simp: list_all_iff hd_rev hd_map)

lemma strip_nil: "strip ps [] = []"
proof -
  have "find (\<lambda>p. p \<noteq> [] \<and> prefix p []) ps = None" by (induction ps) auto
  then show ?thesis by (subst strip.simps) simp
qed

lemma js_trim_spaces: "js_trim (replicate n (CHR '' '')) = []"
proof -
  have "strip JS_SPACES (replicate n (CHR '' '')) = []"
  proof (induction n)
    case 0
    then show ?case by (simp add: strip_nil)
  next
    case (Suc n)
    have "find (\<lambda>p. p \<noteq> [] \<and> prefix p (replicate (Suc n) (CHR '' ''))) JS_SPACES = Some '' ''"
      by (simp add: JS_SPACES_def upt_rec char_of_eq_iff take_bit_eq_mod)
    then show ?case using Suc by (subst strip.simps) simp
  qed
  then show ?thesis by (simp add: js_trim_def strip_nil)
qed

end
