(* ===== verification/Detector.thy ===== *)
theory Detector
  imports ImmuneTypes Transition JsString
begin

text \<open>
  The detector of \<open>kernel/immune/src/detector.ts\<close>.  The injection patterns are regular expressions
  given as data with an executable matcher; a detection takes its identifier and time from the
  host.  The lemmas say when each organ reports and with which kind.
\<close>

section \<open>Regular expressions\<close>

text \<open>The constructs the patterns use, matched without regard to case: a literal, \<open>\s+\<close>, \<open>\s*\<close>,
  one character out of a set, \<open>r?\<close>, an alternative, a sequence and \<open>\b\<close>.  A position is the
  character before it and the text after it; matching maps a position to all positions where a
  match can end, so a match exists for JavaScript's backtracking exactly when one exists here.\<close>

datatype re =
    ReLit string
  | ReSpaces1
  | ReSpaces0
  | ReOneOf string
  | ReOpt re
  | ReAlt "re list"
  | ReSeq "re list"
  | ReBoundary

type_synonym re_pos = "char option \<times> string"

definition lower_char :: "char \<Rightarrow> char" where
  "lower_char c = (let n = (of_char c :: nat) in if 65 \<le> n \<and> n \<le> 90 then char_of (n + 32) else c)"

text \<open>\<open>\s\<close>: the bytes of the white space a text begins with.\<close>

definition white_prefix :: "string \<Rightarrow> string option" where
  "white_prefix s = find (\<lambda>p. p \<noteq> [] \<and> prefix p s) JS_SPACES"

lemma white_prefix_shrinks: "white_prefix s = Some p \<Longrightarrow> length (drop (length p) s) < length s"
  by (auto simp: white_prefix_def find_Some_iff prefix_def)

definition word_char :: "char \<Rightarrow> bool" where
  "word_char c \<longleftrightarrow> (let n = (of_char c :: nat) in
     (48 \<le> n \<and> n \<le> 57) \<or> (65 \<le> n \<and> n \<le> 90) \<or> (97 \<le> n \<and> n \<le> 122) \<or> n = 95)"

fun match_lit :: "string \<Rightarrow> re_pos \<Rightarrow> re_pos list" where
  "match_lit [] pos = [pos]"
| "match_lit (c # cs) (prev, []) = []"
| "match_lit (c # cs) (prev, x # xs) = (if lower_char c = lower_char x then match_lit cs (Some x, xs) else [])"

function match_spaces :: "char option \<Rightarrow> string \<Rightarrow> re_pos list" where
  "match_spaces prev s =
     (prev, s) # (case white_prefix s of None \<Rightarrow> [] | Some p \<Rightarrow> match_spaces (Some (last p)) (drop (length p) s))"
  by pat_completeness auto
termination
  by (relation "measure (length \<circ> snd)") (use white_prefix_shrinks in auto)

declare match_spaces.simps [simp del]

definition at_boundary :: "re_pos \<Rightarrow> bool" where
  "at_boundary pos \<longleftrightarrow>
     (case fst pos of None \<Rightarrow> False | Some c \<Rightarrow> word_char c) \<noteq>
     (case snd pos of [] \<Rightarrow> False | c # _ \<Rightarrow> word_char c)"

fun re_run :: "re \<Rightarrow> re_pos \<Rightarrow> re_pos list" where
  "re_run (ReLit s) pos = match_lit s pos"
| "re_run ReSpaces0 pos = match_spaces (fst pos) (snd pos)"
| "re_run ReSpaces1 pos =
     (case white_prefix (snd pos) of None \<Rightarrow> [] | Some p \<Rightarrow> match_spaces (Some (last p)) (drop (length p) (snd pos)))"
| "re_run (ReOneOf cs) pos =
     (case snd pos of [] \<Rightarrow> [] | x # xs \<Rightarrow> if x \<in> set cs then [(Some x, xs)] else [])"
| "re_run (ReOpt r) pos = re_run r pos @ [pos]"
| "re_run (ReAlt rs) pos = concat (map (\<lambda>r. re_run r pos) rs)"
| "re_run (ReSeq []) pos = [pos]"
| "re_run (ReSeq (r # rs)) pos = concat (map (re_run (ReSeq rs)) (re_run r pos))"
| "re_run ReBoundary pos = (if at_boundary pos then [pos] else [])"

text \<open>\<open>pattern.test(text)\<close>: a match from some start position.\<close>

fun re_test_from :: "re \<Rightarrow> char option \<Rightarrow> string \<Rightarrow> bool" where
  "re_test_from r prev [] = (re_run r (prev, []) \<noteq> [])"
| "re_test_from r prev (x # xs) = (re_run r (prev, x # xs) \<noteq> [] \<or> re_test_from r (Some x) xs)"

definition re_test :: "re \<Rightarrow> string \<Rightarrow> bool" where
  "re_test r text = re_test_from r None text"

definition re_words :: "string list \<Rightarrow> re" where
  "re_words ws = ReAlt (map ReLit ws)"

text \<open>\<open>(a|b|...)\<close> followed by blanks, as an optional group.\<close>

definition re_opt_word :: "string list \<Rightarrow> re" where
  "re_opt_word ws = ReOpt (ReSeq [re_words ws, ReSpaces1])"

definition INJECTION_PATTERNS :: "re list" where
  "INJECTION_PATTERNS =
     [ReSeq [ReBoundary, ReLit ''ignore'', ReSpaces1, re_opt_word [''all''],
        re_words [''previous'', ''prior'', ''above''], ReSpaces1, ReLit ''instructions'', ReBoundary],
      ReSeq [ReBoundary, ReLit ''disregard'', ReSpaces1, re_opt_word [''all''],
        re_words [''previous'', ''prior'', ''above''], ReSpaces1, ReLit ''instructions'', ReBoundary],
      ReSeq [ReBoundary, ReLit ''forget'', ReSpaces1, re_words [''everything'', ''all''], ReSpaces1,
        re_opt_word [''you''], ReAlt [ReLit ''know'', ReSeq [ReLit ''were'', ReSpaces1, ReLit ''told'']], ReBoundary],
      ReSeq [ReBoundary, ReLit ''you'', ReSpaces1, ReLit ''are'', ReSpaces1, ReLit ''now'', ReSpaces1,
        re_opt_word [''the''], re_words [''system'', ''root'', ''admin'', ''sudo'', ''operator''], ReBoundary],
      ReSeq [ReBoundary, ReLit ''system'', ReSpaces0, ReLit ''prompt'', ReSpaces0, ReOneOf '':=''],
      ReSeq [ReBoundary, ReLit ''developer'', ReSpaces0, ReLit ''mode'', ReBoundary],
      ReSeq [ReBoundary, ReLit ''jailbreak'', ReBoundary],
      ReSeq [ReBoundary, ReLit ''bypass'', ReSpaces1, re_opt_word [''the''],
        ReAlt [ReLit ''policy'', ReSeq [ReLit ''polic'', re_words [''y'', ''ies'']],
          ReSeq [ReLit ''permission'', ReOpt (ReLit ''s'')], ReSeq [ReLit ''capabilit'', re_words [''y'', ''ies'']],
          ReLit ''immune'', ReLit ''safety'', ReLit ''security''], ReBoundary],
      ReSeq [ReBoundary, ReLit ''grant'', ReSpaces1,
        ReAlt [ReLit ''yourself'', ReLit ''me'', ReSeq [ReLit ''the'', ReSpaces1, ReLit ''user'']], ReSpaces1,
        re_words [''admin'', ''root'', ''unrestricted'', ''full'', ''sudo''], ReSpaces1, ReLit ''access'', ReBoundary],
      ReSeq [ReBoundary, ReLit ''disable'', ReSpaces1, re_opt_word [''your''],
        re_words [''safety'', ''security'', ''policy'', ''immune''], ReBoundary],
      ReSeq [ReBoundary, ReLit ''print'', ReSpaces1, re_opt_word [''the''],
        ReAlt [ReSeq [ReLit ''system'', ReSpaces1, ReLit ''prompt''], ReLit ''instructions'', ReLit ''memory''], ReBoundary],
      ReSeq [ReBoundary, ReLit ''do'', ReSpaces1, ReLit ''anything'', ReSpaces1,
        ReAlt [ReSeq [ReLit ''the'', ReSpaces1, ReLit ''user'', ReSpaces1, ReLit ''asks''],
          ReSeq [ReLit ''i'', ReSpaces1, ReLit ''say'']], ReBoundary]]"

definition DURABLE_PRIVILEGE :: "re list" where
  "DURABLE_PRIVILEGE =
     [ReSeq [ReBoundary, re_words [''always'', ''never''], ReSpaces1, ReLit ''want'', ReOpt (ReOneOf ''sS''), ReSpaces1,
        ReLit ''unrestricted'', ReBoundary],
      ReSeq [ReBoundary, re_words [''always'', ''never''], ReSpaces1, ReLit ''grant'', ReOpt (ReOneOf ''sS''), ReSpaces1,
        ReAlt [ReLit ''me'', ReSeq [ReLit ''the'', ReSpaces1, ReLit ''user'']], ReBoundary]]"

definition SEVERE_DEPENDENCY :: re where
  "SEVERE_DEPENDENCY = re_words [''known vulnerability'', ''install script'']"

section \<open>Detections\<close>

definition PRIVILEGED_CAPABILITIES :: "string list" where
  "PRIVILEGED_CAPABILITIES = [''secret.read'', ''shell.execute'', ''git.push'', ''db.query'']"

definition PRIVILEGED_PREFIXES :: "string list" where
  "PRIVILEGED_PREFIXES = [''deployment.'', ''deploy.'', ''admin.'', ''sudo.'', ''privileged.'']"

definition isPrivileged :: "string \<Rightarrow> bool" where
  "isPrivileged capability \<longleftrightarrow> capability \<in> set PRIVILEGED_CAPABILITIES \<or>
     list_ex (\<lambda>p. starts_with capability p) PRIVILEGED_PREFIXES"

definition mk_detection :: "risk_kind \<Rightarrow> string \<Rightarrow> int \<Rightarrow> string option \<Rightarrow> host \<Rightarrow> detection \<times> host" where
  "mk_detection kind detail weight actorId h =
     (let (uuid, h1) = randomUUID h; (now, h2) = date_now h1 in
      (\<lparr>det_id = uuid, det_kind = kind, det_detail = detail, det_weight = weight, det_at = now,
        det_actorId = actorId\<rparr>, h2))"

text \<open>A check returns the detections it pushes.\<close>

type_synonym check = "host \<Rightarrow> detection list \<times> host"

definition report :: "risk_kind \<Rightarrow> string \<Rightarrow> string \<Rightarrow> check" where
  "report kind detail actorId h =
     (case mk_detection kind detail (SIGNAL_WEIGHTS kind) (Some actorId) h of (d, h') \<Rightarrow> ([d], h'))"

definition silent :: check where
  "silent h = ([], h)"

definition and_then :: "check \<Rightarrow> check \<Rightarrow> check" where
  "and_then a b h = (case a h of (ds, h1) \<Rightarrow> (case b h1 of (es, h2) \<Rightarrow> (ds @ es, h2)))"

definition source_string :: "input_source \<Rightarrow> string" where
  "source_string s =
     (case s of Src_system \<Rightarrow> ''system'' | Src_user \<Rightarrow> ''user'' | Src_tool \<Rightarrow> ''tool'' | Src_repository \<Rightarrow> ''repository''
      | Src_web \<Rightarrow> ''web'' | Src_memory \<Rightarrow> ''memory'' | Src_model \<Rightarrow> ''model'')"

definition trust_string :: "trust_state \<Rightarrow> string" where
  "trust_string t =
     (case t of Tr_UNKNOWN \<Rightarrow> ''UNKNOWN'' | Tr_SUSPICIOUS \<Rightarrow> ''SUSPICIOUS'' | Tr_VERIFIED \<Rightarrow> ''VERIFIED''
      | Tr_TRUSTED \<Rightarrow> ''TRUSTED'' | Tr_QUARANTINED \<Rightarrow> ''QUARANTINED'' | Tr_REVOKED \<Rightarrow> ''REVOKED'')"

definition injection_found :: "input_origin \<Rightarrow> string \<Rightarrow> bool" where
  "injection_found origin text \<longleftrightarrow>
     io_source origin \<in> set UNTRUSTED_SOURCES \<and> list_ex (\<lambda>p. re_test p text) INJECTION_PATTERNS"

definition detectPromptInjection :: "input_origin \<Rightarrow> string \<Rightarrow> check" where
  "detectPromptInjection origin text =
     (if io_source origin \<notin> set UNTRUSTED_SOURCES then silent
      else if list_ex (\<lambda>p. re_test p text) INJECTION_PATTERNS then
        report Prompt_injection
          (''untrusted '' @ source_string (io_source origin) @ '' content contains override instructions'') []
      else silent)"

definition checkPrivilegeEscalation :: "immune_principal \<Rightarrow> string \<Rightarrow> check" where
  "checkPrivilegeEscalation p capability =
     (if \<not> isPrivileged capability then silent
      else if pr_trust p \<in> {Tr_UNKNOWN, Tr_SUSPICIOUS, Tr_REVOKED} then
        report Permission_escalation
          (quoted (pr_id p) @ '' (trust='' @ trust_string (pr_trust p) @ '') requested privileged '' @ quoted capability)
          (pr_id p)
      else silent)"

text \<open>The UTF-8 form of the ellipsis the messages end in.\<close>

definition ellipsis :: string where
  "ellipsis = [CHR 0xE2, CHR 0x80, CHR 0xA6]"

definition checkMemoryWrite :: "input_origin \<Rightarrow> string \<Rightarrow> string \<Rightarrow> check" where
  "checkMemoryWrite origin content actorId =
     (if io_source origin \<in> set UNTRUSTED_SOURCES then
        report Memory_poisoning
          (''memory write by '' @ quoted actorId @ '' from untrusted '' @ source_string (io_source origin) @ '' source'') actorId
      else if list_ex (\<lambda>p. re_test p content) DURABLE_PRIVILEGE then
        report Memory_poisoning
          (''memory write asserts durable privilege: '' @ quoted (slice_units 80 content @ ellipsis)) actorId
      else silent)"

text \<open>The message and the weight of a dependency anomaly.\<close>

definition dependency_finding :: "dependency_obs \<Rightarrow> (string \<times> int) option" where
  "dependency_finding dep =
     (if dep_knownVulnerability dep \<or> dep_drift dep = Some Known_vulnerability then
        Some (''dependency '' @ quoted (dep_name dep) @ '' has a known vulnerability'', 95)
      else if dep_hasInstallScript dep \<or> dep_drift dep = Some Install_script then
        Some (''dependency '' @ quoted (dep_name dep) @ '' declares an install script'', 90)
      else if dep_drift dep \<in> {Some License_change, Some Maintainer_change} then
        Some (''dependency '' @ quoted (dep_name dep) @ '' drifted: '' @ drift_string (the (dep_drift dep)), 60)
      else if dep_drift dep \<in> {Some Network_dependency, Some New_transitive, Some Version_drift} then
        Some (''dependency '' @ quoted (dep_name dep) @ '' drifted: '' @ drift_string (the (dep_drift dep)), 40)
      else None)"

definition checkDependency :: "dependency_obs \<Rightarrow> check" where
  "checkDependency dep =
     (case dependency_finding dep of
        None \<Rightarrow> silent
      | Some (detail, weight) \<Rightarrow> (\<lambda>h. case mk_detection Dependency_anomaly detail weight (Some []) h of (d, h') \<Rightarrow> ([d], h')))"

definition checkRunaway :: "run_stats \<Rightarrow> check" where
  "checkRunaway r =
     and_then
       (if 5 < rst_depth r then report Runaway_loop (''agent depth '' @ show_int (rst_depth r) @ '' exceeds max 5'') [] else silent)
     (and_then
       (if 10 < rst_children r then report Runaway_loop (''fan-out '' @ show_int (rst_children r) @ '' exceeds max 10'') [] else silent)
       (if 3 < rst_retries r then report Runaway_loop (''retry budget '' @ show_int (rst_retries r) @ '' exceeds max 3'') [] else silent))"

text \<open>\<open>toFixed(1)\<close> of a non-negative quotient: the nearest tenth, the larger of two.\<close>

definition to_fixed1 :: "rat \<Rightarrow> string" where
  "to_fixed1 x = (let n = floor (x * 10 + 1 / 2) in show_int (n div 10) @ ''.'' @ show_int (n mod 10))"

definition checkUsageVelocity :: "int \<Rightarrow> int \<Rightarrow> int \<Rightarrow> check" where
  "checkUsageVelocity toolCalls modelCalls windowMs =
     (let seconds = max 1 (of_int windowMs / 1000 :: rat) in
      if 10 < of_int toolCalls / seconds then
        report Usage_velocity (''tool-call velocity '' @ to_fixed1 (of_int toolCalls / seconds) @ ''/s exceeds 10/s'') []
      else if 2 < of_int modelCalls / seconds then
        report Usage_velocity (''model-call velocity '' @ to_fixed1 (of_int modelCalls / seconds) @ ''/s exceeds 2/s'') []
      else silent)"

definition checkToolSequence :: "string list \<Rightarrow> check" where
  "checkToolSequence sequence =
     (let idx = length (takeWhile (\<lambda>a. \<not> isPrivileged a) sequence) in
      if 3 \<le> idx \<and> idx < length sequence then
        report Unusual_tool_sequence
          (''privileged '' @ quoted (sequence ! idx) @ '' after '' @ show_nat idx @ '' preceding actions'') []
      else
        let first = hd sequence; same = length (filter (\<lambda>a. a = first) sequence) in
        if length sequence * 8 \<le> same * 10 then
          report Unusual_tool_sequence
            (''unusual repetition of '' @ quoted first @ '' ('' @ show_nat same @ ''/'' @ show_nat (length sequence) @ '')'') []
        else silent)"

definition checkTransition ::
  "('s \<Rightarrow> string) \<Rightarrow> ('e \<Rightarrow> string) \<Rightarrow> ('s, 'e) transition_table \<Rightarrow> 's \<Rightarrow> 'e \<Rightarrow> string \<Rightarrow> check" where
  "checkTransition show_s show_e tab from event actorId =
     (if canTransition tab from event then silent
      else report Unexpected_transition (''illegal transition '' @ quoted (show_e event) @ '' from '' @ quoted (show_s from)) actorId)"

section \<open>The detector\<close>

definition actor_of :: "observation \<Rightarrow> string" where
  "actor_of obs = (case obs_principal obs of None \<Rightarrow> [] | Some p \<Rightarrow> pr_id p)"

definition check_input :: "observation \<Rightarrow> check" where
  "check_input obs =
     (case obs_input obs of None \<Rightarrow> silent | Some (origin, text) \<Rightarrow> detectPromptInjection origin text)"

text \<open>The tool check runs the injection check, drops its detection and builds its own.\<close>

definition check_tool_result :: "observation \<Rightarrow> check" where
  "check_tool_result obs =
     (case obs_toolResult obs of
        None \<Rightarrow> silent
      | Some (origin, text, toolId) \<Rightarrow>
          (\<lambda>h. case detectPromptInjection origin text h of
                 ([], h1) \<Rightarrow> ([], h1)
               | (_, h1) \<Rightarrow>
                   (case mk_detection Tool_poisoning
                       (''tool '' @ quoted toolId @ '' returned content that attempts to control the agent'')
                       (SIGNAL_WEIGHTS Tool_poisoning) (map_option pr_id (obs_principal obs)) h1 of
                      (d, h2) \<Rightarrow> ([d], h2))))"

definition check_memory :: "observation \<Rightarrow> check" where
  "check_memory obs =
     (case obs_memoryWrite obs of None \<Rightarrow> silent | Some (origin, content, actorId) \<Rightarrow> checkMemoryWrite origin content actorId)"

text \<open>\<open>obs.principal && obs.capability\<close>: an empty capability counts as absent.\<close>

definition check_privilege :: "observation \<Rightarrow> check" where
  "check_privilege obs =
     (case (obs_principal obs, obs_capability obs) of
        (Some p, Some c) \<Rightarrow> if c \<noteq> [] then checkPrivilegeEscalation p c else silent
      | _ \<Rightarrow> silent)"

definition check_secret :: "observation \<Rightarrow> check" where
  "check_secret obs =
     (case obs_principal obs of
        None \<Rightarrow> silent
      | Some p \<Rightarrow>
          if obs_capability obs = Some ''secret.read'' \<and> pr_trust p \<noteq> Tr_TRUSTED \<and> pr_trust p \<noteq> Tr_VERIFIED then
            report Secret_access_anomaly
              (quoted (pr_id p) @ '' ('' @ trust_string (pr_trust p) @ '') requested secret.read'') (pr_id p)
          else silent)"

definition check_artifact :: "observation \<Rightarrow> check" where
  "check_artifact obs =
     (case obs_artifact obs of
        None \<Rightarrow> silent
      | Some (i, expected, actual) \<Rightarrow>
          if expected \<noteq> actual then
            report Artifact_tampering
              (''artifact '' @ quoted i @ '' hash mismatch (expected '' @ slice_units 8 expected @ ellipsis @ '', got '' @
               slice_units 8 actual @ ellipsis @ '')'') (actor_of obs)
          else silent)"

definition check_integrity :: "observation \<Rightarrow> check" where
  "check_integrity obs =
     (case obs_integrity obs of
        None \<Rightarrow> silent
      | Some (tgt, expected, runtime) \<Rightarrow>
          if expected \<noteq> runtime then
            report Kernel_integrity_failure (''integrity breach on '' @ quoted tgt) (actor_of obs)
          else silent)"

definition check_dependency :: "observation \<Rightarrow> check" where
  "check_dependency obs = (case obs_dependency obs of None \<Rightarrow> silent | Some d \<Rightarrow> checkDependency d)"

definition check_runstats :: "observation \<Rightarrow> check" where
  "check_runstats obs = (case obs_runStats obs of None \<Rightarrow> silent | Some r \<Rightarrow> checkRunaway r)"

definition check_usage :: "observation \<Rightarrow> check" where
  "check_usage obs = (case obs_usage obs of None \<Rightarrow> silent
     | Some u \<Rightarrow> checkUsageVelocity (uo_toolCalls u) (uo_modelCalls u) (uo_windowMs u))"

definition check_failures :: "observation \<Rightarrow> check" where
  "check_failures obs =
     (case obs_repeatedFailures obs of
        None \<Rightarrow> silent
      | Some n \<Rightarrow> if 3 \<le> n then report Repeated_failure (show_int n @ '' consecutive failures'') (actor_of obs) else silent)"

definition check_sequence :: "observation \<Rightarrow> check" where
  "check_sequence obs =
     (case obs_toolSequence obs of
        None \<Rightarrow> silent
      | Some s \<Rightarrow> if 4 \<le> length s then checkToolSequence s else silent)"

definition check_transition :: "observation \<Rightarrow> check" where
  "check_transition obs =
     (case obs_unexpectedTransition obs of
        None \<Rightarrow> silent
      | Some (from, event) \<Rightarrow>
          report Unexpected_transition (''illegal transition '' @ quoted event @ '' from '' @ quoted from) (actor_of obs))"

definition detect_checks :: "observation \<Rightarrow> check list" where
  "detect_checks obs =
     [check_input obs, check_tool_result obs, check_memory obs, check_privilege obs, check_secret obs,
      check_artifact obs, check_integrity obs, check_dependency obs, check_runstats obs, check_usage obs,
      check_failures obs, check_sequence obs, check_transition obs]"

definition detect :: "observation \<Rightarrow> check" where
  "detect obs = foldr and_then (detect_checks obs) silent"

section \<open>What a check reports\<close>

text \<open>The kinds, messages and weights a check reports; they do not depend on the host.\<close>

definition contents :: "check \<Rightarrow> host \<Rightarrow> (risk_kind \<times> string \<times> int) list" where
  "contents c h = map (\<lambda>d. (det_kind d, det_detail d, det_weight d)) (fst (c h))"

lemma contents_silent [simp]: "contents silent h = []"
  by (simp add: contents_def silent_def)

lemma contents_report [simp]: "contents (report k d a) h = [(k, d, SIGNAL_WEIGHTS k)]"
  by (simp add: contents_def report_def mk_detection_def Let_def case_prod_beta)

lemma contents_and_then [simp]: "contents (and_then a b) h = contents a h @ contents b (snd (a h))"
  by (simp add: contents_def and_then_def case_prod_beta)

lemma contents_if [simp]: "contents (if b then x else y) h = (if b then contents x h else contents y h)"
  by simp

lemma contents_injection [simp]:
  "contents (detectPromptInjection origin text) h =
     (if injection_found origin text then
        [(Prompt_injection, ''untrusted '' @ source_string (io_source origin) @ '' content contains override instructions'', 80)]
      else [])"
  by (simp add: detectPromptInjection_def injection_found_def)

lemma contents_tool [simp]:
  "contents (check_tool_result obs) h =
     (case obs_toolResult obs of None \<Rightarrow> []
      | Some (origin, text, toolId) \<Rightarrow>
          if injection_found origin text then
            [(Tool_poisoning, ''tool '' @ quoted toolId @ '' returned content that attempts to control the agent'', 75)]
          else [])"
proof (cases "obs_toolResult obs")
  case None
  then show ?thesis by (simp add: check_tool_result_def)
next
  case (Some r)
  obtain origin body toolId where r: "r = (origin, body, toolId)" by (cases r)
  show ?thesis
  proof (cases "injection_found origin body")
    case True
    then obtain d h1 where "detectPromptInjection origin body h = ([d], h1)"
      by (simp add: detectPromptInjection_def injection_found_def report_def mk_detection_def Let_def case_prod_beta)
    then show ?thesis using Some r True
      by (simp add: check_tool_result_def contents_def mk_detection_def Let_def case_prod_beta)
  next
    case False
    then have "detectPromptInjection origin body h = ([], h)"
      by (auto simp: detectPromptInjection_def injection_found_def silent_def)
    then show ?thesis using Some r False by (simp add: check_tool_result_def contents_def)
  qed
qed

lemma contents_dependency [simp]:
  "contents (checkDependency dep) h =
     (case dependency_finding dep of None \<Rightarrow> [] | Some (detail, weight) \<Rightarrow> [(Dependency_anomaly, detail, weight)])"
  by (cases "dependency_finding dep")
    (auto simp: checkDependency_def, simp add: contents_def mk_detection_def Let_def case_prod_beta)

text \<open>Whether each of the organs that the firewall obeys reports, and the dependency organ.\<close>

definition memory_flagged :: "input_origin \<Rightarrow> string \<Rightarrow> bool" where
  "memory_flagged origin content \<longleftrightarrow>
     io_source origin \<in> set UNTRUSTED_SOURCES \<or> list_ex (\<lambda>p. re_test p content) DURABLE_PRIVILEGE"

definition escalates :: "immune_principal \<Rightarrow> string \<Rightarrow> bool" where
  "escalates p capability \<longleftrightarrow> isPrivileged capability \<and> pr_trust p \<in> {Tr_UNKNOWN, Tr_SUSPICIOUS, Tr_REVOKED}"

definition kinds :: "check \<Rightarrow> host \<Rightarrow> risk_kind set" where
  "kinds c h = fst ` set (contents c h)"

lemma kinds_simps [simp]:
  "kinds silent h = {}"
  "kinds (report k d i) h = {k}"
  "kinds (and_then a b) h = kinds a h \<union> kinds b (snd (a h))"
  "kinds (if q then x else y) h = (if q then kinds x h else kinds y h)"
  by (simp_all add: kinds_def image_Un)

lemma kinds_dets: "kinds c h = det_kind ` set (fst (c h))"
  by (force simp: kinds_def contents_def)

lemma kinds_input: "kinds (check_input obs) h = (case obs_input obs of None \<Rightarrow> {}
    | Some (origin, text) \<Rightarrow> if injection_found origin text then {Prompt_injection} else {})"
  by (simp add: check_input_def kinds_def split: option.splits prod.splits)

lemma kinds_tool: "kinds (check_tool_result obs) h = (case obs_toolResult obs of None \<Rightarrow> {}
    | Some (origin, text, toolId) \<Rightarrow> if injection_found origin text then {Tool_poisoning} else {})"
  by (simp add: kinds_def split: option.splits prod.splits)

lemma kinds_memory: "kinds (check_memory obs) h = (case obs_memoryWrite obs of None \<Rightarrow> {}
    | Some (origin, content, actorId) \<Rightarrow> if memory_flagged origin content then {Memory_poisoning} else {})"
  by (simp add: check_memory_def checkMemoryWrite_def memory_flagged_def split: option.splits prod.splits)

lemma kinds_privilege: "kinds (check_privilege obs) h = (case (obs_principal obs, obs_capability obs) of
    (Some p, Some c) \<Rightarrow> if c \<noteq> [] \<and> escalates p c then {Permission_escalation} else {} | _ \<Rightarrow> {})"
  by (auto simp: check_privilege_def checkPrivilegeEscalation_def escalates_def split: option.splits)

lemma kinds_secret: "kinds (check_secret obs) h = (case obs_principal obs of None \<Rightarrow> {}
    | Some p \<Rightarrow> if obs_capability obs = Some ''secret.read'' \<and> pr_trust p \<notin> {Tr_TRUSTED, Tr_VERIFIED}
        then {Secret_access_anomaly} else {})"
  by (auto simp: check_secret_def split: option.splits)

lemma kinds_artifact: "kinds (check_artifact obs) h = (case obs_artifact obs of None \<Rightarrow> {}
    | Some (i, e, a) \<Rightarrow> if e \<noteq> a then {Artifact_tampering} else {})"
  by (simp add: check_artifact_def split: option.splits prod.splits)

lemma kinds_integrity: "kinds (check_integrity obs) h = (case obs_integrity obs of None \<Rightarrow> {}
    | Some (t, e, r) \<Rightarrow> if e \<noteq> r then {Kernel_integrity_failure} else {})"
  by (simp add: check_integrity_def split: option.splits prod.splits)

lemma kinds_dependency: "kinds (check_dependency obs) h = (case obs_dependency obs of None \<Rightarrow> {}
    | Some d \<Rightarrow> if dependency_finding d = None then {} else {Dependency_anomaly})"
  by (auto simp: check_dependency_def kinds_def split: option.splits)

lemma kinds_runstats: "kinds (check_runstats obs) h \<subseteq> {Runaway_loop}"
  by (auto simp: check_runstats_def checkRunaway_def split: option.splits if_splits)

lemma kinds_usage: "kinds (check_usage obs) h \<subseteq> {Usage_velocity}"
  by (auto simp: check_usage_def checkUsageVelocity_def Let_def split: option.splits if_splits)

lemma kinds_failures: "kinds (check_failures obs) h \<subseteq> {Repeated_failure}"
  by (auto simp: check_failures_def split: option.splits if_splits)

lemma kinds_sequence: "kinds (check_sequence obs) h \<subseteq> {Unusual_tool_sequence}"
  by (auto simp: check_sequence_def checkToolSequence_def Let_def split: option.splits if_splits)

lemma kinds_transition: "kinds (check_transition obs) h \<subseteq> {Unexpected_transition}"
  by (auto simp: check_transition_def split: option.splits)

lemmas kinds_checks = kinds_input kinds_tool kinds_memory kinds_privilege kinds_secret kinds_artifact
  kinds_integrity kinds_dependency

text \<open>The observations on which the firewall must act.\<close>

definition hostile :: "observation \<Rightarrow> bool" where
  "hostile obs \<longleftrightarrow>
     (case obs_input obs of None \<Rightarrow> False | Some (origin, text) \<Rightarrow> injection_found origin text) \<or>
     (case obs_toolResult obs of None \<Rightarrow> False | Some (origin, text, toolId) \<Rightarrow> injection_found origin text) \<or>
     (case obs_memoryWrite obs of None \<Rightarrow> False | Some (origin, content, actorId) \<Rightarrow> memory_flagged origin content) \<or>
     (case (obs_principal obs, obs_capability obs) of (Some p, Some c) \<Rightarrow> c \<noteq> [] \<and> escalates p c | _ \<Rightarrow> False) \<or>
     (case obs_principal obs of None \<Rightarrow> False
      | Some p \<Rightarrow> obs_capability obs = Some ''secret.read'' \<and> pr_trust p \<notin> {Tr_TRUSTED, Tr_VERIFIED}) \<or>
     (case obs_integrity obs of None \<Rightarrow> False | Some (t, e, r) \<Rightarrow> e \<noteq> r)"

text \<open>Does a check report something that the firewall obeys?\<close>

definition blocks :: "check \<Rightarrow> host \<Rightarrow> bool" where
  "blocks c h \<longleftrightarrow> (\<exists>k \<in> kinds c h. deterministic_block k)"

lemma blocks_and_then [simp]:
  "blocks silent h = False"
  "blocks (and_then a b) h = (blocks a h \<or> blocks b (snd (a h)))"
  by (auto simp: blocks_def)

lemma blocks_input: "blocks (check_input obs) h = (case obs_input obs of None \<Rightarrow> False
    | Some (origin, text) \<Rightarrow> injection_found origin text)"
  by (auto simp: blocks_def kinds_input deterministic_block_def split: option.splits)

lemma blocks_tool: "blocks (check_tool_result obs) h = (case obs_toolResult obs of None \<Rightarrow> False
    | Some (origin, text, toolId) \<Rightarrow> injection_found origin text)"
  by (auto simp: blocks_def kinds_tool deterministic_block_def split: option.splits)

lemma blocks_memory: "blocks (check_memory obs) h = (case obs_memoryWrite obs of None \<Rightarrow> False
    | Some (origin, content, actorId) \<Rightarrow> memory_flagged origin content)"
  by (auto simp: blocks_def kinds_memory deterministic_block_def split: option.splits)

lemma blocks_privilege: "blocks (check_privilege obs) h = (case (obs_principal obs, obs_capability obs) of
    (Some p, Some c) \<Rightarrow> c \<noteq> [] \<and> escalates p c | _ \<Rightarrow> False)"
  by (auto simp: blocks_def kinds_privilege deterministic_block_def split: option.splits)

lemma blocks_secret: "blocks (check_secret obs) h = (case obs_principal obs of None \<Rightarrow> False
    | Some p \<Rightarrow> obs_capability obs = Some ''secret.read'' \<and> pr_trust p \<notin> {Tr_TRUSTED, Tr_VERIFIED})"
  by (auto simp: blocks_def kinds_secret deterministic_block_def split: option.splits)

lemma blocks_integrity: "blocks (check_integrity obs) h = (case obs_integrity obs of None \<Rightarrow> False
    | Some (t, e, r) \<Rightarrow> e \<noteq> r)"
  by (auto simp: blocks_def kinds_integrity deterministic_block_def split: option.splits)

lemma blocks_rest [simp]:
  "blocks (check_artifact obs) h = False" "blocks (check_dependency obs) h = False"
  "blocks (check_runstats obs) h = False" "blocks (check_usage obs) h = False"
  "blocks (check_failures obs) h = False" "blocks (check_sequence obs) h = False"
  "blocks (check_transition obs) h = False"
  using kinds_runstats [of obs h] kinds_usage [of obs h] kinds_failures [of obs h] kinds_sequence [of obs h]
    kinds_transition [of obs h]
  by (auto simp: blocks_def kinds_artifact kinds_dependency deterministic_block_def split: option.splits if_splits)

lemma detect_hostile:
  "list_ex (\<lambda>d. deterministic_block (det_kind d)) (fst (detect obs h)) \<longleftrightarrow> hostile obs"
proof -
  have "list_ex (\<lambda>d. deterministic_block (det_kind d)) (fst (detect obs h)) \<longleftrightarrow> blocks (detect obs) h"
    by (auto simp: blocks_def kinds_dets list_ex_iff)
  also have "\<dots> \<longleftrightarrow> hostile obs"
    by (simp add: detect_def detect_checks_def blocks_input blocks_tool blocks_memory blocks_privilege blocks_secret
        blocks_integrity hostile_def)
  finally show ?thesis .
qed

end
