(* ===== verification/Json.thy ===== *)
theory Json
  imports Host
begin

text \<open>
  \<open>JSON.stringify\<close> and what \<open>JSON.parse\<close> reads back, as the storage layer and the state hashes use
  them: \<open>undefined\<close>, functions and symbols are dropped from objects and become \<open>null\<close> in arrays,
  non-finite numbers become \<open>null\<close>, big integers throw.  Keys keep their order.
\<close>

text \<open>The text of a value; \<open>None\<close> is \<open>undefined\<close>.  Big integers are excluded by \<open>has_bigint\<close>.\<close>

function has_bigint :: "jsv \<Rightarrow> bool" where
  "has_bigint (JBigInt n) = True"
| "has_bigint (JArr vs) = list_ex has_bigint vs"
| "has_bigint (JObj kvs) = list_ex (\<lambda>(k, v). has_bigint v) kvs"
| "has_bigint JUndefined = False"
| "has_bigint JNull = False"
| "has_bigint (JBool b) = False"
| "has_bigint (JNum n) = False"
| "has_bigint JNonFinite = False"
| "has_bigint (JStr s) = False"
| "has_bigint (JOther s) = False"
  by pat_completeness auto
termination
  by (relation "measure size") (auto dest: size_snd_member size_member)

function json_text :: "jsv \<Rightarrow> string option" where
  "json_text JUndefined = None"
| "json_text (JOther s) = None"
| "json_text (JBigInt n) = None"
| "json_text JNull = Some ''null''"
| "json_text JNonFinite = Some ''null''"
| "json_text (JBool b) = Some (if b then ''true'' else ''false'')"
| "json_text (JNum n) = Some (show_int n)"
| "json_text (JStr s) = Some (json_string s)"
| "json_text (JArr vs) = Some (''['' @ join_with '',''
     (map (\<lambda>v. case json_text v of None \<Rightarrow> ''null'' | Some t \<Rightarrow> t) vs) @ '']'')"
| "json_text (JObj kvs) = Some (''{'' @ join_with '',''
     (concat (map (\<lambda>(k, v). case json_text v of None \<Rightarrow> [] | Some t \<Rightarrow> [json_string k @ '':'' @ t]) kvs)) @ ''}'')"
  by pat_completeness auto
termination
  by (relation "measure size") (auto dest: size_snd_member size_member)

definition json_stringify :: "jsv \<Rightarrow> js_error + string option" where
  "json_stringify v =
     (if has_bigint v then Inl (JsError ''TypeError'' ''Do not know how to serialize a BigInt'')
      else Inr (json_text v))"

text \<open>\<open>JSON.parse(JSON.stringify(v))\<close>; \<open>None\<close> when the text is \<open>undefined\<close>.\<close>

function json_norm :: "jsv \<Rightarrow> jsv option" where
  "json_norm JUndefined = None"
| "json_norm (JOther s) = None"
| "json_norm (JBigInt n) = None"
| "json_norm JNull = Some JNull"
| "json_norm JNonFinite = Some JNull"
| "json_norm (JBool b) = Some (JBool b)"
| "json_norm (JNum n) = Some (JNum n)"
| "json_norm (JStr s) = Some (JStr s)"
| "json_norm (JArr vs) = Some (JArr (map (\<lambda>v. case json_norm v of None \<Rightarrow> JNull | Some u \<Rightarrow> u) vs))"
| "json_norm (JObj kvs) = Some (JObj
     (concat (map (\<lambda>(k, v). case json_norm v of None \<Rightarrow> [] | Some u \<Rightarrow> [(k, u)]) kvs)))"
  by pat_completeness auto
termination
  by (relation "measure size") (auto dest: size_snd_member size_member)

text \<open>JSON data: what survives the round trip unchanged.\<close>

function json_pure :: "jsv \<Rightarrow> bool" where
  "json_pure (JArr vs) = list_all json_pure vs"
| "json_pure (JObj kvs) = list_all (\<lambda>(k, v). json_pure v) kvs"
| "json_pure JUndefined = False"
| "json_pure JNonFinite = False"
| "json_pure (JBigInt n) = False"
| "json_pure (JOther s) = False"
| "json_pure JNull = True"
| "json_pure (JBool b) = True"
| "json_pure (JNum n) = True"
| "json_pure (JStr s) = True"
  by pat_completeness auto
termination
  by (relation "measure size") (auto dest: size_snd_member size_member)

lemma json_norm_pure: "json_pure v \<Longrightarrow> json_norm v = Some v"
proof (induction v rule: json_pure.induct)
  case (1 vs)
  then have "map (\<lambda>v. case json_norm v of None \<Rightarrow> JNull | Some u \<Rightarrow> u) vs = vs"
    by (intro map_idI) (auto simp: list_all_iff)
  then show ?case by simp
next
  case (2 kvs)
  have "concat (map (\<lambda>(k, v). case json_norm v of None \<Rightarrow> [] | Some u \<Rightarrow> [(k, u)]) kvs) =
      concat (map (\<lambda>kv. [kv]) kvs)"
    using 2 by (intro arg_cong [where f = concat] map_cong) (auto simp: list_all_iff)
  then show ?case by simp
qed auto

lemma json_norm_idem: "json_norm v = Some u \<Longrightarrow> json_pure u"
proof (induction v arbitrary: u rule: json_norm.induct)
  case (9 vs)
  then show ?case by (auto simp: list_all_iff split: option.splits)
next
  case (10 kvs)
  then show ?case by (fastforce simp: list_all_iff split: option.splits)
qed auto

lemma json_pure_no_bigint: "json_pure v \<Longrightarrow> \<not> has_bigint v"
  by (induction v rule: json_pure.induct) (auto simp: list_all_iff list_ex_iff)

lemma json_norm_text: "json_norm v = None \<longleftrightarrow> json_text v = None"
  by (cases v) auto

end
