(* ===== verification/ImmuneOrgans.thy ===== *)
theory ImmuneOrgans
  imports ImmuneGate Json
begin

text \<open>
  The stateful organs of the immune system (\<open>kernel/immune/src\<close>): quarantine, circuit breakers,
  kill switch, recovery, integrity guardian, incident engine, health model and metrics.  Each has
  its state, its operations with the host threaded where they read a clock or make an identifier,
  and the invariants of the states it can reach.
\<close>

section \<open>Quarantine\<close>

datatype quarantine_state = Q_ACTIVE | Q_SUSPICIOUS | Q_QUARANTINED | Q_ANALYSIS | Q_RECOVERED | Q_REVOKED

fun quarantine_state_string :: "quarantine_state \<Rightarrow> string" where
  "quarantine_state_string Q_ACTIVE = ''ACTIVE''"
| "quarantine_state_string Q_SUSPICIOUS = ''SUSPICIOUS''"
| "quarantine_state_string Q_QUARANTINED = ''QUARANTINED''"
| "quarantine_state_string Q_ANALYSIS = ''ANALYSIS''"
| "quarantine_state_string Q_RECOVERED = ''RECOVERED''"
| "quarantine_state_string Q_REVOKED = ''REVOKED''"

datatype fs_restriction = Fs_readonly | Fs_blocked | Fs_normal
datatype net_restriction = Net_blocked | Net_allowlist | Net_normal

record quarantine_restrictions =
  qr_filesystem :: fs_restriction
  qr_network :: net_restriction
  qr_credentialsRevoked :: bool
  qr_newProcessesBlocked :: bool
  qr_pluginDisabled :: bool

definition FULL_QUARANTINE :: quarantine_restrictions where
  "FULL_QUARANTINE = \<lparr>qr_filesystem = Fs_readonly, qr_network = Net_blocked, qr_credentialsRevoked = True,
     qr_newProcessesBlocked = True, qr_pluginDisabled = True\<rparr>"

definition NORMAL_RESTRICTIONS :: quarantine_restrictions where
  "NORMAL_RESTRICTIONS = \<lparr>qr_filesystem = Fs_normal, qr_network = Net_normal, qr_credentialsRevoked = False,
     qr_newProcessesBlocked = False, qr_pluginDisabled = False\<rparr>"

record quarantine_record =
  q_entityId :: string
  q_state :: quarantine_state
  q_reason :: string
  q_restrictions :: quarantine_restrictions
  q_enteredAt :: string
  q_evidence :: "string list"

definition QUARANTINE_MACHINE :: "(quarantine_state, string) transition_table" where
  "QUARANTINE_MACHINE =
     [(Q_ACTIVE, [(''flag'', Q_SUSPICIOUS)]),
      (Q_SUSPICIOUS, [(''quarantine'', Q_QUARANTINED)]),
      (Q_QUARANTINED, [(''analyze'', Q_ANALYSIS)]),
      (Q_ANALYSIS, [(''recover'', Q_RECOVERED), (''revoke'', Q_REVOKED)])]"

lemma quarantine_next_simps:
  "next_state QUARANTINE_MACHINE Q_ACTIVE e = (if e = ''flag'' then Some Q_SUSPICIOUS else None)"
  "next_state QUARANTINE_MACHINE Q_SUSPICIOUS e = (if e = ''quarantine'' then Some Q_QUARANTINED else None)"
  "next_state QUARANTINE_MACHINE Q_QUARANTINED e = (if e = ''analyze'' then Some Q_ANALYSIS else None)"
  "next_state QUARANTINE_MACHINE Q_ANALYSIS e =
     (if e = ''recover'' then Some Q_RECOVERED else if e = ''revoke'' then Some Q_REVOKED else None)"
  "next_state QUARANTINE_MACHINE Q_RECOVERED e = None"
  "next_state QUARANTINE_MACHINE Q_REVOKED e = None"
  by (auto simp: next_state_def QUARANTINE_MACHINE_def)

definition quarantine_final :: "quarantine_state \<Rightarrow> bool" where
  "quarantine_final s \<longleftrightarrow> s \<in> {Q_RECOVERED, Q_REVOKED}"

interpretation quarantine_sm: machine QUARANTINE_MACHINE quarantine_final
  by unfold_locales (auto simp: quarantine_final_def quarantine_next_simps)

type_synonym quarantine = "(string, quarantine_record) js_map"

definition quarantine_get :: "quarantine \<Rightarrow> string \<Rightarrow> quarantine_record option" where
  "quarantine_get q i = map_get q i"

definition quarantine_list :: "quarantine \<Rightarrow> quarantine_record list" where
  "quarantine_list q = map_values q"

definition quarantine_size :: "quarantine \<Rightarrow> nat" where
  "quarantine_size q = length q"

definition quarantine_transition ::
  "quarantine_record \<Rightarrow> string \<Rightarrow> string \<Rightarrow> string list \<Rightarrow> quarantine \<Rightarrow> js_error + quarantine_record \<times> quarantine" where
  "quarantine_transition current event reason evidence q =
     bindE (transition quarantine_state_string id QUARANTINE_MACHINE (q_state current) event) (\<lambda>nxt.
       let r = current\<lparr>q_state := nxt, q_reason := reason, q_evidence := evidence,
             q_restrictions := (if nxt = Q_RECOVERED then NORMAL_RESTRICTIONS else q_restrictions current)\<rparr>
       in Inr (r, map_set (q_entityId current) r q))"

definition quarantine_enter ::
  "string \<Rightarrow> string \<Rightarrow> string list \<Rightarrow> quarantine \<Rightarrow> host \<Rightarrow> (js_error + quarantine_record \<times> quarantine) \<times> host" where
  "quarantine_enter entityId reason evidence q h =
     (case map_get q entityId of
        Some existing \<Rightarrow> (quarantine_transition existing ''quarantine'' reason evidence q, h)
      | None \<Rightarrow>
          let (now, h') = new_date_iso h;
              r = \<lparr>q_entityId = entityId, q_state = Q_QUARANTINED, q_reason = reason,
                q_restrictions = FULL_QUARANTINE, q_enteredAt = now, q_evidence = evidence\<rparr>
          in (Inr (r, map_set entityId r q), h'))"

definition quarantine_flag ::
  "string \<Rightarrow> string \<Rightarrow> quarantine \<Rightarrow> host \<Rightarrow> (js_error + quarantine_record \<times> quarantine) \<times> host" where
  "quarantine_flag entityId reason q h =
     (case map_get q entityId of
        Some existing \<Rightarrow> (quarantine_transition existing ''flag'' reason [] q, h)
      | None \<Rightarrow>
          let (now, h') = new_date_iso h;
              r = \<lparr>q_entityId = entityId, q_state = Q_SUSPICIOUS, q_reason = reason,
                q_restrictions = NORMAL_RESTRICTIONS, q_enteredAt = now, q_evidence = []\<rparr>
          in (Inr (r, map_set entityId r q), h'))"

definition quarantine_must :: "string \<Rightarrow> string \<Rightarrow> quarantine \<Rightarrow> js_error + quarantine_record \<times> quarantine" where
  "quarantine_must entityId event q =
     (case map_get q entityId of
        None \<Rightarrow> Inl (plain_error (''quarantine: unknown entity '' @ quoted entityId))
      | Some existing \<Rightarrow> quarantine_transition existing event (q_reason existing) (q_evidence existing) q)"

definition quarantine_analyze :: "string \<Rightarrow> quarantine \<Rightarrow> js_error + quarantine_record \<times> quarantine" where
  "quarantine_analyze entityId q = quarantine_must entityId ''analyze'' q"

definition quarantine_recover :: "string \<Rightarrow> string option \<Rightarrow> quarantine \<Rightarrow> js_error + quarantine_record \<times> quarantine" where
  "quarantine_recover entityId note q =
     bindE (quarantine_must entityId ''recover'' q) (\<lambda>(r, q1).
       let r1 = (case note of
             None \<Rightarrow> r
           | Some n \<Rightarrow> if n = [] then r else r\<lparr>q_reason := q_reason r @ '' '' @ em_dash @ '' recovered: '' @ n\<rparr>)
       in Inr (r1, map_set entityId (r1\<lparr>q_restrictions := NORMAL_RESTRICTIONS\<rparr>) q1))"

definition quarantine_revoke :: "string \<Rightarrow> string \<Rightarrow> quarantine \<Rightarrow> js_error + quarantine_record \<times> quarantine" where
  "quarantine_revoke entityId reason q =
     bindE (quarantine_must entityId ''revoke'' q) (\<lambda>(r, q1).
       let r1 = r\<lparr>q_reason := reason\<rparr> in Inr (r1, map_set entityId r1 q1))"

definition isQuarantined :: "quarantine \<Rightarrow> string \<Rightarrow> bool" where
  "isQuarantined q entityId =
     (case map_get q entityId of None \<Rightarrow> False | Some r \<Rightarrow> q_state r = Q_QUARANTINED \<or> q_state r = Q_ANALYSIS)"

definition restrictionsOf :: "quarantine \<Rightarrow> string \<Rightarrow> quarantine_restrictions" where
  "restrictionsOf q entityId =
     (case map_get q entityId of None \<Rightarrow> NORMAL_RESTRICTIONS | Some r \<Rightarrow> q_restrictions r)"

section \<open>Circuit breakers\<close>

datatype breaker_state = Cb_closed | Cb_open | Cb_half_open

fun breaker_state_string :: "breaker_state \<Rightarrow> string" where
  "breaker_state_string Cb_closed = ''closed''"
| "breaker_state_string Cb_open = ''open''"
| "breaker_state_string Cb_half_open = ''half-open''"

record breaker_config =
  bc_failureThreshold :: int
  bc_cooldownMs :: int
  bc_maxHalfOpenTrials :: int

record breaker =
  bk_resource :: string
  bk_state :: breaker_state
  bk_failures :: int
  bk_openedAt :: "int option"
  bk_halfOpenTrials :: int

definition BREAKER_MACHINE :: "(breaker_state, string) transition_table" where
  "BREAKER_MACHINE =
     [(Cb_closed, [(''trip'', Cb_open)]),
      (Cb_open, [(''cooldown'', Cb_half_open)]),
      (Cb_half_open, [(''success'', Cb_closed), (''failure'', Cb_open)])]"

interpretation breaker_sm: machine BREAKER_MACHINE "\<lambda>_. False"
  by unfold_locales simp

text \<open>The calls of the machine that the breaker makes; each is legal, so its result is a value.\<close>

definition breaker_next :: "breaker_state \<Rightarrow> string \<Rightarrow> breaker_state" where
  "breaker_next s e = (case next_state BREAKER_MACHINE s e of None \<Rightarrow> s | Some t \<Rightarrow> t)"

lemma breaker_next_simps [simp]:
  "breaker_next Cb_closed ''trip'' = Cb_open"
  "breaker_next Cb_open ''cooldown'' = Cb_half_open"
  "breaker_next Cb_half_open ''success'' = Cb_closed"
  "breaker_next Cb_half_open ''failure'' = Cb_open"
  by (simp_all add: breaker_next_def next_state_def BREAKER_MACHINE_def)

definition new_breaker :: "string \<Rightarrow> breaker" where
  "new_breaker resource = \<lparr>bk_resource = resource, bk_state = Cb_closed, bk_failures = 0, bk_openedAt = None,
     bk_halfOpenTrials = 0\<rparr>"

definition breaker_allow :: "breaker_config \<Rightarrow> breaker \<Rightarrow> host \<Rightarrow> bool \<times> breaker \<times> host" where
  "breaker_allow cfg b h =
     (case bk_state b of
        Cb_closed \<Rightarrow> (True, b, h)
      | Cb_open \<Rightarrow>
          let (now, h1) = date_now h;
              (openedAt, h2) = (case bk_openedAt b of Some t \<Rightarrow> (t, h1) | None \<Rightarrow> date_now h1)
          in
          if bc_cooldownMs cfg \<le> now - openedAt then
            (True, b\<lparr>bk_state := breaker_next Cb_open ''cooldown'', bk_halfOpenTrials := 0\<rparr>, h2)
          else (False, b, h2)
      | Cb_half_open \<Rightarrow> (bk_halfOpenTrials b < bc_maxHalfOpenTrials cfg, b, h))"

definition breaker_recordSuccess :: "breaker \<Rightarrow> breaker" where
  "breaker_recordSuccess b =
     (case bk_state b of
        Cb_half_open \<Rightarrow> b\<lparr>bk_state := breaker_next Cb_half_open ''success'', bk_failures := 0, bk_openedAt := None,
          bk_halfOpenTrials := 0\<rparr>
      | Cb_closed \<Rightarrow> b\<lparr>bk_failures := 0\<rparr>
      | Cb_open \<Rightarrow> b)"

definition breaker_recordFailure :: "breaker_config \<Rightarrow> breaker \<Rightarrow> host \<Rightarrow> breaker \<times> host" where
  "breaker_recordFailure cfg b h =
     (if bk_state b = Cb_half_open then
        let (now, h') = date_now h in
        (b\<lparr>bk_state := breaker_next Cb_half_open ''failure'', bk_openedAt := Some now, bk_halfOpenTrials := 0\<rparr>, h')
      else
        let failures = bk_failures b + 1 in
        if bc_failureThreshold cfg \<le> failures then
          let (now, h') = date_now h in
          (b\<lparr>bk_state := breaker_next Cb_closed ''trip'', bk_failures := failures, bk_openedAt := Some now\<rparr>, h')
        else (b\<lparr>bk_failures := failures\<rparr>, h))"

type_synonym breakers = "(string, breaker_config \<times> breaker) js_map"

definition breaker_for :: "string \<Rightarrow> breaker_config option \<Rightarrow> breakers \<Rightarrow> (breaker_config \<times> breaker) \<times> breakers" where
  "breaker_for resource config bs =
     (case map_get bs resource of
        Some b \<Rightarrow> (b, bs)
      | None \<Rightarrow>
          let b = (case config of
                None \<Rightarrow> \<lparr>bc_failureThreshold = 5, bc_cooldownMs = 60000, bc_maxHalfOpenTrials = 1\<rparr>
              | Some c \<Rightarrow> c, new_breaker resource)
          in (b, map_set resource b bs))"

definition breaker_all :: "breakers \<Rightarrow> breaker list" where
  "breaker_all bs = map snd (map_values bs)"

datatype breaker_op = BkAllow | BkSuccess | BkFailure

definition breaker_step :: "breaker_config \<Rightarrow> breaker_op \<Rightarrow> breaker \<times> host \<Rightarrow> breaker \<times> host" where
  "breaker_step cfg op s =
     (case op of
        BkAllow \<Rightarrow> snd (breaker_allow cfg (fst s) (snd s))
      | BkSuccess \<Rightarrow> (breaker_recordSuccess (fst s), snd s)
      | BkFailure \<Rightarrow> breaker_recordFailure cfg (fst s) (snd s))"

section \<open>Kill switch\<close>

type_synonym policy_view = "string \<Rightarrow> string \<Rightarrow> string \<Rightarrow> policy_decision"

record kill_switch =
  ks_killed :: "kill_target \<Rightarrow> string list"
  ks_policy :: "policy_view option"

definition new_kill_switch :: "policy_view option \<Rightarrow> kill_switch" where
  "new_kill_switch p = \<lparr>ks_killed = (\<lambda>_. []), ks_policy = p\<rparr>"

definition kill_apply :: "kill_request \<Rightarrow> kill_switch \<Rightarrow> kill_switch" where
  "kill_apply req k =
     (let ids = ks_killed k (kr_targetType req) in
      k\<lparr>ks_killed := (ks_killed k)(kr_targetType req :=
        (if kr_targetId req \<in> set ids then ids else ids @ [kr_targetId req]))\<rparr>)"

definition kill_refused :: "string \<Rightarrow> kill_outcome" where
  "kill_refused r = \<lparr>ko_approved = False, ko_applied = False, ko_reason = r\<rparr>"

definition kill_done :: "string \<Rightarrow> kill_outcome" where
  "kill_done r = \<lparr>ko_approved = True, ko_applied = True, ko_reason = r\<rparr>"

definition kill_switch_request :: "kill_request \<Rightarrow> kill_switch \<Rightarrow> kill_outcome \<times> kill_switch" where
  "kill_switch_request req k =
     (if starts_with (kr_requester req) ''agent:'' \<or> starts_with (kr_requester req) ''tool:'' then
        (case ks_policy k of
           None \<Rightarrow> (kill_refused ''kill requests require a policy evaluator'', k)
         | Some policy \<Rightarrow>
             let d = policy (kr_requester req) ''immune.kill'' (kr_targetId req) in
             if \<not> pd_allowed d then (kill_refused (''policy denied: '' @ pd_reason d), k)
             else if pd_approvalRequired d then (kill_refused ''kill requires approval by policy'', k)
             else (kill_done ''kill approved by policy'', kill_apply req k))
      else if kr_requester req = ''system'' \<or> kr_requester req = ''immune'' then
        (kill_done ''system kill'', kill_apply req k)
      else (kill_refused (''unknown requester '' @ quoted (kr_requester req)), k))"

definition isKilled :: "kill_switch \<Rightarrow> kill_target \<Rightarrow> string \<Rightarrow> bool" where
  "isKilled k type i \<longleftrightarrow> i \<in> set (ks_killed k type)"

definition killedIds :: "kill_switch \<Rightarrow> kill_target \<Rightarrow> string list" where
  "killedIds k type = ks_killed k type"

section \<open>What quarantine restricts\<close>

definition flag_then_quarantine ::
  "string \<Rightarrow> string \<Rightarrow> string \<Rightarrow> string list \<Rightarrow> quarantine \<Rightarrow> host \<Rightarrow> js_error + quarantine_record \<times> quarantine" where
  "flag_then_quarantine i why reason evidence q h =
     (case quarantine_flag i why q h of
        (Inl err, h') \<Rightarrow> Inl err
      | (Inr (r, q1), h') \<Rightarrow> fst (quarantine_enter i reason evidence q1 h'))"

definition isolated_with :: "quarantine_restrictions \<Rightarrow> string \<Rightarrow> js_error + quarantine_record \<times> quarantine \<Rightarrow> bool" where
  "isolated_with limits i res =
     (case res of Inl err \<Rightarrow> False | Inr (r, q) \<Rightarrow> isQuarantined q i \<and> restrictionsOf q i = limits \<and> q_restrictions r = limits)"

lemma quarantine_enter_fresh:
  "map_get q i = None \<Longrightarrow> isolated_with FULL_QUARANTINE i (fst (quarantine_enter i reason evidence q h))"
  by (simp add: quarantine_enter_def isolated_with_def Let_def case_prod_beta isQuarantined_def restrictionsOf_def)

lemma quarantine_enter_again:
  "map_get q i = Some r \<Longrightarrow> q_state r \<noteq> Q_SUSPICIOUS \<Longrightarrow>
    quarantine_enter i reason evidence q h =
      (Inl (IllegalTransitionError (quarantine_state_string (q_state r)) ''quarantine''), h)"
  by (cases "q_state r") (simp_all add: quarantine_enter_def quarantine_transition_def transition_def quarantine_next_simps)

lemma flag_then_quarantine_fresh:
  "map_get q i = None \<Longrightarrow> isolated_with NORMAL_RESTRICTIONS i (flag_then_quarantine i why reason evidence q h)"
  by (simp add: flag_then_quarantine_def quarantine_flag_def quarantine_enter_def quarantine_transition_def
      transition_def quarantine_next_simps isolated_with_def Let_def case_prod_beta isQuarantined_def restrictionsOf_def)

section \<open>What the breaker refuses\<close>

definition breaker_inv :: "breaker \<Rightarrow> bool" where
  "breaker_inv b \<longleftrightarrow> bk_halfOpenTrials b = 0 \<and> 0 \<le> bk_failures b \<and> (bk_state b = Cb_open \<longrightarrow> bk_openedAt b \<noteq> None)"

lemma breaker_step_inv: "breaker_inv (fst s) \<Longrightarrow> breaker_inv (fst (breaker_step cfg op s))"
  by (cases op; cases "bk_state (fst s)")
    (auto simp: breaker_inv_def breaker_step_def breaker_allow_def breaker_recordSuccess_def
      breaker_recordFailure_def Let_def case_prod_beta split: option.splits)

lemma breaker_reach_inv: "breaker_inv (fst (fold (breaker_step cfg) ops (new_breaker resource, h)))"
proof -
  have "breaker_inv (fst s) \<Longrightarrow> breaker_inv (fst (fold (breaker_step cfg) ops s))" for s
    by (induction ops arbitrary: s) (simp_all add: breaker_step_inv)
  then show ?thesis by (simp add: breaker_inv_def new_breaker_def)
qed

lemma breaker_failures:
  "breaker_inv (fst s) \<Longrightarrow>
    bk_state (fst (fold (breaker_step cfg) (replicate n BkFailure) s)) \<noteq> Cb_open \<Longrightarrow> 0 < n \<Longrightarrow>
    int n \<le> bk_failures (fst (fold (breaker_step cfg) (replicate n BkFailure) s)) \<and>
    bk_failures (fst (fold (breaker_step cfg) (replicate n BkFailure) s)) < bc_failureThreshold cfg"
proof (induction n)
  case 0
  then show ?case by simp
next
  case (Suc n)
  let ?t = "fold (breaker_step cfg) (replicate n BkFailure) s"
  have split: "replicate (Suc n) BkFailure = replicate n BkFailure @ [BkFailure]"
    by (simp add: replicate_append_same)
  have last: "fold (breaker_step cfg) (replicate (Suc n) BkFailure) s = breaker_step cfg BkFailure ?t"
    by (simp only: split fold_append) simp
  have shut: "bk_state (fst ?t) = Cb_closed" and below: "bk_failures (fst ?t) + 1 < bc_failureThreshold cfg"
    and now: "bk_failures (fst (breaker_step cfg BkFailure ?t)) = bk_failures (fst ?t) + 1"
    using Suc.prems(2) unfolding last
    by (cases "bk_state (fst ?t)"; auto simp: breaker_step_def breaker_recordFailure_def Let_def case_prod_beta
        split: if_splits)+
  show ?case
  proof (cases "n = 0")
    case True
    then show ?thesis using Suc.prems(1) below now last by (simp add: breaker_inv_def)
  next
    case False
    then have "int n \<le> bk_failures (fst ?t)" using Suc.IH Suc.prems(1) shut by simp
    then show ?thesis using below now last by simp
  qed
qed

lemma breaker_allow_open:
  "bk_state b = Cb_open \<Longrightarrow> bk_openedAt b = Some t \<Longrightarrow>
    fst (breaker_allow cfg b h) \<longleftrightarrow> bc_cooldownMs cfg \<le> clock_of h (clock_calls h) - t"
  by (simp add: breaker_allow_def date_now_def Let_def)

section \<open>Who can kill\<close>

definition kill_authorised :: "policy_view option \<Rightarrow> kill_request \<Rightarrow> bool" where
  "kill_authorised policy req \<longleftrightarrow>
     (if starts_with (kr_requester req) ''agent:'' \<or> starts_with (kr_requester req) ''tool:'' then
        (case policy of None \<Rightarrow> False
         | Some p \<Rightarrow> let d = p (kr_requester req) ''immune.kill'' (kr_targetId req) in
             pd_allowed d \<and> \<not> pd_approvalRequired d)
      else kr_requester req = ''system'' \<or> kr_requester req = ''immune'')"

lemma kill_switch_request_effect:
  "snd (kill_switch_request req k) = (if kill_authorised (ks_policy k) req then kill_apply req k else k) \<and>
   ko_applied (fst (kill_switch_request req k)) = kill_authorised (ks_policy k) req"
  by (auto simp: kill_switch_request_def kill_authorised_def kill_done_def kill_refused_def Let_def split: option.splits)

lemma kill_apply_killed:
  "isKilled (kill_apply req k) t i \<longleftrightarrow> isKilled k t i \<or> kr_targetType req = t \<and> kr_targetId req = i"
  by (auto simp: isKilled_def kill_apply_def Let_def)

lemma kill_apply_policy [simp]: "ks_policy (kill_apply req k) = ks_policy k"
  by (simp add: kill_apply_def Let_def)

lemma kill_run:
  "isKilled (fold (\<lambda>req k. snd (kill_switch_request req k)) reqs k) t i \<longleftrightarrow>
    isKilled k t i \<or> list_ex (\<lambda>req. kr_targetType req = t \<and> kr_targetId req = i \<and> kill_authorised (ks_policy k) req) reqs"
  by (induction reqs arbitrary: k) (auto simp: kill_switch_request_effect kill_apply_killed)

section \<open>Properties\<close>

text \<open>The restrictions of a quarantined entity depend on its history: quarantined directly it gets
  the full restrictions, but an entity that was flagged first keeps the normal ones, that is none,
  although it counts as quarantined.\<close>

theorem quarantine_after_flag_unrestricted:
  assumes "map_get q i = None"
  shows "isolated_with FULL_QUARANTINE i (fst (quarantine_enter i reason evidence q h)) \<and>
    isolated_with NORMAL_RESTRICTIONS i (flag_then_quarantine i why reason evidence q h)"
  using quarantine_enter_fresh [OF assms] flag_then_quarantine_fresh [OF assms] by blast

theorem quarantine_after_flag_unrestricted_witness:
  "isolated_with FULL_QUARANTINE ''agent-1'' (fst (quarantine_enter ''agent-1'' ''r'' [] [] demo_host)) \<and>
   isolated_with NORMAL_RESTRICTIONS ''agent-1'' (flag_then_quarantine ''agent-1'' ''w'' ''r'' [] [] demo_host)"
  by (rule quarantine_after_flag_unrestricted) simp

text \<open>C40.  Whatever happened to a breaker before, as many failures in a row as its threshold, and at least one, leave
  it open, and an open breaker allows a call exactly when the cooldown has passed since it opened.\<close>

theorem breaker_opens_and_waits:
  assumes "bc_failureThreshold cfg \<le> int n" "0 < n"
    and "s = fold (breaker_step cfg) (ops @ replicate n BkFailure) (new_breaker resource, h)"
  shows "bk_state (fst s) = Cb_open \<and>
    (case bk_openedAt (fst s) of None \<Rightarrow> False
     | Some t \<Rightarrow> fst (breaker_allow cfg (fst s) (snd s)) = (bc_cooldownMs cfg \<le> clock_of (snd s) (clock_calls (snd s)) - t))"
proof -
  let ?u = "fold (breaker_step cfg) ops (new_breaker resource, h)"
  have s: "s = fold (breaker_step cfg) (replicate n BkFailure) ?u" by (simp add: assms(3))
  have "bk_state (fst s) = Cb_open"
    using breaker_failures [where cfg = cfg and n = n, OF breaker_reach_inv [of cfg ops resource h]] assms(1,2) s by fastforce
  moreover have "breaker_inv (fst s)" unfolding assms(3) by (rule breaker_reach_inv)
  ultimately show ?thesis using breaker_allow_open by (auto simp: breaker_inv_def)
qed

theorem breaker_opens_and_waits_witness:
  "let cfg = \<lparr>bc_failureThreshold = 2, bc_cooldownMs = 60000, bc_maxHalfOpenTrials = 1\<rparr>;
       s = fold (breaker_step cfg) ([BkFailure, BkSuccess] @ replicate 2 BkFailure) (new_breaker ''github'', demo_host)
   in bk_state (fst s) = Cb_open \<and>
    (case bk_openedAt (fst s) of None \<Rightarrow> False
     | Some t \<Rightarrow> fst (breaker_allow cfg (fst s) (snd s)) = (bc_cooldownMs cfg \<le> clock_of (snd s) (clock_calls (snd s)) - t))"
  unfolding Let_def by (rule breaker_opens_and_waits [OF _ _ refl]) simp_all

text \<open>The trial counter of a half-open breaker never moves, so a half-open breaker allows every call,
  however many are made, unless it is configured with no trial at all.\<close>

theorem breaker_half_open_unlimited:
  assumes "s = fold (breaker_step cfg) ops (new_breaker resource, h)" "bk_state (fst s) = Cb_half_open"
  shows "fst (breaker_allow cfg (fst s) (snd s)) = (0 < bc_maxHalfOpenTrials cfg) \<and>
    fold (breaker_step cfg) (replicate n BkAllow) s = s"
proof -
  have "breaker_inv (fst s)" unfolding assms(1) by (rule breaker_reach_inv)
  moreover have "breaker_step cfg BkAllow s = s" using assms(2) by (simp add: breaker_step_def breaker_allow_def)
  then have "fold (breaker_step cfg) (replicate n BkAllow) s = s" by (induction n) simp_all
  ultimately show ?thesis using assms(2) by (simp add: breaker_allow_def breaker_inv_def)
qed

definition demo_breaker_config :: breaker_config where
  "demo_breaker_config = \<lparr>bc_failureThreshold = 1, bc_cooldownMs = 0, bc_maxHalfOpenTrials = 1\<rparr>"

theorem breaker_half_open_unlimited_witness:
  "let s = fold (breaker_step demo_breaker_config) [BkFailure, BkAllow] (new_breaker ''github'', demo_host)
   in fst (breaker_allow demo_breaker_config (fst s) (snd s)) = (0 < bc_maxHalfOpenTrials demo_breaker_config) \<and>
    fold (breaker_step demo_breaker_config) (replicate 5 BkAllow) s = s"
  unfolding Let_def
  by (rule breaker_half_open_unlimited [OF refl])
    (simp add: breaker_step_def breaker_recordFailure_def breaker_allow_def new_breaker_def demo_breaker_config_def
      date_now_def demo_host_def Let_def)

text \<open>After any sequence of kill requests, an entity is killed exactly when some request for it was
  authorised: it came from the system or the immune runtime, or from an agent or a tool whose request
  the policy allows without approval.  Every other requester, and an agent without a policy, kills
  nothing.\<close>

theorem killed_iff_authorised:
  "isKilled (fold (\<lambda>req k. snd (kill_switch_request req k)) reqs (new_kill_switch policy)) t i =
   list_ex (\<lambda>req. kr_targetType req = t \<and> kr_targetId req = i \<and> kill_authorised policy req) reqs"
  by (simp add: kill_run) (simp add: isKilled_def new_kill_switch_def)

end
