(* ===== verification/ImmuneResponse.thy ===== *)
theory ImmuneResponse
  imports ImmuneOrgans
begin

text \<open>
  The second half of the immune organs (\<open>kernel/immune/src\<close>): recovery from checkpoints, the
  integrity guardian, the incident engine with its evidence in the ledger, the health model and
  the metrics.  The incident engine runs in a world that holds the host, the optional ledger and
  its table of incidents; the runtime extends that world.
\<close>

section \<open>Recovery\<close>

datatype checkpoint_kind =
    Ck_migration | Ck_deployment | Ck_mass_file_change | Ck_dependency_upgrade
  | Ck_configuration_mutation | Ck_custom

record checkpoint =
  cp_id :: string
  cp_label :: string
  cp_kind :: checkpoint_kind
  cp_createdAt :: string
  cp_state :: jsv
  cp_hash :: string

record known_good =
  kg_commit :: string
  kg_build :: string
  kg_config :: string
  kg_pluginSet :: "string list"
  kg_policy :: string

record known_good_patch =
  kp_commit :: "string option"
  kp_build :: "string option"
  kp_config :: "string option"
  kp_pluginSet :: "string list option"
  kp_policy :: "string option"

record recovery_result =
  rc_level :: int
  rc_applied :: bool
  rc_restored :: bool
  rc_verified :: bool
  rc_note :: string

record recovery_engine =
  re_checkpoints :: "(string, checkpoint) js_map"
  re_knownGood :: known_good

definition RECOVERY_LEVELS :: "(int \<times> string) list" where
  "RECOVERY_LEVELS = [(0, ''retry''), (1, ''restart component''), (2, ''rollback transaction''),
     (3, ''restore checkpoint''), (4, ''isolate environment''), (5, ''require human approval'')]"

definition new_recovery :: recovery_engine where
  "new_recovery = \<lparr>re_checkpoints = [],
     re_knownGood = \<lparr>kg_commit = [], kg_build = [], kg_config = [], kg_pluginSet = [], kg_policy = []\<rparr>\<rparr>"

definition or_keep :: "'a option \<Rightarrow> 'a \<Rightarrow> 'a" where
  "or_keep p old = (case p of None \<Rightarrow> old | Some v \<Rightarrow> v)"

definition setKnownGood :: "known_good_patch \<Rightarrow> recovery_engine \<Rightarrow> recovery_engine" where
  "setKnownGood p e =
     (let k = re_knownGood e in
      e\<lparr>re_knownGood := \<lparr>kg_commit = or_keep (kp_commit p) (kg_commit k), kg_build = or_keep (kp_build p) (kg_build k),
        kg_config = or_keep (kp_config p) (kg_config k), kg_pluginSet = or_keep (kp_pluginSet p) (kg_pluginSet k),
        kg_policy = or_keep (kp_policy p) (kg_policy k)\<rparr>\<rparr>)"

definition knownGoodState :: "recovery_engine \<Rightarrow> known_good" where
  "knownGoodState e = re_knownGood e"

text \<open>A state is an object, so its text is a string; a big integer in it throws.\<close>

definition stateHash :: "(string \<Rightarrow> string) \<Rightarrow> jsv \<Rightarrow> js_error + string" where
  "stateHash sha state =
     bindE (json_stringify state) (\<lambda>t. Inr (sha (case t of None \<Rightarrow> [] | Some s \<Rightarrow> s)))"

definition take_checkpoint ::
  "(string \<Rightarrow> string) \<Rightarrow> string \<Rightarrow> checkpoint_kind \<Rightarrow> jsv \<Rightarrow> recovery_engine \<Rightarrow> host \<Rightarrow>
    (js_error + checkpoint \<times> recovery_engine) \<times> host" where
  "take_checkpoint sha label kind state e h =
     (let (uuid, h1) = randomUUID h; (now, h2) = new_date_iso h1 in
      case stateHash sha state of
        Inl err \<Rightarrow> (Inl err, h2)
      | Inr hash \<Rightarrow>
          let c = \<lparr>cp_id = uuid, cp_label = label, cp_kind = kind, cp_createdAt = now, cp_state = state, cp_hash = hash\<rparr>
          in (Inr (c, e\<lparr>re_checkpoints := map_set uuid c (re_checkpoints e)\<rparr>), h2))"

definition get_checkpoint :: "recovery_engine \<Rightarrow> string \<Rightarrow> checkpoint option" where
  "get_checkpoint e i = map_get (re_checkpoints e) i"

definition list_checkpoints :: "recovery_engine \<Rightarrow> checkpoint list" where
  "list_checkpoints e = map_values (re_checkpoints e)"

definition canRecover :: "int \<Rightarrow> bool" where
  "canRecover level \<longleftrightarrow> 0 \<le> level \<and> level \<le> 5"

definition restore :: "(string \<Rightarrow> string) \<Rightarrow> recovery_engine \<Rightarrow> string \<Rightarrow> jsv option \<Rightarrow> js_error + recovery_result" where
  "restore sha e checkpointId expectedState =
     (case map_get (re_checkpoints e) checkpointId of
        None \<Rightarrow> Inr \<lparr>rc_level = 3, rc_applied = False, rc_restored = False, rc_verified = False,
          rc_note = ''unknown checkpoint '' @ quoted checkpointId\<rparr>
      | Some c \<Rightarrow>
          bindE (case expectedState of None \<Rightarrow> Inr True
                 | Some s \<Rightarrow> bindE (stateHash sha s) (\<lambda>hash. Inr (hash = cp_hash c))) (\<lambda>verified.
            Inr \<lparr>rc_level = 3, rc_applied = True, rc_restored = True, rc_verified = verified,
              rc_note = ''restored '' @ quoted (cp_label c) @
                (if verified then '' and verified'' else '' but verification failed'')\<rparr>))"

definition attempt_recovery :: "int \<Rightarrow> string \<Rightarrow> recovery_result" where
  "attempt_recovery level note =
     (let label = (case map_of RECOVERY_LEVELS level of None \<Rightarrow> ''unknown'' | Some l \<Rightarrow> l);
          auto_level = (level \<le> 3)
      in \<lparr>rc_level = level, rc_applied = auto_level, rc_restored = (level = 3), rc_verified = False,
           rc_note = (if note \<noteq> [] then note else label @
             (if auto_level then '' (automatic)'' else '' (requires external action)''))\<rparr>)"

section \<open>The integrity guardian\<close>

record integrity_verdict =
  iv_ok :: bool
  iv_target :: string
  iv_expected :: string
  iv_runtime :: string

type_synonym integrity = "(string, string) js_map"

definition integrity_register :: "string \<Rightarrow> string \<Rightarrow> integrity \<Rightarrow> integrity" where
  "integrity_register target hash g = map_set target hash g"

definition integrity_registered :: "integrity \<Rightarrow> (string \<times> string) list" where
  "integrity_registered g = g"

definition integrity_check :: "integrity \<Rightarrow> string \<Rightarrow> string \<Rightarrow> integrity_verdict" where
  "integrity_check g target runtimeHash =
     (case map_get g target of
        None \<Rightarrow> \<lparr>iv_ok = False, iv_target = target, iv_expected = ''(unregistered)'', iv_runtime = runtimeHash\<rparr>
      | Some h \<Rightarrow> \<lparr>iv_ok = (h = runtimeHash), iv_target = target, iv_expected = h, iv_runtime = runtimeHash\<rparr>)"

definition integrity_checkAll :: "integrity \<Rightarrow> (string, string) js_map \<Rightarrow> integrity_verdict list" where
  "integrity_checkAll g runtime =
     map (\<lambda>(target, expected).
       case map_get runtime target of
         None \<Rightarrow> \<lparr>iv_ok = False, iv_target = target, iv_expected = expected, iv_runtime = ''(missing)''\<rparr>
       | Some r \<Rightarrow> \<lparr>iv_ok = (expected = r), iv_target = target, iv_expected = expected, iv_runtime = r\<rparr>) g"

definition integrity_breaches :: "integrity_verdict list \<Rightarrow> integrity_verdict list" where
  "integrity_breaches vs = filter (\<lambda>v. \<not> iv_ok v) vs"

section \<open>Incidents\<close>

datatype incident_state = In_DETECTED | In_CLASSIFIED | In_CONTAINED | In_RECOVERING | In_VERIFIED | In_CLOSED

fun incident_state_string :: "incident_state \<Rightarrow> string" where
  "incident_state_string In_DETECTED = ''DETECTED''"
| "incident_state_string In_CLASSIFIED = ''CLASSIFIED''"
| "incident_state_string In_CONTAINED = ''CONTAINED''"
| "incident_state_string In_RECOVERING = ''RECOVERING''"
| "incident_state_string In_VERIFIED = ''VERIFIED''"
| "incident_state_string In_CLOSED = ''CLOSED''"

fun severity_string :: "risk_severity \<Rightarrow> string" where
  "severity_string LOW = ''LOW''"
| "severity_string MEDIUM = ''MEDIUM''"
| "severity_string HIGH = ''HIGH''"
| "severity_string CRITICAL = ''CRITICAL''"

record timeline_entry =
  tl_at :: string
  tl_note :: string

record incident_record =
  ir_id :: string
  ir_state :: incident_state
  ir_severity :: risk_severity
  ir_title :: string
  ir_detections :: "string list"
  ir_evidenceHashes :: "string list"
  ir_timeline :: "timeline_entry list"

definition INCIDENT_MACHINE :: "(incident_state, string) transition_table" where
  "INCIDENT_MACHINE =
     [(In_DETECTED, [(''classify'', In_CLASSIFIED)]),
      (In_CLASSIFIED, [(''contain'', In_CONTAINED)]),
      (In_CONTAINED, [(''recover'', In_RECOVERING)]),
      (In_RECOVERING, [(''verify'', In_VERIFIED)]),
      (In_VERIFIED, [(''close'', In_CLOSED)])]"

lemma incident_next_simps:
  "next_state INCIDENT_MACHINE In_DETECTED e = (if e = ''classify'' then Some In_CLASSIFIED else None)"
  "next_state INCIDENT_MACHINE In_CLASSIFIED e = (if e = ''contain'' then Some In_CONTAINED else None)"
  "next_state INCIDENT_MACHINE In_CONTAINED e = (if e = ''recover'' then Some In_RECOVERING else None)"
  "next_state INCIDENT_MACHINE In_RECOVERING e = (if e = ''verify'' then Some In_VERIFIED else None)"
  "next_state INCIDENT_MACHINE In_VERIFIED e = (if e = ''close'' then Some In_CLOSED else None)"
  "next_state INCIDENT_MACHINE In_CLOSED e = None"
  by (auto simp: next_state_def INCIDENT_MACHINE_def)

interpretation incident_sm: machine INCIDENT_MACHINE "\<lambda>s. s = In_CLOSED"
  by unfold_locales (simp add: incident_next_simps)

record incident_world =
  iw_host :: host
  iw_ledger :: "ledger option"
  iw_incidents :: "(string, incident_record) js_map"

text \<open>\<open>record\<close>: append to the ledger, if there is one, and push the hash on the incident's array,
  which the entry of the table shares.\<close>

definition incident_record_event ::
  "(string \<Rightarrow> string) \<Rightarrow> incident_record \<Rightarrow> string \<Rightarrow> (string \<times> jsv) list \<Rightarrow>
    'w incident_world_scheme \<Rightarrow> incident_record \<times> 'w incident_world_scheme" where
  "incident_record_event sha inc phase payload w =
     (case iw_ledger w of
        None \<Rightarrow> (inc, w)
      | Some events \<Rightarrow>
          let (ev, h, events') = append_event sha
                \<lparr>ld_actor = systemActor, ld_type = ''immune.incident.'' @ phase, ld_taskId = ''immune'',
                 ld_runId = ir_id inc,
                 ld_payload = JObj ([(''incidentId'', JStr (ir_id inc)), (''phase'', JStr phase)] @ payload),
                 ld_evidence = None\<rparr> (iw_host w, events);
              inc' = inc\<lparr>ir_evidenceHashes := ir_evidenceHashes inc @ [le_hash ev]\<rparr>
          in (inc', w\<lparr>iw_host := h, iw_ledger := Some events',
                iw_incidents := map_set (ir_id inc) inc' (iw_incidents w)\<rparr>))"

definition incident_detect ::
  "(string \<Rightarrow> string) \<Rightarrow> string \<Rightarrow> risk_severity \<Rightarrow> string list \<Rightarrow>
    'w incident_world_scheme \<Rightarrow> incident_record \<times> 'w incident_world_scheme" where
  "incident_detect sha title severity detections w =
     (let (uuid, h1) = randomUUID (iw_host w); (now, h2) = new_date_iso h1;
          inc = \<lparr>ir_id = uuid, ir_state = In_DETECTED, ir_severity = severity, ir_title = title,
            ir_detections = detections, ir_evidenceHashes = [],
            ir_timeline = [\<lparr>tl_at = now, tl_note = ''detected: '' @ title\<rparr>]\<rparr>
      in incident_record_event sha inc ''detected''
           [(''title'', JStr title), (''severity'', JStr (severity_string severity)),
            (''detections'', JArr (map JStr detections))]
           (w\<lparr>iw_host := h2, iw_incidents := map_set uuid inc (iw_incidents w)\<rparr>))"

definition incident_step ::
  "(string \<Rightarrow> string) \<Rightarrow> string \<Rightarrow> string \<Rightarrow> string \<Rightarrow> ('w incident_world_scheme, incident_record) proc" where
  "incident_step sha i event note = (\<lambda>w.
     case map_get (iw_incidents w) i of
       None \<Rightarrow> (Inl (plain_error (''incident: unknown incident '' @ quoted i)), w)
     | Some current \<Rightarrow>
         (case transition incident_state_string (\<lambda>e. e) INCIDENT_MACHINE (ir_state current) event of
            Inl err \<Rightarrow> (Inl err, w)
          | Inr s \<Rightarrow>
              let (now, h1) = new_date_iso (iw_host w);
                  inc = current\<lparr>ir_state := s, ir_timeline := ir_timeline current @ [\<lparr>tl_at = now, tl_note = note\<rparr>]\<rparr>;
                  (inc', w') = incident_record_event sha inc event [(''note'', JStr note)]
                    (w\<lparr>iw_host := h1, iw_incidents := map_set i inc (iw_incidents w)\<rparr>)
              in (Inr inc', w')))"

definition incident_classify ::
  "(string \<Rightarrow> string) \<Rightarrow> string \<Rightarrow> risk_severity \<Rightarrow> ('w incident_world_scheme, incident_record) proc" where
  "incident_classify sha i severity =
     bindP (incident_step sha i ''classify'' (''classified as '' @ severity_string severity)) (\<lambda>inc w.
       let inc' = inc\<lparr>ir_severity := severity\<rparr>
       in (Inr inc', w\<lparr>iw_incidents := map_set i inc' (iw_incidents w)\<rparr>))"

definition incident_contain ::
  "(string \<Rightarrow> string) \<Rightarrow> string \<Rightarrow> string \<Rightarrow> ('w incident_world_scheme, incident_record) proc" where
  "incident_contain sha i note = incident_step sha i ''contain'' note"

definition incident_recover ::
  "(string \<Rightarrow> string) \<Rightarrow> string \<Rightarrow> string \<Rightarrow> ('w incident_world_scheme, incident_record) proc" where
  "incident_recover sha i note = incident_step sha i ''recover'' note"

definition incident_verify ::
  "(string \<Rightarrow> string) \<Rightarrow> string \<Rightarrow> string \<Rightarrow> ('w incident_world_scheme, incident_record) proc" where
  "incident_verify sha i note = incident_step sha i ''verify'' note"

definition incident_close ::
  "(string \<Rightarrow> string) \<Rightarrow> string \<Rightarrow> string \<Rightarrow> ('w incident_world_scheme, incident_record) proc" where
  "incident_close sha i note = incident_step sha i ''close'' note"

definition incident_get :: "'w incident_world_scheme \<Rightarrow> string \<Rightarrow> incident_record option" where
  "incident_get w i = map_get (iw_incidents w) i"

definition incident_list :: "'w incident_world_scheme \<Rightarrow> incident_record list" where
  "incident_list w = map_values (iw_incidents w)"

definition incident_count :: "'w incident_world_scheme \<Rightarrow> nat" where
  "incident_count w = length (iw_incidents w)"

section \<open>Health and metrics\<close>

datatype health_status = He_healthy | He_degraded | He_critical | He_locked
datatype immune_status = Im_watch | Im_active | Im_quarantined | Im_locked
datatype part_status = Pt_healthy | Pt_degraded

record runner_health =
  rh_healthy :: int
  rh_quarantined :: int

record system_health =
  sh_status :: health_status
  sh_kernel :: part_status
  sh_immune :: immune_status
  sh_ledger :: part_status
  sh_storage :: part_status
  sh_runners :: runner_health
  sh_incidents :: nat
  sh_level :: immunity_level

definition part_of :: "bool \<Rightarrow> part_status" where
  "part_of ok = (if ok then Pt_healthy else Pt_degraded)"

definition health_snapshot ::
  "immunity_level \<Rightarrow> bool \<Rightarrow> bool \<Rightarrow> bool \<Rightarrow> runner_health \<Rightarrow> nat \<Rightarrow> system_health" where
  "health_snapshot level ledgerHealthy storageHealthy kernelHealthy runners incidents =
     (let order = IMMUNITY_ORDER level in
      \<lparr>sh_status = (if 4 \<le> order then He_locked else if order = 3 then He_critical
         else if 1 \<le> order \<or> 0 < rh_quarantined runners \<or> 0 < incidents then He_degraded else He_healthy),
       sh_kernel = part_of kernelHealthy,
       sh_immune = (if 4 \<le> order then Im_locked else if order = 3 then Im_quarantined
         else if 1 \<le> order then Im_active else Im_watch),
       sh_ledger = part_of ledgerHealthy, sh_storage = part_of storageHealthy, sh_runners = runners,
       sh_incidents = incidents, sh_level = level\<rparr>)"

record metrics_collector =
  mc_detectDeltas :: "int list"
  mc_containDeltas :: "int list"
  mc_recoverDeltas :: "int list"
  mc_lastDetection :: int
  mc_lastContainment :: int
  mc_incidents :: nat
  mc_falsePositives :: nat
  mc_policyViolations :: nat
  mc_quarantines :: nat
  mc_recoveries :: nat
  mc_recoveryFailures :: nat
  mc_integrityFailures :: nat
  mc_revocations :: nat
  mc_kills :: nat

record immunity_metrics =
  im_mttdMs :: int
  im_mttcMs :: int
  im_mttrMs :: int
  im_incidentCount :: nat
  im_falsePositiveRate :: rat
  im_policyViolations :: nat
  im_quarantineCount :: nat
  im_recoverySuccess :: nat
  im_recoveryAttempts :: nat
  im_integrityFailures :: nat
  im_credentialRevocations :: nat
  im_kills :: nat

definition new_metrics :: metrics_collector where
  "new_metrics = \<lparr>mc_detectDeltas = [], mc_containDeltas = [], mc_recoverDeltas = [], mc_lastDetection = 0,
     mc_lastContainment = 0, mc_incidents = 0, mc_falsePositives = 0, mc_policyViolations = 0, mc_quarantines = 0,
     mc_recoveries = 0, mc_recoveryFailures = 0, mc_integrityFailures = 0, mc_revocations = 0, mc_kills = 0\<rparr>"

definition mean :: "int list \<Rightarrow> rat" where
  "mean xs = (if xs = [] then 0 else of_int (foldl (+) 0 xs) / of_nat (length xs))"

definition metrics_incidentOpened :: "metrics_collector \<times> host \<Rightarrow> metrics_collector \<times> host" where
  "metrics_incidentOpened = (\<lambda>(m, h). let (now, h') = date_now h in
     (m\<lparr>mc_incidents := mc_incidents m + 1, mc_lastDetection := now\<rparr>, h'))"

definition metrics_detected :: "metrics_collector \<times> host \<Rightarrow> metrics_collector \<times> host" where
  "metrics_detected = (\<lambda>(m, h). let (now, h') = date_now h in
     (m\<lparr>mc_detectDeltas := mc_detectDeltas m @ [max 0 (now - mc_lastDetection m)], mc_lastDetection := now\<rparr>, h'))"

definition metrics_contained :: "metrics_collector \<times> host \<Rightarrow> metrics_collector \<times> host" where
  "metrics_contained = (\<lambda>(m, h). let (now, h') = date_now h in
     (m\<lparr>mc_containDeltas := mc_containDeltas m @ [max 0 (now - mc_lastDetection m)], mc_lastContainment := now\<rparr>, h'))"

definition metrics_recovered :: "bool \<Rightarrow> metrics_collector \<times> host \<Rightarrow> metrics_collector \<times> host" where
  "metrics_recovered ok = (\<lambda>(m, h). let (now, h') = date_now h;
       m1 = m\<lparr>mc_recoverDeltas := mc_recoverDeltas m @ [max 0 (now - mc_lastContainment m)]\<rparr> in
     (if ok then m1\<lparr>mc_recoveries := mc_recoveries m + 1\<rparr>
      else m1\<lparr>mc_recoveryFailures := mc_recoveryFailures m + 1\<rparr>, h'))"

definition recordPolicyViolation :: "metrics_collector \<Rightarrow> metrics_collector" where
  "recordPolicyViolation m = m\<lparr>mc_policyViolations := mc_policyViolations m + 1\<rparr>"

definition recordQuarantine :: "metrics_collector \<Rightarrow> metrics_collector" where
  "recordQuarantine m = m\<lparr>mc_quarantines := mc_quarantines m + 1\<rparr>"

definition recordIntegrityFailure :: "metrics_collector \<Rightarrow> metrics_collector" where
  "recordIntegrityFailure m = m\<lparr>mc_integrityFailures := mc_integrityFailures m + 1\<rparr>"

definition recordCredentialRevocation :: "metrics_collector \<Rightarrow> metrics_collector" where
  "recordCredentialRevocation m = m\<lparr>mc_revocations := mc_revocations m + 1\<rparr>"

definition recordKill :: "metrics_collector \<Rightarrow> metrics_collector" where
  "recordKill m = m\<lparr>mc_kills := mc_kills m + 1\<rparr>"

definition recordFalsePositive :: "metrics_collector \<Rightarrow> metrics_collector" where
  "recordFalsePositive m = m\<lparr>mc_falsePositives := mc_falsePositives m + 1\<rparr>"

definition metrics_compute :: "metrics_collector \<Rightarrow> immunity_metrics" where
  "metrics_compute m =
     \<lparr>im_mttdMs = math_round (mean (mc_detectDeltas m)), im_mttcMs = math_round (mean (mc_containDeltas m)),
      im_mttrMs = math_round (mean (mc_recoverDeltas m)), im_incidentCount = mc_incidents m,
      im_falsePositiveRate = (if mc_incidents m = 0 then 0 else of_nat (mc_falsePositives m) / of_nat (mc_incidents m)),
      im_policyViolations = mc_policyViolations m, im_quarantineCount = mc_quarantines m,
      im_recoverySuccess = mc_recoveries m, im_recoveryAttempts = mc_recoveries m + mc_recoveryFailures m,
      im_integrityFailures = mc_integrityFailures m, im_credentialRevocations = mc_revocations m,
      im_kills = mc_kills m\<rparr>"

end
