(* ===== verification/ImmuneRuntime.thy ===== *)
theory ImmuneRuntime
  imports ImmuneResponse
begin

text \<open>
  The immune runtime of \<open>kernel/immune/src/runtime.ts\<close>: it applies the gate's decisions to the
  organs (quarantine, kill switch, incidents, metrics) and reports health.  Its world extends the
  incident engine's.  The lemmas show that a first threat is isolated, killed where the decision
  says so, and recorded in the ledger, and what happens to the second one.
\<close>

record immune_world = incident_world +
  imw_gate :: gate_config
  imw_level :: immunity_level
  imw_quarantine :: quarantine
  imw_recovery :: recovery_engine
  imw_integrity :: integrity
  imw_breakers :: breakers
  imw_kill :: kill_switch
  imw_metrics :: metrics_collector

record runtime_options =
  ro_ledger :: "ledger option"
  ro_level :: "immunity_level option"
  ro_cascade :: "cascade_config option"
  ro_safeMode :: bool
  ro_emergencyLock :: bool
  ro_policy :: "policy_view option"

fun killTargetFor :: "principal_type \<Rightarrow> kill_target" where
  "killTargetFor PtAgent = KillAgent"
| "killTargetFor PtPlugin = KillPlugin"
| "killTargetFor PtTool = KillPlugin"
| "killTargetFor PtRunner = KillRunner"
| "killTargetFor PtUser = KillRun"
| "killTargetFor PtModel = KillRun"
| "killTargetFor PtService = KillRun"

definition new_immune_runtime :: "runtime_options \<Rightarrow> host \<Rightarrow> immune_world" where
  "new_immune_runtime opts h =
     \<lparr>iw_host = h, iw_ledger = ro_ledger opts, iw_incidents = [],
      imw_gate = \<lparr>gc_level = ro_level opts,
        gc_cascade = Some (case ro_cascade opts of None \<Rightarrow> DEFAULT_CASCADE | Some c \<Rightarrow> c),
        gc_safeMode = ro_safeMode opts, gc_emergencyLock = ro_emergencyLock opts\<rparr>,
      imw_level = (case ro_level opts of None \<Rightarrow> GREEN | Some l \<Rightarrow> l),
      imw_quarantine = [], imw_recovery = new_recovery, imw_integrity = [], imw_breakers = [],
      imw_kill = new_kill_switch (ro_policy opts), imw_metrics = new_metrics\<rparr>"

definition runtime_level :: "immune_world \<Rightarrow> immunity_level" where
  "runtime_level w = maxLevel (imw_level w) (gate_level (imw_gate w))"

definition runtime_isSafeMode :: "immune_world \<Rightarrow> bool" where
  "runtime_isSafeMode w = gc_safeMode (imw_gate w)"

definition runtime_isEmergencyLock :: "immune_world \<Rightarrow> bool" where
  "runtime_isEmergencyLock w = gc_emergencyLock (imw_gate w)"

definition runtime_evaluate :: "immune_request \<Rightarrow> (immune_world, immune_decision) proc" where
  "runtime_evaluate request = (\<lambda>w.
     case gate_evaluate (imw_gate w) request (iw_host w) of (d, h) \<Rightarrow> (Inr d, w\<lparr>iw_host := h\<rparr>))"

text \<open>\<open>this.quarantine.quarantine(\<dots>)\<close> and the metrics calls, in the runtime's world.\<close>

definition runtime_quarantine :: "string \<Rightarrow> string \<Rightarrow> string list \<Rightarrow> (immune_world, unit) proc" where
  "runtime_quarantine i reason evidence = (\<lambda>w.
     case quarantine_enter i reason evidence (imw_quarantine w) (iw_host w) of
       (Inl err, h) \<Rightarrow> (Inl err, w\<lparr>iw_host := h\<rparr>)
     | (Inr (r, q), h) \<Rightarrow> (Inr (), w\<lparr>iw_host := h, imw_quarantine := q\<rparr>))"

definition runtime_metric :: "(metrics_collector \<Rightarrow> metrics_collector) \<Rightarrow> (immune_world, unit) proc" where
  "runtime_metric f = (\<lambda>w. (Inr (), w\<lparr>imw_metrics := f (imw_metrics w)\<rparr>))"

definition runtime_timed ::
  "(metrics_collector \<times> host \<Rightarrow> metrics_collector \<times> host) \<Rightarrow> (immune_world, unit) proc" where
  "runtime_timed f = (\<lambda>w. case f (imw_metrics w, iw_host w) of (m, h) \<Rightarrow>
     (Inr (), w\<lparr>iw_host := h, imw_metrics := m\<rparr>))"

definition runtime_killRequest :: "kill_request \<Rightarrow> (immune_world, kill_outcome) proc" where
  "runtime_killRequest req = (\<lambda>w.
     case kill_switch_request req (imw_kill w) of (o1, k) \<Rightarrow> (Inr o1, w\<lparr>imw_kill := k\<rparr>))"

definition requestKill :: "string \<Rightarrow> kill_target \<Rightarrow> string \<Rightarrow> string \<Rightarrow> (immune_world, kill_outcome) proc" where
  "requestKill requester targetType targetId reason =
     bindP (runtime_killRequest \<lparr>kr_targetType = targetType, kr_targetId = targetId, kr_reason = reason,
         kr_requester = requester\<rparr>) (\<lambda>outcome.
       if ko_applied outcome then
         bindP (runtime_quarantine targetId reason []) (\<lambda>_.
         bindP (runtime_metric recordQuarantine) (\<lambda>_.
         bindP (runtime_metric recordKill) (\<lambda>_. returnP outcome)))
       else returnP outcome)"

definition runtime_kill :: "kill_target \<Rightarrow> string \<Rightarrow> string \<Rightarrow> (immune_world, kill_outcome) proc" where
  "runtime_kill targetType targetId reason = requestKill ''immune'' targetType targetId reason"

definition runtime_isKilled :: "immune_world \<Rightarrow> kill_target \<Rightarrow> string \<Rightarrow> bool" where
  "runtime_isKilled w type i = isKilled (imw_kill w) type i"

definition healthSnapshot :: "(string \<Rightarrow> string) \<Rightarrow> runner_health \<Rightarrow> immune_world \<Rightarrow> system_health" where
  "healthSnapshot sha runners w =
     (let ledgerHealthy = (case iw_ledger w of None \<Rightarrow> True | Some events \<Rightarrow> cv_valid (verifyIntegrity sha events));
          kernelHealthy = (length (integrity_breaches (integrity_checkAll (imw_integrity w)
            (integrity_registered (imw_integrity w)))) = 0)
      in health_snapshot (runtime_level w) ledgerHealthy True kernelHealthy runners (incident_count w))"

fun action_string :: "immune_action \<Rightarrow> string" where
  "action_string Act_allow = ''allow''"
| "action_string Act_monitor = ''monitor''"
| "action_string Act_restrict = ''restrict''"
| "action_string Act_quarantine = ''quarantine''"
| "action_string Act_kill = ''kill''"
| "action_string Act_block = ''block''"
| "action_string Act_approval_required = ''approval_required''"

definition incident_title :: "immune_decision \<Rightarrow> string \<Rightarrow> string" where
  "incident_title d entityId = ''immune '' @ action_string (dec_action d) @ '' on '' @ quoted entityId"

definition openIncident :: "(string \<Rightarrow> string) \<Rightarrow> immune_decision \<Rightarrow> string \<Rightarrow> string \<Rightarrow> (immune_world, unit) proc" where
  "openIncident sha decision entityId detail =
     bindP (runtime_timed metrics_incidentOpened) (\<lambda>_.
     bindP (\<lambda>w. case incident_detect sha (incident_title decision entityId)
         (rs_severity (dec_risk decision)) (map rr_detail (rs_reasons (dec_risk decision))) w of
           (inc, w') \<Rightarrow> (Inr inc, w')) (\<lambda>incident.
     bindP (runtime_timed metrics_detected) (\<lambda>_.
     bindP (incident_classify sha (ir_id incident) (rs_severity (dec_risk decision))) (\<lambda>_.
     bindP (incident_contain sha (ir_id incident) detail) (\<lambda>_.
     bindP (runtime_timed metrics_contained) (\<lambda>_.
       (\<lambda>w. (Inr (), w\<lparr>imw_level := maxLevel (imw_level w) (dec_level decision)\<rparr>))))))))"

definition decision_detail :: "immune_decision \<Rightarrow> string" where
  "decision_detail d =
     (let t = join_with ''; '' (dec_reasons d) in if t \<noteq> [] then t else action_string (dec_action d))"

definition apply_decision :: "(string \<Rightarrow> string) \<Rightarrow> immune_decision \<Rightarrow> immune_request \<Rightarrow> (immune_world, unit) proc" where
  "apply_decision sha d request =
     (let i = pr_id (irq_principal request); detail = decision_detail d in
      if dec_action d = Act_allow \<or> dec_action d = Act_monitor \<or> dec_action d = Act_approval_required then returnP ()
      else if dec_action d = Act_restrict then runtime_metric recordPolicyViolation
      else if dec_action d = Act_quarantine \<or> dec_action d = Act_kill \<or> dec_level d = RED \<or> dec_level d = BLACK then
        bindP (runtime_quarantine i detail (map rr_detail (rs_reasons (dec_risk d)))) (\<lambda>_.
        bindP (runtime_metric recordQuarantine) (\<lambda>_.
        bindP (if dec_action d = Act_kill then
             bindP (runtime_killRequest \<lparr>kr_targetType = killTargetFor (pr_type (irq_principal request)),
               kr_targetId = i, kr_reason = detail, kr_requester = ''immune''\<rparr>) (\<lambda>_. runtime_metric recordKill)
           else returnP ()) (\<lambda>_.
        openIncident sha d i detail)))
      else returnP ())"

definition evaluateAndApply :: "(string \<Rightarrow> string) \<Rightarrow> immune_request \<Rightarrow> (immune_world, immune_decision) proc" where
  "evaluateAndApply sha request =
     bindP (runtime_evaluate request) (\<lambda>d. bindP (apply_decision sha d request) (\<lambda>_. returnP d))"

section \<open>The incident engine and the ledger\<close>

lemma incident_record_event_ledger:
  assumes "iw_ledger w = Some es"
  shows "\<exists>ev h. incident_record_event sha inc phase payload w =
      (inc\<lparr>ir_evidenceHashes := ir_evidenceHashes inc @ [le_hash ev]\<rparr>,
       w\<lparr>iw_host := h, iw_ledger := Some (es @ [ev]),
         iw_incidents := map_set (ir_id inc) (inc\<lparr>ir_evidenceHashes := ir_evidenceHashes inc @ [le_hash ev]\<rparr>)
           (iw_incidents w)\<rparr>) \<and>
    le_type ev = ''immune.incident.'' @ phase \<and> le_runId ev = ir_id inc \<and>
    (ledger_wf sha es \<longrightarrow> ledger_wf sha (es @ [ev]))"
proof -
  let ?d = "\<lparr>ld_actor = systemActor, ld_type = ''immune.incident.'' @ phase, ld_taskId = ''immune'',
      ld_runId = ir_id inc,
      ld_payload = JObj ([(''incidentId'', JStr (ir_id inc)), (''phase'', JStr phase)] @ payload),
      ld_evidence = None\<rparr>"
  let ?r = "append_event sha ?d (iw_host w, es)"
  have r: "?r = (fst ?r, fst (snd ?r), es @ [fst ?r])"
    using append_event_ledger [of sha ?d "(iw_host w, es)"] by (metis prod.collapse snd_conv)
  have wf: "ledger_wf sha es \<longrightarrow> ledger_wf sha (es @ [fst ?r])"
    using append_event_wf [of sha "(iw_host w, es)" ?d] by simp
  show ?thesis
    by (rule exI [of _ "fst ?r"], rule exI [of _ "fst (snd ?r)"])
      (use wf in \<open>simp add: incident_record_event_def assms Let_def case_prod_beta\<close>)
qed

text \<open>One legal step of an incident: its state follows the machine, one event is appended.\<close>

lemma incident_step_ledger:
  assumes "iw_ledger w = Some es" "map_get (iw_incidents w) i = Some inc" "ir_id inc = i"
    "next_state INCIDENT_MACHINE (ir_state inc) event = Some s"
  shows "\<exists>inc' ev h. incident_step sha i event note w =
      (Inr inc', w\<lparr>iw_host := h, iw_ledger := Some (es @ [ev]), iw_incidents := map_set i inc' (iw_incidents w)\<rparr>) \<and>
    ir_state inc' = s \<and> ir_id inc' = i \<and> ir_evidenceHashes inc' = ir_evidenceHashes inc @ [le_hash ev] \<and>
    le_type ev = ''immune.incident.'' @ event \<and> le_runId ev = i \<and>
    (ledger_wf sha es \<longrightarrow> ledger_wf sha (es @ [ev]))"
proof -
  obtain now h1 where now: "new_date_iso (iw_host w) = (now, h1)" by (cases "new_date_iso (iw_host w)")
  let ?inc = "inc\<lparr>ir_state := s, ir_timeline := ir_timeline inc @ [\<lparr>tl_at = now, tl_note = note\<rparr>]\<rparr>"
  let ?w = "w\<lparr>iw_host := h1, iw_incidents := map_set i ?inc (iw_incidents w)\<rparr>"
  have "iw_ledger ?w = Some es" by (simp add: assms)
  from incident_record_event_ledger [OF this, of sha ?inc event "[(''note'', JStr note)]"]
  obtain ev h where ev: "incident_record_event sha ?inc event [(''note'', JStr note)] ?w =
      (?inc\<lparr>ir_evidenceHashes := ir_evidenceHashes ?inc @ [le_hash ev]\<rparr>,
       ?w\<lparr>iw_host := h, iw_ledger := Some (es @ [ev]),
         iw_incidents := map_set (ir_id ?inc) (?inc\<lparr>ir_evidenceHashes := ir_evidenceHashes ?inc @ [le_hash ev]\<rparr>)
           (iw_incidents ?w)\<rparr>)"
    "le_type ev = ''immune.incident.'' @ event" "le_runId ev = ir_id ?inc"
    "ledger_wf sha es \<longrightarrow> ledger_wf sha (es @ [ev])"
    by blast
  show ?thesis
    by (rule exI [of _ "?inc\<lparr>ir_evidenceHashes := ir_evidenceHashes ?inc @ [le_hash ev]\<rparr>"],
        rule exI [of _ ev], rule exI [of _ h])
      (use ev assms in \<open>simp add: incident_step_def transition_def now Let_def\<close>)
qed

lemma incident_detect_ledger:
  assumes "iw_ledger w = Some es"
  shows "\<exists>inc ev h. incident_detect sha title severity detections w =
      (inc, w\<lparr>iw_host := h, iw_ledger := Some (es @ [ev]),
         iw_incidents := map_set (ir_id inc) inc (iw_incidents w)\<rparr>) \<and>
    ir_state inc = In_DETECTED \<and> ir_evidenceHashes inc = [le_hash ev] \<and>
    le_type ev = ''immune.incident.detected'' \<and> le_runId ev = ir_id inc \<and>
    (ledger_wf sha es \<longrightarrow> ledger_wf sha (es @ [ev]))"
proof -
  obtain uuid h1 where uuid: "randomUUID (iw_host w) = (uuid, h1)" by (cases "randomUUID (iw_host w)")
  obtain now h2 where now: "new_date_iso h1 = (now, h2)" by (cases "new_date_iso h1")
  let ?inc = "\<lparr>ir_id = uuid, ir_state = In_DETECTED, ir_severity = severity, ir_title = title,
      ir_detections = detections, ir_evidenceHashes = [],
      ir_timeline = [\<lparr>tl_at = now, tl_note = ''detected: '' @ title\<rparr>]\<rparr>"
  let ?payload = "[(''title'', JStr title), (''severity'', JStr (severity_string severity)),
      (''detections'', JArr (map JStr detections))]"
  let ?w = "w\<lparr>iw_host := h2, iw_incidents := map_set uuid ?inc (iw_incidents w)\<rparr>"
  have "iw_ledger ?w = Some es" by (simp add: assms)
  from incident_record_event_ledger [OF this, of sha ?inc "''detected''" ?payload]
  obtain ev h where ev: "incident_record_event sha ?inc ''detected'' ?payload ?w =
      (?inc\<lparr>ir_evidenceHashes := ir_evidenceHashes ?inc @ [le_hash ev]\<rparr>,
       ?w\<lparr>iw_host := h, iw_ledger := Some (es @ [ev]),
         iw_incidents := map_set (ir_id ?inc) (?inc\<lparr>ir_evidenceHashes := ir_evidenceHashes ?inc @ [le_hash ev]\<rparr>)
           (iw_incidents ?w)\<rparr>)"
    "le_type ev = ''immune.incident.'' @ ''detected''" "le_runId ev = ir_id ?inc"
    "ledger_wf sha es \<longrightarrow> ledger_wf sha (es @ [ev])"
    by blast
  show ?thesis
    by (rule exI [of _ "?inc\<lparr>ir_evidenceHashes := ir_evidenceHashes ?inc @ [le_hash ev]\<rparr>"],
        rule exI [of _ ev], rule exI [of _ h])
      (use ev in \<open>simp add: incident_detect_def uuid now\<close>)
qed

lemma incident_classify_ledger:
  assumes "iw_ledger w = Some es" "map_get (iw_incidents w) i = Some inc" "ir_id inc = i"
    "ir_state inc = In_DETECTED"
  shows "\<exists>inc' ev h. incident_classify sha i severity w =
      (Inr inc', w\<lparr>iw_host := h, iw_ledger := Some (es @ [ev]), iw_incidents := map_set i inc' (iw_incidents w)\<rparr>) \<and>
    ir_state inc' = In_CLASSIFIED \<and> ir_id inc' = i \<and>
    ir_evidenceHashes inc' = ir_evidenceHashes inc @ [le_hash ev] \<and>
    (ledger_wf sha es \<longrightarrow> ledger_wf sha (es @ [ev]))"
proof -
  have "next_state INCIDENT_MACHINE (ir_state inc) ''classify'' = Some In_CLASSIFIED"
    by (simp add: assms incident_next_simps)
  from incident_step_ledger [OF assms(1-3) this, of sha "''classified as '' @ severity_string severity"]
  obtain inc' ev h where s:
    "incident_step sha i ''classify'' (''classified as '' @ severity_string severity) w =
      (Inr inc', w\<lparr>iw_host := h, iw_ledger := Some (es @ [ev]), iw_incidents := map_set i inc' (iw_incidents w)\<rparr>)"
    "ir_state inc' = In_CLASSIFIED" "ir_id inc' = i"
    "ir_evidenceHashes inc' = ir_evidenceHashes inc @ [le_hash ev]"
    "ledger_wf sha es \<longrightarrow> ledger_wf sha (es @ [ev])"
    by blast
  show ?thesis
    by (rule exI [of _ "inc'\<lparr>ir_severity := severity\<rparr>"], rule exI [of _ ev], rule exI [of _ h])
      (use s in \<open>simp add: incident_classify_def bindP_def Let_def\<close>)
qed

text \<open>Opening an incident never fails: the new record goes through three legal steps, each leaving
  one event in the ledger, and its evidence is the hashes of exactly those events.\<close>

lemma openIncident_ledger:
  assumes es: "iw_ledger w = Some es"
  shows "\<exists>inc w' evs. openIncident sha d entityId detail w = (Inr (), w') \<and>
    iw_ledger w' = Some (es @ evs) \<and> length evs = 3 \<and> (ledger_wf sha es \<longrightarrow> ledger_wf sha (es @ evs)) \<and>
    map_get (iw_incidents w') (ir_id inc) = Some inc \<and> ir_state inc = In_CONTAINED \<and>
    ir_evidenceHashes inc = map le_hash evs \<and>
    imw_quarantine w' = imw_quarantine w \<and> imw_kill w' = imw_kill w \<and>
    imw_level w' = maxLevel (imw_level w) (dec_level d)"
proof -
  let ?title = "incident_title d entityId"
  let ?sev = "rs_severity (dec_risk d)"
  let ?dets = "map rr_detail (rs_reasons (dec_risk d))"
  have timed: "\<exists>w'. runtime_timed f v = (Inr (), w') \<and> iw_ledger w' = iw_ledger v \<and>
      iw_incidents w' = iw_incidents v \<and> imw_quarantine w' = imw_quarantine v \<and> imw_kill w' = imw_kill v \<and>
      imw_level w' = imw_level v" for f v
    by (simp add: runtime_timed_def case_prod_beta)
  obtain w1 where w1: "runtime_timed metrics_incidentOpened w = (Inr (), w1)" "iw_ledger w1 = Some es"
      "imw_quarantine w1 = imw_quarantine w" "imw_kill w1 = imw_kill w" "imw_level w1 = imw_level w"
    using timed [of metrics_incidentOpened w] es by auto
  obtain inc e1 h1 where d: "incident_detect sha ?title ?sev ?dets w1 =
        (inc, w1\<lparr>iw_host := h1, iw_ledger := Some (es @ [e1]), iw_incidents := map_set (ir_id inc) inc (iw_incidents w1)\<rparr>)"
      "ir_state inc = In_DETECTED" "ir_evidenceHashes inc = [le_hash e1]"
      "ledger_wf sha es \<longrightarrow> ledger_wf sha (es @ [e1])"
    using incident_detect_ledger [OF w1(2), of sha ?title ?sev ?dets] by blast
  let ?w2 = "w1\<lparr>iw_host := h1, iw_ledger := Some (es @ [e1]), iw_incidents := map_set (ir_id inc) inc (iw_incidents w1)\<rparr>"
  obtain w3 where w3: "runtime_timed metrics_detected ?w2 = (Inr (), w3)" "iw_ledger w3 = Some (es @ [e1])"
      "map_get (iw_incidents w3) (ir_id inc) = Some inc"
      "imw_quarantine w3 = imw_quarantine w" "imw_kill w3 = imw_kill w" "imw_level w3 = imw_level w"
    using timed [of metrics_detected ?w2] w1 by auto
  obtain inc2 e2 h2 where c: "incident_classify sha (ir_id inc) ?sev w3 =
        (Inr inc2, w3\<lparr>iw_host := h2, iw_ledger := Some ((es @ [e1]) @ [e2]),
          iw_incidents := map_set (ir_id inc) inc2 (iw_incidents w3)\<rparr>)"
      "ir_state inc2 = In_CLASSIFIED" "ir_id inc2 = ir_id inc"
      "ir_evidenceHashes inc2 = ir_evidenceHashes inc @ [le_hash e2]"
      "ledger_wf sha (es @ [e1]) \<longrightarrow> ledger_wf sha ((es @ [e1]) @ [e2])"
    using incident_classify_ledger [OF w3(2,3) refl d(2), of sha ?sev] by blast
  let ?w4 = "w3\<lparr>iw_host := h2, iw_ledger := Some ((es @ [e1]) @ [e2]),
      iw_incidents := map_set (ir_id inc) inc2 (iw_incidents w3)\<rparr>"
  have w4: "iw_ledger ?w4 = Some ((es @ [e1]) @ [e2])" "map_get (iw_incidents ?w4) (ir_id inc) = Some inc2"
      "next_state INCIDENT_MACHINE (ir_state inc2) ''contain'' = Some In_CONTAINED"
    by (simp_all add: c incident_next_simps)
  obtain inc3 e3 h3 where n: "incident_step sha (ir_id inc) ''contain'' detail ?w4 =
        (Inr inc3, ?w4\<lparr>iw_host := h3, iw_ledger := Some (((es @ [e1]) @ [e2]) @ [e3]),
          iw_incidents := map_set (ir_id inc) inc3 (iw_incidents ?w4)\<rparr>)"
      "ir_state inc3 = In_CONTAINED" "ir_id inc3 = ir_id inc"
      "ir_evidenceHashes inc3 = ir_evidenceHashes inc2 @ [le_hash e3]"
      "ledger_wf sha ((es @ [e1]) @ [e2]) \<longrightarrow> ledger_wf sha (((es @ [e1]) @ [e2]) @ [e3])"
    using incident_step_ledger [OF w4(1,2) c(3) w4(3), of sha detail] by blast
  let ?w5 = "?w4\<lparr>iw_host := h3, iw_ledger := Some (((es @ [e1]) @ [e2]) @ [e3]),
      iw_incidents := map_set (ir_id inc) inc3 (iw_incidents ?w4)\<rparr>"
  obtain w6 where w6: "runtime_timed metrics_contained ?w5 = (Inr (), w6)"
      "iw_ledger w6 = Some (((es @ [e1]) @ [e2]) @ [e3])" "map_get (iw_incidents w6) (ir_id inc) = Some inc3"
      "imw_quarantine w6 = imw_quarantine w" "imw_kill w6 = imw_kill w" "imw_level w6 = imw_level w"
    using timed [of metrics_contained ?w5] w3 by auto
  have "openIncident sha d entityId detail w =
      (Inr (), w6\<lparr>imw_level := maxLevel (imw_level w6) (dec_level d)\<rparr>)"
    by (simp add: openIncident_def bindP_def w1 d w3 c incident_contain_def n(1) [simplified] w6(1) [simplified] w6)
  then show ?thesis using w6 n c d
    by (intro exI [of _ inc3] exI [of _ "w6\<lparr>imw_level := maxLevel (imw_level w6) (dec_level d)\<rparr>"]
        exI [of _ "[e1, e2, e3]"]) simp
qed

section \<open>Applying a decision\<close>

definition isolates :: "immune_decision \<Rightarrow> bool" where
  "isolates d \<longleftrightarrow> dec_action d = Act_quarantine \<or> dec_action d = Act_kill"

lemma system_kill: "kr_requester req = ''immune'' \<Longrightarrow> kill_switch_request req k = (kill_done ''system kill'', kill_apply req k)"
  by (simp add: kill_switch_request_def)

lemma runtime_quarantine_fresh:
  assumes "map_get (imw_quarantine w) i = None"
  shows "\<exists>q h. runtime_quarantine i reason evidence w = (Inr (), w\<lparr>iw_host := h, imw_quarantine := q\<rparr>) \<and>
    isQuarantined q i \<and> restrictionsOf q i = FULL_QUARANTINE"
proof -
  from quarantine_enter_fresh [OF assms, of reason evidence "iw_host w"]
  obtain r q h where "quarantine_enter i reason evidence (imw_quarantine w) (iw_host w) = (Inr (r, q), h)"
      "isQuarantined q i" "restrictionsOf q i = FULL_QUARANTINE"
    by (cases "quarantine_enter i reason evidence (imw_quarantine w) (iw_host w)")
      (auto simp: isolated_with_def split: sum.splits prod.splits)
  then show ?thesis by (auto simp: runtime_quarantine_def)
qed

lemma runtime_quarantine_again:
  assumes "map_get (imw_quarantine w) i = Some r" "q_state r \<noteq> Q_SUSPICIOUS"
  shows "runtime_quarantine i reason evidence w =
    (Inl (IllegalTransitionError (quarantine_state_string (q_state r)) ''quarantine''), w)"
  by (simp add: runtime_quarantine_def quarantine_enter_again [OF assms])

text \<open>The branch between quarantine and incident: the kill, where the decision is one.\<close>

definition kill_branch :: "immune_decision \<Rightarrow> immune_request \<Rightarrow> (immune_world, unit) proc" where
  "kill_branch d request =
     (if dec_action d = Act_kill then
        bindP (runtime_killRequest \<lparr>kr_targetType = killTargetFor (pr_type (irq_principal request)),
          kr_targetId = pr_id (irq_principal request), kr_reason = decision_detail d, kr_requester = ''immune''\<rparr>)
          (\<lambda>_. runtime_metric recordKill)
      else returnP ())"

lemma kill_branch_effect:
  "\<exists>w'. kill_branch d request w = (Inr (), w') \<and> iw_ledger w' = iw_ledger w \<and> imw_level w' = imw_level w \<and>
    imw_quarantine w' = imw_quarantine w \<and>
    (dec_action d = Act_kill \<longrightarrow>
      isKilled (imw_kill w') (killTargetFor (pr_type (irq_principal request))) (pr_id (irq_principal request)))"
  by (simp add: kill_branch_def bindP_def runtime_killRequest_def system_kill runtime_metric_def returnP_def
      kill_apply_killed)

lemma apply_isolates:
  assumes "isolates d"
  shows "apply_decision sha d request =
    bindP (runtime_quarantine (pr_id (irq_principal request)) (decision_detail d)
        (map rr_detail (rs_reasons (dec_risk d)))) (\<lambda>_.
    bindP (runtime_metric recordQuarantine) (\<lambda>_.
    bindP (kill_branch d request) (\<lambda>_. openIncident sha d (pr_id (irq_principal request)) (decision_detail d))))"
  using assms by (auto simp: apply_decision_def isolates_def kill_branch_def Let_def)

definition recorded_incident :: "string list \<Rightarrow> (string, incident_record) js_map \<Rightarrow> bool" where
  "recorded_incident hashes m \<longleftrightarrow>
     list_ex (\<lambda>(i, inc). ir_state inc = In_CONTAINED \<and> ir_evidenceHashes inc = hashes) m"

lemma apply_contains:
  assumes d: "isolates d" and q: "map_get (imw_quarantine w) (pr_id (irq_principal request)) = None"
    and es: "iw_ledger w = Some es" and wf: "ledger_wf sha es"
  shows "\<exists>w' evs. apply_decision sha d request w = (Inr (), w') \<and>
    isQuarantined (imw_quarantine w') (pr_id (irq_principal request)) \<and>
    restrictionsOf (imw_quarantine w') (pr_id (irq_principal request)) = FULL_QUARANTINE \<and>
    (dec_action d = Act_kill \<longrightarrow>
      isKilled (imw_kill w') (killTargetFor (pr_type (irq_principal request))) (pr_id (irq_principal request))) \<and>
    iw_ledger w' = Some (es @ evs) \<and> length evs = 3 \<and> ledger_wf sha (es @ evs) \<and>
    recorded_incident (map le_hash evs) (iw_incidents w') \<and> imw_level w' = max (imw_level w) (dec_level d)"
proof -
  let ?i = "pr_id (irq_principal request)"
  obtain q1 h1 where w1: "runtime_quarantine ?i (decision_detail d) (map rr_detail (rs_reasons (dec_risk d))) w =
      (Inr (), w\<lparr>iw_host := h1, imw_quarantine := q1\<rparr>)" "isQuarantined q1 ?i" "restrictionsOf q1 ?i = FULL_QUARANTINE"
    using runtime_quarantine_fresh [OF q] by blast
  let ?w1 = "w\<lparr>iw_host := h1, imw_quarantine := q1\<rparr>"
  let ?w2 = "?w1\<lparr>imw_metrics := recordQuarantine (imw_metrics ?w1)\<rparr>"
  obtain w3 where w3: "kill_branch d request ?w2 = (Inr (), w3)" "iw_ledger w3 = Some es" "imw_level w3 = imw_level w"
      "imw_quarantine w3 = q1"
      "dec_action d = Act_kill \<longrightarrow> isKilled (imw_kill w3) (killTargetFor (pr_type (irq_principal request))) ?i"
    using kill_branch_effect [of d request ?w2] es by auto
  obtain inc w4 evs where w4: "openIncident sha d ?i (decision_detail d) w3 = (Inr (), w4)"
      "iw_ledger w4 = Some (es @ evs)" "length evs = 3" "ledger_wf sha (es @ evs)"
      "map_get (iw_incidents w4) (ir_id inc) = Some inc" "ir_state inc = In_CONTAINED"
      "ir_evidenceHashes inc = map le_hash evs"
      "imw_quarantine w4 = q1" "imw_kill w4 = imw_kill w3" "imw_level w4 = maxLevel (imw_level w) (dec_level d)"
    using openIncident_ledger [OF w3(2), of sha d ?i "decision_detail d"] wf w3 by auto
  have "recorded_incident (map le_hash evs) (iw_incidents w4)"
    using map_of_SomeD [OF w4(5)] w4(6,7) by (auto simp: recorded_incident_def list_ex_iff)
  moreover have "apply_decision sha d request w = (Inr (), w4)"
    unfolding apply_isolates [OF d]
    by (simp add: bindP_def w1 runtime_metric_def w3(1) [simplified] w4)
  ultimately show ?thesis using w1 w3 w4 by (intro exI [of _ w4] exI [of _ evs]) (simp add: maxLevel_max)
qed

lemma evaluateAndApply_eq:
  "evaluateAndApply sha request w =
     (case gate_evaluate (imw_gate w) request (iw_host w) of (d, h) \<Rightarrow>
       (case apply_decision sha d request (w\<lparr>iw_host := h\<rparr>) of
          (Inl e, w') \<Rightarrow> (Inl e, w') | (Inr u, w') \<Rightarrow> (Inr d, w')))"
  by (simp add: evaluateAndApply_def bindP_def runtime_evaluate_def returnP_def case_prod_beta)

section \<open>Properties\<close>

text \<open>C39.  A first threat is contained.  When the gate decides to quarantine or kill and the principal is not yet
  known to the quarantine, the runtime returns the decision; afterwards the principal is quarantined
  with the full restrictions, killed if the decision is to kill, the immunity level is at least the
  decision's, and the ledger has grown by exactly three events, still verifies, and their hashes are
  the evidence of an incident that is contained.\<close>

theorem first_threat_contained:
  assumes "iw_ledger w = Some es" "ledger_wf sha es"
    and "map_get (imw_quarantine w) (pr_id (irq_principal r)) = None"
    and "d = fst (gate_evaluate (imw_gate w) r (iw_host w))" "isolates d"
  shows "\<exists>w' evs. evaluateAndApply sha r w = (Inr d, w') \<and>
    isQuarantined (imw_quarantine w') (pr_id (irq_principal r)) \<and>
    restrictionsOf (imw_quarantine w') (pr_id (irq_principal r)) = FULL_QUARANTINE \<and>
    (dec_action d = Act_kill \<longrightarrow> runtime_isKilled w' (killTargetFor (pr_type (irq_principal r))) (pr_id (irq_principal r))) \<and>
    max (imw_level w) (dec_level d) \<le> runtime_level w' \<and>
    iw_ledger w' = Some (es @ evs) \<and> length evs = 3 \<and> cv_valid (verifyIntegrity sha (es @ evs)) \<and>
    recorded_incident (map le_hash evs) (iw_incidents w')"
proof -
  obtain h where h: "gate_evaluate (imw_gate w) r (iw_host w) = (d, h)" using assms(4) by (metis prod.collapse)
  obtain w' evs where "apply_decision sha d r (w\<lparr>iw_host := h\<rparr>) = (Inr (), w')"
    and rest: "isQuarantined (imw_quarantine w') (pr_id (irq_principal r))"
      "restrictionsOf (imw_quarantine w') (pr_id (irq_principal r)) = FULL_QUARANTINE"
      "dec_action d = Act_kill \<longrightarrow> isKilled (imw_kill w') (killTargetFor (pr_type (irq_principal r))) (pr_id (irq_principal r))"
      "iw_ledger w' = Some (es @ evs)" "length evs = 3" "ledger_wf sha (es @ evs)"
      "recorded_incident (map le_hash evs) (iw_incidents w')" "imw_level w' = max (imw_level w) (dec_level d)"
    using apply_contains [OF assms(5), of "w\<lparr>iw_host := h\<rparr>" r es sha] assms(1-3) by auto
  then show ?thesis
    by (intro exI [of _ w'] exI [of _ evs])
      (simp add: evaluateAndApply_eq h runtime_isKilled_def runtime_level_def maxLevel_max ledger_wf_def
        verifyIntegrity_def verifyChain_valid)
qed

definition demo_kernel_attack :: immune_request where
  "demo_kernel_attack = demo_request ''fs.read'' (Some (no_observation\<lparr>obs_integrity := Some (''kernel'', ''aa'', ''bb'')\<rparr>))"

definition demo_world :: immune_world where
  "demo_world = new_immune_runtime \<lparr>ro_ledger = Some [], ro_level = None, ro_cascade = None, ro_safeMode = False,
     ro_emergencyLock = False, ro_policy = None\<rparr> demo_host"

lemma demo_decision_kill:
  "dec_action (fst (gate_evaluate (imw_gate demo_world) demo_kernel_attack (iw_host demo_world))) = Act_kill"
  by code_simp

theorem first_threat_contained_witness:
  "\<exists>w' evs. evaluateAndApply demo_sha demo_kernel_attack demo_world =
      (Inr (fst (gate_evaluate (imw_gate demo_world) demo_kernel_attack (iw_host demo_world))), w') \<and>
    runtime_isKilled w' KillAgent ''agent-1'' \<and> length evs = 3 \<and> iw_ledger w' = Some evs \<and>
    cv_valid (verifyIntegrity demo_sha evs)"
proof -
  have "iw_ledger demo_world = Some []" "map_get (imw_quarantine demo_world) (pr_id (irq_principal demo_kernel_attack)) = None"
    by (simp_all add: demo_world_def new_immune_runtime_def)
  from first_threat_contained [OF this(1) _ this(2) refl, of demo_sha]
  show ?thesis
    using demo_decision_kill
    by (auto simp: isolates_def ledger_wf_def demo_kernel_attack_def demo_request_def demo_principal_def)
qed

text \<open>A second threat escapes.  When the principal is already in quarantine, or under analysis, recovered
  or revoked, applying a decision to quarantine or kill it throws an illegal transition: it is not
  killed, no incident is opened and nothing reaches the ledger.\<close>

theorem second_threat_escapes:
  assumes "map_get (imw_quarantine w) (pr_id (irq_principal r)) = Some rec" "q_state rec \<noteq> Q_SUSPICIOUS"
    and "isolates (fst (gate_evaluate (imw_gate w) r (iw_host w)))"
  shows "evaluateAndApply sha r w =
    (Inl (IllegalTransitionError (quarantine_state_string (q_state rec)) ''quarantine''),
     w\<lparr>iw_host := snd (gate_evaluate (imw_gate w) r (iw_host w))\<rparr>)"
proof -
  obtain d h where dh: "gate_evaluate (imw_gate w) r (iw_host w) = (d, h)"
    by (cases "gate_evaluate (imw_gate w) r (iw_host w)")
  have "map_get (imw_quarantine (w\<lparr>iw_host := h\<rparr>)) (pr_id (irq_principal r)) = Some rec" using assms(1) by simp
  from runtime_quarantine_again [OF this assms(2)]
  have "apply_decision sha d r (w\<lparr>iw_host := h\<rparr>) =
      (Inl (IllegalTransitionError (quarantine_state_string (q_state rec)) ''quarantine''), w\<lparr>iw_host := h\<rparr>)"
    using assms(3) dh by (simp add: apply_isolates bindP_def)
  then show ?thesis by (simp add: evaluateAndApply_eq dh)
qed

definition demo_quarantined :: immune_world where
  "demo_quarantined = demo_world\<lparr>imw_quarantine :=
     [(''agent-1'', \<lparr>q_entityId = ''agent-1'', q_state = Q_QUARANTINED, q_reason = ''earlier'',
        q_restrictions = FULL_QUARANTINE, q_enteredAt = ''t'', q_evidence = []\<rparr>)]\<rparr>"

theorem second_threat_escapes_witness:
  "fst (evaluateAndApply demo_sha demo_kernel_attack demo_quarantined) =
     Inl (IllegalTransitionError ''QUARANTINED'' ''quarantine'') \<and>
   \<not> runtime_isKilled (snd (evaluateAndApply demo_sha demo_kernel_attack demo_quarantined)) KillAgent ''agent-1''"
proof -
  let ?rec = "\<lparr>q_entityId = ''agent-1'', q_state = Q_QUARANTINED, q_reason = ''earlier'',
        q_restrictions = FULL_QUARANTINE, q_enteredAt = ''t'', q_evidence = []\<rparr>"
  have 1: "map_get (imw_quarantine demo_quarantined) (pr_id (irq_principal demo_kernel_attack)) = Some ?rec"
    by (simp add: demo_quarantined_def demo_kernel_attack_def demo_request_def demo_principal_def)
  have 2: "isolates (fst (gate_evaluate (imw_gate demo_quarantined) demo_kernel_attack (iw_host demo_quarantined)))"
    using demo_decision_kill by (simp add: demo_quarantined_def isolates_def)
  show ?thesis
    using second_threat_escapes [OF 1 _ 2, of demo_sha]
    by (simp add: runtime_isKilled_def isKilled_def demo_quarantined_def demo_world_def new_immune_runtime_def
        new_kill_switch_def)
qed

lemma self_check: "map_wf g \<Longrightarrow> integrity_breaches (integrity_checkAll g (integrity_registered g)) = []"
  by (auto simp: integrity_breaches_def integrity_checkAll_def integrity_registered_def filter_empty_conv
      map_wf_get split: option.splits)

lemma registered_wf: "map_wf g \<Longrightarrow> map_wf (fold (\<lambda>(t, h). integrity_register t h) regs g)"
  by (induction regs arbitrary: g) (auto simp: integrity_register_def)

text \<open>The health report never sees a kernel integrity failure: the registered hashes are compared
  with themselves, so whatever is registered and whatever the kernel's real hashes are, the kernel
  is reported healthy.\<close>

theorem health_never_sees_tampering:
  "sh_kernel (healthSnapshot sha runners
     (w\<lparr>imw_integrity := fold (\<lambda>(t, h). integrity_register t h) regs []\<rparr>)) = Pt_healthy"
  by (simp add: healthSnapshot_def health_snapshot_def Let_def part_of_def self_check registered_wf)

end
