(* ===== verification/Async.thy ===== *)
theory Async
  imports Prelude
begin

text \<open>
  Asynchronous functions as resumptions.  An async function runs without interruption up to its next
  \<open>await\<close>; there it gives its continuation back, and whoever else is ready may run before it
  continues.  An \<open>await\<close> carries the condition under which it can continue: always for a call whose
  answer arrives some time, and a condition on the shared state for a promise another job settles or
  a polling loop.  A pool of such computations interleaves them in every possible order.
\<close>

named_theorems keeps_intros \<open>invariants of asynchronous computations\<close>

section \<open>Resumptions\<close>

datatype ('s, 'a) res =
    Ret 'a
  | Throw js_error
  | Await "'s \<Rightarrow> bool" "'s \<Rightarrow> ('s, 'a) res \<times> 's"

type_synonym ('s, 'a) async = "'s \<Rightarrow> ('s, 'a) res \<times> 's"

definition returnA :: "'a \<Rightarrow> ('s, 'a) async" where
  "returnA a = (\<lambda>s. (Ret a, s))"

definition throwA :: "js_error \<Rightarrow> ('s, 'a) async" where
  "throwA e = (\<lambda>s. (Throw e, s))"

definition sumR :: "js_error + 'a \<Rightarrow> ('s, 'a) res" where
  "sumR r = (case r of Inl e \<Rightarrow> Throw e | Inr a \<Rightarrow> Ret a)"

text \<open>A synchronous call.\<close>

definition syncA :: "('s, 'a) proc \<Rightarrow> ('s, 'a) async" where
  "syncA p = (\<lambda>s. case p s of (r, s') \<Rightarrow> (sumR r, s'))"

text \<open>\<open>await f()\<close> for a call whose effects happen when it is made and whose answer comes later.\<close>

definition awaitA :: "('s, 'a) proc \<Rightarrow> ('s, 'a) async" where
  "awaitA p = (\<lambda>s. case p s of (r, s') \<Rightarrow> (Await (\<lambda>_. True) (\<lambda>t. (sumR r, t)), s'))"

text \<open>Wait until a condition holds, then go on at once with a synchronous call.\<close>

definition waitA :: "('s \<Rightarrow> bool) \<Rightarrow> ('s, 'a) proc \<Rightarrow> ('s, 'a) async" where
  "waitA g p = (\<lambda>s. (Await g (\<lambda>t. case p t of (r, t') \<Rightarrow> (sumR r, t')), s))"

primrec bind_res :: "('a \<Rightarrow> ('s, 'b) async) \<Rightarrow> ('s, 'a) res \<Rightarrow> ('s, 'b) async" where
  "bind_res f (Ret a) = f a"
| "bind_res f (Throw e) = (\<lambda>s. (Throw e, s))"
| "bind_res f (Await g k) = (\<lambda>s. (Await g (\<lambda>t. case map_prod (bind_res f) id (k t) of (m, t') \<Rightarrow> m t'), s))"

definition bindA :: "('s, 'a) async \<Rightarrow> ('a \<Rightarrow> ('s, 'b) async) \<Rightarrow> ('s, 'b) async" where
  "bindA m f = (\<lambda>s. case m s of (r, s') \<Rightarrow> bind_res f r s')"

primrec catch_res :: "(js_error \<Rightarrow> ('s, 'a) async) \<Rightarrow> ('s, 'a) res \<Rightarrow> ('s, 'a) async" where
  "catch_res h (Ret a) = (\<lambda>s. (Ret a, s))"
| "catch_res h (Throw e) = h e"
| "catch_res h (Await g k) = (\<lambda>s. (Await g (\<lambda>t. case map_prod (catch_res h) id (k t) of (m, t') \<Rightarrow> m t'), s))"

definition catchA :: "('s, 'a) async \<Rightarrow> (js_error \<Rightarrow> ('s, 'a) async) \<Rightarrow> ('s, 'a) async" where
  "catchA m h = (\<lambda>s. case m s of (r, s') \<Rightarrow> catch_res h r s')"

text \<open>\<open>try { m } finally { p }\<close>, with a \<open>p\<close> that does not throw.\<close>

definition finallyA :: "('s, 'a) async \<Rightarrow> ('s \<Rightarrow> 's) \<Rightarrow> ('s, 'a) async" where
  "finallyA m p =
     bindA (catchA m (\<lambda>e s. (Throw e, p s))) (\<lambda>a s. (Ret a, p s))"

text \<open>\<open>await m()\<close> for an async function of the program: its outcome, too, arrives later.\<close>

definition awaited :: "('s, 'a) async \<Rightarrow> ('s, 'a) async" where
  "awaited m = bindA (catchA m (\<lambda>e. awaitA (throwP e))) (\<lambda>a. awaitA (returnP a))"

fun forA :: "('x \<Rightarrow> ('s, unit) async) \<Rightarrow> 'x list \<Rightarrow> ('s, unit) async" where
  "forA f [] = returnA ()"
| "forA f (x # xs) = bindA (f x) (\<lambda>_. forA f xs)"

text \<open>Run alone: every wait whose condition holds continues at once.  \<open>None\<close> is a wait whose condition
  does not hold, with nobody left to change it.\<close>

primrec finish :: "('s, 'a) res \<Rightarrow> 's \<Rightarrow> (js_error + 'a) option \<times> 's" where
  "finish (Ret a) = (\<lambda>s. (Some (Inr a), s))"
| "finish (Throw e) = (\<lambda>s. (Some (Inl e), s))"
| "finish (Await g k) = (\<lambda>s. if g s then (case map_prod finish id (k s) of (m, s') \<Rightarrow> m s') else (None, s))"

definition run_alone :: "('s, 'a) async \<Rightarrow> 's \<Rightarrow> (js_error + 'a) option \<times> 's" where
  "run_alone m s = (case m s of (r, s') \<Rightarrow> finish r s')"

text \<open>Alone, an asynchronous computation behaves as the synchronous one.\<close>

definition then_alone :: "(js_error + 'a) option \<times> 's \<Rightarrow> ('a \<Rightarrow> 's \<Rightarrow> (js_error + 'b) option \<times> 's) \<Rightarrow> (js_error + 'b) option \<times> 's" where
  "then_alone x f = (case x of (None, s) \<Rightarrow> (None, s) | (Some (Inl e), s) \<Rightarrow> (Some (Inl e), s) | (Some (Inr a), s) \<Rightarrow> f a s)"

definition or_alone :: "(js_error + 'a) option \<times> 's \<Rightarrow> (js_error \<Rightarrow> 's \<Rightarrow> (js_error + 'a) option \<times> 's) \<Rightarrow> (js_error + 'a) option \<times> 's" where
  "or_alone x h = (case x of (None, s) \<Rightarrow> (None, s) | (Some (Inl e), s) \<Rightarrow> h e s | (Some (Inr a), s) \<Rightarrow> (Some (Inr a), s))"

lemma alone_simps [simp]:
  "then_alone (None, s) f = (None, s)" "then_alone (Some (Inl e), s) f = (Some (Inl e), s)"
  "then_alone (Some (Inr a), s) f = f a s"
  "or_alone (None, s) h = (None, s)" "or_alone (Some (Inl e), s) h = h e s"
  "or_alone (Some (Inr a), s) h = (Some (Inr a), s)"
  by (simp_all add: then_alone_def or_alone_def)

lemma finish_bind: "run_alone (bind_res f r) s = then_alone (finish r s) (\<lambda>a. run_alone (f a))"
proof (induction r arbitrary: s)
  case (Await g k)
  obtain r t where k: "k s = (r, t)" by (cases "k s")
  have "r \<in> Basic_BNFs.fsts (k s)" by (simp add: k prod_set_simps)
  from Await.IH [OF rangeI this] show ?case by (simp add: run_alone_def k case_prod_beta)
qed (simp_all add: run_alone_def)

lemma finish_catch: "run_alone (catch_res h r) s = or_alone (finish r s) (\<lambda>e. run_alone (h e))"
proof (induction r arbitrary: s)
  case (Await g k)
  obtain r t where k: "k s = (r, t)" by (cases "k s")
  have "r \<in> Basic_BNFs.fsts (k s)" by (simp add: k prod_set_simps)
  from Await.IH [OF rangeI this] show ?case by (simp add: run_alone_def k case_prod_beta)
qed (simp_all add: run_alone_def)

lemma finish_sumR [simp]: "finish (sumR r) s = (Some r, s)"
  by (cases r) (simp_all add: sumR_def)

lemma run_alone_bind: "run_alone (bindA m f) s = then_alone (run_alone m s) (\<lambda>a. run_alone (f a))"
  using finish_bind [of f "fst (m s)" "snd (m s)"] by (simp add: run_alone_def bindA_def case_prod_beta)

lemma run_alone_catch: "run_alone (catchA m h) s = or_alone (run_alone m s) (\<lambda>e. run_alone (h e))"
  using finish_catch [of h "fst (m s)" "snd (m s)"] by (simp add: run_alone_def catchA_def case_prod_beta)

lemma run_alone_prim:
  "run_alone (returnA a) s = (Some (Inr a), s)" "run_alone (throwA e) s = (Some (Inl e), s)"
  "run_alone (syncA p) s = (case p s of (r, s') \<Rightarrow> (Some r, s'))"
  "run_alone (awaitA p) s = (case p s of (r, s') \<Rightarrow> (Some r, s'))"
  by (simp_all add: run_alone_def returnA_def throwA_def syncA_def awaitA_def case_prod_beta)

lemma run_alone_awaited: "run_alone (awaited m) s = run_alone m s"
  by (cases "run_alone m s"; cases "fst (run_alone m s)"; cases "the (fst (run_alone m s))")
    (auto simp: awaited_def run_alone_bind run_alone_catch run_alone_prim returnP_def throwP_def)

lemma run_alone_finally:
  "run_alone (finallyA m p) s = (case run_alone m s of (None, t) \<Rightarrow> (None, t) | (Some r, t) \<Rightarrow> (Some r, p t))"
  by (cases "run_alone m s"; cases "fst (run_alone m s)"; cases "the (fst (run_alone m s))")
    (auto simp: finallyA_def run_alone_bind run_alone_catch, (simp_all add: run_alone_def)?)

lemma run_alone_if: "run_alone (\<lambda>s. if b s then m s else n s) s = (if b s then run_alone m s else run_alone n s)"
  by (simp add: run_alone_def)

lemmas run_alone_simps = run_alone_bind run_alone_catch run_alone_prim run_alone_awaited run_alone_finally run_alone_if

section \<open>Invariants of the segments\<close>

text \<open>Every segment of the computation, wherever it starts, keeps \<open>I\<close>.\<close>

primrec keeps :: "('s \<Rightarrow> bool) \<Rightarrow> ('s, 'a) res \<Rightarrow> bool" where
  "keeps I (Ret a) = True"
| "keeps I (Throw e) = True"
| "keeps I (Await g k) = (\<forall>s. case map_prod (keeps I) id (k s) of (b, s') \<Rightarrow> b \<and> (I s \<longrightarrow> I s'))"

definition keepsA :: "('s \<Rightarrow> bool) \<Rightarrow> ('s, 'a) async \<Rightarrow> bool" where
  "keepsA I m \<longleftrightarrow> (\<forall>s. keeps I (fst (m s)) \<and> (I s \<longrightarrow> I (snd (m s))))"

definition keepsP :: "('s \<Rightarrow> bool) \<Rightarrow> ('s, 'a) proc \<Rightarrow> bool" where
  "keepsP I p \<longleftrightarrow> (\<forall>s. I s \<longrightarrow> I (snd (p s)))"

lemma keepsA_D: "keepsA I m \<Longrightarrow> I s \<Longrightarrow> m s = (r, s') \<Longrightarrow> keeps I r \<and> I s'"
  by (auto simp: keepsA_def)

lemma keepsA_res: "keepsA I m \<Longrightarrow> m s = (r, s') \<Longrightarrow> keeps I r"
  by (metis fst_conv keepsA_def)

lemma keeps_Await: "keeps I (Await g k) \<longleftrightarrow> keepsA I k"
  by (auto simp: keepsA_def case_prod_beta)

lemma keepsA_Pair: "keeps I r \<Longrightarrow> keepsA I (Pair r)"
  by (simp add: keepsA_def)

lemma keeps_sumR [simp]: "keeps I (sumR r)"
  by (cases r) (simp_all add: sumR_def)

lemma keepsP_D: "keepsP I p \<Longrightarrow> I s \<Longrightarrow> I (snd (p s))"
  by (simp add: keepsP_def)

lemma keepsA_return [keeps_intros]: "keepsA I (returnA a)"
  by (simp add: keepsA_def returnA_def)

lemma keepsA_throw [keeps_intros]: "keepsA I (throwA e)"
  by (simp add: keepsA_def throwA_def)

lemma keepsA_sync [keeps_intros]: "keepsP I p \<Longrightarrow> keepsA I (syncA p)"
  by (simp add: keepsA_def keepsP_def syncA_def case_prod_beta)

lemma keepsA_await [keeps_intros]: "keepsP I p \<Longrightarrow> keepsA I (awaitA p)"
  by (simp add: keepsA_def keepsP_def awaitA_def case_prod_beta)

lemma keepsA_wait [keeps_intros]: "keepsP I p \<Longrightarrow> keepsA I (waitA g p)"
  by (simp add: keepsA_def keepsP_def waitA_def case_prod_beta)

lemma keeps_bind_res:
  "keeps I r \<Longrightarrow> (\<And>a. keepsA I (f a)) \<Longrightarrow> keepsA I (bind_res f r)"
proof (induction r)
  case (Ret a)
  then show ?case by simp
next
  case (Throw e)
  then show ?case by (simp add: keepsA_def)
next
  case (Await g k)
  have "keepsA I (\<lambda>t. case map_prod (bind_res f) id (k t) of (m, t') \<Rightarrow> m t')"
    unfolding keepsA_def
  proof
    fix t
    obtain r t' where k: "k t = (r, t')" by (cases "k t")
    from Await.prems(1) have "case map_prod (keeps I) id (k t) of (b, s') \<Rightarrow> b \<and> (I t \<longrightarrow> I s')" by simp
    then have r: "keeps I r" "I t \<longrightarrow> I t'" by (simp_all add: k)
    have "r \<in> Basic_BNFs.fsts (k t)" by (simp add: k prod_set_simps)
    from Await.IH [OF rangeI this r(1) Await.prems(2)] have "keepsA I (bind_res f r)" .
    then show "keeps I (fst (case map_prod (bind_res f) id (k t) of (m, t') \<Rightarrow> m t')) \<and>
        (I t \<longrightarrow> I (snd (case map_prod (bind_res f) id (k t) of (m, t') \<Rightarrow> m t')))"
      using r(2) by (simp add: k keepsA_def)
  qed
  then show ?case by (simp add: keepsA_Pair keeps_Await del: keeps.simps)
qed

lemma keepsA_bind [keeps_intros]: "keepsA I m \<Longrightarrow> (\<And>a. keepsA I (f a)) \<Longrightarrow> keepsA I (bindA m f)"
  using keeps_bind_res [of I _ f] by (fastforce simp: keepsA_def bindA_def case_prod_beta)

lemma keeps_catch_res:
  "keeps I r \<Longrightarrow> (\<And>e. keepsA I (h e)) \<Longrightarrow> keepsA I (catch_res h r)"
proof (induction r)
  case (Ret a)
  then show ?case by (simp add: keepsA_def)
next
  case (Throw e)
  then show ?case by simp
next
  case (Await g k)
  have "keepsA I (\<lambda>t. case map_prod (catch_res h) id (k t) of (m, t') \<Rightarrow> m t')"
    unfolding keepsA_def
  proof
    fix t
    obtain r t' where k: "k t = (r, t')" by (cases "k t")
    from Await.prems(1) have "case map_prod (keeps I) id (k t) of (b, s') \<Rightarrow> b \<and> (I t \<longrightarrow> I s')" by simp
    then have r: "keeps I r" "I t \<longrightarrow> I t'" by (simp_all add: k)
    have "r \<in> Basic_BNFs.fsts (k t)" by (simp add: k prod_set_simps)
    from Await.IH [OF rangeI this r(1) Await.prems(2)] have "keepsA I (catch_res h r)" .
    then show "keeps I (fst (case map_prod (catch_res h) id (k t) of (m, t') \<Rightarrow> m t')) \<and>
        (I t \<longrightarrow> I (snd (case map_prod (catch_res h) id (k t) of (m, t') \<Rightarrow> m t')))"
      using r(2) by (simp add: k keepsA_def)
  qed
  then show ?case by (simp add: keepsA_Pair keeps_Await del: keeps.simps)
qed

lemma keepsA_catch [keeps_intros]: "keepsA I m \<Longrightarrow> (\<And>e. keepsA I (h e)) \<Longrightarrow> keepsA I (catchA m h)"
  using keeps_catch_res [of I _ h] by (fastforce simp: keepsA_def catchA_def case_prod_beta)

lemma keepsA_finally [keeps_intros]:
  "keepsA I m \<Longrightarrow> (\<And>s. I s \<Longrightarrow> I (p s)) \<Longrightarrow> keepsA I (finallyA m p)"
  unfolding finallyA_def by (intro keepsA_bind keepsA_catch) (simp_all add: keepsA_def)

lemma keepsP_return [keeps_intros]: "keepsP I (returnP a)"
  by (simp add: keepsP_def returnP_def)

lemma keepsP_throw [keeps_intros]: "keepsP I (throwP e)"
  by (simp add: keepsP_def throwP_def)

lemma keepsA_awaited [keeps_intros]: "keepsA I m \<Longrightarrow> keepsA I (awaited m)"
  unfolding awaited_def by (intro keepsA_bind keepsA_catch keepsA_await keepsP_return keepsP_throw)

lemma keepsA_for [keeps_intros]: "(\<And>x. x \<in> set xs \<Longrightarrow> keepsA I (f x)) \<Longrightarrow> keepsA I (forA f xs)"
  by (induction xs) (auto intro: keepsA_bind keepsA_return)

text \<open>Code that looks at the state before it goes on.\<close>

lemma keepsA_if: "keepsA I m \<Longrightarrow> keepsA I n \<Longrightarrow> keepsA I (\<lambda>s. if b s then m s else n s)"
  by (simp add: keepsA_def)

lemma keepsA_option: "keepsA I m \<Longrightarrow> (\<And>x. keepsA I (n x)) \<Longrightarrow>
    keepsA I (\<lambda>s. case f s of None \<Rightarrow> m s | Some x \<Rightarrow> n x s)"
  by (simp add: keepsA_def split: option.splits)

lemma keepsA_reader: "(\<And>x. keepsA I (m x)) \<Longrightarrow> keepsA I (\<lambda>s. m (f s) s)"
  by (simp add: keepsA_def)

lemma keepsA_moved: "keepsA I m \<Longrightarrow> (\<And>s. I s \<Longrightarrow> I (f s)) \<Longrightarrow> keepsA I (\<lambda>s. m (f s))"
  by (simp add: keepsA_def)

lemma keepsP_if: "keepsP I p \<Longrightarrow> keepsP I q \<Longrightarrow> keepsP I (\<lambda>s. if b s then p s else q s)"
  by (simp add: keepsP_def)

lemma keepsP_reader: "(\<And>x. keepsP I (p x)) \<Longrightarrow> keepsP I (\<lambda>s. p (f s) s)"
  by (simp add: keepsP_def)

text \<open>The same for synchronous code.\<close>

lemma keepsP_lift [keeps_intros]: "keepsP I (liftE r)"
  by (simp add: keepsP_def liftE_def)

lemma keepsP_bind [keeps_intros]: "keepsP I p \<Longrightarrow> (\<And>a. keepsP I (f a)) \<Longrightarrow> keepsP I (bindP p f)"
  by (auto simp: keepsP_def bindP_def case_prod_beta split: sum.splits)

lemma keepsP_for [keeps_intros]: "(\<And>x. x \<in> set xs \<Longrightarrow> keepsP I (f x)) \<Longrightarrow> keepsP I (forP f xs)"
  by (induction xs) (auto intro: keepsP_bind keepsP_return)

lemma keeps_finish: "keeps I r \<Longrightarrow> I s \<Longrightarrow> I (snd (finish r s))"
proof (induction r arbitrary: s)
  case (Await g k)
  obtain r t where k: "k s = (r, t)" by (cases "k s")
  with Await.prems have r: "keeps I r" "I t" by auto
  have "r \<in> Basic_BNFs.fsts (k s)" by (simp add: k prod_set_simps)
  from Await.IH [OF rangeI this r] show ?case by (simp add: k Await.prems(2))
qed simp_all

lemma keepsA_run_alone: "keepsA I m \<Longrightarrow> I s \<Longrightarrow> I (snd (run_alone m s))"
  using keeps_finish [of I "fst (m s)" "snd (m s)"] by (simp add: run_alone_def keepsA_def case_prod_beta)

section \<open>Pools\<close>

text \<open>One computation of the pool whose wait is over runs its next segment; or somebody outside calls a
  method (\<open>outside\<close>), between segments.\<close>

inductive pool_step :: "('s \<Rightarrow> 's \<Rightarrow> bool) \<Rightarrow> 's \<times> ('s, 'a) res list \<Rightarrow> 's \<times> ('s, 'a) res list \<Rightarrow> bool"
  for outside where
  segment: "i < length ts \<Longrightarrow> ts ! i = Await g k \<Longrightarrow> g s \<Longrightarrow> k s = (r, s') \<Longrightarrow>
    pool_step outside (s, ts) (s', ts[i := r])"
| outside: "outside s s' \<Longrightarrow> pool_step outside (s, ts) (s', ts)"

definition pool_reach :: "('s \<Rightarrow> 's \<Rightarrow> bool) \<Rightarrow> 's \<times> ('s, 'a) res list \<Rightarrow> 's \<times> ('s, 'a) res list \<Rightarrow> bool" where
  "pool_reach outside = (pool_step outside)\<^sup>*\<^sup>*"

text \<open>Starting the members of a pool, each up to its first wait.\<close>

fun start_pool :: "('s, 'a) async list \<Rightarrow> 's \<Rightarrow> 's \<times> ('s, 'a) res list" where
  "start_pool [] s = (s, [])"
| "start_pool (m # ms) s =
     (case m s of (r, s1) \<Rightarrow> (case start_pool ms s1 of (s2, rs) \<Rightarrow> (s2, r # rs)))"

definition pool_inv :: "('s \<Rightarrow> bool) \<Rightarrow> 's \<times> ('s, 'a) res list \<Rightarrow> bool" where
  "pool_inv I p \<longleftrightarrow> I (fst p) \<and> list_all (keeps I) (snd p)"

lemma pool_step_inv:
  assumes "pool_step outside p q" "pool_inv I p" "\<And>s s'. outside s s' \<Longrightarrow> I s \<Longrightarrow> I s'"
  shows "pool_inv I q"
  using assms
proof (induction rule: pool_step.induct)
  case (segment i ts g k s r s')
  from segment.prems(1) have s: "I s" and ts: "\<forall>t \<in> set ts. keeps I t" by (simp_all add: pool_inv_def list_all_iff)
  have "keeps I (Await g k)" using ts segment.hyps(1,2) nth_mem by metis
  then have "keepsA I k" by (simp only: keeps_Await)
  from keepsA_D [OF this, of s r s'] have "keeps I r \<and> I s'" using s segment.hyps(4) by simp
  moreover have "set (ts[i := r]) \<subseteq> insert r (set ts)" by (rule set_update_subset_insert)
  ultimately show ?case using ts by (auto simp: pool_inv_def list_all_iff)
next
  case (outside s s' ts)
  then show ?case by (simp add: pool_inv_def)
qed

lemma pool_reach_inv:
  assumes "pool_reach outside p q" "pool_inv I p" "\<And>s s'. outside s s' \<Longrightarrow> I s \<Longrightarrow> I s'"
  shows "pool_inv I q"
  using assms(1,2) unfolding pool_reach_def
  by (induction rule: rtranclp_induct) (auto intro: pool_step_inv assms(3))

lemma start_pool_inv:
  "I s \<Longrightarrow> \<forall>m \<in> set ms. keepsA I m \<Longrightarrow> pool_inv I (start_pool ms s)"
proof (induction ms arbitrary: s)
  case Nil
  then show ?case by (simp add: pool_inv_def)
next
  case (Cons m ms)
  obtain r s1 where m: "m s = (r, s1)" by (cases "m s")
  have "keeps I r \<and> I s1" using keepsA_D [of I m s r s1] Cons.prems m by simp
  then show ?case using Cons.IH [of s1] Cons.prems(2) m by (auto simp: pool_inv_def case_prod_beta)
qed

text \<open>A pool of one computation that runs alone.\<close>

lemma finish_pool: "finish r s = (Some x, s') \<Longrightarrow> pool_reach outside (s, [r]) (s', [sumR x])"
proof (induction r arbitrary: s)
  case (Ret a)
  then show ?case by (auto simp: pool_reach_def sumR_def)
next
  case (Throw e)
  then show ?case by (auto simp: pool_reach_def sumR_def)
next
  case (Await g k)
  obtain r t where k: "k s = (r, t)" by (cases "k s")
  from Await.prems have g: "g s" by (auto split: if_splits)
  with Await.prems have "finish r t = (Some x, s')" by (simp add: k)
  moreover have "r \<in> Basic_BNFs.fsts (k s)" by (simp add: k prod_set_simps)
  ultimately have "pool_reach outside (t, [r]) (s', [sumR x])" using Await.IH [OF rangeI] by blast
  moreover have "pool_step outside (s, [Await g k]) (t, [Await g k][0 := r])"
    using pool_step.segment [of 0 "[Await g k]" g k s r t outside] g k by simp
  ultimately show ?case by (simp add: pool_reach_def converse_rtranclp_into_rtranclp)
qed

lemma run_alone_pool: "run_alone m s = (Some x, s') \<Longrightarrow> pool_reach outside (start_pool [m] s) (s', [sumR x])"
  by (auto simp: run_alone_def case_prod_beta intro: finish_pool)

end
