(* ===== verification/Workflow.thy ===== *)
theory Workflow
  imports Dag Transition Json Async
begin

text \<open>
  The parts of the orchestrator (\<open>runtime/orchestrator/src\<close>) around its executor: the workflow
  contract of \<open>types.ts\<close>, stable hashing (\<open>hash.ts\<close>), the retry policy (\<open>retry.ts\<close>), the in-process
  job queue (\<open>scheduler.ts\<close>), the bulkhead (\<open>bulkhead.ts\<close>), the idempotency store
  (\<open>idempotency.ts\<close>) and the compensation registry (\<open>compensation.ts\<close>).
\<close>

section \<open>The workflow contract\<close>

datatype workflow_run_status = WR_COMPLETED | WR_FAILED | WR_CANCELLED | WR_QUARANTINED

datatype node_kind = NK_ACTION | NK_CONDITIONAL | NK_APPROVAL

datatype backoff_kind = Fixed | Exponential

record retry_policy =
  rp_maxAttempts :: nat
  rp_backoff :: backoff_kind
  rp_retryableErrors :: "string list"
  rp_jitter :: bool

datatype compensation_spec = CompAction string "jsv option" | CompIrreversible

datatype condition_when = WhenOn string bool | WhenPath string string jsv

record condition_spec =
  cond_when :: condition_when
  cond_then :: "string list"
  cond_else :: "string list option"

record approval_spec =
  ap_action :: string
  ap_reason :: string

record workflow_node = dag_node +
  wn_kind :: node_kind
  wn_action :: "string option"
  wn_input :: "jsv option"
  wn_agentId :: "string option"
  wn_tenantId :: "string option"
  wn_toolId :: "string option"
  wn_retry :: "retry_policy option"
  wn_timeoutMs :: "int option"
  wn_compensation :: "compensation_spec option"
  wn_condition :: "condition_spec option"
  wn_approval :: "approval_spec option"

record node_result =
  nr_status :: result_status
  nr_output :: jsv
  nr_evidence :: "evidence_ref list"

record node_snapshot =
  ns_nodeId :: string
  ns_status :: node_status
  ns_attempt :: nat
  ns_result :: "node_result option"
  ns_error :: "string option"
  ns_skippedReason :: "string option"

record workflow_job =
  wj_id :: string
  wj_nodeId :: string
  wj_runId :: string
  wj_operationId :: string
  wj_idempotencyKey :: string
  wj_attempt :: nat
  wj_enqueuedAt :: int

record bulkhead_limits =
  maxConcurrentJobs :: int
  maxConcurrentPerAgent :: int
  maxConcurrentPerTenant :: int
  maxConcurrentPerTool :: int

definition DEFAULT_BULKHEAD :: bulkhead_limits where
  "DEFAULT_BULKHEAD = \<lparr>maxConcurrentJobs = 8, maxConcurrentPerAgent = 4, maxConcurrentPerTenant = 4,
     maxConcurrentPerTool = 4\<rparr>"

definition DEFAULT_RETRY :: retry_policy where
  "DEFAULT_RETRY = \<lparr>rp_maxAttempts = 1, rp_backoff = Fixed, rp_retryableErrors = [], rp_jitter = False\<rparr>"

record guard_verdict =
  gv_stop :: bool
  gv_quarantine :: bool
  gv_reason :: "string option"

section \<open>Stable text, keys and paths\<close>

text \<open>The text \<open>stableStringify\<close> builds; \<open>None\<close> is \<open>undefined\<close>, which an enclosing array joins as
  nothing and an enclosing object interpolates as \<open>undefined\<close>.\<close>

function stable_text :: "jsv \<Rightarrow> string option" where
  "stable_text (JArr vs) = Some (''['' @ join_with '',''
     (map (\<lambda>v. case stable_text v of None \<Rightarrow> [] | Some t \<Rightarrow> t) vs) @ '']'')"
| "stable_text (JObj kvs) = Some (''{'' @ join_with '',''
     (map (\<lambda>(k, v). json_string k @ '':'' @ (case stable_text v of None \<Rightarrow> ''undefined'' | Some t \<Rightarrow> t))
       (sort_key fst kvs)) @ ''}'')"
| "stable_text JUndefined = json_text JUndefined"
| "stable_text (JOther s) = json_text (JOther s)"
| "stable_text (JBigInt n) = json_text (JBigInt n)"
| "stable_text JNull = json_text JNull"
| "stable_text JNonFinite = json_text JNonFinite"
| "stable_text (JBool b) = json_text (JBool b)"
| "stable_text (JNum n) = json_text (JNum n)"
| "stable_text (JStr s) = json_text (JStr s)"
  by pat_completeness auto
termination
  by (relation "measure size") (auto dest: size_snd_member size_member)

definition stableStringify :: "jsv \<Rightarrow> js_error + string option" where
  "stableStringify v =
     (if has_bigint v then Inl (JsError ''TypeError'' ''Do not know how to serialize a BigInt'')
      else Inr (stable_text v))"

definition text_or_undefined :: "string option \<Rightarrow> string" where
  "text_or_undefined t = (case t of None \<Rightarrow> ''undefined'' | Some s \<Rightarrow> s)"

definition idempotencyKey :: "(string \<Rightarrow> string) \<Rightarrow> string \<Rightarrow> jsv \<Rightarrow> js_error + string" where
  "idempotencyKey sha operationId input =
     bindE (stableStringify input) (\<lambda>t. Inr (sha (operationId @ [CHR 0x00] @ text_or_undefined t)))"

text \<open>\<open>Hash.update\<close> rejects \<open>undefined\<close>.\<close>

definition inputHash :: "(string \<Rightarrow> string) \<Rightarrow> jsv \<Rightarrow> js_error + string" where
  "inputHash sha input =
     bindE (stableStringify input) (\<lambda>t. case t of
       None \<Rightarrow> Inl (JsError ''TypeError'' ''The \"data\" argument must be of type string'')
     | Some s \<Rightarrow> Inr (sha s))"

text \<open>Property access on own members of objects and arrays.\<close>

definition get_member :: "jsv \<Rightarrow> string \<Rightarrow> jsv" where
  "get_member v part =
     (case v of
        JObj kvs \<Rightarrow> (case map_of kvs part of None \<Rightarrow> JUndefined | Some u \<Rightarrow> u)
      | JArr vs \<Rightarrow>
          if part = ''length'' then JNum (int (length vs))
          else (case List.find (\<lambda>i. show_nat i = part) [0..<length vs] of None \<Rightarrow> JUndefined | Some i \<Rightarrow> vs ! i)
      | _ \<Rightarrow> JUndefined)"

fun get_parts :: "jsv \<Rightarrow> string list \<Rightarrow> jsv" where
  "get_parts cur [] = cur"
| "get_parts cur (part # parts) =
     (case cur of JObj _ \<Rightarrow> get_parts (get_member cur part) parts
      | JArr _ \<Rightarrow> get_parts (get_member cur part) parts
      | _ \<Rightarrow> JUndefined)"

definition getPath :: "jsv \<Rightarrow> string \<Rightarrow> jsv" where
  "getPath v path = get_parts v (split_on (CHR ''.'') path)"

text \<open>\<open>isInputRef\<close> with the reference it narrows to.\<close>

definition input_ref :: "jsv \<Rightarrow> (string \<times> string) option" where
  "input_ref v =
     (case get_parts v [''$ref'', ''nodeId''] of
        JStr n \<Rightarrow> (case get_parts v [''$ref'', ''path''] of JStr p \<Rightarrow> Some (n, p) | _ \<Rightarrow> None)
      | _ \<Rightarrow> None)"

definition result_jsv :: "node_result \<Rightarrow> jsv" where
  "result_jsv r = JObj [(''status'', JStr (status_string (nr_status r))), (''output'', nr_output r),
     (''evidence'', JArr (map evidence_jsv (nr_evidence r)))]"

section \<open>Retry\<close>

definition isRetryable :: "retry_policy \<Rightarrow> string \<Rightarrow> bool" where
  "isRetryable policy error \<longleftrightarrow> ''*'' \<in> set (rp_retryableErrors policy) \<or>
     list_ex (\<lambda>r. includes_str error r \<or> error = r) (rp_retryableErrors policy)"

text \<open>\<open>rng\<close> is the number the random generator answers, used with jitter only.\<close>

definition backoffMs :: "retry_policy \<Rightarrow> nat \<Rightarrow> rat \<Rightarrow> int" where
  "backoffMs policy attempt rng =
     (let base = 1000;
          delay = (if rp_backoff policy = Exponential then base * 2 ^ (attempt - 1) else base)
      in if rp_jitter policy then math_round (of_int delay * (1 / 2 + rng * (1 / 2))) else delay)"

lemma backoff_bounds:
  assumes "0 \<le> rng" "rng < 1"
  shows "500 \<le> backoffMs p n rng \<and> backoffMs p n rng \<le> 1000 * 2 ^ (n - 1)"
proof -
  define delay :: int where "delay = (if rp_backoff p = Exponential then 1000 * 2 ^ (n - 1) else 1000)"
  have d: "1000 \<le> delay" "delay \<le> 1000 * 2 ^ (n - 1)" by (simp_all add: delay_def)
  have lo: "of_int 500 \<le> of_int delay * (1 / 2 + rng * (1 / 2)) + (1 / 2 :: rat)"
  proof -
    have "of_int 1000 * (1 / 2 :: rat) \<le> of_int delay * (1 / 2 + rng * (1 / 2))"
      using d(1) assms(1) by (intro mult_mono) auto
    then show ?thesis by simp
  qed
  have hi: "of_int delay * (1 / 2 + rng * (1 / 2)) + 1 / 2 < of_int (delay + 1)"
  proof -
    have "of_int delay * (1 / 2 + rng * (1 / 2)) \<le> of_int delay * (1 :: rat)"
      using d(1) assms by (intro mult_left_mono) auto
    then show ?thesis by simp
  qed
  have "500 \<le> math_round (of_int delay * (1 / 2 + rng * (1 / 2)))"
    using lo by (simp only: math_round_def le_floor_iff)
  moreover have "math_round (of_int delay * (1 / 2 + rng * (1 / 2))) < delay + 1"
    using hi by (simp only: math_round_def floor_less_iff)
  ultimately show ?thesis using d by (auto simp: backoffMs_def Let_def delay_def)
qed

section \<open>The job queue\<close>

type_synonym job_queue = "workflow_job list"

definition queue_enqueue :: "workflow_job \<Rightarrow> job_queue \<Rightarrow> job_queue" where
  "queue_enqueue j q = q @ [j]"

definition queue_cancel :: "string \<Rightarrow> job_queue \<Rightarrow> job_queue" where
  "queue_cancel i q = filter (\<lambda>j. wj_id j \<noteq> i) q"

definition queue_retry :: "string \<Rightarrow> job_queue \<Rightarrow> job_queue" where
  "queue_retry i q =
     (case List.find (\<lambda>j. wj_id j = i) q of None \<Rightarrow> q | Some j \<Rightarrow> q @ [j\<lparr>wj_attempt := wj_attempt j + 1\<rparr>])"

definition queue_dequeue :: "job_queue \<Rightarrow> workflow_job option \<times> job_queue" where
  "queue_dequeue q = (case q of [] \<Rightarrow> (None, []) | j # js \<Rightarrow> (Some j, js))"

section \<open>The bulkhead\<close>

record bulkhead_slot =
  sl_id :: string
  sl_agentId :: "string option"
  sl_tenantId :: "string option"
  sl_toolId :: "string option"

record limiter =
  lm_running :: "string list"
  lm_byAgent :: "(string, int) js_map"
  lm_byTenant :: "(string, int) js_map"
  lm_byTool :: "(string, int) js_map"

definition new_limiter :: limiter where
  "new_limiter = \<lparr>lm_running = [], lm_byAgent = [], lm_byTenant = [], lm_byTool = []\<rparr>"

text \<open>An optional string in a condition: absent and empty are false.\<close>

definition truthy :: "string option \<Rightarrow> bool" where
  "truthy s \<longleftrightarrow> s \<noteq> None \<and> s \<noteq> Some []"

definition counted :: "(string, int) js_map \<Rightarrow> string option \<Rightarrow> int" where
  "counted m s = (case map_get m (the s) of None \<Rightarrow> 0 | Some n \<Rightarrow> n)"

definition count_up :: "string option \<Rightarrow> (string, int) js_map \<Rightarrow> (string, int) js_map" where
  "count_up s m = (if truthy s then map_set (the s) (counted m s + 1) m else m)"

definition count_down :: "string option \<Rightarrow> (string, int) js_map \<Rightarrow> (string, int) js_map" where
  "count_down s m =
     (if truthy s then map_set (the s) (max 0 ((case map_get m (the s) of None \<Rightarrow> 1 | Some n \<Rightarrow> n) - 1)) m else m)"

definition tryAcquire :: "bulkhead_limits \<Rightarrow> bulkhead_slot \<Rightarrow> limiter \<Rightarrow> bool \<times> limiter" where
  "tryAcquire limits slot l =
     (if maxConcurrentJobs limits \<le> int (length (lm_running l)) then (False, l)
      else if truthy (sl_agentId slot) \<and> maxConcurrentPerAgent limits \<le> counted (lm_byAgent l) (sl_agentId slot) then (False, l)
      else if truthy (sl_tenantId slot) \<and> maxConcurrentPerTenant limits \<le> counted (lm_byTenant l) (sl_tenantId slot) then (False, l)
      else if truthy (sl_toolId slot) \<and> maxConcurrentPerTool limits \<le> counted (lm_byTool l) (sl_toolId slot) then (False, l)
      else (True,
        \<lparr>lm_running = (if sl_id slot \<in> set (lm_running l) then lm_running l else lm_running l @ [sl_id slot]),
         lm_byAgent = count_up (sl_agentId slot) (lm_byAgent l),
         lm_byTenant = count_up (sl_tenantId slot) (lm_byTenant l),
         lm_byTool = count_up (sl_toolId slot) (lm_byTool l)\<rparr>))"

definition release :: "bulkhead_slot \<Rightarrow> limiter \<Rightarrow> limiter" where
  "release slot l =
     \<lparr>lm_running = filter (\<lambda>i. i \<noteq> sl_id slot) (lm_running l),
      lm_byAgent = count_down (sl_agentId slot) (lm_byAgent l),
      lm_byTenant = count_down (sl_tenantId slot) (lm_byTenant l),
      lm_byTool = count_down (sl_toolId slot) (lm_byTool l)\<rparr>"

definition active :: "limiter \<Rightarrow> nat" where
  "active l = length (lm_running l)"

section \<open>The idempotency store\<close>

text \<open>A promise in flight is pending (\<open>None\<close>) or rejected; a fulfilled one is removed.\<close>

record idempotency =
  id_completed :: "(string, node_result) js_map"
  id_inFlight :: "(string, js_error option) js_map"

definition new_idempotency :: idempotency where
  "new_idempotency = \<lparr>id_completed = [], id_inFlight = []\<rparr>"

definition idem_has :: "idempotency \<Rightarrow> string \<Rightarrow> bool" where
  "idem_has st key = map_has (id_completed st) key"

definition idem_get :: "idempotency \<Rightarrow> string \<Rightarrow> node_result option" where
  "idem_get st key = map_get (id_completed st) key"

definition seedCompleted :: "string \<Rightarrow> node_result \<Rightarrow> idempotency \<Rightarrow> idempotency" where
  "seedCompleted key result st = st\<lparr>id_completed := map_set key result (id_completed st)\<rparr>"

definition idem_entries :: "idempotency \<Rightarrow> (string \<times> node_result) list" where
  "idem_entries st = id_completed st"

text \<open>\<open>run\<close>, over a state in which \<open>get\<close> reads the store and \<open>put\<close> writes it.\<close>

definition idem_settled :: "('s \<Rightarrow> idempotency) \<Rightarrow> string \<Rightarrow> 's \<Rightarrow> bool" where
  "idem_settled get key s \<longleftrightarrow> map_get (id_inFlight (get s)) key \<noteq> Some None"

definition idem_join :: "('s \<Rightarrow> idempotency) \<Rightarrow> string \<Rightarrow> ('s, node_result) proc" where
  "idem_join get key = (\<lambda>s.
     case map_get (id_completed (get s)) key of
       Some r \<Rightarrow> (Inr r, s)
     | None \<Rightarrow>
         (case map_get (id_inFlight (get s)) key of
            Some (Some e) \<Rightarrow> (Inl e, s)
          | _ \<Rightarrow> (Inl (plain_error ''unsettled promise''), s)))"

definition idem_run ::
  "('s \<Rightarrow> idempotency) \<Rightarrow> (idempotency \<Rightarrow> 's \<Rightarrow> 's) \<Rightarrow> string \<Rightarrow> ('s, node_result) async \<Rightarrow> ('s, node_result) async" where
  "idem_run get put key fn = (\<lambda>s.
     case map_get (id_completed (get s)) key of
       Some done_result \<Rightarrow> awaitA (returnP done_result) s
     | None \<Rightarrow>
         (case map_get (id_inFlight (get s)) key of
            Some p \<Rightarrow> waitA (idem_settled get key) (idem_join get key) s
          | None \<Rightarrow>
              catchA
                (bindA fn (\<lambda>r t.
                   let st = get t in
                   (Ret r, put (st\<lparr>id_completed := map_set key r (id_completed st),
                      id_inFlight := map_del key (id_inFlight st)\<rparr>) t)))
                (\<lambda>e t. let st = get t in (Throw e, put (st\<lparr>id_inFlight := map_set key (Some e) (id_inFlight st)\<rparr>) t))
                (put ((get s)\<lparr>id_inFlight := map_set key None (id_inFlight (get s))\<rparr>) s)))"

section \<open>Compensation\<close>

type_synonym compensation_registry = "(string, compensation_spec) js_map"

definition compensation_register :: "string \<Rightarrow> compensation_spec \<Rightarrow> compensation_registry \<Rightarrow> compensation_registry" where
  "compensation_register action c reg = map_set action c reg"

definition compensation_resolve :: "compensation_registry \<Rightarrow> string \<Rightarrow> compensation_spec option" where
  "compensation_resolve reg action = map_get reg action"

definition compensationFor :: "compensation_registry \<Rightarrow> workflow_node \<Rightarrow> compensation_spec option" where
  "compensationFor reg n =
     (case wn_compensation n of
        Some c \<Rightarrow> Some c
      | None \<Rightarrow> if truthy (wn_action n) then map_get reg (the (wn_action n)) else None)"

definition isIrreversible :: "compensation_registry \<Rightarrow> workflow_node \<Rightarrow> bool" where
  "isIrreversible reg n = (compensationFor reg n = Some CompIrreversible)"

section \<open>The bulkhead's limits\<close>

text \<open>What the executor does with the limiter: it acquires a slot whose identifier is not held, and
  releases slots it holds.\<close>

datatype bulk_op = Acquire bulkhead_slot | Release bulkhead_slot

definition bulk_step ::
  "bulkhead_limits \<Rightarrow> bulk_op \<Rightarrow> bulkhead_slot list \<times> limiter \<Rightarrow> bulkhead_slot list \<times> limiter" where
  "bulk_step limits op st =
     (case st of (held, l) \<Rightarrow>
       (case op of
          Acquire s \<Rightarrow>
            if sl_id s \<in> set (map sl_id held) then (held, l)
            else (case tryAcquire limits s l of (ok, l') \<Rightarrow> (if ok then held @ [s] else held, l'))
        | Release s \<Rightarrow> if s \<in> set held then (removeAll s held, release s l) else (held, l)))"

definition tally :: "(bulkhead_slot \<Rightarrow> string option) \<Rightarrow> bulkhead_slot list \<Rightarrow> string \<Rightarrow> int" where
  "tally f held k = int (length (filter (\<lambda>s. f s = Some k) held))"

definition count_ok :: "(bulkhead_slot \<Rightarrow> string option) \<Rightarrow> bulkhead_slot list \<Rightarrow> (string, int) js_map \<Rightarrow> bool" where
  "count_ok f held m \<longleftrightarrow> (\<forall>k. k \<noteq> [] \<longrightarrow> counted m (Some k) = tally f held k)"

definition limit_ok :: "(bulkhead_slot \<Rightarrow> string option) \<Rightarrow> int \<Rightarrow> bulkhead_slot list \<Rightarrow> bool" where
  "limit_ok f cap held \<longleftrightarrow> (\<forall>k. k \<noteq> [] \<longrightarrow> tally f held k \<le> max 0 cap)"

lemma truthy_Some [simp]: "truthy (Some s) \<longleftrightarrow> s \<noteq> []" "\<not> truthy None"
  by (simp_all add: truthy_def)

lemma counted_count_up: "k \<noteq> [] \<Longrightarrow>
    counted (count_up s m) (Some k) = counted m (Some k) + (if s = Some k then 1 else 0)"
  by (cases s) (auto simp: count_up_def counted_def)

lemma count_ok_up: "count_ok f held m \<Longrightarrow> count_ok f (held @ [s]) (count_up (f s) m)"
  by (simp add: count_ok_def counted_count_up tally_def)

lemma tally_remove: "distinct held \<Longrightarrow> s \<in> set held \<Longrightarrow>
    tally f (removeAll s held) k = tally f held k - (if f s = Some k then 1 else 0)"
proof (induction held)
  case (Cons h held)
  then show ?case by (cases "h = s") (auto simp: tally_def)
qed simp

lemma tally_pos: "s \<in> set held \<Longrightarrow> f s = Some k \<Longrightarrow> 1 \<le> tally f held k"
  by (induction held) (auto simp: tally_def)

lemma count_ok_down:
  assumes "count_ok f held m" "distinct held" "s \<in> set held"
  shows "count_ok f (removeAll s held) (count_down (f s) m)"
  unfolding count_ok_def
proof (intro allI impI)
  fix k :: string
  assume k: "k \<noteq> []"
  have c: "counted m (Some k) = tally f held k" using assms(1) k by (simp add: count_ok_def)
  show "counted (count_down (f s) m) (Some k) = tally f (removeAll s held) k"
  proof (cases "f s = Some k")
    case True
    then have "1 \<le> counted m (Some k)" using c tally_pos [where f = f, OF assms(3) True] by simp
    then have "counted (count_down (f s) m) (Some k) = counted m (Some k) - 1"
      using True k by (auto simp: count_down_def counted_def split: option.splits)
    then show ?thesis using c True by (simp add: tally_remove [OF assms(2,3)])
  next
    case False
    then have "counted (count_down (f s) m) (Some k) = counted m (Some k)"
      by (cases "f s") (auto simp: count_down_def counted_def)
    then show ?thesis using c False by (simp add: tally_remove [OF assms(2,3)])
  qed
qed

lemma limit_ok_up:
  assumes "limit_ok f cap held" "count_ok f held m" "\<not> (truthy (f s) \<and> cap \<le> counted m (f s))"
  shows "limit_ok f cap (held @ [s])"
  using assms by (auto simp: limit_ok_def count_ok_def tally_def)

lemma limit_ok_down: "limit_ok f cap held \<Longrightarrow> limit_ok f cap (removeAll s held)"
proof -
  have "tally f (removeAll s held) k \<le> tally f held k" for k by (induction held) (auto simp: tally_def)
  then show "limit_ok f cap held \<Longrightarrow> limit_ok f cap (removeAll s held)"
    unfolding limit_ok_def using order_trans by blast
qed

definition bulk_inv :: "bulkhead_limits \<Rightarrow> bulkhead_slot list \<times> limiter \<Rightarrow> bool" where
  "bulk_inv limits st \<longleftrightarrow>
     (case st of (held, l) \<Rightarrow>
       distinct (map sl_id held) \<and> lm_running l = map sl_id held \<and>
       count_ok sl_agentId held (lm_byAgent l) \<and> count_ok sl_tenantId held (lm_byTenant l) \<and>
       count_ok sl_toolId held (lm_byTool l) \<and> int (length held) \<le> max 0 (maxConcurrentJobs limits) \<and>
       limit_ok sl_agentId (maxConcurrentPerAgent limits) held \<and>
       limit_ok sl_tenantId (maxConcurrentPerTenant limits) held \<and>
       limit_ok sl_toolId (maxConcurrentPerTool limits) held)"

lemma removeAll_ids:
  "distinct (map sl_id held) \<Longrightarrow> s \<in> set held \<Longrightarrow> map sl_id (removeAll s held) = filter (\<lambda>i. i \<noteq> sl_id s) (map sl_id held)"
proof (induction held)
  case (Cons h held)
  show ?case
  proof (cases "h = s")
    case True
    then have "sl_id s \<notin> set (map sl_id held)" using Cons.prems(1) by auto
    moreover then have "s \<notin> set held" by auto
    ultimately have "filter (\<lambda>i. i \<noteq> sl_id s) (map sl_id held) = map sl_id held" "removeAll s held = held"
      by (auto simp: filter_id_conv) (metis imageI)
    then show ?thesis using True by simp
  next
    case False
    then have "s \<in> set held" using Cons.prems(2) by simp
    then show ?thesis using Cons False by auto
  qed
qed simp

lemma bulk_step_inv: "bulk_inv limits st \<Longrightarrow> bulk_inv limits (bulk_step limits op st)"
proof -
  assume inv: "bulk_inv limits st"
  obtain held l where st: "st = (held, l)" by (cases st)
  show ?thesis
  proof (cases op)
    case (Acquire s)
    show ?thesis
    proof (cases "sl_id s \<in> set (map sl_id held) \<or> \<not> fst (tryAcquire limits s l)")
      case True
      then have "bulk_step limits op st = st"
        using st Acquire by (auto simp: bulk_step_def tryAcquire_def split: if_splits)
      then show ?thesis using inv by simp
    next
      case False
      then have new: "sl_id s \<notin> sl_id ` set held"
        and step: "bulk_step limits op st = (held @ [s], snd (tryAcquire limits s l))"
        using st Acquire by (auto simp: bulk_step_def case_prod_beta)
      have room: "\<not> maxConcurrentJobs limits \<le> int (length (lm_running l))"
        "\<not> (truthy (sl_agentId s) \<and> maxConcurrentPerAgent limits \<le> counted (lm_byAgent l) (sl_agentId s))"
        "\<not> (truthy (sl_tenantId s) \<and> maxConcurrentPerTenant limits \<le> counted (lm_byTenant l) (sl_tenantId s))"
        "\<not> (truthy (sl_toolId s) \<and> maxConcurrentPerTool limits \<le> counted (lm_byTool l) (sl_toolId s))"
        using False by (auto simp: tryAcquire_def split: if_splits)
      then have acq: "snd (tryAcquire limits s l) =
          \<lparr>lm_running = (if sl_id s \<in> set (lm_running l) then lm_running l else lm_running l @ [sl_id s]),
           lm_byAgent = count_up (sl_agentId s) (lm_byAgent l),
           lm_byTenant = count_up (sl_tenantId s) (lm_byTenant l),
           lm_byTool = count_up (sl_toolId s) (lm_byTool l)\<rparr>"
        by (auto simp: tryAcquire_def)
      show ?thesis
        using inv st new room unfolding step acq bulk_inv_def
        by (auto intro!: count_ok_up limit_ok_up)
    qed
  next
    case (Release s)
    show ?thesis
    proof (cases "s \<in> set held")
      case True
      have d: "distinct held" using inv st distinct_map by (auto simp: bulk_inv_def)
      have "length (removeAll s held) \<le> length held" by (rule length_removeAll_less_eq)
      then have len: "int (length held) \<le> n \<Longrightarrow> int (length (removeAll s held)) \<le> n" for n by linarith
      show ?thesis
        using inv st Release True d len
        by (auto simp: bulk_step_def bulk_inv_def release_def removeAll_ids distinct_map_filter
            intro!: count_ok_down limit_ok_down)
    next
      case False
      then show ?thesis using inv st Release by (simp add: bulk_step_def)
    qed
  qed
qed

section \<open>Properties\<close>

text \<open>C32.  Whatever sequence of acquisitions and releases the executor performs, the slots held never exceed
  the limit of jobs, and for every agent, tenant and tool the slots held for it never exceed the
  limit for one of them.\<close>

theorem bulkhead_bounds:
  "let held = fst (fold (bulk_step limits) ops ([], new_limiter)) in
   int (length held) \<le> max 0 (maxConcurrentJobs limits) \<and>
   active (snd (fold (bulk_step limits) ops ([], new_limiter))) = length held \<and>
   limit_ok sl_agentId (maxConcurrentPerAgent limits) held \<and>
   limit_ok sl_tenantId (maxConcurrentPerTenant limits) held \<and>
   limit_ok sl_toolId (maxConcurrentPerTool limits) held"
proof -
  have "bulk_inv limits st \<Longrightarrow> bulk_inv limits (fold (bulk_step limits) ops st)" for st
    by (induction ops arbitrary: st) (simp_all add: bulk_step_inv)
  moreover have "bulk_inv limits ([], new_limiter)"
    by (simp add: bulk_inv_def new_limiter_def count_ok_def limit_ok_def tally_def counted_def)
  ultimately have "bulk_inv limits (fold (bulk_step limits) ops ([], new_limiter))" by blast
  then show ?thesis by (auto simp: bulk_inv_def active_def case_prod_beta Let_def)
qed

end
