(* ===== verification/Executor.thy ===== *)
theory Executor
  imports Workflow
begin

text \<open>
  The executor of workflow graphs, \<open>runtime/orchestrator/src/executor.ts\<close>.  Its synchronous methods
  are state transformers that may throw, its asynchronous ones are resumptions, and one round of
  dispatch is a pool of workers that interleave in every order their awaits permit, with calls of
  \<open>cancel\<close> in between.  The handler, the persistence and failure hooks, the clock and the random
  numbers are parameters over a world \<open>'w\<close>; the ledger is the list of events appended to it.
\<close>

section \<open>Configuration, events and state\<close>

record 'w handler =
  hd_run :: "string \<Rightarrow> jsv \<Rightarrow> workflow_node \<Rightarrow> ('w, node_result) proc"
  hd_requiresApproval :: "(string \<Rightarrow> bool) option"
  hd_requestApproval :: "(approval_spec \<Rightarrow> string \<Rightarrow> ('w, bool) proc) option"

text \<open>\<open>op_late\<close> tells whether a run of an action outlives the timeout of its node.\<close>

record 'w exec_options =
  op_handler :: "'w handler"
  op_sha :: "string \<Rightarrow> string"
  op_limits :: "bulkhead_limits option"
  op_clock :: "'w \<Rightarrow> int \<times> 'w"
  op_rng :: "'w \<Rightarrow> rat \<times> 'w"
  op_onPersist :: "('w, unit) proc option"
  op_onBeforeStart :: "(string \<Rightarrow> nat \<Rightarrow> ('w, unit) proc) option"
  op_failureGuard :: "(string \<Rightarrow> nat \<Rightarrow> string \<Rightarrow> 'w \<Rightarrow> guard_verdict \<times> 'w) option"
  op_sleep :: "int \<Rightarrow> ('w, unit) proc"
  op_compensations :: "compensation_registry option"
  op_late :: "string \<Rightarrow> jsv \<Rightarrow> workflow_node \<Rightarrow> 'w \<Rightarrow> bool"

definition workflowActor :: actor where
  "workflowActor = \<lparr>actor_kind = ActSystem, actor_id = ''orchestrator''\<rparr>"

definition NodeFailureError :: "string \<Rightarrow> js_error" where
  "NodeFailureError message = JsError ''NodeFailureError'' message"

definition CrashInjectedError :: js_error where
  "CrashInjectedError = JsError ''CrashInjectedError'' ''injected crash (kill orchestrator)''"

definition is_crash :: "js_error \<Rightarrow> bool" where
  "is_crash e \<longleftrightarrow> err_name e = ''CrashInjectedError''"

text \<open>The events the executor emits, one constructor per type with the fields of its payload.\<close>

datatype workflow_body =
    WorkflowRunCreated string string "workflow_node list"
  | WorkflowJobEnqueued string string string nat
  | WorkflowNodeReady string
  | WorkflowNodeRunning string string nat string
  | WorkflowNodeVerified string result_status "evidence_ref list"
  | WorkflowNodeRetrying string nat nat int string
  | WorkflowApprovalRequired approval_spec string
  | WorkflowApprovalGranted approval_spec string
  | WorkflowApprovalDenied approval_spec string
  | WorkflowNodeSkipped string string
  | WorkflowNodeQuarantined string string
  | WorkflowNodeCompensating string string
  | WorkflowNodeRolledBack string string
  | WorkflowNodeFailed string string bool
  | WorkflowNodeCompensated string string
  | WorkflowNodeCompleted string node_result string string
  | WorkflowNodeCancelled string string
  | WorkflowRunCancelled string string
  | WorkflowRunCompleted string workflow_run_status
  | WorkflowRunFailed string workflow_run_status

record workflow_ledger_event =
  wle_actor :: actor
  wle_taskId :: string
  wle_runId :: string
  wle_body :: workflow_body

record internal_node =
  in_def :: workflow_node
  in_status :: node_status
  in_attempt :: nat
  in_failureCount :: nat
  in_result :: "node_result option"
  in_error :: "string option"
  in_skippedReason :: "string option"

record 'w exec_state =
  ex_graph :: "workflow_node list"
  ex_nodes :: "(string, internal_node) js_map"
  ex_results :: "(string, node_result) js_map"
  ex_completionOrder :: "string list"
  ex_compensated :: "string list"
  ex_runId :: string
  ex_taskId :: string
  ex_actor :: actor
  ex_hydrated :: bool
  ex_cancelled :: bool
  ex_cancelledReason :: "string option"
  ex_deduped :: nat
  ex_queue :: job_queue
  ex_idempotency :: idempotency
  ex_limiter :: limiter
  ex_ledger :: "workflow_ledger_event list option"
  ex_world :: 'w

definition new_executor :: "workflow_ledger_event list option \<Rightarrow> 'w \<Rightarrow> 'w exec_state" where
  "new_executor ledger w =
     \<lparr>ex_graph = [], ex_nodes = [], ex_results = [], ex_completionOrder = [], ex_compensated = [], ex_runId = [],
      ex_taskId = [], ex_actor = workflowActor, ex_hydrated = False, ex_cancelled = False,
      ex_cancelledReason = None, ex_deduped = 0, ex_queue = [], ex_idempotency = new_idempotency,
      ex_limiter = new_limiter, ex_ledger = ledger, ex_world = w\<rparr>"

definition exec_limits :: "'w exec_options \<Rightarrow> bulkhead_limits" where
  "exec_limits cfg = (case op_limits cfg of None \<Rightarrow> DEFAULT_BULKHEAD | Some l \<Rightarrow> l)"

text \<open>A call that leaves the executor.\<close>

definition on_world :: "('w, 'a) proc \<Rightarrow> ('w exec_state, 'a) proc" where
  "on_world p = (\<lambda>s. case p (ex_world s) of (r, w) \<Rightarrow> (r, s\<lparr>ex_world := w\<rparr>))"

definition modify :: "('s \<Rightarrow> 's) \<Rightarrow> ('s, unit) proc" where
  "modify f = (\<lambda>s. (Inr (), f s))"

section \<open>State helpers\<close>

fun node_status_string :: "node_status \<Rightarrow> string" where
  "node_status_string WS_PLANNED = ''PLANNED''"
| "node_status_string WS_READY = ''READY''"
| "node_status_string WS_RUNNING = ''RUNNING''"
| "node_status_string WS_WAITING = ''WAITING''"
| "node_status_string WS_VERIFYING = ''VERIFYING''"
| "node_status_string WS_COMPLETED = ''COMPLETED''"
| "node_status_string WS_FAILED = ''FAILED''"
| "node_status_string WS_RETRYING = ''RETRYING''"
| "node_status_string WS_COMPENSATING = ''COMPENSATING''"
| "node_status_string WS_ROLLED_BACK = ''ROLLED_BACK''"
| "node_status_string WS_QUARANTINED = ''QUARANTINED''"
| "node_status_string WS_CANCELLED = ''CANCELLED''"
| "node_status_string WS_SKIPPED = ''SKIPPED''"

fun workflow_event_string :: "workflow_event \<Rightarrow> string" where
  "workflow_event_string WE_PREPARE = ''PREPARE''"
| "workflow_event_string WE_START = ''START''"
| "workflow_event_string WE_WAIT = ''WAIT''"
| "workflow_event_string WE_APPROVE = ''APPROVE''"
| "workflow_event_string WE_DENY = ''DENY''"
| "workflow_event_string WE_VERIFY = ''VERIFY''"
| "workflow_event_string WE_COMPLETE = ''COMPLETE''"
| "workflow_event_string WE_FAIL = ''FAIL''"
| "workflow_event_string WE_RETRY = ''RETRY''"
| "workflow_event_string WE_RESUME = ''RESUME''"
| "workflow_event_string WE_COMPENSATE = ''COMPENSATE''"
| "workflow_event_string WE_ROLLBACK = ''ROLLBACK''"
| "workflow_event_string WE_QUARANTINE = ''QUARANTINE''"
| "workflow_event_string WE_CANCEL = ''CANCEL''"
| "workflow_event_string WE_SKIP = ''SKIP''"

definition status_of :: "'w exec_state \<Rightarrow> string \<Rightarrow> node_status option" where
  "status_of s i = map_option in_status (map_get (ex_nodes s) i)"

definition upd_node :: "string \<Rightarrow> (internal_node \<Rightarrow> internal_node) \<Rightarrow> 'w exec_state \<Rightarrow> 'w exec_state" where
  "upd_node i f s =
     (case map_get (ex_nodes s) i of None \<Rightarrow> s | Some n \<Rightarrow> s\<lparr>ex_nodes := map_set i (f n) (ex_nodes s)\<rparr>)"

definition makeNode :: "workflow_node \<Rightarrow> internal_node" where
  "makeNode d = \<lparr>in_def = d, in_status = WS_PLANNED, in_attempt = 1, in_failureCount = 0, in_result = None,
     in_error = None, in_skippedReason = None\<rparr>"

text \<open>\<open>new Map(graph.map((n) => [n.id, makeNode(n)]))\<close>.\<close>

definition make_nodes :: "workflow_node list \<Rightarrow> (string, internal_node) js_map" where
  "make_nodes graph = fold (\<lambda>n m. map_set (node_id n) (makeNode n) m) graph []"

definition emit :: "workflow_body \<Rightarrow> ('w exec_state, unit) proc" where
  "emit body = modify (\<lambda>s. s\<lparr>ex_ledger := map_option (\<lambda>es. es @
     [\<lparr>wle_actor = ex_actor s, wle_taskId = ex_taskId s, wle_runId = ex_runId s, wle_body = body\<rparr>]) (ex_ledger s)\<rparr>)"

definition persist_call :: "'w exec_options \<Rightarrow> ('w exec_state, unit) proc" where
  "persist_call cfg = (case op_onPersist cfg of None \<Rightarrow> returnP () | Some p \<Rightarrow> on_world p)"

definition persist :: "'w exec_options \<Rightarrow> ('w exec_state, unit) async" where
  "persist cfg = awaitA (persist_call cfg)"

text \<open>\<open>this.transition(node, event)\<close>; the node is looked up, and an absent one is \<open>undefined\<close>.\<close>

definition undefined_status :: js_error where
  "undefined_status = JsError ''TypeError'' (''Cannot read properties of undefined (reading '' @ quoted ''status'' @ '')'')"

definition node_transition :: "string \<Rightarrow> workflow_event \<Rightarrow> ('w exec_state, unit) proc" where
  "node_transition i event = (\<lambda>s.
     case map_get (ex_nodes s) i of
       None \<Rightarrow> (Inl undefined_status, s)
     | Some n \<Rightarrow>
         (case transition node_status_string workflow_event_string workflowNodeMachine (in_status n) event of
            Inl e \<Rightarrow> (Inl e, s)
          | Inr st \<Rightarrow> (Inr (), upd_node i (\<lambda>n. n\<lparr>in_status := st\<rparr>) s)))"

definition deps_completed :: "'w exec_state \<Rightarrow> internal_node \<Rightarrow> bool" where
  "deps_completed s n \<longleftrightarrow> list_all (\<lambda>d. status_of s d = Some WS_COMPLETED) (node_deps (in_def n))"

definition promote_one :: "string \<Rightarrow> ('w exec_state, unit) proc" where
  "promote_one i = (\<lambda>s.
     case map_get (ex_nodes s) i of
       None \<Rightarrow> (Inr (), s)
     | Some n \<Rightarrow>
         if in_status n = WS_PLANNED \<and> deps_completed s n then
           bindP (node_transition i WE_PREPARE) (\<lambda>_. emit (WorkflowNodeReady i)) s
         else (Inr (), s))"

definition promoteReady :: "('w exec_state, unit) proc" where
  "promoteReady = (\<lambda>s. forP promote_one (map_keys (ex_nodes s)) s)"

text \<open>\<open>cascadeSkip\<close>: each recursive call follows a node that has just become terminal, so the number
  of nodes bounds the depth; that is the fuel it is given.\<close>

fun cascade_skip :: "nat \<Rightarrow> string \<Rightarrow> ('w exec_state, unit) proc"
  and cascade_over :: "nat \<Rightarrow> string \<Rightarrow> string list \<Rightarrow> ('w exec_state, unit) proc" where
  "cascade_skip 0 i = returnP ()"
| "cascade_skip (Suc fuel) i = (\<lambda>s. cascade_over fuel i (map_keys (ex_nodes s)) s)"
| "cascade_over fuel i [] = returnP ()"
| "cascade_over fuel i (k # ks) = (\<lambda>s.
     case map_get (ex_nodes s) k of
       None \<Rightarrow> cascade_over fuel i ks s
     | Some other \<Rightarrow>
         if i \<in> set (node_deps (in_def other)) \<and> \<not> isTerminal (in_status other) then
           bindP (node_transition k WE_SKIP) (\<lambda>_.
           bindP (modify (upd_node k (\<lambda>n. n\<lparr>in_skippedReason := Some (''dependency '' @ quoted i @ '' skipped'')\<rparr>))) (\<lambda>_.
           bindP (emit (WorkflowNodeSkipped k (''dependency '' @ quoted i @ '' skipped''))) (\<lambda>_.
           bindP (cascade_skip fuel k) (\<lambda>_. cascade_over fuel i ks)))) s
         else cascade_over fuel i ks s)"

definition cascadeSkip :: "string \<Rightarrow> ('w exec_state, unit) proc" where
  "cascadeSkip i = (\<lambda>s. cascade_skip (Suc (length (ex_nodes s))) i s)"

definition skipNode :: "string \<Rightarrow> string \<Rightarrow> ('w exec_state, unit) proc" where
  "skipNode i reason = (\<lambda>s.
     case map_get (ex_nodes s) i of
       None \<Rightarrow> (Inr (), s)
     | Some n \<Rightarrow>
         if isTerminal (in_status n) then (Inr (), s)
         else
           bindP (node_transition i WE_SKIP) (\<lambda>_.
           bindP (modify (upd_node i (\<lambda>n. n\<lparr>in_skippedReason := Some reason\<rparr>))) (\<lambda>_.
           bindP (emit (WorkflowNodeSkipped i reason)) (\<lambda>_. cascadeSkip i))) s)"

text \<open>\<open>v ?? {}\<close>.\<close>

definition or_empty :: "jsv option \<Rightarrow> jsv" where
  "or_empty v = (case v of None \<Rightarrow> JObj [] | Some JNull \<Rightarrow> JObj [] | Some JUndefined \<Rightarrow> JObj [] | Some u \<Rightarrow> u)"

definition operationId :: "'w exec_state \<Rightarrow> workflow_node \<Rightarrow> string" where
  "operationId s n = ex_runId s @ '':'' @ node_id n"

definition keyOf :: "'w exec_options \<Rightarrow> 'w exec_state \<Rightarrow> workflow_node \<Rightarrow> js_error + string" where
  "keyOf cfg s n = idempotencyKey (op_sha cfg) (operationId s n) (or_empty (wn_input n))"

definition toJob :: "'w exec_options \<Rightarrow> workflow_node \<Rightarrow> ('w exec_state, workflow_job) proc" where
  "toJob cfg n = (\<lambda>s.
     case keyOf cfg s n of
       Inl e \<Rightarrow> (Inl e, s)
     | Inr key \<Rightarrow>
         (case op_clock cfg (ex_world s) of (now, w) \<Rightarrow>
           (Inr \<lparr>wj_id = ''job-'' @ ex_runId s @ ''-'' @ node_id n, wj_nodeId = node_id n, wj_runId = ex_runId s,
              wj_operationId = operationId s n, wj_idempotencyKey = key,
              wj_attempt = (case map_get (ex_nodes s) (node_id n) of None \<Rightarrow> 1 | Some m \<Rightarrow> in_attempt m),
              wj_enqueuedAt = now\<rparr>, s\<lparr>ex_world := w\<rparr>)))"

definition resolveInput :: "workflow_node \<Rightarrow> 'w exec_state \<Rightarrow> js_error + jsv" where
  "resolveInput n s =
     (case wn_input n of
        None \<Rightarrow> Inr (JObj [])
      | Some input \<Rightarrow>
          (case input_ref input of
             Some (i, path) \<Rightarrow>
               (case map_get (ex_results s) i of
                  None \<Rightarrow> Inl (NodeFailureError (''cannot resolve $ref to '' @ quoted i @ '' (no result)''))
                | Some r \<Rightarrow> Inr (getPath (result_jsv r) path))
           | None \<Rightarrow> Inr (or_empty (Some input))))"

definition completeNode :: "'w exec_options \<Rightarrow> workflow_node \<Rightarrow> node_result \<Rightarrow> ('w exec_state, unit) proc" where
  "completeNode cfg d result =
     bindP (\<lambda>s. if status_of s (node_id d) = Some WS_RUNNING then node_transition (node_id d) WE_VERIFY s else (Inr (), s)) (\<lambda>_.
     bindP (node_transition (node_id d) WE_COMPLETE) (\<lambda>_.
     bindP (modify (\<lambda>s. (upd_node (node_id d) (\<lambda>n. n\<lparr>in_result := Some result\<rparr>) s)
         \<lparr>ex_results := map_set (node_id d) result (ex_results s),
          ex_completionOrder := ex_completionOrder s @ [node_id d]\<rparr>)) (\<lambda>_.
     bindP (\<lambda>s. (keyOf cfg s d, s)) (\<lambda>key.
     bindP (\<lambda>s. emit (WorkflowNodeCompleted (node_id d) result (operationId s d) key) s) (\<lambda>_. promoteReady)))))"

definition cancel_one :: "string \<Rightarrow> string \<Rightarrow> ('w exec_state, unit) proc" where
  "cancel_one reason i = (\<lambda>s.
     case map_get (ex_nodes s) i of
       None \<Rightarrow> (Inr (), s)
     | Some n \<Rightarrow>
         if isTerminal (in_status n) then (Inr (), s)
         else bindP (modify (upd_node i (\<lambda>n. n\<lparr>in_status := WS_CANCELLED\<rparr>))) (\<lambda>_. emit (WorkflowNodeCancelled i reason)) s)"

definition cancelAll :: "string \<Rightarrow> ('w exec_state, unit) proc" where
  "cancelAll reason =
     bindP (\<lambda>s. forP (cancel_one reason) (map_keys (ex_nodes s)) s)
       (\<lambda>_ s. emit (WorkflowRunCancelled (ex_runId s) reason) s)"

definition final_status :: "node_status list \<Rightarrow> workflow_run_status" where
  "final_status statuses =
     (if WS_QUARANTINED \<in> set statuses then WR_QUARANTINED
      else if list_ex (\<lambda>s. s = WS_FAILED \<or> s = WS_ROLLED_BACK) statuses then WR_FAILED
      else if list_all (\<lambda>s. s = WS_COMPLETED \<or> s = WS_SKIPPED \<or> s = WS_CANCELLED) statuses then
        (if WS_CANCELLED \<in> set statuses then WR_CANCELLED else WR_COMPLETED)
      else WR_FAILED)"

definition finalize :: "('w exec_state, unit) proc" where
  "finalize = (\<lambda>s.
     let status = final_status (map in_status (map_values (ex_nodes s))) in
     if status = WR_COMPLETED then emit (WorkflowRunCompleted (ex_runId s) status) s
     else if status = WR_CANCELLED then
       emit (WorkflowRunCancelled (ex_runId s) (case ex_cancelledReason s of None \<Rightarrow> ''cancelled'' | Some r \<Rightarrow> r)) s
     else emit (WorkflowRunFailed (ex_runId s) status) s)"

definition cancel :: "string \<Rightarrow> 'w exec_state \<Rightarrow> 'w exec_state" where
  "cancel reason s = s\<lparr>ex_cancelled := True, ex_cancelledReason := Some reason\<rparr>"

section \<open>Conditions\<close>

definition matchCondition :: "condition_spec \<Rightarrow> node_result \<Rightarrow> js_error + bool \<times> string" where
  "matchCondition cond source =
     (case cond_when cond of
        WhenOn i success \<Rightarrow>
          Inr ((if success then nr_status source = Success else nr_status source = Failure),
            ''verdict is '' @ status_string (nr_status source) @ '' (expected '' @
              (if success then ''success'' else ''failure'') @ '')'')
      | WhenPath i path expected \<Rightarrow>
          bindE (stableStringify (getPath (result_jsv source) path)) (\<lambda>actual.
          bindE (stableStringify expected) (\<lambda>want.
            Inr (actual = want, quoted path @ '' === '' @ text_or_undefined want @ '' (got '' @
              text_or_undefined actual @ '')''))))"

definition when_node :: "condition_when \<Rightarrow> string" where
  "when_node w = (case w of WhenOn i b \<Rightarrow> i | WhenPath i p v \<Rightarrow> i)"

definition branch_string :: "bool \<Rightarrow> string" where
  "branch_string b = (if b then ''then'' else ''else'')"

section \<open>Running one node\<close>

definition runWithTimeout ::
  "'w exec_options \<Rightarrow> string \<Rightarrow> jsv \<Rightarrow> workflow_node \<Rightarrow> ('w exec_state, node_result) async" where
  "runWithTimeout cfg action input d =
     awaitA (\<lambda>s.
       case on_world (hd_run (op_handler cfg) action input d) s of (r, s') \<Rightarrow>
         (case wn_timeoutMs d of
            None \<Rightarrow> (r, s')
          | Some ms \<Rightarrow>
              if ms \<noteq> 0 \<and> op_late cfg action input d (ex_world s) then
                (Inl (plain_error (''timeout after '' @ show_int ms @ ''ms'')), s')
              else (r, s')))"

definition approval_request :: "workflow_node \<Rightarrow> string \<Rightarrow> approval_spec" where
  "approval_request d action = \<lparr>ap_action = action,
     ap_reason = (case wn_approval d of None \<Rightarrow> ''approval required for '' @ quoted action | Some a \<Rightarrow> ap_reason a)\<rparr>"

definition requestApproval :: "'w exec_options \<Rightarrow> workflow_node \<Rightarrow> string \<Rightarrow> ('w exec_state, bool) async" where
  "requestApproval cfg d action =
     (let req = approval_request d action; i = node_id d in
      bindA (syncA (bindP (node_transition i WE_WAIT) (\<lambda>_. emit (WorkflowApprovalRequired req i)))) (\<lambda>_.
      bindA (persist cfg) (\<lambda>_.
      bindA (awaitA (case hd_requestApproval (op_handler cfg) of None \<Rightarrow> returnP False | Some ask \<Rightarrow> on_world (ask req i))) (\<lambda>approved.
      bindA (syncA (if approved then bindP (node_transition i WE_APPROVE) (\<lambda>_. emit (WorkflowApprovalGranted req i))
                    else bindP (node_transition i WE_DENY) (\<lambda>_. emit (WorkflowApprovalDenied req i)))) (\<lambda>_.
      bindA (persist cfg) (\<lambda>_. returnA approved))))))"

definition runApproval :: "'w exec_options \<Rightarrow> workflow_node \<Rightarrow> ('w exec_state, node_result) async" where
  "runApproval cfg d =
     (let action = (case wn_approval d of Some a \<Rightarrow> ap_action a
            | None \<Rightarrow> (case wn_action d of Some a \<Rightarrow> a | None \<Rightarrow> ''approval'')) in
      bindA (awaited (requestApproval cfg d action)) (\<lambda>approved.
        if \<not> approved then throwA (NodeFailureError (''approval '' @ quoted action @ '' denied''))
        else returnA \<lparr>nr_status = Success,
          nr_output = JObj [(''approved'', JBool True), (''action'', JStr action)],
          nr_evidence = [\<lparr>evidenceId = ''approval:'' @ node_id d, evidence_kind = ''approval''\<rparr>]\<rparr>))"

definition condition_source ::
  "'w exec_options \<Rightarrow> workflow_node \<Rightarrow> condition_spec \<Rightarrow> ('w exec_state, node_result) async" where
  "condition_source cfg d cond =
     (if truthy (wn_action d) then
        bindA (syncA (\<lambda>s. (resolveInput d s, s))) (\<lambda>input. runWithTimeout cfg (the (wn_action d)) input d)
      else syncA (\<lambda>s.
        case map_get (ex_results s) (when_node (cond_when cond)) of
          None \<Rightarrow> (Inl (NodeFailureError (''condition references missing result of '' @ quoted (when_node (cond_when cond)))), s)
        | Some r \<Rightarrow> (Inr r, s)))"

definition runConditional :: "'w exec_options \<Rightarrow> workflow_node \<Rightarrow> ('w exec_state, node_result) async" where
  "runConditional cfg d =
     (case wn_condition d of
        None \<Rightarrow> throwA (NodeFailureError (''conditional node '' @ quoted (node_id d) @ '' has no condition''))
      | Some cond \<Rightarrow>
          bindA (condition_source cfg d cond) (\<lambda>source.
          bindA (syncA (liftE (matchCondition cond source))) (\<lambda>(matched, detail).
          bindA (syncA (forP (\<lambda>skipId. skipNode skipId
              (''conditional '' @ quoted (node_id d) @ '' chose the '' @ quoted (branch_string matched) @ '' branch''))
              (if matched then (case cond_else cond of None \<Rightarrow> [] | Some e \<Rightarrow> e) else cond_then cond))) (\<lambda>_.
            returnA \<lparr>nr_status = Success,
              nr_output = JObj [(''branch'', JStr (branch_string matched)),
                (''verdict'', JStr (status_string (nr_status source))), (''detail'', JStr detail)],
              nr_evidence = nr_evidence source @
                [\<lparr>evidenceId = ''condition:'' @ node_id d, evidence_kind = ''verification''\<rparr>]\<rparr>))))"

definition failure_message :: "node_result \<Rightarrow> string" where
  "failure_message r = (case getPath (nr_output r) ''error'' of JStr reason \<Rightarrow> reason | _ \<Rightarrow> ''node failed'')"

definition runNodeAction :: "'w exec_options \<Rightarrow> workflow_node \<Rightarrow> ('w exec_state, node_result) async" where
  "runNodeAction cfg d =
     (case wn_kind d of
        NK_CONDITIONAL \<Rightarrow> runConditional cfg d
      | NK_APPROVAL \<Rightarrow> runApproval cfg d
      | NK_ACTION \<Rightarrow>
          let action = (case wn_action d of None \<Rightarrow> [] | Some a \<Rightarrow> a) in
          bindA (if (case hd_requiresApproval (op_handler cfg) of None \<Rightarrow> False | Some needs \<Rightarrow> needs action) then
              bindA (awaited (requestApproval cfg d action)) (\<lambda>approved.
                if \<not> approved then throwA (NodeFailureError (quoted action @ '' requires approval and was denied''))
                else returnA ())
            else returnA ()) (\<lambda>_.
          bindA (syncA (\<lambda>s. (resolveInput d s, s))) (\<lambda>input.
          bindA (runWithTimeout cfg action input d) (\<lambda>result.
            if nr_status result = Failure then throwA (NodeFailureError (failure_message result))
            else returnA result))))"

section \<open>Failure and compensation\<close>

definition exec_registry :: "'w exec_options \<Rightarrow> compensation_registry" where
  "exec_registry cfg = (case op_compensations cfg of None \<Rightarrow> [] | Some r \<Rightarrow> r)"

text \<open>The handler runs the compensation; its failure is ignored.\<close>

definition run_compensation ::
  "'w exec_options \<Rightarrow> string \<Rightarrow> jsv option \<Rightarrow> workflow_node \<Rightarrow> ('w exec_state, unit) async" where
  "run_compensation cfg action input d =
     catchA (bindA (awaitA (on_world (hd_run (op_handler cfg) action (or_empty input) d))) (\<lambda>_. returnA ()))
       (\<lambda>_. returnA ())"

definition compensate_one :: "'w exec_options \<Rightarrow> string \<Rightarrow> string \<Rightarrow> ('w exec_state, unit) async" where
  "compensate_one cfg failedNodeId i = (\<lambda>s.
     if i = failedNodeId then returnA () s
     else (case map_get (ex_nodes s) i of
         None \<Rightarrow> returnA () s
       | Some n \<Rightarrow>
           if in_status n \<noteq> WS_COMPLETED then returnA () s
           else (case compensationFor (exec_registry cfg) (in_def n) of
               Some (CompAction action input) \<Rightarrow>
                 bindA (run_compensation cfg action input (in_def n)) (\<lambda>_.
                   syncA (bindP (modify (\<lambda>s. s\<lparr>ex_compensated := ex_compensated s @ [i]\<rparr>))
                     (\<lambda>_. emit (WorkflowNodeCompensated i action)))) s
             | _ \<Rightarrow> returnA () s)))"

definition compensateUpstream :: "'w exec_options \<Rightarrow> string \<Rightarrow> ('w exec_state, unit) async" where
  "compensateUpstream cfg failedNodeId = (\<lambda>s. forA (compensate_one cfg failedNodeId) (rev (ex_completionOrder s)) s)"

definition enter_failed :: "string \<Rightarrow> ('w exec_state, unit) proc" where
  "enter_failed i = (\<lambda>s.
     if status_of s i \<in> {Some WS_RUNNING, Some WS_VERIFYING, Some WS_WAITING} then node_transition i WE_FAIL s
     else if status_of s i = Some WS_READY then
       bindP (node_transition i WE_START) (\<lambda>_. node_transition i WE_FAIL) s
     else (Inr (), s))"

definition failNode :: "'w exec_options \<Rightarrow> workflow_node \<Rightarrow> string \<Rightarrow> bool \<Rightarrow> ('w exec_state, unit) async" where
  "failNode cfg d error quarantined =
     (let i = node_id d; spec = compensationFor (exec_registry cfg) d in
      bindA (syncA (bindP (enter_failed i) (\<lambda>_. modify (upd_node i (\<lambda>n. n\<lparr>in_error := Some error\<rparr>))))) (\<lambda>_.
      if quarantined then
        bindA (syncA (bindP (node_transition i WE_QUARANTINE) (\<lambda>_. emit (WorkflowNodeQuarantined i error)))) (\<lambda>_. persist cfg)
      else (case spec of
          Some (CompAction action input) \<Rightarrow>
            bindA (syncA (bindP (node_transition i WE_COMPENSATE) (\<lambda>_. emit (WorkflowNodeCompensating i action)))) (\<lambda>_.
            bindA (persist cfg) (\<lambda>_.
            bindA (run_compensation cfg action input d) (\<lambda>_.
            bindA (syncA (bindP (node_transition i WE_ROLLBACK) (\<lambda>_. emit (WorkflowNodeRolledBack i error)))) (\<lambda>_.
            bindA (awaited (compensateUpstream cfg i)) (\<lambda>_. persist cfg)))))
        | _ \<Rightarrow>
            bindA (syncA (emit (WorkflowNodeFailed i error (spec = Some CompIrreversible)))) (\<lambda>_. persist cfg))))"

section \<open>Retry\<close>

definition node_retry :: "workflow_node \<Rightarrow> retry_policy" where
  "node_retry d = (case wn_retry d of None \<Rightarrow> DEFAULT_RETRY | Some p \<Rightarrow> p)"

text \<open>The beginning of an attempt: \<open>RESUME\<close> after a retry, \<open>START\<close> otherwise.\<close>

definition begin_attempt :: "workflow_node \<Rightarrow> workflow_job \<Rightarrow> nat \<Rightarrow> ('w exec_state, unit) proc" where
  "begin_attempt d job attempt = (\<lambda>s.
     bindP (modify (upd_node (node_id d) (\<lambda>n. n\<lparr>in_attempt := attempt\<rparr>))) (\<lambda>_.
     bindP (node_transition (node_id d) (if status_of s (node_id d) = Some WS_RETRYING then WE_RESUME else WE_START)) (\<lambda>_.
       emit (WorkflowNodeRunning (node_id d) (wj_id job) attempt (wj_operationId job)))) s)"

text \<open>The \<open>try\<close> block.\<close>

definition try_attempt :: "'w exec_options \<Rightarrow> workflow_node \<Rightarrow> nat \<Rightarrow> ('w exec_state, node_result) async" where
  "try_attempt cfg d attempt =
     bindA (awaitA (case op_onBeforeStart cfg of None \<Rightarrow> returnP () | Some f \<Rightarrow> on_world (f (node_id d) attempt))) (\<lambda>_.
     bindA (awaited (runNodeAction cfg d)) (\<lambda>result.
     bindA (syncA (bindP (node_transition (node_id d) WE_VERIFY)
       (\<lambda>_. emit (WorkflowNodeVerified (node_id d) (nr_status result) (nr_evidence result))))) (\<lambda>_.
     bindA (persist cfg) (\<lambda>_. returnA result))))"

definition note_failure :: "'w exec_options \<Rightarrow> workflow_node \<Rightarrow> string \<Rightarrow> ('w exec_state, guard_verdict option) proc" where
  "note_failure cfg d error =
     bindP (modify (upd_node (node_id d) (\<lambda>n. n\<lparr>in_failureCount := in_failureCount n + 1\<rparr>))) (\<lambda>_ s.
       case op_failureGuard cfg of
         None \<Rightarrow> (Inr None, s)
       | Some assess \<Rightarrow>
           (case assess (node_id d) (case map_get (ex_nodes s) (node_id d) of None \<Rightarrow> 0 | Some n \<Rightarrow> in_failureCount n)
               error (ex_world s) of (v, w) \<Rightarrow> (Inr (Some v), s\<lparr>ex_world := w\<rparr>)))"

definition backoff_delay :: "'w exec_options \<Rightarrow> retry_policy \<Rightarrow> nat \<Rightarrow> ('w exec_state, int) proc" where
  "backoff_delay cfg policy attempt = (\<lambda>s.
     if rp_jitter policy then
       (case op_rng cfg (ex_world s) of (r, w) \<Rightarrow> (Inr (backoffMs policy attempt r), s\<lparr>ex_world := w\<rparr>))
     else (Inr (backoffMs policy attempt 0), s))"

definition prepare_retry ::
  "'w exec_options \<Rightarrow> workflow_node \<Rightarrow> nat \<Rightarrow> string \<Rightarrow> ('w exec_state, int) proc" where
  "prepare_retry cfg d attempt error =
     bindP (node_transition (node_id d) WE_FAIL) (\<lambda>_.
     bindP (node_transition (node_id d) WE_RETRY) (\<lambda>_.
     bindP (backoff_delay cfg (node_retry d) attempt) (\<lambda>delay.
     bindP (emit (WorkflowNodeRetrying (node_id d) attempt (attempt + 1) delay error)) (\<lambda>_. returnP delay))))"

text \<open>The \<open>catch\<close> block; \<open>again\<close> is the rest of the loop.\<close>

definition after_failure ::
  "'w exec_options \<Rightarrow> workflow_node \<Rightarrow> nat \<Rightarrow> ('w exec_state, node_result) async \<Rightarrow> js_error \<Rightarrow>
    ('w exec_state, node_result) async" where
  "after_failure cfg d attempt again err =
     (if is_crash err then throwA err
      else
        let error = err_message err;
            retryable = (attempt < rp_maxAttempts (node_retry d) \<and> isRetryable (node_retry d) error) in
        bindA (syncA (note_failure cfg d error)) (\<lambda>guard.
          let stop = (case guard of None \<Rightarrow> False | Some g \<Rightarrow> gv_stop g) in
          if stop \<or> \<not> retryable then
            bindA (awaited (failNode cfg d
                (if stop then (case guard of Some g \<Rightarrow> (case gv_reason g of None \<Rightarrow> error | Some r \<Rightarrow> r) | None \<Rightarrow> error) else error)
                (case guard of None \<Rightarrow> False | Some g \<Rightarrow> gv_quarantine g))) (\<lambda>_.
              throwA (NodeFailureError error))
          else
            bindA (syncA (prepare_retry cfg d attempt error)) (\<lambda>delay.
            bindA (persist cfg) (\<lambda>_.
            bindA (awaitA (on_world (op_sleep cfg delay))) (\<lambda>_. again)))))"

definition attempt_node ::
  "'w exec_options \<Rightarrow> workflow_node \<Rightarrow> workflow_job \<Rightarrow> nat \<Rightarrow> ('w exec_state, node_result) async \<Rightarrow>
    ('w exec_state, node_result) async" where
  "attempt_node cfg d job attempt again =
     bindA (syncA (begin_attempt d job attempt)) (\<lambda>_.
     bindA (persist cfg) (\<lambda>_.
       catchA (try_attempt cfg d attempt) (after_failure cfg d attempt again)))"

text \<open>The loop runs again only below \<open>maxAttempts\<close>, so the difference is enough fuel.\<close>

fun retry_loop ::
  "'w exec_options \<Rightarrow> workflow_node \<Rightarrow> workflow_job \<Rightarrow> nat \<Rightarrow> nat \<Rightarrow> ('w exec_state, node_result) async" where
  "retry_loop cfg d job 0 attempt = attempt_node cfg d job attempt (throwA (plain_error ''no attempts left''))"
| "retry_loop cfg d job (Suc n) attempt = attempt_node cfg d job attempt (retry_loop cfg d job n (attempt + 1))"

definition executeWithRetry ::
  "'w exec_options \<Rightarrow> workflow_node \<Rightarrow> workflow_job \<Rightarrow> ('w exec_state, node_result) async" where
  "executeWithRetry cfg d job =
     retry_loop cfg d job (rp_maxAttempts (node_retry d) - wj_attempt job) (wj_attempt job)"

section \<open>Jobs, workers and rounds\<close>

definition job_slot :: "workflow_job \<Rightarrow> workflow_node \<Rightarrow> bulkhead_slot" where
  "job_slot job d = \<lparr>sl_id = wj_id job, sl_agentId = wn_agentId d, sl_tenantId = wn_tenantId d, sl_toolId = wn_toolId d\<rparr>"

text \<open>\<open>while (!tryAcquire(slot)) await sleep(0)\<close>: a failed attempt changes nothing, so the loop is a
  wait for the condition.\<close>

definition acquire_slot :: "'w exec_options \<Rightarrow> bulkhead_slot \<Rightarrow> ('w exec_state, unit) async" where
  "acquire_slot cfg slot = (\<lambda>s.
     if fst (tryAcquire (exec_limits cfg) slot (ex_limiter s)) then
       (Ret (), s\<lparr>ex_limiter := snd (tryAcquire (exec_limits cfg) slot (ex_limiter s))\<rparr>)
     else waitA (\<lambda>t. fst (tryAcquire (exec_limits cfg) slot (ex_limiter t)))
       (modify (\<lambda>t. t\<lparr>ex_limiter := snd (tryAcquire (exec_limits cfg) slot (ex_limiter t))\<rparr>)) s)"

definition release_slot :: "bulkhead_slot \<Rightarrow> 'w exec_state \<Rightarrow> 'w exec_state" where
  "release_slot slot s = s\<lparr>ex_limiter := release slot (ex_limiter s)\<rparr>"

definition node_terminal :: "'w exec_state \<Rightarrow> string \<Rightarrow> bool" where
  "node_terminal s i = (case status_of s i of None \<Rightarrow> False | Some st \<Rightarrow> isTerminal st)"

definition put_idempotency :: "idempotency \<Rightarrow> 'w exec_state \<Rightarrow> 'w exec_state" where
  "put_idempotency st s = s\<lparr>ex_idempotency := st\<rparr>"

definition deliver_job :: "'w exec_options \<Rightarrow> workflow_node \<Rightarrow> workflow_job \<Rightarrow> ('w exec_state, unit) async" where
  "deliver_job cfg d job = (\<lambda>s.
     let wasDeduped = idem_has (ex_idempotency s) (wj_idempotencyKey job) in
     bindA (awaited (idem_run ex_idempotency put_idempotency (wj_idempotencyKey job) (awaited (executeWithRetry cfg d job)))) (\<lambda>result.
       syncA (bindP (modify (\<lambda>s. if wasDeduped then s\<lparr>ex_deduped := ex_deduped s + 1\<rparr> else s)) (\<lambda>_ s.
         if node_terminal s (node_id d) then (Inr (), s) else completeNode cfg d result s))) s)"

definition runJob :: "'w exec_options \<Rightarrow> workflow_job \<Rightarrow> ('w exec_state, unit) async" where
  "runJob cfg job = (\<lambda>s.
     if ex_cancelled s then returnA () s
     else (case map_get (ex_nodes s) (wj_nodeId job) of
         None \<Rightarrow> returnA () s
       | Some n \<Rightarrow>
           let d = in_def n in
           bindA (acquire_slot cfg (job_slot job d)) (\<lambda>_.
             finallyA
               (catchA (deliver_job cfg d job) (\<lambda>e.
                 if is_crash e then throwA e
                 else (\<lambda>s. if node_terminal s (node_id d) then returnA () s else awaited (failNode cfg d (err_message e) False) s)))
               (release_slot (job_slot job d))) s))"

text \<open>A worker takes jobs until the queue is empty; nothing adds to it during a round, so its length is
  enough fuel.\<close>

fun worker :: "'w exec_options \<Rightarrow> nat \<Rightarrow> ('w exec_state, unit) async" where
  "worker cfg 0 = returnA ()"
| "worker cfg (Suc n) = (\<lambda>s.
     if ex_cancelled s then returnA () s
     else (case queue_dequeue (ex_queue s) of
         (None, q) \<Rightarrow> returnA () s
       | (Some job, q) \<Rightarrow> bindA (awaited (runJob cfg job)) (\<lambda>_. worker cfg n) (s\<lparr>ex_queue := q\<rparr>)))"

definition concurrency :: "'w exec_options \<Rightarrow> nat" where
  "concurrency cfg = nat (max 1 (maxConcurrentJobs (exec_limits cfg)))"

definition workers :: "'w exec_options \<Rightarrow> 'w exec_state \<Rightarrow> ('w exec_state, unit) async list" where
  "workers cfg s = replicate (concurrency cfg) (worker cfg (length (ex_queue s)))"

definition cancels :: "'w exec_state \<Rightarrow> 'w exec_state \<Rightarrow> bool" where
  "cancels s s' \<longleftrightarrow> (\<exists>reason. s' = cancel reason s)"

text \<open>\<open>dispatch\<close>: a round ends when every worker has returned, or as soon as one has thrown.\<close>

inductive dispatched :: "'w exec_options \<Rightarrow> 'w exec_state \<Rightarrow> js_error + unit \<Rightarrow> 'w exec_state \<Rightarrow> bool" for cfg where
  all_return: "pool_reach cancels (start_pool (workers cfg s) s) (s', ts) \<Longrightarrow> list_all (\<lambda>t. t = Ret ()) ts \<Longrightarrow>
    dispatched cfg s (Inr ()) s'"
| one_throws: "pool_reach cancels (start_pool (workers cfg s) s) (s', ts) \<Longrightarrow> Throw e \<in> set ts \<Longrightarrow>
    dispatched cfg s (Inl e) s'"

definition ready_nodes :: "'w exec_state \<Rightarrow> workflow_node list" where
  "ready_nodes s = map in_def (filter (\<lambda>n. in_status n = WS_READY) (map_values (ex_nodes s)))"

definition enqueue_job :: "workflow_job \<Rightarrow> ('w exec_state, unit) proc" where
  "enqueue_job job =
     bindP (modify (\<lambda>s. s\<lparr>ex_queue := queue_enqueue job (ex_queue s)\<rparr>)) (\<lambda>_.
       emit (WorkflowJobEnqueued (wj_nodeId job) (wj_id job) (wj_idempotencyKey job) (wj_attempt job)))"

fun toJobs :: "'w exec_options \<Rightarrow> workflow_node list \<Rightarrow> ('w exec_state, workflow_job list) proc" where
  "toJobs cfg [] = returnP []"
| "toJobs cfg (n # ns) = bindP (toJob cfg n) (\<lambda>j. bindP (toJobs cfg ns) (\<lambda>js. returnP (j # js)))"

definition enqueue_ready :: "'w exec_options \<Rightarrow> ('w exec_state, unit) proc" where
  "enqueue_ready cfg = (\<lambda>s. bindP (toJobs cfg (ready_nodes s)) (forP enqueue_job) s)"

text \<open>The loop of \<open>drive\<close>; \<open>cancel\<close> may also be called while it awaits persistence.\<close>

inductive drive_loop :: "'w exec_options \<Rightarrow> 'w exec_state \<Rightarrow> js_error + unit \<Rightarrow> 'w exec_state \<Rightarrow> bool" for cfg where
  cancelled: "ex_cancelled s \<Longrightarrow>
    bindP (cancelAll (case ex_cancelledReason s of None \<Rightarrow> ''cancelled'' | Some r \<Rightarrow> r))
      (\<lambda>_. bindP finalize (\<lambda>_. persist_call cfg)) s = (r, s') \<Longrightarrow> drive_loop cfg s r s'"
| idle: "\<not> ex_cancelled s \<Longrightarrow> ready_nodes s = [] \<Longrightarrow>
    bindP finalize (\<lambda>_. persist_call cfg) s = (r, s') \<Longrightarrow> drive_loop cfg s r s'"
| round: "\<not> ex_cancelled s \<Longrightarrow> ready_nodes s \<noteq> [] \<Longrightarrow>
    bindP (enqueue_ready cfg) (\<lambda>_. persist_call cfg) s = (Inr (), s1) \<Longrightarrow> cancels\<^sup>*\<^sup>* s1 s2 \<Longrightarrow>
    dispatched cfg s2 (Inr ()) s3 \<Longrightarrow> drive_loop cfg s3 r s' \<Longrightarrow> drive_loop cfg s r s'"
| enqueue_throws: "\<not> ex_cancelled s \<Longrightarrow> ready_nodes s \<noteq> [] \<Longrightarrow>
    bindP (enqueue_ready cfg) (\<lambda>_. persist_call cfg) s = (Inl e, s') \<Longrightarrow> drive_loop cfg s (Inl e) s'"
| dispatch_throws: "\<not> ex_cancelled s \<Longrightarrow> ready_nodes s \<noteq> [] \<Longrightarrow>
    bindP (enqueue_ready cfg) (\<lambda>_. persist_call cfg) s = (Inr (), s1) \<Longrightarrow> cancels\<^sup>*\<^sup>* s1 s2 \<Longrightarrow>
    dispatched cfg s2 (Inl e) s' \<Longrightarrow> drive_loop cfg s (Inl e) s'"

inductive drive :: "'w exec_options \<Rightarrow> 'w exec_state \<Rightarrow> js_error + unit \<Rightarrow> 'w exec_state \<Rightarrow> bool" for cfg where
  promoted: "promoteReady s = (Inr (), s1) \<Longrightarrow> drive_loop cfg s1 r s' \<Longrightarrow> drive cfg s r s'"
| promote_throws: "promoteReady s = (Inl e, s') \<Longrightarrow> drive cfg s (Inl e) s'"

section \<open>Recovery from the ledger\<close>

definition new_snapshot :: "string \<Rightarrow> node_snapshot" where
  "new_snapshot i = \<lparr>ns_nodeId = i, ns_status = WS_PLANNED, ns_attempt = 1, ns_result = None, ns_error = None,
     ns_skippedReason = None\<rparr>"

text \<open>The node an event is about; a run's own events and the empty identifier have none.\<close>

fun body_node :: "workflow_body \<Rightarrow> string option" where
  "body_node (WorkflowRunCreated r t g) = None"
| "body_node (WorkflowRunCancelled r reason) = None"
| "body_node (WorkflowRunCompleted r st) = None"
| "body_node (WorkflowRunFailed r st) = None"
| "body_node (WorkflowJobEnqueued i j k a) = Some i"
| "body_node (WorkflowNodeReady i) = Some i"
| "body_node (WorkflowNodeRunning i j a op) = Some i"
| "body_node (WorkflowNodeVerified i st ev) = Some i"
| "body_node (WorkflowNodeRetrying i a n ms e) = Some i"
| "body_node (WorkflowApprovalRequired q i) = Some i"
| "body_node (WorkflowApprovalGranted q i) = Some i"
| "body_node (WorkflowApprovalDenied q i) = Some i"
| "body_node (WorkflowNodeSkipped i reason) = Some i"
| "body_node (WorkflowNodeQuarantined i e) = Some i"
| "body_node (WorkflowNodeCompensating i c) = Some i"
| "body_node (WorkflowNodeRolledBack i e) = Some i"
| "body_node (WorkflowNodeFailed i e irr) = Some i"
| "body_node (WorkflowNodeCompensated i c) = Some i"
| "body_node (WorkflowNodeCompleted i r op k) = Some i"
| "body_node (WorkflowNodeCancelled i reason) = Some i"

text \<open>The \<open>switch\<close> of \<open>applyEventToSnapshot\<close>; \<open>None\<close> is its \<open>default\<close>.\<close>

fun snapshot_update :: "workflow_body \<Rightarrow> node_snapshot \<Rightarrow> node_snapshot option" where
  "snapshot_update (WorkflowNodeRunning i j attempt op) snap = Some (snap\<lparr>ns_status := WS_RUNNING, ns_attempt := attempt\<rparr>)"
| "snapshot_update (WorkflowNodeVerified i st ev) snap = Some (snap\<lparr>ns_status := WS_VERIFYING\<rparr>)"
| "snapshot_update (WorkflowNodeCompleted i result op k) snap = Some (snap\<lparr>ns_status := WS_COMPLETED, ns_result := Some result\<rparr>)"
| "snapshot_update (WorkflowNodeFailed i e irr) snap = Some (snap\<lparr>ns_status := WS_FAILED, ns_error := Some e\<rparr>)"
| "snapshot_update (WorkflowNodeRetrying i a n ms e) snap = Some (snap\<lparr>ns_status := WS_RETRYING\<rparr>)"
| "snapshot_update (WorkflowNodeSkipped i reason) snap = Some (snap\<lparr>ns_status := WS_SKIPPED, ns_skippedReason := Some reason\<rparr>)"
| "snapshot_update (WorkflowNodeCompensating i c) snap = Some (snap\<lparr>ns_status := WS_COMPENSATING\<rparr>)"
| "snapshot_update (WorkflowNodeRolledBack i e) snap = Some (snap\<lparr>ns_status := WS_ROLLED_BACK, ns_error := Some e\<rparr>)"
| "snapshot_update (WorkflowNodeQuarantined i e) snap = Some (snap\<lparr>ns_status := WS_QUARANTINED, ns_error := Some e\<rparr>)"
| "snapshot_update (WorkflowNodeCancelled i reason) snap = Some (snap\<lparr>ns_status := WS_CANCELLED\<rparr>)"
| "snapshot_update body snap = None"

type_synonym snapshots = "(string, node_snapshot) js_map"

definition applyEventToSnapshot :: "string \<Rightarrow> workflow_body \<Rightarrow> snapshots \<Rightarrow> snapshots" where
  "applyEventToSnapshot i body snaps =
     (let snap = (case map_get snaps i of None \<Rightarrow> new_snapshot i | Some s \<Rightarrow> s) in
      case snapshot_update body snap of None \<Rightarrow> snaps | Some s \<Rightarrow> map_set i s snaps)"

record run_header =
  rh_graph :: "workflow_node list"
  rh_runId :: string
  rh_taskId :: string

text \<open>The loop over the events: the last run header and the snapshots.\<close>

definition scan_event :: "workflow_body \<Rightarrow> run_header option \<times> snapshots \<Rightarrow> run_header option \<times> snapshots" where
  "scan_event body acc =
     (case body of
        WorkflowRunCreated r t g \<Rightarrow> (Some \<lparr>rh_graph = g, rh_runId = r, rh_taskId = t\<rparr>, snd acc)
      | _ \<Rightarrow> (case body_node body of
          None \<Rightarrow> acc
        | Some i \<Rightarrow> if i = [] then acc else (fst acc, applyEventToSnapshot i body (snd acc))))"

definition scan_events :: "workflow_body list \<Rightarrow> run_header option \<times> snapshots" where
  "scan_events bodies = fold scan_event bodies (None, [])"

definition restore_node :: "'w exec_options \<Rightarrow> string \<times> node_snapshot \<Rightarrow> ('w exec_state, unit) proc" where
  "restore_node cfg = (\<lambda>(i, snap) s.
     case map_get (ex_nodes s) i of
       None \<Rightarrow> (Inr (), s)
     | Some n \<Rightarrow>
         let s1 = upd_node i (\<lambda>n. n\<lparr>in_attempt := ns_attempt snap\<rparr>) s in
         if ns_status snap = WS_COMPLETED \<and> ns_result snap \<noteq> None then
           (let result = the (ns_result snap);
                s2 = (upd_node i (\<lambda>n. n\<lparr>in_status := WS_COMPLETED, in_result := Some result\<rparr>) s1)
                  \<lparr>ex_results := map_set i result (ex_results s1), ex_completionOrder := ex_completionOrder s1 @ [i]\<rparr>
            in case keyOf cfg s2 (in_def n) of
                 Inl e \<Rightarrow> (Inl e, s2)
               | Inr key \<Rightarrow> (Inr (), s2\<lparr>ex_idempotency := seedCompleted key result (ex_idempotency s2)\<rparr>))
         else if ns_status snap = WS_SKIPPED then
           (Inr (), upd_node i (\<lambda>n. n\<lparr>in_status := WS_SKIPPED, in_skippedReason := ns_skippedReason snap\<rparr>) s1)
         else if isTerminal (ns_status snap) then
           (Inr (), upd_node i (\<lambda>n. n\<lparr>in_status := ns_status snap, in_error := ns_error snap\<rparr>) s1)
         else (Inr (), s1))"

definition cascade_if_skipped :: "string \<Rightarrow> ('w exec_state, unit) proc" where
  "cascade_if_skipped i = (\<lambda>s. if status_of s i = Some WS_SKIPPED then cascadeSkip i s else (Inr (), s))"

definition hydrated_state :: "run_header \<Rightarrow> 'w exec_state \<Rightarrow> 'w exec_state" where
  "hydrated_state h s =
     s\<lparr>ex_graph := rh_graph h, ex_runId := rh_runId h, ex_taskId := rh_taskId h, ex_nodes := make_nodes (rh_graph h),
       ex_results := [], ex_completionOrder := [], ex_compensated := [], ex_deduped := 0, ex_cancelled := False,
       ex_hydrated := True\<rparr>"

definition hydrate :: "'w exec_options \<Rightarrow> workflow_body list \<Rightarrow> ('w exec_state, unit) proc" where
  "hydrate cfg bodies =
     (case scan_events bodies of
        (None, snaps) \<Rightarrow> throwP (plain_error ''hydrate: no WorkflowRunCreated event found'')
      | (Some h, snaps) \<Rightarrow>
          bindP (modify (hydrated_state h)) (\<lambda>_.
          bindP (forP (restore_node cfg) snaps) (\<lambda>_.
          bindP (\<lambda>s. forP cascade_if_skipped (map_keys (ex_nodes s)) s) (\<lambda>_. promoteReady))))"

section \<open>Runs\<close>

record workflow_outcome =
  wo_runId :: string
  wo_taskId :: string
  wo_status :: workflow_run_status
  wo_nodes :: "node_snapshot list"
  wo_results :: "(string, node_result) js_map"
  wo_completed :: "string list"
  wo_failed :: "(string \<times> string) list"
  wo_rolledBack :: "string list"
  wo_skipped :: "string list"
  wo_quarantined :: "string list"
  wo_dedupedDeliveries :: nat
  wo_events :: "workflow_ledger_event list"

definition deriveStatus :: "node_status list \<Rightarrow> workflow_run_status" where
  "deriveStatus statuses =
     (if WS_QUARANTINED \<in> set statuses then WR_QUARANTINED
      else if list_ex (\<lambda>s. s = WS_FAILED \<or> s = WS_ROLLED_BACK) statuses then WR_FAILED
      else if WS_CANCELLED \<in> set statuses then WR_CANCELLED
      else WR_COMPLETED)"

definition node_snapshot_of :: "internal_node \<Rightarrow> node_snapshot" where
  "node_snapshot_of n = \<lparr>ns_nodeId = node_id (in_def n), ns_status = in_status n, ns_attempt = in_attempt n,
     ns_result = in_result n, ns_error = in_error n, ns_skippedReason = in_skippedReason n\<rparr>"

definition with_status :: "node_status \<Rightarrow> node_snapshot list \<Rightarrow> string list" where
  "with_status st ns = map ns_nodeId (filter (\<lambda>n. ns_status n = st) ns)"

definition outcome :: "'w exec_state \<Rightarrow> workflow_outcome" where
  "outcome s =
     (let nodes = map node_snapshot_of (map_values (ex_nodes s)) in
      \<lparr>wo_runId = ex_runId s, wo_taskId = ex_taskId s, wo_status = deriveStatus (map ns_status nodes),
       wo_nodes = nodes, wo_results = ex_results s, wo_completed = with_status WS_COMPLETED nodes,
       wo_failed = map (\<lambda>n. (ns_nodeId n, case ns_error n of None \<Rightarrow> ''failed'' | Some e \<Rightarrow> e))
         (filter (\<lambda>n. ns_status n = WS_FAILED) nodes),
       wo_rolledBack = with_status WS_ROLLED_BACK nodes @ ex_compensated s,
       wo_skipped = with_status WS_SKIPPED nodes, wo_quarantined = with_status WS_QUARANTINED nodes,
       wo_dedupedDeliveries = ex_deduped s,
       wo_events = (case ex_ledger s of None \<Rightarrow> [] | Some es \<Rightarrow> filter (\<lambda>e. wle_runId e = ex_runId s) es)\<rparr>)"

record run_options =
  ro_taskId :: "string option"
  ro_runId :: "string option"
  ro_actor :: "actor option"

definition start_run :: "'w exec_options \<Rightarrow> workflow_node list \<Rightarrow> run_options \<Rightarrow> ('w exec_state, unit) proc" where
  "start_run cfg graph opts = (\<lambda>s.
     case validateGraph graph of
       Inl e \<Rightarrow> (Inl e, s)
     | Inr _ \<Rightarrow>
         let (rid, w) = (case ro_runId opts of Some r \<Rightarrow> (r, ex_world s)
               | None \<Rightarrow> (case op_clock cfg (ex_world s) of (now, w) \<Rightarrow> (''run-'' @ show_int now, w)));
             tid = (case ro_taskId opts of None \<Rightarrow> ''task'' | Some t \<Rightarrow> t);
             s1 = s\<lparr>ex_graph := graph, ex_taskId := tid, ex_runId := rid,
               ex_actor := (case ro_actor opts of None \<Rightarrow> workflowActor | Some a \<Rightarrow> a),
               ex_nodes := make_nodes graph, ex_results := [], ex_completionOrder := [], ex_compensated := [],
               ex_deduped := 0, ex_hydrated := False, ex_world := w\<rparr>
         in bindP (emit (WorkflowRunCreated rid tid graph)) (\<lambda>_. persist_call cfg) s1)"

text \<open>\<open>run\<close> and \<open>resume\<close>: every way they can return or throw.\<close>

inductive run_workflow ::
  "'w exec_options \<Rightarrow> workflow_node list \<Rightarrow> run_options \<Rightarrow> 'w exec_state \<Rightarrow> js_error + workflow_outcome \<Rightarrow>
    'w exec_state \<Rightarrow> bool" for cfg where
  returns: "start_run cfg graph opts s = (Inr (), s1) \<Longrightarrow> cancels\<^sup>*\<^sup>* s1 s2 \<Longrightarrow> drive cfg s2 (Inr ()) s' \<Longrightarrow>
    run_workflow cfg graph opts s (Inr (outcome s')) s'"
| start_throws: "start_run cfg graph opts s = (Inl e, s') \<Longrightarrow> run_workflow cfg graph opts s (Inl e) s'"
| drive_throws: "start_run cfg graph opts s = (Inr (), s1) \<Longrightarrow> cancels\<^sup>*\<^sup>* s1 s2 \<Longrightarrow> drive cfg s2 (Inl e) s' \<Longrightarrow>
    run_workflow cfg graph opts s (Inl e) s'"

inductive resume_workflow ::
  "'w exec_options \<Rightarrow> 'w exec_state \<Rightarrow> js_error + workflow_outcome \<Rightarrow> 'w exec_state \<Rightarrow> bool" for cfg where
  not_hydrated: "\<not> ex_hydrated s \<Longrightarrow> resume_workflow cfg s (Inl (plain_error ''resume() requires hydrate() first'')) s"
| resumes: "ex_hydrated s \<Longrightarrow> drive cfg s (Inr ()) s' \<Longrightarrow> resume_workflow cfg s (Inr (outcome s')) s'"
| resume_throws: "ex_hydrated s \<Longrightarrow> drive cfg s (Inl e) s' \<Longrightarrow> resume_workflow cfg s (Inl e) s'"

end
