(* ===== verification/ExecutorInv.thy ===== *)
theory ExecutorInv
  imports Executor
begin

text \<open>
  Invariants of the executor under every interleaving.  The locale \<open>executor_invariant\<close> is the
  interface between the executor and a property of its states: whoever shows that the property
  survives a legal change of one node's status, the promotion of a node whose dependencies are
  complete, the recording of a completion, changes of the queue and of the cancel flag and changes
  outside the progress gets it for every operation, every round and every run.  \<open>executor_frame\<close>,
  \<open>executor_completing\<close>, \<open>executor_delivering\<close>, \<open>executor_jobs\<close> and \<open>executor_queueing\<close> are the parts of it
  that single operations need.  It is interpreted for the order of completions, the permanence of
  results and the progress of the rounds.
\<close>

section \<open>The progress of a run\<close>

definition def_of :: "'w exec_state \<Rightarrow> string \<Rightarrow> workflow_node option" where
  "def_of s i = map_option in_def (map_get (ex_nodes s) i)"

definition deps_of :: "'w exec_state \<Rightarrow> string \<Rightarrow> string list" where
  "deps_of s i = (case def_of s i of None \<Rightarrow> [] | Some d \<Rightarrow> node_deps d)"

definition result_of :: "'w exec_state \<Rightarrow> string \<Rightarrow> node_result option" where
  "result_of s i = Option.bind (map_get (ex_nodes s) i) in_result"

text \<open>Two states with the same progress: statuses, results and completions agree, and so do the queue and
  the cancel flag.\<close>

definition same_progress :: "'w exec_state \<Rightarrow> 'w exec_state \<Rightarrow> bool" where
  "same_progress s s' \<longleftrightarrow> map_keys (ex_nodes s') = map_keys (ex_nodes s) \<and> def_of s' = def_of s \<and> status_of s' = status_of s \<and>
     result_of s' = result_of s \<and> ex_results s' = ex_results s \<and> ex_completionOrder s' = ex_completionOrder s \<and>
     ex_queue s' = ex_queue s \<and> ex_cancelled s' = ex_cancelled s"

text \<open>The seats taken and the executions in flight.\<close>

definition same_seats :: "'w exec_state \<Rightarrow> 'w exec_state \<Rightarrow> bool" where
  "same_seats s s' \<longleftrightarrow> ex_limiter s' = ex_limiter s \<and> ex_idempotency s' = ex_idempotency s"

definition set_status :: "string \<Rightarrow> node_status \<Rightarrow> 'w exec_state \<Rightarrow> 'w exec_state" where
  "set_status i st = upd_node i (\<lambda>n. n\<lparr>in_status := st\<rparr>)"

definition record_completion :: "string \<Rightarrow> node_result \<Rightarrow> 'w exec_state \<Rightarrow> 'w exec_state" where
  "record_completion i r s =
     (upd_node i (\<lambda>n. n\<lparr>in_result := Some r\<rparr>) (set_status i WS_COMPLETED s))
       \<lparr>ex_results := map_set i r (ex_results s), ex_completionOrder := ex_completionOrder s @ [i]\<rparr>"

lemma upd_node_get [simp]:
  "map_get (ex_nodes (upd_node i f s)) k = (if k = i then map_option f (map_get (ex_nodes s) i) else map_get (ex_nodes s) k)"
  by (simp add: upd_node_def split: option.splits)

lemma upd_node_keys [simp]: "map_keys (ex_nodes (upd_node i f s)) = map_keys (ex_nodes s)"
  by (auto simp: upd_node_def map_keys_set_present split: option.splits)

lemma upd_node_fields [simp]:
  "ex_results (upd_node i f s) = ex_results s"
  "ex_completionOrder (upd_node i f s) = ex_completionOrder s"
  "ex_queue (upd_node i f s) = ex_queue s" "ex_cancelled (upd_node i f s) = ex_cancelled s"
  by (simp_all add: upd_node_def split: option.splits)

lemma same_progress_upd:
  "(\<And>n. in_def (f n) = in_def n) \<Longrightarrow> (\<And>n. in_status (f n) = in_status n) \<Longrightarrow> (\<And>n. in_result (f n) = in_result n) \<Longrightarrow>
    same_progress s (upd_node i f s)"
  by (cases "map_get (ex_nodes s) i")
    (auto simp: same_progress_def status_of_def def_of_def result_of_def fun_eq_iff)

lemma same_progress_nodes:
  "ex_nodes s' = ex_nodes s \<Longrightarrow> ex_results s' = ex_results s \<Longrightarrow> ex_completionOrder s' = ex_completionOrder s \<Longrightarrow>
    ex_queue s' = ex_queue s \<Longrightarrow> ex_cancelled s' = ex_cancelled s \<Longrightarrow> same_progress s s'"
  by (simp add: same_progress_def status_of_def def_of_def result_of_def fun_eq_iff)

lemma same_seats_simps [simp]:
  "same_seats s (upd_node i f s)" "same_seats s (set_status i st s)"
  by (simp_all add: same_seats_def set_status_def upd_node_def split: option.splits)

lemma set_status_simps [simp]:
  "status_of (set_status i st s) = (\<lambda>k. if k = i then map_option (\<lambda>_. st) (status_of s i) else status_of s k)"
  "def_of (set_status i st s) = def_of s"
  "map_keys (ex_nodes (set_status i st s)) = map_keys (ex_nodes s)"
  "result_of (set_status i st s) = result_of s"
  "ex_results (set_status i st s) = ex_results s"
  "ex_completionOrder (set_status i st s) = ex_completionOrder s"
  "ex_queue (set_status i st s) = ex_queue s" "ex_cancelled (set_status i st s) = ex_cancelled s"
  by (cases "map_get (ex_nodes s) i";
      auto simp: set_status_def status_of_def def_of_def result_of_def fun_eq_iff split: option.splits)+

lemma record_completion_get:
  "map_get (ex_nodes (record_completion i r s)) k =
     (if k = i then map_option (\<lambda>n. n\<lparr>in_status := WS_COMPLETED, in_result := Some r\<rparr>) (map_get (ex_nodes s) i)
      else map_get (ex_nodes s) k)"
  by (simp add: record_completion_def set_status_def option.map_comp comp_def)

lemma record_completion_simps [simp]:
  "status_of (record_completion i r s) = (\<lambda>k. if k = i then map_option (\<lambda>_. WS_COMPLETED) (status_of s i) else status_of s k)"
  "def_of (record_completion i r s) = def_of s"
  "map_keys (ex_nodes (record_completion i r s)) = map_keys (ex_nodes s)"
  "result_of (record_completion i r s) = (\<lambda>k. if k = i then map_option (\<lambda>_. r) (status_of s i) else result_of s k)"
  "ex_results (record_completion i r s) = map_set i r (ex_results s)"
  "ex_completionOrder (record_completion i r s) = ex_completionOrder s @ [i]"
  "ex_queue (record_completion i r s) = ex_queue s" "ex_cancelled (record_completion i r s) = ex_cancelled s"
  "same_seats s (record_completion i r s)"
proof -
  show "result_of (record_completion i r s) = (\<lambda>k. if k = i then map_option (\<lambda>_. r) (status_of s i) else result_of s k)"
    by (cases "map_get (ex_nodes s) i") (auto simp: result_of_def status_of_def record_completion_get fun_eq_iff)
  show "status_of (record_completion i r s) = (\<lambda>k. if k = i then map_option (\<lambda>_. WS_COMPLETED) (status_of s i) else status_of s k)"
    by (cases "map_get (ex_nodes s) i") (auto simp: status_of_def record_completion_get fun_eq_iff)
  show "def_of (record_completion i r s) = def_of s"
    by (cases "map_get (ex_nodes s) i") (auto simp: def_of_def record_completion_get fun_eq_iff)
  show "same_seats s (record_completion i r s)"
    by (simp add: record_completion_def set_status_def same_seats_def upd_node_def split: option.splits)
qed (simp_all add: record_completion_def set_status_def)

text \<open>The transition helper in these terms.\<close>

lemma node_transition_eq:
  "node_transition i event s =
     (case status_of s i of
        None \<Rightarrow> (Inl undefined_status, s)
      | Some st \<Rightarrow>
          (case next_state workflowNodeMachine st event of
             None \<Rightarrow> (Inl (IllegalTransitionError (node_status_string st) (workflow_event_string event)), s)
           | Some st' \<Rightarrow> (Inr (), set_status i st' s)))"
  by (auto simp: node_transition_def status_of_def transition_def set_status_def split: option.splits)

lemma next_COMPLETE: "next_state workflowNodeMachine st WE_COMPLETE = (if st = WS_VERIFYING then Some WS_COMPLETED else None)"
  by (cases st) (simp_all add: workflow_next_simps)

lemma next_PREPARE: "next_state workflowNodeMachine st WE_PREPARE = (if st = WS_PLANNED then Some WS_READY else None)"
  by (cases st) (simp_all add: workflow_next_simps)

lemma next_not_completed: "next_state workflowNodeMachine st e = Some st' \<Longrightarrow> e \<noteq> WE_COMPLETE \<Longrightarrow>
    st \<noteq> WS_COMPLETED \<and> st' \<noteq> WS_COMPLETED"
  by (cases st) (auto simp: workflow_next_simps split: if_splits)

section \<open>The interface\<close>

text \<open>Most operations complete and cancel nothing; they need the first part of the interface only.\<close>

locale executor_frame =
  fixes cfg :: "'w exec_options" and I :: "'w exec_state \<Rightarrow> bool"
  assumes frame: "I s \<Longrightarrow> same_progress s s' \<Longrightarrow> same_seats s s' \<Longrightarrow> I s'"
    and step: "I s \<Longrightarrow> status_of s i = Some st \<Longrightarrow> next_state workflowNodeMachine st event = Some st' \<Longrightarrow>
      event \<noteq> WE_COMPLETE \<Longrightarrow> event \<noteq> WE_PREPARE \<Longrightarrow> I (set_status i st' s)"
    and promote: "I s \<Longrightarrow> status_of s i = Some WS_PLANNED \<Longrightarrow>
      list_all (\<lambda>d. status_of s d = Some WS_COMPLETED) (deps_of s i) \<Longrightarrow> I (set_status i WS_READY s)"
begin

lemma frame_modify: "(\<And>s. same_progress s (f s)) \<Longrightarrow> (\<And>s. same_seats s (f s)) \<Longrightarrow> keepsP I (modify f)"
  by (auto simp: keepsP_def modify_def intro: frame)

lemma frame_fields: "(\<And>s. ex_nodes (f s) = ex_nodes s \<and> ex_results (f s) = ex_results s \<and>
    ex_completionOrder (f s) = ex_completionOrder s \<and> ex_queue (f s) = ex_queue s \<and> ex_cancelled (f s) = ex_cancelled s) \<Longrightarrow>
    (\<And>s. same_seats s (f s)) \<Longrightarrow> I s \<Longrightarrow> I (f s)"
  using frame same_progress_nodes by blast

lemma emit_keeps [keeps_intros]: "keepsP I (emit body)"
  unfolding emit_def by (rule frame_modify) (simp_all add: same_progress_nodes same_seats_def)

lemma on_world_keeps [keeps_intros]: "keepsP I (on_world p)"
  unfolding keepsP_def on_world_def case_prod_beta by (auto simp: same_seats_def intro: frame_fields)

lemma upd_node_keeps: "(\<And>n. in_def (f n) = in_def n) \<Longrightarrow> (\<And>n. in_status (f n) = in_status n) \<Longrightarrow>
    (\<And>n. in_result (f n) = in_result n) \<Longrightarrow> keepsP I (modify (upd_node i f))"
  by (rule frame_modify) (auto intro: same_progress_upd)

lemma node_transition_keeps: "event \<noteq> WE_COMPLETE \<Longrightarrow> event \<noteq> WE_PREPARE \<Longrightarrow> keepsP I (node_transition i event)"
  by (auto simp: keepsP_def node_transition_eq split: option.splits intro: step)

lemma persist_call_keeps [keeps_intros]: "keepsP I (persist_call cfg)"
  by (auto simp: persist_call_def split: option.splits intro: keeps_intros)

lemma persist_keeps [keeps_intros]: "keepsA I (persist cfg)"
  unfolding persist_def by (intro keeps_intros)

lemma promote_one_keeps: "keepsP I (promote_one i)"
  unfolding keepsP_def
proof (intro allI impI)
  fix s assume s: "I s"
  show "I (snd (promote_one i s))"
  proof (cases "map_get (ex_nodes s) i")
    case None
    then show ?thesis using s by (simp add: promote_one_def)
  next
    case (Some n)
    show ?thesis
    proof (cases "in_status n = WS_PLANNED \<and> deps_completed s n")
      case True
      then have st: "status_of s i = Some WS_PLANNED" using Some by (simp add: status_of_def)
      have "I (set_status i WS_READY s)"
        using True Some by (intro promote s st) (simp add: deps_of_def def_of_def deps_completed_def)
      then show ?thesis using True Some st keepsP_D [OF emit_keeps]
        by (simp add: promote_one_def bindP_def node_transition_eq next_PREPARE)
    next
      case False
      then show ?thesis using Some s by (auto simp: promote_one_def)
    qed
  qed
qed

lemma promoteReady_keeps [keeps_intros]: "keepsP I promoteReady"
proof -
  have "keepsP I (forP promote_one ks)" for ks by (intro keepsP_for promote_one_keeps)
  then show ?thesis by (simp add: promoteReady_def keepsP_def)
qed

lemma cascade_over_keeps:
  assumes "\<And>j. keepsP I (cascade_skip fuel j)"
  shows "keepsP I (cascade_over fuel i ks)"
proof (induction ks)
  case Nil
  then show ?case by (simp add: keepsP_return)
next
  case (Cons k ks)
  let ?why = "''dependency '' @ quoted i @ '' skipped''"
  have "keepsP I (bindP (node_transition k WE_SKIP) (\<lambda>_.
           bindP (modify (upd_node k (\<lambda>n. n\<lparr>in_skippedReason := Some ?why\<rparr>))) (\<lambda>_.
           bindP (emit (WorkflowNodeSkipped k ?why)) (\<lambda>_.
           bindP (cascade_skip fuel k) (\<lambda>_. cascade_over fuel i ks)))))"
    by (intro keeps_intros node_transition_keeps upd_node_keeps assms Cons.IH) simp_all
  with Cons.IH show ?case by (simp add: keepsP_def split: option.splits)
qed

lemma cascade_keeps: "keepsP I (cascade_skip fuel i)"
proof (induction fuel arbitrary: i)
  case 0
  then show ?case by (simp add: keepsP_return)
next
  case (Suc fuel)
  have "keepsP I (cascade_over fuel i ks)" for ks by (intro cascade_over_keeps Suc.IH)
  then show ?case by (simp add: keepsP_def)
qed

lemma cascadeSkip_keeps [keeps_intros]: "keepsP I (cascadeSkip i)"
  using cascade_keeps by (simp add: cascadeSkip_def keepsP_def del: cascade_skip.simps)

lemma skipNode_keeps [keeps_intros]: "keepsP I (skipNode i reason)"
proof -
  have "keepsP I (bindP (node_transition i WE_SKIP) (\<lambda>_.
           bindP (modify (upd_node i (\<lambda>n. n\<lparr>in_skippedReason := Some reason\<rparr>))) (\<lambda>_.
           bindP (emit (WorkflowNodeSkipped i reason)) (\<lambda>_. cascadeSkip i))))"
    by (intro keeps_intros node_transition_keeps upd_node_keeps) simp_all
  then show ?thesis by (simp add: skipNode_def keepsP_def split: option.splits)
qed

lemma finalize_keeps [keeps_intros]: "keepsP I finalize"
  using emit_keeps by (simp add: finalize_def keepsP_def Let_def)

section \<open>Asynchronous operations\<close>

lemma runWithTimeout_keeps [keeps_intros]: "keepsA I (runWithTimeout cfg action input d)"
proof -
  have "keepsP I (on_world (hd_run (op_handler cfg) action input d))" by (rule on_world_keeps)
  then show ?thesis unfolding runWithTimeout_def
    by (intro keepsA_await) (simp add: keepsP_def case_prod_beta split: option.splits)
qed

lemma transition_emit_keeps: "event \<noteq> WE_COMPLETE \<Longrightarrow> event \<noteq> WE_PREPARE \<Longrightarrow>
    keepsA I (syncA (bindP (node_transition i event) (\<lambda>_. emit body)))"
  by (intro keeps_intros node_transition_keeps)

lemma reader_keeps [keeps_intros]: "keepsA I (syncA (\<lambda>s. (f s, s)))"
  by (intro keepsA_sync) (simp add: keepsP_def)

lemma requestApproval_keeps [keeps_intros]: "keepsA I (requestApproval cfg d action)"
  unfolding requestApproval_def Let_def
  by (intro keeps_intros transition_emit_keeps node_transition_keeps)
    (auto split: option.splits if_splits intro!: keeps_intros node_transition_keeps)

lemma runApproval_keeps [keeps_intros]: "keepsA I (runApproval cfg d)"
  unfolding runApproval_def Let_def by (intro keeps_intros) (auto intro: keeps_intros)

lemma condition_source_keeps [keeps_intros]: "keepsA I (condition_source cfg d cond)"
  unfolding condition_source_def
  by (auto intro!: keeps_intros simp: keepsP_def split: option.splits)

lemma runConditional_keeps [keeps_intros]: "keepsA I (runConditional cfg d)"
  unfolding runConditional_def by (auto intro!: keeps_intros split: option.splits)

lemma runNodeAction_keeps [keeps_intros]: "keepsA I (runNodeAction cfg d)"
  unfolding runNodeAction_def Let_def
  by (auto intro!: keeps_intros split: node_kind.splits option.splits)

lemma run_compensation_keeps [keeps_intros]: "keepsA I (run_compensation cfg action input d)"
  unfolding run_compensation_def by (intro keeps_intros)

lemma modify_frame [keeps_intros]: "(\<And>s. same_progress s (f s)) \<Longrightarrow> (\<And>s. same_seats s (f s)) \<Longrightarrow> keepsP I (modify f)"
  by (rule frame_modify)

lemma compensate_one_keeps [keeps_intros]: "keepsA I (compensate_one cfg failed i)"
proof -
  have comp: "keepsA I (bindA (run_compensation cfg action input d) (\<lambda>_.
      syncA (bindP (modify (\<lambda>s. s\<lparr>ex_compensated := ex_compensated s @ [i]\<rparr>)) (\<lambda>_. emit (WorkflowNodeCompensated i action)))))"
    for action input d by (intro keeps_intros same_progress_nodes) (simp_all add: same_seats_def)
  have "keepsA I (\<lambda>s. case spec of
      CompAction action input \<Rightarrow> bindA (run_compensation cfg action input d) (\<lambda>_.
        syncA (bindP (modify (\<lambda>s. s\<lparr>ex_compensated := ex_compensated s @ [i]\<rparr>)) (\<lambda>_. emit (WorkflowNodeCompensated i action)))) s
    | CompIrreversible \<Rightarrow> returnA () s)" for spec d
    using comp keepsA_return by (cases spec) (simp_all add: keepsA_return)
  then show ?thesis unfolding compensate_one_def by (intro keepsA_if keepsA_option keepsA_return)
qed

lemma compensateUpstream_keeps [keeps_intros]: "keepsA I (compensateUpstream cfg failed)"
  unfolding compensateUpstream_def
  by (rule keepsA_reader [of _ "\<lambda>order. forA (compensate_one cfg failed) (rev order)"]) (intro keeps_intros)

lemma enter_failed_keeps [keeps_intros]: "keepsP I (enter_failed i)"
  unfolding enter_failed_def
  by (intro keepsP_if keepsP_bind node_transition_keeps keepsP_return [unfolded returnP_def]) simp_all

lemma failNode_keeps [keeps_intros]: "keepsA I (failNode cfg d error quarantined)"
proof -
  have error: "keepsP I (modify (upd_node i (\<lambda>n. n\<lparr>in_error := Some error\<rparr>)))" for i
    by (rule upd_node_keeps) simp_all
  show ?thesis unfolding failNode_def Let_def
    by (auto intro!: keeps_intros error node_transition_keeps split: option.splits compensation_spec.splits)
qed

section \<open>Attempts\<close>

lemma begin_attempt_keeps [keeps_intros]: "keepsP I (begin_attempt d job attempt)"
proof -
  have "keepsP I (bindP (modify (upd_node (node_id d) (\<lambda>n. n\<lparr>in_attempt := attempt\<rparr>))) (\<lambda>_.
     bindP (node_transition (node_id d) (if b then WE_RESUME else WE_START)) (\<lambda>_.
       emit (WorkflowNodeRunning (node_id d) (wj_id job) attempt (wj_operationId job)))))" for b
    by (intro keeps_intros upd_node_keeps node_transition_keeps) simp_all
  then show ?thesis by (simp add: begin_attempt_def keepsP_def)
qed

lemma try_attempt_keeps [keeps_intros]: "keepsA I (try_attempt cfg d attempt)"
  unfolding try_attempt_def
  by (intro keeps_intros node_transition_keeps) (auto split: option.splits intro: keeps_intros)

lemma note_failure_keeps [keeps_intros]: "keepsP I (note_failure cfg d error)"
  unfolding note_failure_def
proof (intro keepsP_bind upd_node_keeps)
  show "keepsP I (\<lambda>s. case op_failureGuard cfg of None \<Rightarrow> (Inr None, s)
     | Some assess \<Rightarrow>
         (case assess (node_id d) (case map_get (ex_nodes s) (node_id d) of None \<Rightarrow> 0 | Some n \<Rightarrow> in_failureCount n)
            error (ex_world s) of (v, w) \<Rightarrow> (Inr (Some v), s\<lparr>ex_world := w\<rparr>)))"
    by (auto simp: keepsP_def case_prod_beta same_seats_def split: option.splits intro: frame_fields)
qed simp_all

lemma backoff_delay_keeps [keeps_intros]: "keepsP I (backoff_delay cfg policy attempt)"
  by (auto simp: backoff_delay_def keepsP_def case_prod_beta same_seats_def intro: frame_fields)

lemma prepare_retry_keeps [keeps_intros]: "keepsP I (prepare_retry cfg d attempt error)"
  unfolding prepare_retry_def by (intro keeps_intros node_transition_keeps) simp_all

lemma after_failure_keeps [keeps_intros]: "keepsA I again \<Longrightarrow> keepsA I (after_failure cfg d attempt again err)"
  unfolding after_failure_def Let_def by (auto intro!: keeps_intros)

lemma attempt_node_keeps [keeps_intros]: "keepsA I again \<Longrightarrow> keepsA I (attempt_node cfg d job attempt again)"
  unfolding attempt_node_def by (intro keeps_intros)

lemma retry_loop_keeps: "keepsA I (retry_loop cfg d job n attempt)"
  by (induction n arbitrary: attempt) (simp_all add: keeps_intros)

lemma executeWithRetry_keeps [keeps_intros]: "keepsA I (executeWithRetry cfg d job)"
  unfolding executeWithRetry_def by (rule retry_loop_keeps)

end

section \<open>Completing and delivering\<close>

locale executor_completing = executor_frame cfg I for cfg :: "'w exec_options" and I :: "'w exec_state \<Rightarrow> bool" +
  assumes complete: "I s \<Longrightarrow> status_of s i = Some WS_VERIFYING \<Longrightarrow> I (record_completion i r s)"
begin

lemma record_keeps:
  assumes "\<And>a. keepsP I (g a)"
  shows "keepsP I (bindP (node_transition i WE_COMPLETE) (\<lambda>_.
     bindP (modify (\<lambda>s. (upd_node i (\<lambda>n. n\<lparr>in_result := Some r\<rparr>) s)
         \<lparr>ex_results := map_set i r (ex_results s), ex_completionOrder := ex_completionOrder s @ [i]\<rparr>)) g))"
proof -
  let ?f = "\<lambda>s. (upd_node i (\<lambda>n. n\<lparr>in_result := Some r\<rparr>) s)
         \<lparr>ex_results := map_set i r (ex_results s), ex_completionOrder := ex_completionOrder s @ [i]\<rparr>"
  have rec: "?f (set_status i WS_COMPLETED s) = record_completion i r s" for s
    by (simp add: record_completion_def)
  show ?thesis
    unfolding keepsP_def
  proof (intro allI impI)
    fix s assume s: "I s"
    show "I (snd (bindP (node_transition i WE_COMPLETE) (\<lambda>_. bindP (modify ?f) g) s))"
    proof (cases "status_of s i = Some WS_VERIFYING")
      case True
      then have "I (record_completion i r s)" by (rule complete [OF s])
      then show ?thesis using True keepsP_D [OF assms]
        by (simp add: bindP_def node_transition_eq next_COMPLETE modify_def rec [simplified])
    next
      case False
      then show ?thesis using s by (auto simp: bindP_def node_transition_eq next_COMPLETE split: option.splits)
    qed
  qed
qed

lemma completeNode_keeps [keeps_intros]: "keepsP I (completeNode cfg d r)"
proof -
  have verify: "keepsP I (\<lambda>s. if status_of s (node_id d) = Some WS_RUNNING then node_transition (node_id d) WE_VERIFY s else (Inr (), s))"
    using node_transition_keeps [of WE_VERIFY "node_id d"] by (simp add: keepsP_def)
  have "keepsP I (\<lambda>s. emit (WorkflowNodeCompleted (node_id d) r (operationId s d) key) s)" for key
    using emit_keeps by (simp add: keepsP_def)
  then have "keepsP I (bindP (\<lambda>s. (keyOf cfg s d, s)) (\<lambda>key.
      bindP (\<lambda>s. emit (WorkflowNodeCompleted (node_id d) r (operationId s d) key) s) (\<lambda>_. promoteReady)))"
    by (intro keepsP_bind promoteReady_keeps) (simp add: keepsP_def)
  then show ?thesis unfolding completeNode_def by (intro keepsP_bind [OF verify] record_keeps)
qed

end

locale executor_delivering = executor_completing cfg I for cfg :: "'w exec_options" and I :: "'w exec_state \<Rightarrow> bool" +
  assumes put_keeps: "I s \<Longrightarrow> I (put_idempotency st s)"
begin

lemma idem_run_keeps: "keepsA I fn \<Longrightarrow> keepsA I (idem_run ex_idempotency put_idempotency key fn)"
proof -
  assume fn: "keepsA I fn"
  have join: "keepsP I (idem_join ex_idempotency key)"
    by (auto simp: keepsP_def idem_join_def split: option.splits)
  let ?m = "catchA
      (bindA fn (\<lambda>r t. let st = ex_idempotency t in
         (Ret r, put_idempotency (st\<lparr>id_completed := map_set key r (id_completed st),
            id_inFlight := map_del key (id_inFlight st)\<rparr>) t)))
      (\<lambda>e t. let st = ex_idempotency t in
         (Throw e, put_idempotency (st\<lparr>id_inFlight := map_set key (Some e) (id_inFlight st)\<rparr>) t))"
  have "keepsA I ?m"
    by (intro keepsA_catch keepsA_bind fn) (auto simp: keepsA_def Let_def put_keeps)
  then have "keepsA I (\<lambda>s. ?m (put_idempotency ((ex_idempotency s)\<lparr>id_inFlight := map_set key None (id_inFlight (ex_idempotency s))\<rparr>) s))"
    by (rule keepsA_moved) (rule put_keeps)
  then show ?thesis unfolding idem_run_def
    by (intro keepsA_option keepsA_await keepsA_wait keepsP_return join)
qed

lemma deliver_job_keeps [keeps_intros]: "keepsA I (deliver_job cfg d job)"
proof -
  have "keepsA I (bindA (awaited (idem_run ex_idempotency put_idempotency (wj_idempotencyKey job)
        (awaited (executeWithRetry cfg d job)))) (\<lambda>result.
       syncA (bindP (modify (\<lambda>s. if dup then s\<lparr>ex_deduped := ex_deduped s + 1\<rparr> else s)) (\<lambda>_ s.
         if node_terminal s (node_id d) then (Inr (), s) else completeNode cfg d result s))))" for dup
    by (intro keepsA_bind keepsA_awaited idem_run_keeps executeWithRetry_keeps keepsA_sync keepsP_bind keepsP_if
        completeNode_keeps keepsP_return [unfolded returnP_def] modify_frame same_progress_nodes) (auto simp: same_seats_def)
  then show ?thesis unfolding deliver_job_def Let_def by (rule keepsA_reader)
qed

end

locale executor_jobs = executor_completing cfg I for cfg :: "'w exec_options" and I :: "'w exec_state \<Rightarrow> bool" +
  assumes reseat: "I s \<Longrightarrow> same_progress s s' \<Longrightarrow> I s'"

sublocale executor_jobs \<subseteq> executor_delivering
  by unfold_locales (erule reseat, simp add: put_idempotency_def same_progress_nodes)

context executor_jobs
begin

lemma acquire_slot_keeps [keeps_intros]: "keepsA I (acquire_slot cfg slot)"
proof -
  have "keepsA I (waitA g (modify (\<lambda>t. t\<lparr>ex_limiter := f t\<rparr>)))" for g f
    by (intro keepsA_wait) (auto simp: keepsP_def modify_def intro!: same_progress_nodes elim!: reseat)
  then show ?thesis unfolding acquire_slot_def
    by (intro keepsA_if) (auto simp: keepsA_def intro!: same_progress_nodes elim!: reseat)
qed

lemma runJob_keeps [keeps_intros]: "keepsA I (runJob cfg job)"
  unfolding runJob_def Let_def
proof (intro keepsA_if keepsA_option keepsA_return)
  fix n
  have handler: "keepsA I (if is_crash e then throwA e
      else (\<lambda>s. if node_terminal s (node_id (in_def n)) then returnA () s
        else awaited (failNode cfg (in_def n) (err_message e) False) s))" for e
    by (auto intro!: keepsA_throw keepsA_if keepsA_return keepsA_awaited failNode_keeps)
  have "I s \<Longrightarrow> I (release_slot slot s)" for slot s
    by (erule reseat) (simp add: release_slot_def same_progress_nodes)
  then show "keepsA I (\<lambda>s. bindA (acquire_slot cfg (job_slot job (in_def n))) (\<lambda>_.
      finallyA (catchA (deliver_job cfg (in_def n) job) (\<lambda>e.
        if is_crash e then throwA e
        else (\<lambda>s. if node_terminal s (node_id (in_def n)) then returnA () s
          else awaited (failNode cfg (in_def n) (err_message e) False) s)))
        (release_slot (job_slot job (in_def n)))) s)"
    by (intro keepsA_bind acquire_slot_keeps keepsA_finally keepsA_catch deliver_job_keeps handler)
qed

end

section \<open>Cancelling, workers and rounds\<close>

locale executor_queueing = executor_frame cfg I for cfg :: "'w exec_options" and I :: "'w exec_state \<Rightarrow> bool" +
  assumes requeue: "I s \<Longrightarrow> I (s\<lparr>ex_queue := q\<rparr>)"
begin

lemma toJobs_keeps: "keepsP I (toJobs cfg ns)"
proof (induction ns)
  case Nil
  then show ?case by (simp add: keepsP_return)
next
  case (Cons n ns)
  have "keepsP I (toJob cfg n)"
    by (auto simp: keepsP_def toJob_def case_prod_beta same_seats_def split: sum.splits intro: frame_fields)
  with Cons show ?case by (auto intro: keepsP_bind keepsP_return)
qed

lemma enqueue_ready_keeps [keeps_intros]: "keepsP I (enqueue_ready cfg)"
proof -
  have "keepsP I (modify (\<lambda>s. s\<lparr>ex_queue := queue_enqueue job (ex_queue s)\<rparr>))" for job
    by (simp add: keepsP_def modify_def requeue)
  then have "keepsP I (enqueue_job job)" for job
    unfolding enqueue_job_def by (intro keepsP_bind emit_keeps)
  then have "keepsP I (bindP (toJobs cfg ns) (forP enqueue_job))" for ns
    by (intro keepsP_bind toJobs_keeps keepsP_for)
  then show ?thesis by (simp add: enqueue_ready_def keepsP_def)
qed

end

locale executor_invariant = executor_jobs cfg I + executor_queueing cfg I
  for cfg :: "'w exec_options" and I :: "'w exec_state \<Rightarrow> bool" +
  assumes cancel_node: "I s \<Longrightarrow> status_of s i = Some st \<Longrightarrow> \<not> isTerminal st \<Longrightarrow> I (set_status i WS_CANCELLED s)"
    and cancel_flag: "I s \<Longrightarrow> I (cancel reason s)"
begin

lemma cancel_one_keeps: "keepsP I (cancel_one reason i)"
  unfolding keepsP_def
proof (intro allI impI)
  fix s assume s: "I s"
  show "I (snd (cancel_one reason i s))"
  proof (cases "map_get (ex_nodes s) i")
    case None
    then show ?thesis using s by (simp add: cancel_one_def)
  next
    case (Some n)
    then have "status_of s i = Some (in_status n)" by (simp add: status_of_def)
    then have "\<not> isTerminal (in_status n) \<Longrightarrow> I (set_status i WS_CANCELLED s)" using cancel_node [OF s] by blast
    then show ?thesis using Some s keepsP_D [OF emit_keeps]
      by (simp add: cancel_one_def bindP_def modify_def set_status_def)
  qed
qed

lemma cancelAll_keeps [keeps_intros]: "keepsP I (cancelAll reason)"
proof -
  have "keepsP I (forP (cancel_one reason) ks)" for ks by (intro keepsP_for cancel_one_keeps)
  then have "keepsP I (\<lambda>s. forP (cancel_one reason) (map_keys (ex_nodes s)) s)" by (simp add: keepsP_def)
  moreover have "keepsP I (\<lambda>s. emit (WorkflowRunCancelled (ex_runId s) reason) s)"
    using emit_keeps by (simp add: keepsP_def)
  ultimately show ?thesis unfolding cancelAll_def by (intro keepsP_bind)
qed

lemma worker_keeps: "keepsA I (worker cfg n)"
proof (induction n)
  case 0
  then show ?case by (simp add: keepsA_return)
next
  case (Suc n)
  have "keepsA I (bindA (awaited (runJob cfg job)) (\<lambda>_. worker cfg n))" for job
    by (intro keepsA_bind keepsA_awaited runJob_keeps Suc)
  then show ?case
    using keepsA_return [of I "()"] requeue by (auto simp: keepsA_def case_prod_beta split: option.splits prod.splits)
qed

lemma cancels_keeps: "cancels s s' \<Longrightarrow> I s \<Longrightarrow> I s'"
  by (auto simp: cancels_def intro: cancel_flag)

lemma cancels_star_keeps: "cancels\<^sup>*\<^sup>* s s' \<Longrightarrow> I s \<Longrightarrow> I s'"
  by (induction rule: rtranclp_induct) (auto intro: cancels_keeps)

lemma pool_keeps:
  assumes "pool_reach cancels (start_pool (workers cfg s) s) (s', ts)" "I s"
  shows "I s'"
proof -
  have "pool_inv I (start_pool (workers cfg s) s)"
    by (rule start_pool_inv [where I = I, OF assms(2)]) (auto simp: workers_def worker_keeps)
  then have "pool_inv I (s', ts)" by (rule pool_reach_inv [OF assms(1)]) (rule cancels_keeps)
  then show ?thesis by (simp add: pool_inv_def)
qed

lemma dispatched_keeps: "dispatched cfg s r s' \<Longrightarrow> I s \<Longrightarrow> I s'"
  by (induction rule: dispatched.induct) (auto intro: pool_keeps)

lemma drive_loop_keeps: "drive_loop cfg s r s' \<Longrightarrow> I s \<Longrightarrow> I s'"
proof (induction rule: drive_loop.induct)
  case (cancelled s r s')
  have "keepsP I (bindP (cancelAll (case ex_cancelledReason s of None \<Rightarrow> ''cancelled'' | Some r \<Rightarrow> r))
      (\<lambda>_. bindP finalize (\<lambda>_. persist_call cfg)))" by (intro keeps_intros)
  from keepsP_D [OF this cancelled.prems] show ?case by (simp add: cancelled.hyps)
next
  case (idle s r s')
  have "keepsP I (bindP finalize (\<lambda>_. persist_call cfg))" by (intro keeps_intros)
  from keepsP_D [OF this idle.prems] show ?case by (simp add: idle.hyps)
next
  case (round s s1 s2 s3 r s')
  have "keepsP I (bindP (enqueue_ready cfg) (\<lambda>_. persist_call cfg))" by (intro keeps_intros)
  from keepsP_D [OF this round.prems] have "I s1" by (simp add: round.hyps)
  then show ?case using cancels_star_keeps dispatched_keeps round.hyps round.IH by blast
next
  case (enqueue_throws s e s')
  have "keepsP I (bindP (enqueue_ready cfg) (\<lambda>_. persist_call cfg))" by (intro keeps_intros)
  from keepsP_D [OF this enqueue_throws.prems] show ?case by (simp add: enqueue_throws.hyps)
next
  case (dispatch_throws s s1 s2 e s')
  have "keepsP I (bindP (enqueue_ready cfg) (\<lambda>_. persist_call cfg))" by (intro keeps_intros)
  from keepsP_D [OF this dispatch_throws.prems] have "I s1" by (simp add: dispatch_throws.hyps)
  then show ?case using cancels_star_keeps dispatched_keeps dispatch_throws.hyps by blast
qed

lemma drive_keeps: "drive cfg s r s' \<Longrightarrow> I s \<Longrightarrow> I s'"
proof (induction rule: drive.induct)
  case (promoted s s1 r s')
  then show ?case using keepsP_D [OF promoteReady_keeps promoted.prems] drive_loop_keeps by simp
next
  case (promote_throws s e s')
  then show ?case using keepsP_D [OF promoteReady_keeps promote_throws.prems] by simp
qed

end

end
