(* ===== verification/ExecutorRuns.thy ===== *)
theory ExecutorRuns
  imports ExecutorInv
begin

text \<open>
  What a run of the executor guarantees, whatever the handler does and however the jobs interleave:
  nodes complete in an order that respects their dependencies, each at most once, a node leaves
  \<open>PLANNED\<close> only when everything it depends on has completed, and a recorded result stays.  Both are
  invariants in the sense of the locale of ExecutorInv, interpreted here.
\<close>

section \<open>Order of completion\<close>

definition started :: "node_status \<Rightarrow> bool" where
  "started st \<longleftrightarrow> st \<notin> {WS_PLANNED, WS_CANCELLED, WS_SKIPPED}"

definition dep_ordered :: "(string \<Rightarrow> string list) \<Rightarrow> string list \<Rightarrow> bool" where
  "dep_ordered deps order \<longleftrightarrow> distinct order \<and> (\<forall>us i vs. order = us @ i # vs \<longrightarrow> set (deps i) \<subseteq> set us)"

lemma dep_ordered_Nil [simp]: "dep_ordered deps []"
  by (simp add: dep_ordered_def)

lemma dep_ordered_snoc: "dep_ordered deps (order @ [i]) \<longleftrightarrow> dep_ordered deps order \<and> i \<notin> set order \<and> set (deps i) \<subseteq> set order"
proof
  assume l: "dep_ordered deps (order @ [i])"
  then have "set (deps k) \<subseteq> set us" if "order = us @ k # vs" for us k vs
    using that by (simp add: dep_ordered_def)
  moreover have "set (deps i) \<subseteq> set order" using l by (auto simp: dep_ordered_def)
  ultimately show "dep_ordered deps order \<and> i \<notin> set order \<and> set (deps i) \<subseteq> set order"
    using l by (auto simp: dep_ordered_def)
next
  assume r: "dep_ordered deps order \<and> i \<notin> set order \<and> set (deps i) \<subseteq> set order"
  have "set (deps k) \<subseteq> set us" if "order @ [i] = us @ k # vs" for us k vs
    using that r by (cases vs rule: rev_cases) (auto simp: dep_ordered_def)
  then show "dep_ordered deps (order @ [i])" using r by (auto simp: dep_ordered_def)
qed

text \<open>\<open>ks\<close> and \<open>D\<close> are the keys and the nodes of the graph that is run.\<close>

definition progress_ok :: "string list \<Rightarrow> (string \<Rightarrow> workflow_node option) \<Rightarrow> 'w exec_state \<Rightarrow> bool" where
  "progress_ok ks D s \<longleftrightarrow>
     map_keys (ex_nodes s) = ks \<and> def_of s = D \<and>
     (\<forall>i st. status_of s i = Some st \<and> started st \<longrightarrow>
        (\<forall>d \<in> set (deps_of s i). status_of s d = Some WS_COMPLETED)) \<and>
     (\<forall>i. status_of s i = Some WS_COMPLETED \<longleftrightarrow> i \<in> set (ex_completionOrder s)) \<and>
     (\<forall>i. status_of s i = Some WS_COMPLETED \<longrightarrow> result_of s i \<noteq> None) \<and>
     (\<forall>i. status_of s i = Some WS_COMPLETED \<longrightarrow> map_get (ex_results s) i = result_of s i) \<and>
     (\<forall>i. map_get (ex_results s) i \<noteq> None \<longrightarrow> status_of s i = Some WS_COMPLETED) \<and>
     dep_ordered (deps_of s) (ex_completionOrder s)"

lemma progress_okI:
  "map_keys (ex_nodes s) = ks \<Longrightarrow> def_of s = D \<Longrightarrow>
    (\<And>i st d. status_of s i = Some st \<Longrightarrow> started st \<Longrightarrow> d \<in> set (deps_of s i) \<Longrightarrow> status_of s d = Some WS_COMPLETED) \<Longrightarrow>
    (\<And>i. status_of s i = Some WS_COMPLETED \<longleftrightarrow> i \<in> set (ex_completionOrder s)) \<Longrightarrow>
    (\<And>i. status_of s i = Some WS_COMPLETED \<Longrightarrow> result_of s i \<noteq> None) \<Longrightarrow>
    (\<And>i. status_of s i = Some WS_COMPLETED \<Longrightarrow> map_get (ex_results s) i = result_of s i) \<Longrightarrow>
    (\<And>i. map_get (ex_results s) i \<noteq> None \<Longrightarrow> status_of s i = Some WS_COMPLETED) \<Longrightarrow>
    dep_ordered (deps_of s) (ex_completionOrder s) \<Longrightarrow> progress_ok ks D s"
  unfolding progress_ok_def by blast

lemma progress_okD:
  assumes "progress_ok ks D s"
  shows progress_keys: "map_keys (ex_nodes s) = ks"
    and progress_defs: "def_of s = D"
    and progress_deps: "status_of s i = Some st \<Longrightarrow> started st \<Longrightarrow> d \<in> set (deps_of s i) \<Longrightarrow> status_of s d = Some WS_COMPLETED"
    and progress_order: "status_of s i = Some WS_COMPLETED \<longleftrightarrow> i \<in> set (ex_completionOrder s)"
    and progress_has_result: "status_of s i = Some WS_COMPLETED \<Longrightarrow> result_of s i \<noteq> None"
    and progress_result: "status_of s i = Some WS_COMPLETED \<Longrightarrow> map_get (ex_results s) i = result_of s i"
    and progress_results: "map_get (ex_results s) i \<noteq> None \<Longrightarrow> status_of s i = Some WS_COMPLETED"
    and progress_ordered: "dep_ordered (deps_of s) (ex_completionOrder s)"
  using assms unfolding progress_ok_def by blast+

lemma progress_frame:
  assumes "progress_ok ks D s" "same_progress s s'"
  shows "progress_ok ks D s'"
proof -
  have "def_of s' = def_of s" using assms(2) by (simp add: same_progress_def)
  then have "deps_of s' = deps_of s" by (simp add: deps_of_def fun_eq_iff)
  with assms(2) have "progress_ok ks D s' = progress_ok ks D s"
    by (simp only: progress_ok_def same_progress_def)
  then show ?thesis using assms(1) by simp
qed

lemma progress_ok_nodes:
  "ex_nodes s' = ex_nodes s \<Longrightarrow> ex_results s' = ex_results s \<Longrightarrow> ex_completionOrder s' = ex_completionOrder s \<Longrightarrow>
    progress_ok ks D s' = progress_ok ks D s"
proof -
  assume same: "ex_nodes s' = ex_nodes s" "ex_results s' = ex_results s" "ex_completionOrder s' = ex_completionOrder s"
  then have "def_of s' = def_of s" "status_of s' = status_of s" "result_of s' = result_of s"
    by (simp_all add: def_of_def status_of_def result_of_def fun_eq_iff)
  moreover from this have "deps_of s' = deps_of s" by (simp add: deps_of_def fun_eq_iff)
  ultimately show ?thesis using same by (simp only: progress_ok_def)
qed

lemma deps_of_simps [simp]:
  "deps_of (set_status i st s) = deps_of s"
  "deps_of (record_completion i r s) = deps_of s"
  by (simp_all add: deps_of_def fun_eq_iff)

lemma next_started: "next_state workflowNodeMachine st e = Some st' \<Longrightarrow> e \<noteq> WE_PREPARE \<Longrightarrow> started st' \<Longrightarrow> started st"
  by (cases st) (auto simp: workflow_next_simps started_def split: if_splits)

lemma progress_move:
  assumes p: "progress_ok ks D s" and i: "status_of s i = Some st" and not: "st \<noteq> WS_COMPLETED" "st' \<noteq> WS_COMPLETED"
    and deps: "\<And>d. started st' \<Longrightarrow> d \<in> set (deps_of s i) \<Longrightarrow> status_of s d = Some WS_COMPLETED"
  shows "progress_ok ks D (set_status i st' s)"
proof -
  have other: "status_of (set_status i st' s) k = Some WS_COMPLETED \<longleftrightarrow> status_of s k = Some WS_COMPLETED" for k
    using i not by simp
  show ?thesis
  proof (rule progress_okI)
    fix k st1 d
    assume k: "status_of (set_status i st' s) k = Some st1" "started st1" "d \<in> set (deps_of (set_status i st' s) k)"
    have "status_of s d = Some WS_COMPLETED"
    proof (cases "k = i")
      case True
      then show ?thesis using k i deps by simp
    next
      case False
      then show ?thesis using k progress_deps [OF p, of k st1 d] by simp
    qed
    then show "status_of (set_status i st' s) d = Some WS_COMPLETED" unfolding other .
  next
    fix k
    show "status_of (set_status i st' s) k = Some WS_COMPLETED \<longleftrightarrow> k \<in> set (ex_completionOrder (set_status i st' s))"
      unfolding other by (simp add: progress_order [OF p])
    show "map_get (ex_results (set_status i st' s)) k \<noteq> None \<Longrightarrow> status_of (set_status i st' s) k = Some WS_COMPLETED"
      unfolding other using progress_results [OF p] by simp
    assume k: "status_of (set_status i st' s) k = Some WS_COMPLETED"
    then show "result_of (set_status i st' s) k \<noteq> None"
      unfolding other using progress_has_result [OF p] by simp
    from k show "map_get (ex_results (set_status i st' s)) k = result_of (set_status i st' s) k"
      unfolding other using progress_result [OF p] by simp
  qed (use progress_keys [OF p] progress_defs [OF p] progress_ordered [OF p] in simp_all)
qed

lemma progress_complete:
  assumes p: "progress_ok ks D s" and i: "status_of s i = Some WS_VERIFYING"
  shows "progress_ok ks D (record_completion i r s)"
proof -
  let ?s = "record_completion i r s"
  have new: "status_of s i \<noteq> Some WS_COMPLETED" using i by simp
  have other: "status_of ?s k = Some WS_COMPLETED \<longleftrightarrow> k = i \<or> status_of s k = Some WS_COMPLETED" for k
    using i by simp
  have deps: "d \<in> set (deps_of s i) \<Longrightarrow> status_of s d = Some WS_COMPLETED" for d
    using progress_deps [OF p i] by (simp add: started_def)
  show ?thesis
  proof (rule progress_okI)
    fix k st1 d
    assume k: "status_of ?s k = Some st1" "started st1" "d \<in> set (deps_of ?s k)"
    have "status_of s d = Some WS_COMPLETED"
      using k deps progress_deps [OF p, of k st1 d] by (cases "k = i") simp_all
    then show "status_of ?s d = Some WS_COMPLETED" unfolding other by (rule disjI2)
  next
    fix k
    show "status_of ?s k = Some WS_COMPLETED \<longleftrightarrow> k \<in> set (ex_completionOrder ?s)"
      unfolding other by (auto simp: progress_order [OF p])
    show "map_get (ex_results ?s) k \<noteq> None \<Longrightarrow> status_of ?s k = Some WS_COMPLETED"
      unfolding other using progress_results [OF p] by (auto split: if_splits)
    assume k: "status_of ?s k = Some WS_COMPLETED"
    then show "result_of ?s k \<noteq> None"
      unfolding other using progress_has_result [OF p] i by auto
    from k show "map_get (ex_results ?s) k = result_of ?s k"
      unfolding other using progress_result [OF p] i by auto
  next
    have "i \<notin> set (ex_completionOrder s)" using new progress_order [OF p] by simp
    moreover have "set (deps_of s i) \<subseteq> set (ex_completionOrder s)" using deps progress_order [OF p] by blast
    ultimately show "dep_ordered (deps_of ?s) (ex_completionOrder ?s)"
      using progress_ordered [OF p] by (simp add: dep_ordered_snoc)
  qed (use progress_keys [OF p] progress_defs [OF p] in simp_all)
qed

interpretation order: executor_invariant cfg "progress_ok ks D" for cfg ks D
proof unfold_locales
  fix s s' i st st' event r
  show "progress_ok ks D s \<Longrightarrow> same_progress s s' \<Longrightarrow> progress_ok ks D s'" by (rule progress_frame)
  show "progress_ok ks D s \<Longrightarrow> same_progress s s' \<Longrightarrow> progress_ok ks D s'" by (rule progress_frame)
  show "progress_ok ks D s \<Longrightarrow> progress_ok ks D (cancel reason s)" "progress_ok ks D s \<Longrightarrow> progress_ok ks D (s\<lparr>ex_queue := q\<rparr>)" for reason q
    by (subst (asm) progress_ok_nodes [symmetric]; simp add: cancel_def)+
  show "progress_ok ks D s \<Longrightarrow> status_of s i = Some WS_VERIFYING \<Longrightarrow> progress_ok ks D (record_completion i r s)"
    by (rule progress_complete)
  show "progress_ok ks D s \<Longrightarrow> status_of s i = Some WS_PLANNED \<Longrightarrow>
      list_all (\<lambda>d. status_of s d = Some WS_COMPLETED) (deps_of s i) \<Longrightarrow> progress_ok ks D (set_status i WS_READY s)"
    by (rule progress_move [where st = WS_PLANNED]) (simp_all add: list_all_iff)
  show "progress_ok ks D s \<Longrightarrow> status_of s i = Some st \<Longrightarrow> \<not> isTerminal st \<Longrightarrow> progress_ok ks D (set_status i WS_CANCELLED s)"
    by (rule progress_move [where st = st]) (auto simp: started_def)
  show "progress_ok ks D (set_status i st' s)"
    if "progress_ok ks D s" "status_of s i = Some st" "next_state workflowNodeMachine st event = Some st'"
      "event \<noteq> WE_COMPLETE" "event \<noteq> WE_PREPARE"
  proof (rule progress_move [OF that(1,2)])
    show "st \<noteq> WS_COMPLETED" "st' \<noteq> WS_COMPLETED" using next_not_completed [OF that(3,4)] by simp_all
    show "status_of s d = Some WS_COMPLETED" if "started st'" "d \<in> set (deps_of s i)" for d
      using next_started [OF \<open>next_state _ st event = _\<close> \<open>event \<noteq> WE_PREPARE\<close> that(1)] that(2)
        progress_deps [OF \<open>progress_ok ks D s\<close> \<open>status_of s i = Some st\<close>] by blast
  qed
qed

section \<open>Starting a run\<close>

lemma make_nodes_from:
  "distinct (map fst m @ map node_id nodes) \<Longrightarrow>
    fold (\<lambda>n m. map_set (node_id n) (makeNode n) m) nodes m = m @ map (\<lambda>n. (node_id n, makeNode n)) nodes"
proof (induction nodes arbitrary: m)
  case Nil
  then show ?case by simp
next
  case (Cons n nodes)
  have "map_set (node_id n) (makeNode n) m = m @ [(node_id n, makeNode n)]"
    using Cons.prems by (intro map_set_new) (auto simp: map_of_eq_None_iff)
  then show ?case using Cons.prems Cons.IH [of "m @ [(node_id n, makeNode n)]"] by auto
qed

lemma make_nodes_distinct:
  "distinct (map node_id nodes) \<Longrightarrow> make_nodes nodes = map (\<lambda>n. (node_id n, makeNode n)) nodes"
  using make_nodes_from [of "[]" nodes] by (simp add: make_nodes_def)

lemma make_nodes_planned: "map_get (make_nodes graph) i = Some n \<Longrightarrow>
    \<exists>d. n = makeNode d \<and> d \<in> set graph \<and> node_id d = i"
proof -
  have "map_get (fold (\<lambda>n m. map_set (node_id n) (makeNode n) m) graph m) i = Some n \<Longrightarrow>
      \<forall>k v. map_get m k = Some v \<longrightarrow> P k v \<Longrightarrow> \<forall>d \<in> set graph. P (node_id d) (makeNode d) \<Longrightarrow> P i n" for P m
    by (induction graph arbitrary: m) (auto split: if_splits)
  from this [of "[]" "\<lambda>k v. \<exists>d. v = makeNode d \<and> d \<in> set graph \<and> node_id d = k"]
  show "map_get (make_nodes graph) i = Some n \<Longrightarrow> ?thesis" by (auto simp: make_nodes_def)
qed

lemma fresh_progress:
  assumes "ex_nodes s = make_nodes graph" "ex_results s = []" "ex_completionOrder s = []"
  shows "progress_ok (map_keys (make_nodes graph)) (\<lambda>i. map_option in_def (map_get (make_nodes graph) i)) s"
proof -
  have "status_of s i = Some st \<Longrightarrow> st = WS_PLANNED" for i st
    using assms(1) make_nodes_planned by (fastforce simp: status_of_def makeNode_def)
  then show ?thesis using assms by (force simp: progress_ok_def started_def def_of_def fun_eq_iff)
qed

lemma start_run_progress:
  assumes "is_ok (validateGraph graph)" "start_run cfg graph opts s = (r, s')"
  shows "progress_ok (map_keys (make_nodes graph)) (\<lambda>i. map_option in_def (map_get (make_nodes graph) i)) s'"
proof -
  let ?I = "progress_ok (map_keys (make_nodes graph)) (\<lambda>i. map_option in_def (map_get (make_nodes graph) i))"
  from assms obtain u where u: "validateGraph graph = Inr u" by (auto simp: is_ok_iff)
  have "\<exists>rid tid s1. start_run cfg graph opts s = bindP (emit (WorkflowRunCreated rid tid graph)) (\<lambda>_. persist_call cfg) s1 \<and>
      ex_nodes s1 = make_nodes graph \<and> ex_results s1 = [] \<and> ex_completionOrder s1 = []"
    by (simp add: start_run_def u Let_def split: option.splits prod.splits)
      (intro allI impI conjI exI; (rule refl)?; simp)
  then obtain rid tid s1 where run: "start_run cfg graph opts s = bindP (emit (WorkflowRunCreated rid tid graph)) (\<lambda>_. persist_call cfg) s1"
      and s1: "ex_nodes s1 = make_nodes graph" "ex_results s1 = []" "ex_completionOrder s1 = []" by blast
  have "keepsP ?I (bindP (emit (WorkflowRunCreated rid tid graph)) (\<lambda>_. persist_call cfg))"
    by (intro keepsP_bind order.emit_keeps order.persist_call_keeps)
  from keepsP_D [OF this fresh_progress [OF s1]] show ?thesis using assms(2) run by simp
qed

lemma cancels_progress: "cancels\<^sup>*\<^sup>* s s' \<Longrightarrow> progress_ok ks D s \<Longrightarrow> progress_ok ks D s'"
  by (rule order.cancels_star_keeps)

lemma run_progress:
  assumes "is_ok (validateGraph graph)" "run_workflow cfg graph opts s r s'"
  shows "progress_ok (map_keys (make_nodes graph)) (\<lambda>i. map_option in_def (map_get (make_nodes graph) i)) s'"
  using assms(2)
proof cases
  case (returns s1 s2)
  then show ?thesis using start_run_progress [OF assms(1)] cancels_progress order.drive_keeps by blast
next
  case (start_throws e)
  then show ?thesis using start_run_progress [OF assms(1)] by blast
next
  case (drive_throws s1 s2 e)
  then show ?thesis using start_run_progress [OF assms(1)] cancels_progress order.drive_keeps by blast
qed

lemma validated_distinct: "is_ok (validateGraph graph) \<Longrightarrow> distinct (map node_id graph)"
proof -
  assume "is_ok (validateGraph graph)"
  then have "length (remdups (map node_id graph)) = length (map node_id graph)"
    by (auto simp: validateGraph_validateDag validateDag_def split: if_splits)
  then show ?thesis by (metis distinct_remdups length_remdups_eq)
qed

lemma make_nodes_get:
  assumes "is_ok (validateGraph graph)" "n \<in> set graph"
  shows "map_get (make_nodes graph) (node_id n) = Some (makeNode n)"
proof -
  have d: "distinct (map node_id graph)" by (rule validated_distinct [OF assms(1)])
  then have "distinct (map fst (map (\<lambda>n. (node_id n, makeNode n)) graph))" by (simp add: comp_def)
  then show ?thesis using assms(2) by (auto simp: make_nodes_distinct [OF d] intro!: map_of_is_SomeI)
qed

text \<open>A recorded result stays, and completions are only added at the end.\<close>

definition keeps_result :: "string \<Rightarrow> node_result \<Rightarrow> string list \<Rightarrow> 'w exec_state \<Rightarrow> bool" where
  "keeps_result i r done_before s \<longleftrightarrow>
     status_of s i = Some WS_COMPLETED \<and> result_of s i = Some r \<and> map_get (ex_results s) i = Some r \<and>
     (\<exists>later. ex_completionOrder s = done_before @ later)"

interpretation permanent: executor_invariant cfg "keeps_result i r before" for cfg i r before
proof unfold_locales
  fix s s' :: "'a exec_state" and k st st' event r'
  show "keeps_result i r before s \<Longrightarrow> keeps_result i r before (cancel reason s)"
      "keeps_result i r before s \<Longrightarrow> keeps_result i r before (s\<lparr>ex_queue := q\<rparr>)" for reason q
    by (simp_all add: keeps_result_def cancel_def status_of_def result_of_def)
  show "keeps_result i r before s \<Longrightarrow> same_progress s s' \<Longrightarrow> keeps_result i r before s'"
    "keeps_result i r before s \<Longrightarrow> same_progress s s' \<Longrightarrow> keeps_result i r before s'"
    by (simp_all add: keeps_result_def same_progress_def)
  show "keeps_result i r before s \<Longrightarrow> status_of s k = Some WS_VERIFYING \<Longrightarrow> keeps_result i r before (record_completion k r' s)"
    by (auto simp: keeps_result_def)
  show "keeps_result i r before s \<Longrightarrow> status_of s k = Some WS_PLANNED \<Longrightarrow>
      list_all (\<lambda>d. status_of s d = Some WS_COMPLETED) (deps_of s k) \<Longrightarrow> keeps_result i r before (set_status k WS_READY s)"
    by (auto simp: keeps_result_def)
  show "keeps_result i r before s \<Longrightarrow> status_of s k = Some st \<Longrightarrow> \<not> isTerminal st \<Longrightarrow>
      keeps_result i r before (set_status k WS_CANCELLED s)"
    by (auto simp: keeps_result_def)
  show "keeps_result i r before s \<Longrightarrow> status_of s k = Some st \<Longrightarrow> next_state workflowNodeMachine st event = Some st' \<Longrightarrow>
      event \<noteq> WE_COMPLETE \<Longrightarrow> event \<noteq> WE_PREPARE \<Longrightarrow> keeps_result i r before (set_status k st' s)"
    using next_not_completed by (fastforce simp: keeps_result_def)
qed

section \<open>Sequential runs\<close>

text \<open>With one worker and nobody cancelling, a run is a function; the number bounds its rounds.\<close>

fun drive_alone :: "'w exec_options \<Rightarrow> nat \<Rightarrow> 'w exec_state \<Rightarrow> (js_error + unit) option \<times> 'w exec_state" where
  "drive_alone cfg 0 s = (None, s)"
| "drive_alone cfg (Suc n) s =
     (if ex_cancelled s then
        (case bindP (cancelAll (case ex_cancelledReason s of None \<Rightarrow> ''cancelled'' | Some r \<Rightarrow> r))
           (\<lambda>_. bindP finalize (\<lambda>_. persist_call cfg)) s of (r, s') \<Rightarrow> (Some r, s'))
      else if ready_nodes s = [] then
        (case bindP finalize (\<lambda>_. persist_call cfg) s of (r, s') \<Rightarrow> (Some r, s'))
      else
        (case bindP (enqueue_ready cfg) (\<lambda>_. persist_call cfg) s of
           (Inl e, s') \<Rightarrow> (Some (Inl e), s')
         | (Inr _, s1) \<Rightarrow>
             (case run_alone (worker cfg (length (ex_queue s1))) s1 of
                (None, s2) \<Rightarrow> (None, s2)
              | (Some (Inl e), s2) \<Rightarrow> (Some (Inl e), s2)
              | (Some (Inr _), s2) \<Rightarrow> drive_alone cfg n s2)))"

lemma dispatched_alone:
  assumes "concurrency cfg = 1" "run_alone (worker cfg (length (ex_queue s))) s = (Some r, s')"
  shows "dispatched cfg s r s'"
proof -
  have "workers cfg s = [worker cfg (length (ex_queue s))]" using assms(1) by (simp add: workers_def)
  then have reach: "pool_reach cancels (start_pool (workers cfg s) s) (s', [sumR r])"
    using run_alone_pool [OF assms(2)] by simp
  show ?thesis
  proof (cases r)
    case (Inl e)
    with reach show ?thesis by (auto simp: sumR_def intro: dispatched.one_throws)
  next
    case (Inr u)
    with reach show ?thesis by (auto simp: sumR_def intro: dispatched.all_return)
  qed
qed

lemma drive_alone_drive: "concurrency cfg = 1 \<Longrightarrow> drive_alone cfg n s = (Some r, s') \<Longrightarrow> drive_loop cfg s r s'"
proof (induction n arbitrary: s)
  case 0
  then show ?case by simp
next
  case (Suc n)
  consider "ex_cancelled s" | "\<not> ex_cancelled s" "ready_nodes s = []"
    | e s1 where "\<not> ex_cancelled s" "ready_nodes s \<noteq> []" "bindP (enqueue_ready cfg) (\<lambda>_. persist_call cfg) s = (Inl e, s1)"
    | s1 where "\<not> ex_cancelled s" "ready_nodes s \<noteq> []" "bindP (enqueue_ready cfg) (\<lambda>_. persist_call cfg) s = (Inr (), s1)"
    by (cases "bindP (enqueue_ready cfg) (\<lambda>_. persist_call cfg) s") (metis (full_types) old.sum.exhaust old.unit.exhaust)
  then show ?case
  proof cases
    case 1
    then show ?thesis using Suc.prems(2) by (auto intro: drive_loop.cancelled split: prod.splits)
  next
    case 2
    then show ?thesis using Suc.prems(2) by (auto intro: drive_loop.idle split: prod.splits)
  next
    case 3
    then show ?thesis using Suc.prems(2) by (auto intro: drive_loop.enqueue_throws)
  next
    case 4
    obtain x s2 where run: "run_alone (worker cfg (length (ex_queue s1))) s1 = (Some x, s2)"
      using 4 Suc.prems(2) by (auto split: prod.splits option.splits)
    note d = dispatched_alone [OF Suc.prems(1) run]
    show ?thesis
    proof (cases x)
      case (Inl e)
      then show ?thesis using 4 run d Suc.prems(2) by (auto intro: drive_loop.dispatch_throws [OF 4 rtranclp.rtrancl_refl])
    next
      case (Inr u)
      then show ?thesis using 4 run d Suc.prems Suc.IH [of s2] by (auto intro: drive_loop.round [OF 4 rtranclp.rtrancl_refl])
    qed
  qed
qed

text \<open>A graph of two nodes, run with one worker; the second node succeeds on its second attempt.\<close>

definition demo_node :: "string \<Rightarrow> string list \<Rightarrow> workflow_node" where
  "demo_node i deps = \<lparr>node_id = i, node_deps = deps, wn_kind = NK_ACTION, wn_action = Some i, wn_input = None, wn_agentId = None,
     wn_tenantId = None, wn_toolId = None, wn_retry = None, wn_timeoutMs = None, wn_compensation = None,
     wn_condition = None, wn_approval = None\<rparr>"

definition demo_graph :: "workflow_node list" where
  "demo_graph = [(demo_node ''b'' [''a''])\<lparr>wn_retry := Some (DEFAULT_RETRY\<lparr>rp_maxAttempts := 2, rp_retryableErrors := [''*'']\<rparr>)\<rparr>,
     demo_node ''a'' []]"

text \<open>The action \<open>b\<close> fails the first time; the world lists the actions run.\<close>

definition demo_run :: "string \<Rightarrow> jsv \<Rightarrow> workflow_node \<Rightarrow> (string list, node_result) proc" where
  "demo_run action input d = (\<lambda>w. (if action = ''b'' \<and> action \<notin> set w then Inl (plain_error ''flaky'')
     else Inr \<lparr>nr_status = Success, nr_output = JObj [], nr_evidence = []\<rparr>, w @ [action]))"

definition demo_options :: "string list exec_options" where
  "demo_options = \<lparr>op_handler = \<lparr>hd_run = demo_run, hd_requiresApproval = None, hd_requestApproval = None\<rparr>,
     op_sha = (\<lambda>s. s), op_limits = Some (DEFAULT_BULKHEAD\<lparr>maxConcurrentJobs := 1\<rparr>), op_clock = (\<lambda>w. (0, w)),
     op_rng = (\<lambda>w. (0, w)), op_onPersist = None, op_onBeforeStart = None, op_failureGuard = None,
     op_sleep = (\<lambda>ms. returnP ()), op_compensations = None, op_late = (\<lambda>a i d w. False)\<rparr>"

definition demo_opts :: run_options where
  "demo_opts = \<lparr>ro_taskId = None, ro_runId = Some ''r'', ro_actor = None\<rparr>"

definition demo_started :: "string list exec_state" where
  "demo_started = snd (start_run demo_options demo_graph demo_opts (new_executor (Some []) []))"

definition demo_final :: "string list exec_state" where
  "demo_final = snd (drive_alone demo_options 3 (snd (promoteReady demo_started)))"

lemma demo_start:
  "is_ok (validateGraph demo_graph) \<and> fst (start_run demo_options demo_graph demo_opts (new_executor (Some []) [])) = Inr () \<and>
   fst (promoteReady demo_started) = Inr () \<and> concurrency demo_options = 1"
  by code_simp

lemma demo_done:
  "case drive_alone demo_options 3 (snd (promoteReady demo_started)) of (r, s') \<Rightarrow>
     r = Some (Inr ()) \<and> ex_completionOrder s' = [''a'', ''b''] \<and> ex_world s' = [''a'', ''b'', ''b''] \<and>
     deriveStatus (map in_status (map_values (ex_nodes s'))) = WR_COMPLETED"
  by code_simp

lemma demo_drive: "drive demo_options demo_started (Inr ()) demo_final"
proof -
  have "promoteReady demo_started = (Inr (), snd (promoteReady demo_started))"
    using demo_start by (metis prod.collapse)
  moreover have "drive_alone demo_options 3 (snd (promoteReady demo_started)) = (Some (Inr ()), demo_final)"
    using demo_done by (auto simp: demo_final_def split: prod.splits)
  ultimately show ?thesis
    using drive_alone_drive [of demo_options] demo_start by (blast intro: drive.promoted)
qed

lemma demo_run: "run_workflow demo_options demo_graph demo_opts (new_executor (Some []) []) (Inr (outcome demo_final)) demo_final"
proof (rule run_workflow.returns)
  show "start_run demo_options demo_graph demo_opts (new_executor (Some []) []) = (Inr (), demo_started)"
    using demo_start by (simp add: demo_started_def prod_eq_iff)
  show "cancels\<^sup>*\<^sup>* demo_started demo_started" by simp
qed (rule demo_drive)

section \<open>Properties\<close>

text \<open>C1.  Whatever the handler answers, however the jobs of a round interleave, whenever the run is
  cancelled and whether it returns or throws: a node of an accepted graph completes at most once and
  only after everything it depends on, a node that has got past \<open>READY\<close> has completed dependencies,
  and the results recorded are those of the completed nodes.\<close>

theorem completions_respect_dependencies:
  assumes "is_ok (validateGraph graph)" "run_workflow cfg graph opts s r s'" "n \<in> set graph"
  shows "distinct (ex_completionOrder s') \<and>
    (\<forall>us vs. ex_completionOrder s' = us @ node_id n # vs \<longrightarrow> set (node_deps n) \<subseteq> set us) \<and>
    (\<forall>st. status_of s' (node_id n) = Some st \<and> started st \<longrightarrow> set (node_deps n) \<subseteq> set (ex_completionOrder s')) \<and>
    (status_of s' (node_id n) = Some WS_COMPLETED \<longleftrightarrow> map_has (ex_results s') (node_id n))"
proof -
  note p = run_progress [OF assms(1,2)]
  have "def_of s' (node_id n) = Some n"
    by (simp add: progress_defs [OF p] make_nodes_get [OF assms(1,3)] makeNode_def)
  then have deps: "deps_of s' (node_id n) = node_deps n" by (simp add: deps_of_def)
  show ?thesis
  proof (intro conjI allI impI)
  show "distinct (ex_completionOrder s')"
    using progress_ordered [OF p] by (simp add: dep_ordered_def)
  fix us vs st
  show "ex_completionOrder s' = us @ node_id n # vs \<Longrightarrow> set (node_deps n) \<subseteq> set us"
    using progress_ordered [OF p] by (simp add: dep_ordered_def deps [symmetric])
  show "status_of s' (node_id n) = Some st \<and> started st \<Longrightarrow> set (node_deps n) \<subseteq> set (ex_completionOrder s')"
    using progress_deps [OF p, of "node_id n" st] progress_order [OF p] by (auto simp: deps)
  show "status_of s' (node_id n) = Some WS_COMPLETED \<longleftrightarrow> map_has (ex_results s') (node_id n)"
    using progress_has_result [OF p] progress_result [OF p] progress_results [OF p] by metis
  qed
qed

theorem completions_respect_dependencies_witness:
  "ex_completionOrder demo_final = [''a'', ''b''] \<and> distinct (ex_completionOrder demo_final) \<and>
   (status_of demo_final ''b'' = Some WS_COMPLETED \<longleftrightarrow> map_has (ex_results demo_final) ''b'')"
proof -
  let ?b = "(demo_node ''b'' [''a''])\<lparr>wn_retry := Some (DEFAULT_RETRY\<lparr>rp_maxAttempts := 2, rp_retryableErrors := [''*'']\<rparr>)\<rparr>"
  have b: "?b \<in> set demo_graph" "node_id ?b = ''b''" "node_deps ?b = [''a'']" by (simp_all add: demo_graph_def demo_node_def)
  have "ex_completionOrder demo_final = [''a'', ''b'']"
    using demo_done by (auto simp: demo_final_def split: prod.splits)
  with completions_respect_dependencies [OF _ demo_run b(1)] demo_start show ?thesis by (simp add: b)
qed

text \<open>C3.  A result once recorded is final: driving the executor on, with whatever interleaving, leaves a
  completed node completed with the same result and keeps the completions made so far, in their
  order, as the beginning of the list.\<close>

theorem completed_results_are_final:
  assumes "drive cfg s r s'" "status_of s i = Some WS_COMPLETED" "result_of s i = Some v"
    "map_get (ex_results s) i = Some v"
  shows "status_of s' i = Some WS_COMPLETED \<and> result_of s' i = Some v \<and> map_get (ex_results s') i = Some v \<and>
    (\<exists>later. ex_completionOrder s' = ex_completionOrder s @ later)"
  using permanent.drive_keeps [OF assms(1), of i v "ex_completionOrder s"] assms(2-4)
  by (simp add: keeps_result_def)

text \<open>A log in which \<open>a\<close> completed before the crash: only \<open>b\<close> is run again.\<close>

definition demo_log :: "workflow_body list" where
  "demo_log = [WorkflowRunCreated ''r'' ''task'' demo_graph, WorkflowNodeRunning ''a'' ''job-r-a'' 1 ''r:a'',
     WorkflowNodeCompleted ''a'' \<lparr>nr_status = Success, nr_output = JStr ''kept'', nr_evidence = []\<rparr> ''r:a'' ''k'',
     WorkflowNodeRunning ''b'' ''job-r-b'' 1 ''r:b'']"

definition demo_hydrated :: "string list exec_state" where
  "demo_hydrated = snd (hydrate demo_options demo_log (new_executor (Some []) []))"

lemma demo_resume:
  "status_of demo_hydrated ''a'' = Some WS_COMPLETED \<and>
   result_of demo_hydrated ''a'' = Some \<lparr>nr_status = Success, nr_output = JStr ''kept'', nr_evidence = []\<rparr> \<and>
   map_get (ex_results demo_hydrated) ''a'' = Some \<lparr>nr_status = Success, nr_output = JStr ''kept'', nr_evidence = []\<rparr> \<and>
   fst (promoteReady demo_hydrated) = Inr () \<and>
   (case drive_alone demo_options 3 (snd (promoteReady demo_hydrated)) of (r, s') \<Rightarrow>
     r = Some (Inr ()) \<and> ex_world s' = [''b'', ''b''])"
  by code_simp

lemma demo_resume_drive: "\<exists>s'. drive demo_options demo_hydrated (Inr ()) s' \<and> ex_world s' = [''b'', ''b'']"
proof -
  obtain s' where s': "drive_alone demo_options 3 (snd (promoteReady demo_hydrated)) = (Some (Inr ()), s')"
      "ex_world s' = [''b'', ''b'']"
    using demo_resume by (auto split: prod.splits)
  have "promoteReady demo_hydrated = (Inr (), snd (promoteReady demo_hydrated))"
    using demo_resume by (metis prod.collapse)
  then show ?thesis
    using drive_alone_drive [OF _ s'(1)] demo_start s'(2) by (blast intro: drive.promoted)
qed

theorem completed_results_are_final_witness:
  "\<exists>s'. drive demo_options demo_hydrated (Inr ()) s' \<and> ex_world s' = [''b'', ''b''] \<and>
     result_of s' ''a'' = Some \<lparr>nr_status = Success, nr_output = JStr ''kept'', nr_evidence = []\<rparr>"
  using demo_resume_drive completed_results_are_final [of demo_options demo_hydrated] demo_resume by blast

end
