(* ===== verification/ExecutorRecovery.thy ===== *)
theory ExecutorRecovery
  imports ExecutorRuns
begin

text \<open>
  Recovery of a run from its log: \<open>hydrate\<close> makes exactly the nodes completed whose last event in the
  log says so, with the recorded result, and driving on keeps them.
\<close>

section \<open>What the log says of a node\<close>

definition apply_own :: "string \<Rightarrow> workflow_body \<Rightarrow> node_snapshot option \<Rightarrow> node_snapshot option" where
  "apply_own i body sn =
     (if body_node body = Some i then
        (case snapshot_update body (case sn of None \<Rightarrow> new_snapshot i | Some s \<Rightarrow> s) of None \<Rightarrow> sn | Some s \<Rightarrow> Some s)
      else sn)"

lemma scan_event_get: "i \<noteq> [] \<Longrightarrow> map_get (snd (scan_event body acc)) i = apply_own i body (map_get (snd acc) i)"
  by (cases body) (auto simp: scan_event_def apply_own_def applyEventToSnapshot_def Let_def split: option.splits)

lemma scan_get:
  assumes "i \<noteq> []"
  shows "map_get (snd (scan_events bodies)) i = fold (apply_own i) bodies None"
proof -
  have "map_get (snd (fold scan_event bodies acc)) i = fold (apply_own i) bodies (map_get (snd acc) i)" for acc
    by (induction bodies arbitrary: acc) (simp_all add: scan_event_get [OF assms])
  from this [of "(None, [])"] show ?thesis by (simp add: scan_events_def)
qed

lemma scan_event_wf: "map_wf (snd acc) \<Longrightarrow> map_wf (snd (scan_event body acc))"
  by (auto simp: scan_event_def applyEventToSnapshot_def Let_def split: workflow_body.splits option.splits)

lemma scan_wf: "map_wf (snd (scan_events bodies))"
proof -
  have "map_wf (snd acc) \<Longrightarrow> map_wf (snd (fold scan_event bodies acc))" for acc
    by (induction bodies arbitrary: acc) (simp_all add: scan_event_wf)
  then show ?thesis by (simp add: scan_events_def)
qed

lemma apply_own_other: "\<forall>b \<in> set bodies. body_node b \<noteq> Some i \<Longrightarrow> fold (apply_own i) bodies sn = sn"
  by (induction bodies arbitrary: sn) (simp_all add: apply_own_def)

text \<open>A completed snapshot comes from a completion event that carries its result.\<close>

definition from_log :: "workflow_body list \<Rightarrow> string \<Rightarrow> node_snapshot option \<Rightarrow> bool" where
  "from_log bodies i sn \<longleftrightarrow> (\<forall>snap. sn = Some snap \<and> ns_status snap = WS_COMPLETED \<longrightarrow>
     (\<exists>r op k. WorkflowNodeCompleted i r op k \<in> set bodies \<and> ns_result snap = Some r))"

lemma from_log_step: "from_log bodies i sn \<Longrightarrow> body \<in> set bodies \<Longrightarrow> from_log bodies i (apply_own i body sn)"
  by (cases body) (auto simp: from_log_def apply_own_def)

lemma from_log_fold: "from_log (pre @ bodies) i sn \<Longrightarrow> from_log (pre @ bodies) i (fold (apply_own i) bodies sn)"
proof (induction bodies arbitrary: pre sn)
  case Nil
  then show ?case by simp
next
  case (Cons b bodies)
  from Cons.prems have "from_log ((pre @ [b]) @ bodies) i (apply_own i b sn)" by (simp add: from_log_step)
  from Cons.IH [OF this] show ?case by simp
qed

lemma scan_completed:
  assumes "map_get (snd (scan_events bodies)) i = Some snap" "ns_status snap = WS_COMPLETED" "i \<noteq> []"
  shows "\<exists>r op k. WorkflowNodeCompleted i r op k \<in> set bodies \<and> ns_result snap = Some r"
proof -
  have "from_log ([] @ bodies) i (fold (apply_own i) bodies None)" by (rule from_log_fold) (simp add: from_log_def)
  then show ?thesis using assms scan_get [OF assms(3), of bodies] by (auto simp: from_log_def)
qed

section \<open>Restoring the nodes\<close>

definition restored_status :: "node_snapshot \<Rightarrow> node_status" where
  "restored_status snap = (if isTerminal (ns_status snap) then ns_status snap else WS_PLANNED)"

text \<open>The node \<open>i\<close> is as it was created.\<close>

definition untouched :: "'w exec_state \<Rightarrow> string \<Rightarrow> bool" where
  "untouched s i \<longleftrightarrow> status_of s i \<in> {None, Some WS_PLANNED} \<and> result_of s i = None \<and> map_get (ex_results s) i = None"

definition restored :: "'w exec_state \<Rightarrow> string \<Rightarrow> node_snapshot \<Rightarrow> bool" where
  "restored s i snap \<longleftrightarrow>
     (map_has (ex_nodes s) i \<longrightarrow> status_of s i = Some (restored_status snap) \<and>
        (ns_status snap = WS_COMPLETED \<and> ns_result snap \<noteq> None \<longrightarrow>
           result_of s i = ns_result snap \<and> map_get (ex_results s) i = ns_result snap))"

definition same_node :: "'w exec_state \<Rightarrow> 'w exec_state \<Rightarrow> string \<Rightarrow> bool" where
  "same_node s s' k \<longleftrightarrow> map_get (ex_nodes s') k = map_get (ex_nodes s) k \<and> map_get (ex_results s') k = map_get (ex_results s) k"

lemma same_node_simps:
  assumes "same_node s s' k"
  shows "untouched s' k = untouched s k" "restored s' k snap = restored s k snap"
  using assms by (simp_all add: same_node_def untouched_def restored_def status_of_def result_of_def)

lemma restore_node_effect:
  assumes "restore_node cfg (i, snap) s = (Inr (), s')" "untouched s i"
  shows "restored s' i snap \<and> (\<forall>k. k \<noteq> i \<longrightarrow> same_node s s' k) \<and> map_keys (ex_nodes s') = map_keys (ex_nodes s)"
proof (cases "map_get (ex_nodes s) i")
  case None
  then show ?thesis using assms by (simp add: restore_node_def restored_def same_node_def)
next
  case (Some n)
  then have n: "in_status n = WS_PLANNED" using assms(2) by (simp add: untouched_def status_of_def)
  show ?thesis
    using assms(1) Some n
    by (auto simp: restore_node_def Let_def restored_def restored_status_def same_node_def status_of_def result_of_def
        split: if_splits sum.splits)
qed

lemma restore_all:
  "forP (restore_node cfg) snaps s = (Inr (), s') \<Longrightarrow> map_wf snaps \<Longrightarrow> \<forall>i. map_has snaps i \<longrightarrow> untouched s i \<Longrightarrow>
    (\<forall>i. case map_get snaps i of None \<Rightarrow> same_node s s' i | Some snap \<Rightarrow> restored s' i snap) \<and>
    map_keys (ex_nodes s') = map_keys (ex_nodes s)"
proof (induction snaps arbitrary: s)
  case Nil
  then show ?case by (simp add: returnP_def same_node_def)
next
  case (Cons x snaps)
  obtain i snap where x: "x = (i, snap)" by (cases x)
  from Cons.prems(1) obtain s1 where s1: "restore_node cfg (i, snap) s = (Inr (), s1)"
      and rest: "forP (restore_node cfg) snaps s1 = (Inr (), s')"
    by (auto simp: x bindP_ok)
  from Cons.prems(2) have new: "map_get snaps i = None" and wf: "map_wf snaps"
    by (auto simp: x map_wf_def map_of_eq_None_iff)
  have eff: "restored s1 i snap \<and> (\<forall>k. k \<noteq> i \<longrightarrow> same_node s s1 k) \<and> map_keys (ex_nodes s1) = map_keys (ex_nodes s)"
    using restore_node_effect [OF s1] Cons.prems(3) by (simp add: x)
  have fresh: "\<forall>k. map_has snaps k \<longrightarrow> untouched s1 k"
  proof (intro allI impI)
    fix k
    assume k: "map_has snaps k"
    with new have "k \<noteq> i" by auto
    moreover have "untouched s k" using Cons.prems(3) k \<open>k \<noteq> i\<close> by (simp add: x)
    ultimately show "untouched s1 k" using eff same_node_simps(1) by blast
  qed
  note IH = Cons.IH [OF rest wf fresh]
  have "case map_get ((i, snap) # snaps) k of None \<Rightarrow> same_node s s' k | Some sn \<Rightarrow> restored s' k sn" for k
  proof (cases "k = i")
    case True
    have "same_node s1 s' i" using IH [THEN conjunct1, rule_format, of i] by (simp add: new)
    from same_node_simps(2) [OF this, of snap] show ?thesis using eff True by simp
  next
    case False
    then have "same_node s s1 k" using eff by blast
    then show ?thesis using IH [THEN conjunct1, rule_format, of k] False
      by (auto simp: same_node_def split: option.splits)
  qed
  then show ?case using IH eff by (simp add: x)
qed

text \<open>Skipping and promoting complete nothing.\<close>

definition completions_are :: "string set \<Rightarrow> (string \<Rightarrow> node_result option) \<Rightarrow> (string, node_result) js_map \<Rightarrow> 'w exec_state \<Rightarrow> bool" where
  "completions_are C R results s \<longleftrightarrow>
     (\<forall>i. status_of s i = Some WS_COMPLETED \<longleftrightarrow> i \<in> C) \<and> result_of s = R \<and> ex_results s = results"

lemma completions_move:
  assumes "completions_are C R results s" "status_of s i = Some st" "st \<noteq> WS_COMPLETED" "st' \<noteq> WS_COMPLETED"
  shows "completions_are C R results (set_status i st' s)"
proof -
  have "status_of (set_status i st' s) k = Some WS_COMPLETED \<longleftrightarrow> status_of s k = Some WS_COMPLETED" for k
    using assms(2-4) by simp
  then show ?thesis using assms(1) unfolding completions_are_def by simp
qed

interpretation settled: executor_frame cfg "completions_are C R results" for cfg C R results
proof unfold_locales
  fix s s' :: "'a exec_state" and i st st' event
  show "completions_are C R results s \<Longrightarrow> same_progress s s' \<Longrightarrow> completions_are C R results s'"
    by (simp add: completions_are_def same_progress_def)
  show "completions_are C R results s \<Longrightarrow> status_of s i = Some WS_PLANNED \<Longrightarrow>
      list_all (\<lambda>d. status_of s d = Some WS_COMPLETED) (deps_of s i) \<Longrightarrow> completions_are C R results (set_status i WS_READY s)"
    by (rule completions_move [where st = WS_PLANNED]) simp_all
  show "completions_are C R results s \<Longrightarrow> status_of s i = Some st \<Longrightarrow> next_state workflowNodeMachine st event = Some st' \<Longrightarrow>
      event \<noteq> WE_COMPLETE \<Longrightarrow> event \<noteq> WE_PREPARE \<Longrightarrow> completions_are C R results (set_status i st' s)"
    using next_not_completed by (intro completions_move) blast+
qed

interpretation keys: executor_invariant cfg "\<lambda>s. map_keys (ex_nodes s) = ks" for cfg ks
  by unfold_locales (simp_all add: same_progress_def cancel_def)

context executor_frame
begin

lemma hydrate_tail_keeps:
  "keepsP I (bindP (\<lambda>s. forP cascade_if_skipped (map_keys (ex_nodes s)) s) (\<lambda>_. promoteReady))"
proof (intro keepsP_bind promoteReady_keeps)
  have "keepsP I (cascade_if_skipped i)" for i
    using cascadeSkip_keeps [of i] by (simp add: cascade_if_skipped_def keepsP_def)
  then have "keepsP I (forP cascade_if_skipped ks)" for ks by (intro keepsP_for)
  then show "keepsP I (\<lambda>s. forP cascade_if_skipped (map_keys (ex_nodes s)) s)" by (simp add: keepsP_def)
qed

end

lemma make_nodes_has: "map_has (make_nodes graph) i \<longleftrightarrow> i \<in> node_id ` set graph"
proof -
  have "map_has (fold (\<lambda>n m. map_set (node_id n) (makeNode n) m) graph m) i \<longleftrightarrow> map_has m i \<or> i \<in> node_id ` set graph" for m
    by (induction graph arbitrary: m) (auto split: if_splits)
  from this [of "[]"] show ?thesis by (simp add: make_nodes_def)
qed

lemma hydrate_nodes:
  assumes run: "hydrate cfg bodies s = (Inr (), s')" and scan: "scan_events bodies = (Some h, snaps)"
  shows "map_keys (ex_nodes s') = map_keys (make_nodes (rh_graph h))"
proof -
  let ?I = "\<lambda>s :: 'a exec_state. map_keys (ex_nodes s) = map_keys (make_nodes (rh_graph h))"
  have "keepsP ?I (restore_node cfg x)" for x
    by (cases x) (auto simp: keepsP_def restore_node_def Let_def split: option.splits sum.splits)
  then have restore: "keepsP ?I (forP (restore_node cfg) snaps)" by (intro keepsP_for)
  then have "keepsP ?I (bindP (forP (restore_node cfg) snaps) (\<lambda>_.
      bindP (\<lambda>s. forP cascade_if_skipped (map_keys (ex_nodes s)) s) (\<lambda>_. promoteReady)))"
    by (intro keepsP_bind restore keys.hydrate_tail_keeps)
  from keepsP_D [OF this, of "hydrated_state h s"] show ?thesis
    using run scan by (simp add: hydrate_def modify_def bindP_def hydrated_state_def)
qed

lemma hydrate_effect:
  assumes run: "hydrate cfg bodies s = (Inr (), s')" and scan: "scan_events bodies = (Some h, snaps)"
    and i: "map_has (make_nodes (rh_graph h)) i" "i \<noteq> []"
  shows "(status_of s' i = Some WS_COMPLETED \<longleftrightarrow> (\<exists>snap. map_get snaps i = Some snap \<and> ns_status snap = WS_COMPLETED)) \<and>
    (status_of s' i = Some WS_COMPLETED \<longrightarrow> result_of s' i \<noteq> None \<and> map_get (ex_results s') i = result_of s' i \<and>
       result_of s' i = Option.bind (map_get snaps i) ns_result)"
proof -
  let ?s0 = "hydrated_state h s"
  from run scan obtain s1 where restore: "forP (restore_node cfg) snaps ?s0 = (Inr (), s1)"
      and tail: "bindP (\<lambda>s. forP cascade_if_skipped (map_keys (ex_nodes s)) s) (\<lambda>_. promoteReady) s1 = (Inr (), s')"
    by (auto simp: hydrate_def bindP_ok modify_def)
  have wf: "map_wf snaps" using scan_wf [of bodies] scan by simp
  have fresh: "untouched ?s0 k" for k
    using make_nodes_planned [of "rh_graph h" k]
    by (cases "map_get (make_nodes (rh_graph h)) k")
      (auto simp: untouched_def hydrated_state_def status_of_def result_of_def makeNode_def)
  from restore_all [OF restore wf] fresh
  have eff: "case map_get snaps i of None \<Rightarrow> same_node ?s0 s1 i | Some snap \<Rightarrow> restored s1 i snap"
    and keys: "map_keys (ex_nodes s1) = map_keys (make_nodes (rh_graph h))" by (simp_all add: hydrated_state_def)
  have has: "map_has (ex_nodes s1) i" using i(1) keys by (metis map_of_eq_None_iff list.set_map)
  have s1: "(status_of s1 i = Some WS_COMPLETED \<longleftrightarrow> (\<exists>snap. map_get snaps i = Some snap \<and> ns_status snap = WS_COMPLETED)) \<and>
    (status_of s1 i = Some WS_COMPLETED \<longrightarrow> result_of s1 i \<noteq> None \<and> map_get (ex_results s1) i = result_of s1 i \<and>
       result_of s1 i = Option.bind (map_get snaps i) ns_result)"
  proof (cases "map_get snaps i")
    case None
    with eff have "untouched s1 i" using fresh same_node_simps(1) by auto
    then show ?thesis using None by (auto simp: untouched_def)
  next
    case (Some snap)
    have "ns_status snap = WS_COMPLETED \<Longrightarrow> ns_result snap \<noteq> None"
      using scan_completed [of bodies i snap] scan Some i(2) by auto
    then show ?thesis using eff Some has by (auto simp: restored_def restored_status_def)
  qed
  let ?I = "completions_are {k. status_of s1 k = Some WS_COMPLETED} (result_of s1) (ex_results s1)"
  have "?I s1" by (simp add: completions_are_def)
  from keepsP_D [OF settled.hydrate_tail_keeps this] have "?I s'" by (simp add: tail)
  then have eqs: "status_of s' i = Some WS_COMPLETED \<longleftrightarrow> status_of s1 i = Some WS_COMPLETED"
      "result_of s' = result_of s1" "ex_results s' = ex_results s1" unfolding completions_are_def by blast+
  show ?thesis unfolding eqs by (rule s1)
qed

section \<open>Properties\<close>

text \<open>C2.  Crash recovery: if the log's last event about a node of the run is its completion, then however
  the process ended, rebuilding the executor from the log and driving it on, with any interleaving and
  any handler, leaves that node completed with the result that was recorded.\<close>

theorem recovery_keeps_completed:
  assumes "hydrate cfg bodies s = (Inr (), s1)" "drive cfg s1 r s2"
    and "bodies = us @ WorkflowNodeCompleted i v op k # vs" "i \<noteq> []" "\<forall>b \<in> set vs. body_node b \<noteq> Some i"
    and "fst (scan_events bodies) = Some h" "n \<in> set (rh_graph h)" "node_id n = i"
  shows "status_of s1 i = Some WS_COMPLETED \<and> status_of s2 i = Some WS_COMPLETED \<and> map_get (ex_results s2) i = Some v"
proof -
  have has: "map_has (make_nodes (rh_graph h)) i" unfolding make_nodes_has using assms(7,8) by blast
  have "fold (apply_own i) bodies None =
      Some ((case fold (apply_own i) us None of None \<Rightarrow> new_snapshot i | Some s \<Rightarrow> s)\<lparr>ns_status := WS_COMPLETED, ns_result := Some v\<rparr>)"
    by (simp add: assms(3) apply_own_other [OF assms(5)]) (simp add: apply_own_def)
  then obtain snap where snap: "map_get (snd (scan_events bodies)) i = Some snap" "ns_status snap = WS_COMPLETED" "ns_result snap = Some v"
    using scan_get [OF assms(4), of bodies] by auto
  have scan: "scan_events bodies = (Some h, snd (scan_events bodies))" using assms(6) by (simp add: prod_eq_iff)
  have s1: "status_of s1 i = Some WS_COMPLETED" "result_of s1 i = Some v" "map_get (ex_results s1) i = Some v"
    using hydrate_effect [OF assms(1) scan has assms(4)] snap by auto
  have "keeps_result i v (ex_completionOrder s1) s1" using s1 by (simp add: keeps_result_def)
  from permanent.drive_keeps [OF assms(2) this] show ?thesis using s1 by (simp add: keeps_result_def)
qed

lemma demo_hydrate:
  "hydrate demo_options demo_log (new_executor (Some []) []) = (Inr (), demo_hydrated) \<and>
   fst (scan_events demo_log) = Some \<lparr>rh_graph = demo_graph, rh_runId = ''r'', rh_taskId = ''task''\<rparr>"
proof
  have "fst (hydrate demo_options demo_log (new_executor (Some []) [])) = Inr ()" by code_simp
  then show "hydrate demo_options demo_log (new_executor (Some []) []) = (Inr (), demo_hydrated)"
    by (simp add: demo_hydrated_def prod_eq_iff)
  show "fst (scan_events demo_log) = Some \<lparr>rh_graph = demo_graph, rh_runId = ''r'', rh_taskId = ''task''\<rparr>"
    by code_simp
qed

theorem recovery_keeps_completed_witness:
  "\<exists>s2. drive demo_options demo_hydrated (Inr ()) s2 \<and> status_of s2 ''a'' = Some WS_COMPLETED \<and>
     map_get (ex_results s2) ''a'' = Some \<lparr>nr_status = Success, nr_output = JStr ''kept'', nr_evidence = []\<rparr>"
proof -
  obtain s2 where d: "drive demo_options demo_hydrated (Inr ()) s2" using demo_resume_drive by blast
  have log: "demo_log = take 2 demo_log @ WorkflowNodeCompleted ''a'' \<lparr>nr_status = Success, nr_output = JStr ''kept'', nr_evidence = []\<rparr>
      ''r:a'' ''k'' # drop 3 demo_log" and later: "\<forall>b \<in> set (drop 3 demo_log). body_node b \<noteq> Some ''a''"
    by (simp_all add: demo_log_def)
  have a: "demo_node ''a'' [] \<in> set (rh_graph \<lparr>rh_graph = demo_graph, rh_runId = ''r'', rh_taskId = ''task''\<rparr>)"
      "node_id (demo_node ''a'' []) = ''a''" by (simp_all add: demo_graph_def demo_node_def)
  show ?thesis
    using recovery_keeps_completed [OF demo_hydrate [THEN conjunct1] d log _ later demo_hydrate [THEN conjunct2] a] d by blast
qed

text \<open>C34.  Recovery completes nothing on its own: a node is completed in the rebuilt executor only if the log
  holds a completion event for it, and its result is the one of such an event.\<close>

theorem recovery_invents_nothing:
  assumes "hydrate cfg bodies s = (Inr (), s1)" "status_of s1 i = Some WS_COMPLETED" "i \<noteq> []"
  shows "\<exists>v op k. WorkflowNodeCompleted i v op k \<in> set bodies \<and> result_of s1 i = Some v \<and> map_get (ex_results s1) i = Some v"
proof -
  obtain h where scan: "scan_events bodies = (Some h, snd (scan_events bodies))"
    using assms(1) by (cases "scan_events bodies"; cases "fst (scan_events bodies)") (auto simp: hydrate_def throwP_def)
  have has: "map_has (make_nodes (rh_graph h)) i"
    using hydrate_nodes [OF assms(1) scan] assms(2) by (metis map_of_eq_None_iff list.set_map option.map_disc_iff option.distinct(1) status_of_def)
  from hydrate_effect [OF assms(1) scan has assms(3)] assms(2) obtain snap where
    snap: "map_get (snd (scan_events bodies)) i = Some snap" "ns_status snap = WS_COMPLETED"
      "result_of s1 i = ns_result snap" "map_get (ex_results s1) i = result_of s1 i" by auto
  with scan_completed [OF snap(1,2) assms(3)] show ?thesis by force
qed

theorem recovery_invents_nothing_witness:
  "\<exists>v op k. WorkflowNodeCompleted ''a'' v op k \<in> set demo_log \<and> result_of demo_hydrated ''a'' = Some v"
  using recovery_invents_nothing [OF demo_hydrate [THEN conjunct1], of "''a''"] demo_resume by blast

end
