(* ===== verification/ExecutorCases.thy ===== *)
theory ExecutorCases
  imports ExecutorRuns
begin

text \<open>
  Behaviour of single jobs: the retries are bounded, a job delivered again for a node that has not
  completed in this run fails the node, a denied approval cannot be retried, a bulkhead without
  seats never lets a job run, and the status a run reports is compared with the one it logs.  A job
  that runs alone is computed with the equations of \<open>run_alone\<close>.
\<close>

section \<open>Retries\<close>

lemma after_failure_last:
  "\<not> attempt < rp_maxAttempts (node_retry d) \<Longrightarrow>
    after_failure cfg d attempt again = after_failure cfg d attempt again'"
  by (simp add: after_failure_def Let_def fun_eq_iff)

lemma attempt_node_last:
  "\<not> attempt < rp_maxAttempts (node_retry d) \<Longrightarrow> attempt_node cfg d job attempt again = attempt_node cfg d job attempt again'"
  using after_failure_last [of attempt d cfg again again'] by (simp add: attempt_node_def)

text \<open>The fuel of the retry loop is not a limit: from the number of attempts the policy still allows
  on, more of it changes nothing, for every handler and hook.\<close>

theorem retry_loop_terminates:
  assumes "rp_maxAttempts (node_retry d) - attempt \<le> n"
  shows "retry_loop cfg d job n attempt = retry_loop cfg d job (rp_maxAttempts (node_retry d) - attempt) attempt"
  using assms
proof (induction n arbitrary: attempt)
  case 0
  then show ?case by simp
next
  case (Suc n)
  show ?case
  proof (cases "attempt < rp_maxAttempts (node_retry d)")
    case True
    then have "rp_maxAttempts (node_retry d) - attempt = Suc (rp_maxAttempts (node_retry d) - (attempt + 1))" by simp
    then show ?thesis using Suc.IH [of "attempt + 1"] Suc.prems by simp
  next
    case False
    then show ?thesis using attempt_node_last [OF False, of cfg job] by simp
  qed
qed

definition some_job :: workflow_job where
  "some_job = \<lparr>wj_id = ''j'', wj_nodeId = ''ok'', wj_runId = ''r'', wj_operationId = ''r:ok'', wj_idempotencyKey = ''k'',
     wj_attempt = 1, wj_enqueuedAt = 0\<rparr>"

theorem retry_loop_terminates_witness:
  "retry_loop demo_options (demo_node ''a'' []) some_job 7 1 = retry_loop demo_options (demo_node ''a'' []) some_job 0 1"
  using retry_loop_terminates [of "demo_node ''a'' []" 1 7 demo_options some_job]
  by (simp add: demo_node_def node_retry_def DEFAULT_RETRY_def)

section \<open>Single jobs\<close>

definition error_of :: "'w exec_state \<Rightarrow> string \<Rightarrow> string option" where
  "error_of s i = Option.bind (map_get (ex_nodes s) i) in_error"

lemma run_alone_acquire:
  "run_alone (acquire_slot cfg slot) s =
     (if fst (tryAcquire (exec_limits cfg) slot (ex_limiter s)) then
        (Some (Inr ()), s\<lparr>ex_limiter := snd (tryAcquire (exec_limits cfg) slot (ex_limiter s))\<rparr>)
      else (None, s))"
  by (simp add: acquire_slot_def run_alone_def waitA_def)

lemma run_alone_idem_cached:
  "map_get (id_completed (get s)) key = Some v \<Longrightarrow> run_alone (idem_run get put key fn) s = (Some (Inr v), s)"
  by (simp add: idem_run_def run_alone_def awaitA_def returnP_def)

lemma runJob_alone:
  assumes "\<not> ex_cancelled s" "map_get (ex_nodes s) (wj_nodeId job) = Some n"
  shows "run_alone (runJob cfg job) s =
    then_alone (run_alone (acquire_slot cfg (job_slot job (in_def n))) s) (\<lambda>_ s1.
      (case or_alone (run_alone (deliver_job cfg (in_def n) job) s1)
          (\<lambda>e s2. if is_crash e then (Some (Inl e), s2)
             else if node_terminal s2 (node_id (in_def n)) then (Some (Inr ()), s2)
             else run_alone (failNode cfg (in_def n) (err_message e) False) s2) of
        (None, t) \<Rightarrow> (None, t) | (Some r, t) \<Rightarrow> (Some r, release_slot (job_slot job (in_def n)) t)))"
proof -
  have handler: "run_alone (if is_crash e then throwA e
        else (\<lambda>s. if node_terminal s i then returnA () s else awaited (failNode cfg d (err_message e) False) s)) =
      (\<lambda>s2. if is_crash e then (Some (Inl e), s2) else if node_terminal s2 i then (Some (Inr ()), s2)
        else run_alone (failNode cfg d (err_message e) False) s2)" for e d i
    by (auto simp: fun_eq_iff run_alone_if run_alone_prim run_alone_awaited)
  have "run_alone (runJob cfg job) s = run_alone (bindA (acquire_slot cfg (job_slot job (in_def n))) (\<lambda>_.
      finallyA (catchA (deliver_job cfg (in_def n) job) (\<lambda>e. if is_crash e then throwA e
          else (\<lambda>s. if node_terminal s (node_id (in_def n)) then returnA () s
            else awaited (failNode cfg (in_def n) (err_message e) False) s)))
        (release_slot (job_slot job (in_def n))))) s"
    using assms by (simp add: runJob_def run_alone_def Let_def)
  moreover have "run_alone (finallyA (catchA m h) p) = (\<lambda>s. case or_alone (run_alone m s) (\<lambda>e. run_alone (h e)) of
      (None, t) \<Rightarrow> (None, t) | (Some r, t) \<Rightarrow> (Some r, p t))" for m :: "('a exec_state, unit) async" and h p
    by (simp add: fun_eq_iff run_alone_finally run_alone_catch)
  ultimately show ?thesis by (simp only: run_alone_bind handler)
qed

lemma completeNode_ready:
  "status_of s (node_id d) = Some WS_READY \<Longrightarrow> completeNode cfg d r s = (Inl (IllegalTransitionError ''READY'' ''COMPLETE''), s)"
  by (simp add: completeNode_def bindP_def node_transition_eq next_COMPLETE)

lemma illegal_no_crash [simp]: "\<not> is_crash (IllegalTransitionError a b)"
  by (simp add: is_crash_def IllegalTransitionError_def)

text \<open>The state after a \<open>READY\<close> node without compensation has failed.\<close>

definition failed_state :: "string \<Rightarrow> string \<Rightarrow> bool \<Rightarrow> 'w exec_state \<Rightarrow> 'w exec_state" where
  "failed_state i error irreversible s =
     snd (emit (WorkflowNodeFailed i error irreversible)
       (upd_node i (\<lambda>n. n\<lparr>in_error := Some error\<rparr>) (set_status i WS_FAILED (set_status i WS_RUNNING s))))"

lemma failed_state_simps:
  "status_of (failed_state i e b s) i = map_option (\<lambda>_. WS_FAILED) (status_of s i)"
  "map_has (ex_nodes s) i \<Longrightarrow> error_of (failed_state i e b s) i = Some e"
  "ex_deduped (failed_state i e b s) = ex_deduped s" "ex_world (failed_state i e b s) = ex_world s"
  "ex_completionOrder (failed_state i e b s) = ex_completionOrder s"
  by (auto simp: failed_state_def emit_def modify_def status_of_def error_of_def set_status_def option.map_comp comp_def
      upd_node_def split: option.splits)

lemma release_slot_simps [simp]:
  "status_of (release_slot slot s) = status_of s" "error_of (release_slot slot s) = error_of s"
  "ex_deduped (release_slot slot s) = ex_deduped s" "ex_world (release_slot slot s) = ex_world s"
  "ex_completionOrder (release_slot slot s) = ex_completionOrder s" "ex_ledger (release_slot slot s) = ex_ledger s"
  by (simp_all add: release_slot_def status_of_def error_of_def fun_eq_iff)

lemma persist_nothing: "op_onPersist cfg = None \<Longrightarrow> run_alone (persist cfg) s = (Some (Inr ()), s)"
  by (simp add: persist_def persist_call_def run_alone_simps returnP_def)

lemma failNode_ready:
  assumes "status_of s (node_id d) = Some WS_READY" "op_onPersist cfg = None" "compensationFor (exec_registry cfg) d = None"
  shows "run_alone (failNode cfg d e False) s = (Some (Inr ()), failed_state (node_id d) e False s)"
  using assms
  by (simp add: failNode_def Let_def run_alone_simps bindP_def enter_failed_def node_transition_eq workflow_next_simps
      persist_nothing failed_state_def emit_def modify_def)

lemma deliver_cached_ready:
  assumes "map_get (id_completed (ex_idempotency s)) (wj_idempotencyKey job) = Some v" "status_of s (node_id d) = Some WS_READY"
  shows "run_alone (deliver_job cfg d job) s =
    (Some (Inl (IllegalTransitionError ''READY'' ''COMPLETE'')), s\<lparr>ex_deduped := ex_deduped s + 1\<rparr>)"
proof -
  have "run_alone (deliver_job cfg d job) s = run_alone (bindA (awaited (idem_run ex_idempotency put_idempotency (wj_idempotencyKey job) (awaited (executeWithRetry cfg d job)))) (\<lambda>result.
       syncA (bindP (modify (\<lambda>s. s\<lparr>ex_deduped := ex_deduped s + 1\<rparr>)) (\<lambda>_ s.
         if node_terminal s (node_id d) then (Inr (), s) else completeNode cfg d result s)))) s"
    using assms by (simp add: deliver_job_def idem_has_def run_alone_def)
  also have "\<dots> = (Some (Inl (IllegalTransitionError ''READY'' ''COMPLETE'')), s\<lparr>ex_deduped := ex_deduped s + 1\<rparr>)"
  proof -
    let ?t = "s\<lparr>ex_deduped := ex_deduped s + 1\<rparr>"
    have "status_of ?t (node_id d) = Some WS_READY" using assms(2) by (simp add: status_of_def)
    then show ?thesis
      using assms completeNode_ready [of ?t d cfg v]
      by (simp add: run_alone_bind run_alone_prim run_alone_awaited run_alone_idem_cached bindP_def modify_def node_terminal_def)
  qed
  finally show ?thesis .
qed

text \<open>A node that is \<open>READY\<close> and whose idempotency key already has a result, from an earlier run with the
  same run identifier say, does not get that result: the delivery is counted as deduplicated, the
  handler is not called, and the node fails because \<open>READY\<close> cannot complete.\<close>

theorem redelivery_fails_ready_node:
  assumes "map_get (id_completed (ex_idempotency s)) (wj_idempotencyKey job) = Some v"
    and "map_get (ex_nodes s) (wj_nodeId job) = Some n" "in_status n = WS_READY" "node_id (in_def n) = wj_nodeId job"
    and "\<not> ex_cancelled s" "fst (tryAcquire (exec_limits cfg) (job_slot job (in_def n)) (ex_limiter s))"
    and "op_onPersist cfg = None" "compensationFor (exec_registry cfg) (in_def n) = None"
  shows "\<exists>s'. run_alone (runJob cfg job) s = (Some (Inr ()), s') \<and>
    status_of s' (wj_nodeId job) = Some WS_FAILED \<and>
    error_of s' (wj_nodeId job) = Some (err_message (IllegalTransitionError ''READY'' ''COMPLETE'')) \<and>
    ex_deduped s' = ex_deduped s + 1 \<and> ex_world s' = ex_world s \<and> ex_completionOrder s' = ex_completionOrder s"
proof -
  let ?d = "in_def n" and ?i = "wj_nodeId job" and ?why = "err_message (IllegalTransitionError ''READY'' ''COMPLETE'')"
  let ?s1 = "s\<lparr>ex_limiter := snd (tryAcquire (exec_limits cfg) (job_slot job ?d) (ex_limiter s))\<rparr>"
  let ?s2 = "?s1\<lparr>ex_deduped := ex_deduped s + 1\<rparr>"
  let ?s3 = "release_slot (job_slot job ?d) (failed_state ?i ?why False ?s2)"
  have st: "status_of ?s1 ?i = Some WS_READY" "status_of ?s2 ?i = Some WS_READY"
    using assms(2,3) by (simp_all add: status_of_def)
  have deliver: "run_alone (deliver_job cfg ?d job) ?s1 = (Some (Inl (IllegalTransitionError ''READY'' ''COMPLETE'')), ?s2)"
    using deliver_cached_ready [of ?s1 job v ?d cfg] assms(1,4) st by simp
  have fail: "run_alone (failNode cfg ?d ?why False) ?s2 = (Some (Inr ()), failed_state ?i ?why False ?s2)"
    using failNode_ready [of ?s2 ?d cfg ?why] assms(4,7,8) st by simp
  have "\<not> node_terminal ?s2 ?i" using st by (simp add: node_terminal_def)
  then have "run_alone (runJob cfg job) s = (Some (Inr ()), ?s3)"
    using deliver fail assms(4,6) by (simp add: runJob_alone [OF assms(5,2)] run_alone_acquire)
  moreover have "map_has (ex_nodes ?s2) ?i" using assms(2) by simp
  ultimately show ?thesis
    using st failed_state_simps(1) [of ?i ?why False ?s2] failed_state_simps(2-) [where i = ?i and e = ?why and b = False and s = ?s2]
    by (intro exI [of _ ?s3]) simp
qed

text \<open>After a recovery the graph of two nodes is run again, under the same run identifier, instead of resumed.\<close>

definition demo_again :: "string list exec_state" where
  "demo_again = (let s1 = snd (start_run demo_options demo_graph demo_opts demo_hydrated); s2 = snd (promoteReady s1)
     in snd (enqueue_ready demo_options s2))"

definition demo_job :: workflow_job where
  "demo_job = hd (ex_queue demo_again)"

lemma demo_again_facts:
  "map_get (id_completed (ex_idempotency demo_again)) (wj_idempotencyKey demo_job) =
     Some \<lparr>nr_status = Success, nr_output = JStr ''kept'', nr_evidence = []\<rparr> \<and>
   wj_nodeId demo_job = ''a'' \<and> status_of demo_again ''a'' = Some WS_READY \<and> def_of demo_again ''a'' = Some (demo_node ''a'' []) \<and>
   \<not> ex_cancelled demo_again \<and>
   fst (tryAcquire (exec_limits demo_options) (job_slot demo_job (demo_node ''a'' [])) (ex_limiter demo_again)) \<and>
   compensationFor (exec_registry demo_options) (demo_node ''a'' []) = None"
  by code_simp

theorem redelivery_fails_ready_node_witness:
  "\<exists>s'. run_alone (runJob demo_options demo_job) demo_again = (Some (Inr ()), s') \<and> status_of s' ''a'' = Some WS_FAILED"
proof -
  obtain n where n: "map_get (ex_nodes demo_again) ''a'' = Some n" "in_status n = WS_READY" "in_def n = demo_node ''a'' []"
    using demo_again_facts by (auto simp: status_of_def def_of_def)
  have "op_onPersist demo_options = None" "node_id (demo_node ''a'' []) = ''a''"
    by (simp_all add: demo_options_def demo_node_def)
  then show ?thesis
    using redelivery_fails_ready_node [of demo_again demo_job _ n demo_options] demo_again_facts n by auto
qed

section \<open>Approvals\<close>

definition logged :: "workflow_body \<Rightarrow> 'w exec_state \<Rightarrow> 'w exec_state" where
  "logged body s = snd (emit body s)"

lemma emit_logged: "emit body s = (Inr (), logged body s)"
  by (simp add: logged_def emit_def modify_def)

definition ledger_bodies :: "'w exec_state \<Rightarrow> workflow_body list" where
  "ledger_bodies s = (case ex_ledger s of None \<Rightarrow> [] | Some es \<Rightarrow> map wle_body es)"

lemma logged_simps [simp]:
  "status_of (logged body s) = status_of s" "error_of (logged body s) = error_of s"
  "ex_world (logged body s) = ex_world s" "ex_nodes (logged body s) = ex_nodes s"
  by (simp_all add: logged_def emit_def modify_def status_of_def error_of_def fun_eq_iff)

lemma upd_node_ledger [simp]: "ex_ledger (upd_node i f s) = ex_ledger s" "ex_world (upd_node i f s) = ex_world s"
  by (simp_all add: upd_node_def split: option.splits)

lemma set_status_ledger [simp]:
  "ex_ledger (set_status i st s) = ex_ledger s" "error_of (set_status i st s) = error_of s" "ex_world (set_status i st s) = ex_world s"
  by (cases "map_get (ex_nodes s) i"; auto simp: set_status_def error_of_def fun_eq_iff)+

lemma ledger_simps [simp]:
  "ledger_bodies (upd_node i f s) = ledger_bodies s" "ledger_bodies (set_status i st s) = ledger_bodies s"
  "ex_ledger (logged body s) = None \<longleftrightarrow> ex_ledger s = None"
  "ex_ledger s \<noteq> None \<Longrightarrow> ledger_bodies (logged body s) = ledger_bodies s @ [body]"
  by (auto simp: ledger_bodies_def logged_def emit_def modify_def)

lemma upd_node_keeps_status:
  "(\<And>n. in_status (f n) = in_status n) \<Longrightarrow> status_of (upd_node i f s) = status_of s"
  "(\<And>n. in_error (f n) = in_error n) \<Longrightarrow> error_of (upd_node i f s) = error_of s"
  by (cases "map_get (ex_nodes s) i"; auto simp: status_of_def error_of_def fun_eq_iff)+

text \<open>A denied approval cannot be retried.  When the policy of the node allows another attempt, the
  denial has already made the node \<open>FAILED\<close>, the transition back fails, and the node
  ends up \<open>FAILED\<close> without an error message and without a failure event: the log of the attempt ends with the denial,
  so that a recovery from it runs the node again.\<close>

theorem denied_approval_is_not_retried:
  assumes "wn_kind d = NK_APPROVAL" "wn_approval d = Some ap" "status_of s (node_id d) = Some WS_READY"
    and "hd_requestApproval (op_handler cfg) = None" "op_onPersist cfg = None" "op_onBeforeStart cfg = None"
    and "op_failureGuard cfg = None" "attempt < rp_maxAttempts (node_retry d)"
    and "isRetryable (node_retry d) (''approval '' @ quoted (ap_action ap) @ '' denied'')" "ex_ledger s \<noteq> None"
  shows "\<exists>s'. run_alone (attempt_node cfg d job attempt again) s = (Some (Inl (IllegalTransitionError ''FAILED'' ''FAIL'')), s') \<and>
    status_of s' (node_id d) = Some WS_FAILED \<and> error_of s' (node_id d) = error_of s (node_id d) \<and>
    ledger_bodies s' = ledger_bodies s @
      [WorkflowNodeRunning (node_id d) (wj_id job) attempt (wj_operationId job),
       WorkflowApprovalRequired \<lparr>ap_action = ap_action ap, ap_reason = ap_reason ap\<rparr> (node_id d),
       WorkflowApprovalDenied \<lparr>ap_action = ap_action ap, ap_reason = ap_reason ap\<rparr> (node_id d)]"
proof -
  let ?i = "node_id d" and ?req = "\<lparr>ap_action = ap_action ap, ap_reason = ap_reason ap\<rparr>"
  let ?s1 = "logged (WorkflowNodeRunning ?i (wj_id job) attempt (wj_operationId job))
     (set_status ?i WS_RUNNING (upd_node ?i (\<lambda>n. n\<lparr>in_attempt := attempt\<rparr>) s))"
  let ?s2 = "logged (WorkflowApprovalRequired ?req ?i) (set_status ?i WS_WAITING ?s1)"
  let ?s3 = "logged (WorkflowApprovalDenied ?req ?i) (set_status ?i WS_FAILED ?s2)"
  let ?s4 = "upd_node ?i (\<lambda>n. n\<lparr>in_failureCount := in_failureCount n + 1\<rparr>) ?s3"
  note persist = persist_nothing [OF assms(5)]
  have begin_ok: "begin_attempt d job attempt s = (Inr (), ?s1)"
    using assms(3) by (simp add: begin_attempt_def bindP_def modify_def node_transition_eq workflow_next_simps emit_logged upd_node_keeps_status)
  have ask: "run_alone (requestApproval cfg d (ap_action ap)) ?s1 = (Some (Inr False), ?s3)"
    using assms(2-4)
    by (simp add: requestApproval_def Let_def approval_request_def run_alone_simps bindP_def node_transition_eq
        workflow_next_simps emit_logged upd_node_keeps_status persist returnP_def)
  have denied: "run_alone (try_attempt cfg d attempt) ?s1 =
      (Some (Inl (NodeFailureError (''approval '' @ quoted (ap_action ap) @ '' denied''))), ?s3)"
    using assms(1,2,6) ask
    by (simp add: try_attempt_def runNodeAction_def runApproval_def Let_def run_alone_simps returnP_def)
  have fail: "run_alone (after_failure cfg d attempt again (NodeFailureError (''approval '' @ quoted (ap_action ap) @ '' denied''))) ?s3 =
      (Some (Inl (IllegalTransitionError ''FAILED'' ''FAIL'')), ?s4)"
    using assms(3,7,8,9)
    by (simp add: after_failure_def Let_def is_crash_def NodeFailureError_def note_failure_def run_alone_simps bindP_def modify_def
        prepare_retry_def node_transition_eq workflow_next_simps upd_node_keeps_status)
  have "run_alone (attempt_node cfg d job attempt again) s = (Some (Inl (IllegalTransitionError ''FAILED'' ''FAIL'')), ?s4)"
    using begin_ok denied fail by (simp add: attempt_node_def run_alone_simps persist)
  moreover have "status_of ?s4 ?i = Some WS_FAILED" "error_of ?s4 ?i = error_of s ?i"
    using assms(3) by (simp_all add: upd_node_keeps_status)
  moreover have "ledger_bodies ?s4 = ledger_bodies s @ [WorkflowNodeRunning ?i (wj_id job) attempt (wj_operationId job),
      WorkflowApprovalRequired ?req ?i, WorkflowApprovalDenied ?req ?i]"
    using assms(10) by simp
  ultimately show ?thesis by blast
qed

definition demo_approval :: workflow_node where
  "demo_approval = (demo_node ''ok'' [])\<lparr>wn_kind := NK_APPROVAL, wn_approval := Some \<lparr>ap_action = ''ship'', ap_reason = ''why''\<rparr>,
     wn_retry := Some (DEFAULT_RETRY\<lparr>rp_maxAttempts := 2, rp_retryableErrors := [''*'']\<rparr>)\<rparr>"

definition demo_asked :: "string list exec_state" where
  "demo_asked = snd (promoteReady (snd (start_run demo_options [demo_approval] demo_opts (new_executor (Some []) []))))"

lemma demo_asked_facts: "status_of demo_asked ''ok'' = Some WS_READY \<and> ex_ledger demo_asked \<noteq> None"
  by code_simp

theorem denied_approval_is_not_retried_witness:
  "\<exists>s'. run_alone (attempt_node demo_options demo_approval some_job 1 (throwA (plain_error ''again''))) demo_asked =
      (Some (Inl (IllegalTransitionError ''FAILED'' ''FAIL'')), s') \<and> status_of s' ''ok'' = Some WS_FAILED"
proof -
  have "wn_kind demo_approval = NK_APPROVAL" "wn_approval demo_approval = Some \<lparr>ap_action = ''ship'', ap_reason = ''why''\<rparr>"
      "node_id demo_approval = ''ok''" "1 < rp_maxAttempts (node_retry demo_approval)"
      "isRetryable (node_retry demo_approval) e" for e
    by (simp_all add: demo_approval_def demo_node_def node_retry_def isRetryable_def)
  moreover have "hd_requestApproval (op_handler demo_options) = None" "op_onPersist demo_options = None"
      "op_onBeforeStart demo_options = None" "op_failureGuard demo_options = None"
    by (simp_all add: demo_options_def)
  ultimately show ?thesis
    using denied_approval_is_not_retried [of demo_approval _ demo_asked demo_options 1 some_job "throwA (plain_error ''again'')"] demo_asked_facts by auto
qed

section \<open>Bulkheads without seats\<close>

text \<open>The executor starts a worker even when the limits allow no concurrent job at all, but that worker
  waits for a seat that nobody can give: a job of an existing node never gets past its bulkhead, and
  the run does not end.\<close>

theorem no_seats_hangs:
  assumes "maxConcurrentJobs (exec_limits cfg) \<le> 0" "map_get (ex_nodes s) (wj_nodeId job) = Some n" "\<not> ex_cancelled s"
  shows "concurrency cfg = 1 \<and> run_alone (runJob cfg job) s = (None, s)"
proof
  show "concurrency cfg = 1" using assms(1) by (simp add: concurrency_def)
  have "\<not> fst (tryAcquire (exec_limits cfg) slot l)" for slot l
    using assms(1) by (simp add: tryAcquire_def)
  then show "run_alone (runJob cfg job) s = (None, s)"
    by (simp add: runJob_alone [OF assms(3,2)] run_alone_acquire)
qed

theorem no_seats_hangs_witness:
  "run_alone (runJob (demo_options\<lparr>op_limits := Some (DEFAULT_BULKHEAD\<lparr>maxConcurrentJobs := 0\<rparr>)\<rparr>) some_job) demo_asked = (None, demo_asked)"
proof -
  obtain n where "map_get (ex_nodes demo_asked) ''ok'' = Some n" using demo_asked_facts by (auto simp: status_of_def)
  moreover have "\<not> ex_cancelled demo_asked" by code_simp
  ultimately show ?thesis
    by (intro no_seats_hangs [THEN conjunct2]) (simp_all add: exec_limits_def some_job_def)
qed

section \<open>The status of a run\<close>

text \<open>The status \<open>run\<close> returns and the one its last event logs are computed by different functions.  They
  agree unless no node failed or was quarantined and some node is in none of the states \<open>COMPLETED\<close>,
  \<open>SKIPPED\<close> and \<open>CANCELLED\<close>; then the event says \<open>FAILED\<close> while the caller is told \<open>COMPLETED\<close> or
  \<open>CANCELLED\<close>.\<close>

theorem reported_status_agrees:
  "final_status sts = deriveStatus sts \<longleftrightarrow>
     list_ex (\<lambda>s. s \<in> {WS_QUARANTINED, WS_FAILED, WS_ROLLED_BACK}) sts \<or>
     list_all (\<lambda>s. s \<in> {WS_COMPLETED, WS_SKIPPED, WS_CANCELLED}) sts"
  unfolding final_status_def deriveStatus_def list_ex_iff list_all_iff by auto

end
