(* ===== verification/LocalRunner.thy ===== *)
theory LocalRunner
  imports Economics Execution Verifier Models Json ImmuneRuntime
begin

text \<open>
  The local runner, \<open>apps/cli/src/local-runner.ts\<close>: the composition of policy, approval, quota,
  immune gate, execution, metering, ledger and verification into one run.  The immune world carries
  the ledger and the host, which the runner shares with the immune runtime; the rest of the world,
  \<open>'x\<close>, belongs to the callbacks.  Executors may change everything a runner's world holds.  One run
  is a sequential computation: other runs of the same runner are not interleaved with it.
\<close>

section \<open>The runner\<close>

record 'x runner_world =
  rn_immune :: immune_world
  rn_meter :: usage_meter
  rn_outside :: 'x

record run_ids =
  ri_taskId :: string
  ri_runId :: string
  ri_actorId :: string

datatype step_input = Input_none | Input_value jsv | Input_from "exec_result list \<Rightarrow> js_error + jsv"

record run_step =
  rs_action :: string
  rs_input :: step_input

text \<open>The constructor's options and what \<open>registerExecutor\<close> and \<open>grant\<close> change.\<close>

record 'x local_runner =
  rc_sha :: "string \<Rightarrow> string"
  rc_mode :: string
  rc_budget :: budget_policy
  rc_policy :: policy_engine
  rc_executors :: "'x runner_world executor_registry"
  rc_onApprovalRequired :: "(string \<Rightarrow> string \<Rightarrow> ('x, bool) proc) option"
  rc_billing :: "usage \<Rightarrow> ('x, unit) proc"
  rc_guard :: "(string \<Rightarrow> js_error + unit) option"
  rc_flush :: "('x, unit) proc option"

record 'x run_task_options =
  rt_actorId :: "string option"
  rt_actorTrust :: "trust_state option"
  rt_plan :: "string list option"
  rt_steps :: "run_step list option"
  rt_onVerify :: "(exec_result list \<Rightarrow> ('x runner_world, verification_check list) proc) option"

record proof_carrying_outcome =
  pco_runId :: string
  pco_taskId :: string
  pco_intent :: string
  pco_actorId :: string
  pco_mode :: string
  pco_verdict :: verdict
  pco_results :: "exec_result list"
  pco_verification :: verification
  pco_usage :: usage
  pco_ledger :: "ledger_event list"

definition FREE_BUDGET :: budget_policy where
  "FREE_BUDGET = \<lparr>maxExecutionSeconds = 300, maxToolCalls = 100, maxModelCalls = 20, maxNetworkRequests = 20,
     maxTokens = None, maxRuns = Some 10, maxEstimatedCostUsd = None\<rparr>"

text \<open>\<open>modeFromEnv\<close>, of the variable \<open>CELIA_MODE\<close>.\<close>

definition modeFromEnv :: "string option \<Rightarrow> string" where
  "modeFromEnv v = (if v = Some ''cloud'' then ''cloud'' else ''local'')"

definition noop_billing :: "usage \<Rightarrow> ('x, unit) proc" where
  "noop_billing u = returnP ()"

definition new_local_runner ::
  "(string \<Rightarrow> string) \<Rightarrow> string option \<Rightarrow> string option \<Rightarrow> budget_policy option \<Rightarrow> grant list option \<Rightarrow> approval_policy option \<Rightarrow>
    (string \<Rightarrow> string \<Rightarrow> ('x, bool) proc) option \<Rightarrow> (usage \<Rightarrow> ('x, unit) proc) option \<Rightarrow> (string \<Rightarrow> js_error + unit) option \<Rightarrow>
    ('x, unit) proc option \<Rightarrow> 'x local_runner" where
  "new_local_runner sha env mode budget grants approvalPolicy ask billing guard flush =
     \<lparr>rc_sha = sha,
      rc_mode = (case mode of None \<Rightarrow> modeFromEnv env | Some m \<Rightarrow> m),
      rc_budget = (case budget of None \<Rightarrow> FREE_BUDGET | Some b \<Rightarrow> b),
      rc_policy = \<lparr>pe_grants = (case grants of None \<Rightarrow> [] | Some gs \<Rightarrow> gs),
        pe_approvalPolicy = (case approvalPolicy of None \<Rightarrow> DEFAULT_APPROVAL_POLICY | Some p \<Rightarrow> p)\<rparr>,
      rc_executors = [], rc_onApprovalRequired = ask,
      rc_billing = (case billing of None \<Rightarrow> noop_billing | Some b \<Rightarrow> b), rc_guard = guard, rc_flush = flush\<rparr>"

definition new_runner_world :: "ledger \<Rightarrow> host \<Rightarrow> 'x \<Rightarrow> 'x runner_world" where
  "new_runner_world ledger h x =
     \<lparr>rn_immune = new_immune_runtime \<lparr>ro_ledger = Some ledger, ro_level = None, ro_cascade = None, ro_safeMode = False,
        ro_emergencyLock = False, ro_policy = None\<rparr> h,
      rn_meter = new_usage_meter, rn_outside = x\<rparr>"

definition registerExecutor :: "string \<Rightarrow> 'x runner_world executor \<Rightarrow> 'x local_runner \<Rightarrow> js_error + 'x local_runner" where
  "registerExecutor action executor r =
     bindE (executor_register action executor (rc_executors r)) (\<lambda>reg. Inr (r\<lparr>rc_executors := reg\<rparr>))"

definition runner_grant :: "grant \<Rightarrow> 'x local_runner \<Rightarrow> js_error + 'x local_runner" where
  "runner_grant g r = bindE (addGrant g (rc_policy r)) (\<lambda>pe. Inr (r\<lparr>rc_policy := pe\<rparr>))"

section \<open>Ledger, meter and clock\<close>

definition rn_ledger :: "'x runner_world \<Rightarrow> ledger" where
  "rn_ledger w = (case iw_ledger (rn_immune w) of None \<Rightarrow> [] | Some es \<Rightarrow> es)"

definition on_immune :: "(immune_world, 'a) proc \<Rightarrow> ('x runner_world, 'a) proc" where
  "on_immune p = (\<lambda>w. case p (rn_immune w) of (r, im) \<Rightarrow> (r, w\<lparr>rn_immune := im\<rparr>))"

definition on_outside :: "('x, 'a) proc \<Rightarrow> ('x runner_world, 'a) proc" where
  "on_outside p = (\<lambda>w. case p (rn_outside w) of (r, x) \<Rightarrow> (r, w\<lparr>rn_outside := x\<rparr>))"

definition on_host :: "(host \<Rightarrow> 'a \<times> host) \<Rightarrow> ('x runner_world, 'a) proc" where
  "on_host f = on_immune (\<lambda>im. case f (iw_host im) of (a, h) \<Rightarrow> (Inr a, im\<lparr>iw_host := h\<rparr>))"

definition rn_append :: "'x local_runner \<Rightarrow> ledger_event_draft \<Rightarrow> ('x runner_world, ledger_event) proc" where
  "rn_append r d = (\<lambda>w.
     case append_event (rc_sha r) d (iw_host (rn_immune w), rn_ledger w) of
       (ev, h, es) \<Rightarrow> (Inr ev, w\<lparr>rn_immune := (rn_immune w)\<lparr>iw_host := h, iw_ledger := Some es\<rparr>\<rparr>))"

text \<open>An event of the runner itself.\<close>

definition rn_log :: "'x local_runner \<Rightarrow> run_ids \<Rightarrow> string \<Rightarrow> (string \<times> jsv) list \<Rightarrow> ('x runner_world, unit) proc" where
  "rn_log r ids type payload =
     bindP (rn_append r \<lparr>ld_actor = systemActor, ld_type = type, ld_taskId = ri_taskId ids, ld_runId = ri_runId ids,
       ld_payload = JObj payload, ld_evidence = None\<rparr>) (\<lambda>_. returnP ())"

definition usage_event_jsv :: "usage_event \<Rightarrow> jsv" where
  "usage_event_jsv e = JObj ([(''resource'', JStr (resource_string (ue_resource e))), (''amount'', JNum (ue_amount e)),
     (''at'', JNum (ue_at e)), (''actorId'', JStr (ue_actorId e)), (''runId'', JStr (ue_runId e))])"

definition usage_jsv :: "usage \<Rightarrow> jsv" where
  "usage_jsv u = JObj [(''total'', JObj (map (\<lambda>r. (resource_string r, JNum (u r)))
     [Execution_seconds, Tool_calls, Model_calls, Network_requests, Tokens, Runs]))]"

text \<open>\<open>meter.record\<close> with the constructor's callback, which logs the event under the run's identifier.\<close>

definition rn_record :: "'x local_runner \<Rightarrow> usage_event \<Rightarrow> ('x runner_world, unit) proc" where
  "rn_record r e = (\<lambda>w.
     let m = meter_record e (rn_meter w) in
     bindP (rn_append r \<lparr>ld_actor = systemActor, ld_type = ''UsageRecorded'', ld_taskId = ue_runId e, ld_runId = ue_runId e,
       ld_payload = JObj [(''event'', usage_event_jsv e), (''usage'', usage_jsv (meter_usage m))], ld_evidence = None\<rparr>)
       (\<lambda>_. returnP ()) (w\<lparr>rn_meter := m\<rparr>))"

definition rn_use :: "'x local_runner \<Rightarrow> run_ids \<Rightarrow> usage_resource \<Rightarrow> ('x runner_world, unit) proc" where
  "rn_use r ids resource =
     bindP (on_host date_now) (\<lambda>now. rn_record r \<lparr>ue_resource = resource, ue_amount = 1, ue_at = now,
       ue_actorId = ri_actorId ids, ue_runId = ri_runId ids, ue_note = None, ue_tenantId = None, ue_userId = None\<rparr>)"

section \<open>The plan\<close>

text \<open>\<open>JSON.parse\<close> of the mock provider's answer, which is the \<open>JSON.stringify\<close> of this object.\<close>

definition planWithMock :: "string list" where
  "planWithMock =
     (case json_norm (JObj [(''plan'', JArr (map JStr [''repo.read'', ''test.run'', ''github.pull_request.create'']))]) of
        Some (JObj kvs) \<Rightarrow>
          (case map_of kvs ''plan'' of
             Some (JArr vs) \<Rightarrow> concat (map (\<lambda>v. case v of JStr s \<Rightarrow> [s] | _ \<Rightarrow> []) vs)
           | _ \<Rightarrow> [''repo.read''])
      | _ \<Rightarrow> [''repo.read''])"

definition steps_of :: "'x run_task_options \<Rightarrow> run_step list" where
  "steps_of opts =
     (case rt_steps opts of
        Some steps \<Rightarrow> steps
      | None \<Rightarrow> map (\<lambda>action. \<lparr>rs_action = action, rs_input = Input_value (JObj [])\<rparr>)
          (case rt_plan opts of None \<Rightarrow> planWithMock | Some plan \<Rightarrow> plan))"

definition step_input_of :: "run_step \<Rightarrow> exec_result list \<Rightarrow> js_error + jsv" where
  "step_input_of s results =
     (case rs_input s of
        Input_from f \<Rightarrow> f results
      | Input_none \<Rightarrow> Inr (JObj [])
      | Input_value v \<Rightarrow> Inr (if v = JNull \<or> v = JUndefined then JObj [] else v))"

section \<open>One step\<close>

text \<open>A check lets the step pass (\<open>None\<close>) or refuses it with a result; the flag says whether the run
  stops there.\<close>

type_synonym 'x step_check = "('x runner_world, (exec_result \<times> bool) option) proc"

definition pass :: "'x step_check" where
  "pass = returnP None"

definition refuse ::
  "'x local_runner \<Rightarrow> run_ids \<Rightarrow> string \<Rightarrow> (string \<times> jsv) list \<Rightarrow> string \<Rightarrow> bool \<Rightarrow> 'x step_check" where
  "refuse r ids type payload error stop =
     bindP (rn_log r ids type payload) (\<lambda>_. returnP (Some (fail_result error, stop)))"

definition and_then :: "'x step_check \<Rightarrow> 'x step_check \<Rightarrow> 'x step_check" where
  "and_then p q = bindP p (\<lambda>v. case v of None \<Rightarrow> q | Some x \<Rightarrow> returnP (Some x))"

definition check_name :: "'x local_runner \<Rightarrow> run_ids \<Rightarrow> string \<Rightarrow> 'x step_check" where
  "check_name r ids action =
     (case rc_guard r of
        None \<Rightarrow> pass
      | Some assertRegistered \<Rightarrow>
          (case assertRegistered action of
             Inr _ \<Rightarrow> pass
           | Inl e \<Rightarrow> refuse r ids ''CapabilityRejected'' [(''action'', JStr action), (''reason'', JStr (err_message e))]
               (err_message e) False))"

definition runner_policy :: "'x local_runner \<Rightarrow> run_ids \<Rightarrow> string \<Rightarrow> policy_decision" where
  "runner_policy r ids action = evaluate (rc_policy r) (ri_actorId ids) action ''*''"

definition check_policy :: "'x local_runner \<Rightarrow> run_ids \<Rightarrow> string \<Rightarrow> 'x step_check" where
  "check_policy r ids action =
     (let decision = runner_policy r ids action in
      if \<not> pd_allowed decision then
        refuse r ids ''ApprovalDenied'' [(''action'', JStr action), (''reason'', JStr (pd_reason decision))]
          (pd_reason decision) False
      else if pd_approvalRequired decision then
        bindP (rn_log r ids ''ApprovalRequired'' [(''action'', JStr action)]) (\<lambda>_.
        bindP (case rc_onApprovalRequired r of None \<Rightarrow> returnP False
            | Some ask \<Rightarrow> on_outside (ask action (pd_reason decision))) (\<lambda>approved.
          if \<not> approved then
            refuse r ids ''ApprovalDenied'' [(''action'', JStr action), (''reason'', JStr ''not approved'')]
              (quoted action @ '' requires approval'') False
          else bindP (rn_log r ids ''ApprovalGranted'' [(''action'', JStr action)]) (\<lambda>_. pass)))
      else pass)"

definition check_quota :: "'x local_runner \<Rightarrow> run_ids \<Rightarrow> string \<Rightarrow> 'x step_check" where
  "check_quota r ids action = (\<lambda>w.
     let q = budget_allows (rc_budget r) (meter_usage (rn_meter w)) \<lparr>inc_resource = Tool_calls, inc_amount = 1\<rparr> in
     if \<not> qd_allowed q then
       refuse r ids ''QuotaExceeded'' [(''action'', JStr action), (''reason'', JStr (qd_reason q))] (qd_reason q) True w
     else pass w)"

definition principalFor :: "string \<Rightarrow> trust_state option \<Rightarrow> immune_principal" where
  "principalFor actorId trust =
     \<lparr>pr_id = actorId, pr_type = PtAgent, pr_trust = (case trust of None \<Rightarrow> Tr_VERIFIED | Some t \<Rightarrow> t), pr_credentials = []\<rparr>"

definition immune_request_of :: "run_ids \<Rightarrow> trust_state option \<Rightarrow> string \<Rightarrow> immune_request" where
  "immune_request_of ids trust action =
     \<lparr>irq_principal = principalFor (ri_actorId ids) trust, irq_capability = action, irq_scope = Some ''*'', irq_origin = None,
      irq_blastRadius = None, irq_observation = None\<rparr>"

fun level_string :: "immunity_level \<Rightarrow> string" where
  "level_string GREEN = ''GREEN''"
| "level_string YELLOW = ''YELLOW''"
| "level_string ORANGE = ''ORANGE''"
| "level_string RED = ''RED''"
| "level_string BLACK = ''BLACK''"

definition check_immune :: "'x local_runner \<Rightarrow> run_ids \<Rightarrow> trust_state option \<Rightarrow> string \<Rightarrow> 'x step_check" where
  "check_immune r ids trust action =
     bindP (on_immune (evaluateAndApply (rc_sha r) (immune_request_of ids trust action))) (\<lambda>d.
       if \<not> dec_allowed d then
         refuse r ids ''ImmuneBlocked''
           [(''action'', JStr action), (''level'', JStr (level_string (dec_level d))),
            (''immuneAction'', JStr (action_string (dec_action d))), (''reasons'', JArr (map JStr (dec_reasons d)))]
           (''immune '' @ action_string (dec_action d) @ '': '' @ join_with ''; '' (dec_reasons d)) False
       else pass)"

text \<open>\<open>makeEmitter\<close>: the events of \<open>execute\<close> go to the ledger in the actor's name.\<close>

definition runner_emit :: "'x local_runner \<Rightarrow> run_ids \<Rightarrow> event_draft \<Rightarrow> ('x runner_world, kernel_event) proc" where
  "runner_emit r ids e =
     bindP (rn_append r \<lparr>ld_actor = \<lparr>actor_kind = ActAgent, actor_id = ri_actorId ids\<rparr>, ld_type = ed_type e,
       ld_taskId = ri_taskId ids, ld_runId = ri_runId ids, ld_payload = ed_payload e, ld_evidence = None\<rparr>) (\<lambda>stored.
     bindP (on_host date_now) (\<lambda>now. returnP \<lparr>kev_id = le_id stored, kev_type = le_type stored,
       kev_entityId = ri_taskId ids, kev_actorId = ri_actorId ids, kev_timestamp = now, kev_payload = le_payload stored\<rparr>))"

definition runner_context :: "'x local_runner \<Rightarrow> run_ids \<Rightarrow> string \<Rightarrow> 'x runner_world execution_context" where
  "runner_context r ids action =
     \<lparr>ctx_runId = ri_runId ids, ctx_actorId = ri_actorId ids, ctx_parentId = None,
      ctx_capabilities = [\<lparr>cs_id = action @ ''@*'', cs_action = action, cs_scope = ''*'', cs_constraints = []\<rparr>],
      ctx_workspaceRoot = ''/workspace'', ctx_policy = runner_policy r ids, ctx_emit = runner_emit r ids,
      ctx_verify = (\<lambda>input. on_immune (\<lambda>im. case defaultVerify input (iw_host im) of (v, h) \<Rightarrow> (v, im\<lparr>iw_host := h\<rparr>)))\<rparr>"

definition run_step ::
  "'x local_runner \<Rightarrow> run_ids \<Rightarrow> trust_state option \<Rightarrow> run_step \<Rightarrow> exec_result list \<Rightarrow> ('x runner_world, exec_result \<times> bool) proc" where
  "run_step r ids trust s results =
     (let action = rs_action s in
      bindP (and_then (check_name r ids action) (and_then (check_policy r ids action)
          (and_then (check_quota r ids action) (check_immune r ids trust action)))) (\<lambda>v.
        case v of
          Some refusal \<Rightarrow> returnP refusal
        | None \<Rightarrow>
            bindP (liftE (step_input_of s results)) (\<lambda>input.
            bindP (execute action input (runner_context r ids action) (rc_executors r)) (\<lambda>result.
            bindP (rn_use r ids Tool_calls) (\<lambda>_. returnP (result, False))))))"

fun run_steps ::
  "'x local_runner \<Rightarrow> run_ids \<Rightarrow> trust_state option \<Rightarrow> run_step list \<Rightarrow> exec_result list \<Rightarrow> ('x runner_world, exec_result list) proc" where
  "run_steps r ids trust [] results = returnP results"
| "run_steps r ids trust (s # ss) results =
     bindP (run_step r ids trust s results) (\<lambda>(result, stop).
       if stop then returnP (results @ [result]) else run_steps r ids trust ss (results @ [result]))"

section \<open>One run\<close>

definition default_checks :: "exec_result list \<Rightarrow> verification_check list" where
  "default_checks results =
     map (\<lambda>(i, r). \<lparr>vc_id = ''check-'' @ show_nat i, vc_name = ''action['' @ show_nat i @ '']'',
       vc_verdict = (if res_status r = Success then V_PASSED else V_FAILED), vc_evidence = Some (res_evidence r),
       vc_detail = None\<rparr>) (enumerate 0 results)"

fun verdict_text :: "verdict \<Rightarrow> string" where
  "verdict_text V_PENDING = ''PENDING''"
| "verdict_text V_PASSED = ''PASSED''"
| "verdict_text V_FAILED = ''FAILED''"
| "verdict_text V_UNKNOWN = ''UNKNOWN''"

definition begin_run :: "'x local_runner \<Rightarrow> string \<Rightarrow> 'x run_task_options \<Rightarrow> ('x runner_world, run_ids) proc" where
  "begin_run r intent opts =
     bindP (on_host randomUUID) (\<lambda>taskId.
     bindP (on_host randomUUID) (\<lambda>runId.
       let ids = \<lparr>ri_taskId = taskId, ri_runId = runId,
             ri_actorId = (case rt_actorId opts of None \<Rightarrow> ''coder'' | Some a \<Rightarrow> a)\<rparr> in
       bindP (rn_log r ids ''RunCreated'' [(''intent'', JStr intent), (''mode'', JStr (rc_mode r))]) (\<lambda>_.
       bindP (rn_log r ids ''TaskCreated'' [(''intent'', JStr intent)]) (\<lambda>_.
       bindP (rn_use r ids Runs) (\<lambda>_.
       bindP (rn_use r ids Model_calls) (\<lambda>_.
       bindP (rn_log r ids ''PlanGenerated'' [(''plan'', JArr (map (JStr \<circ> rs_action) (steps_of opts)))]) (\<lambda>_.
         returnP ids)))))))"

definition verify_run ::
  "'x local_runner \<Rightarrow> run_ids \<Rightarrow> string \<Rightarrow> 'x run_task_options \<Rightarrow> exec_result list \<Rightarrow> ('x runner_world, verification) proc" where
  "verify_run r ids intent opts results =
     bindP (case rt_onVerify opts of None \<Rightarrow> returnP (default_checks results) | Some f \<Rightarrow> f results) (\<lambda>checks.
     bindP (on_host (verify intent checks)) (\<lambda>v.
     bindP (rn_log r ids ''VerificationCompleted''
       [(''verdict'', JStr (verdict_text (ver_verdict v))), (''evidence'', JArr (map evidence_jsv (ver_evidence v)))]) (\<lambda>_.
     bindP (if ver_verdict v = V_PASSED then rn_log r ids ''TaskCompleted'' [(''intent'', JStr intent)]
            else rn_log r ids ''TaskFailed'' [(''intent'', JStr intent), (''verdict'', JStr (verdict_text (ver_verdict v)))]) (\<lambda>_.
       returnP v))))"

definition runner_flush :: "'x local_runner \<Rightarrow> ('x runner_world, unit) proc" where
  "runner_flush r = (case rc_flush r of None \<Rightarrow> returnP () | Some f \<Rightarrow> on_outside f)"

definition finish_run ::
  "'x local_runner \<Rightarrow> run_ids \<Rightarrow> string \<Rightarrow> exec_result list \<Rightarrow> verification \<Rightarrow> ('x runner_world, proof_carrying_outcome) proc" where
  "finish_run r ids intent results v = (\<lambda>w.
     let u = meter_usage (rn_meter w) in
     bindP (on_outside (rc_billing r u)) (\<lambda>_.
     bindP (runner_flush r) (\<lambda>_ w'.
       (Inr \<lparr>pco_runId = ri_runId ids, pco_taskId = ri_taskId ids, pco_intent = intent, pco_actorId = ri_actorId ids,
          pco_mode = rc_mode r, pco_verdict = ver_verdict v, pco_results = results, pco_verification = v, pco_usage = u,
          pco_ledger = rn_ledger w'\<rparr>, w'))) w)"

definition runner_run ::
  "'x local_runner \<Rightarrow> string \<Rightarrow> 'x run_task_options \<Rightarrow> ('x runner_world, proof_carrying_outcome) proc" where
  "runner_run r intent opts =
     bindP (begin_run r intent opts) (\<lambda>ids.
     bindP (run_steps r ids (rt_actorTrust opts) (steps_of opts) []) (\<lambda>results.
     bindP (verify_run r ids intent opts results) (\<lambda>v. finish_run r ids intent results v)))"

section \<open>The smoke runner\<close>

definition LOCAL_SMOKE_ACTIONS :: "string list" where
  "LOCAL_SMOKE_ACTIONS = [''repo.read'', ''test.run'', ''github.pull_request.create'']"

definition smoke_executor :: "string \<Rightarrow> 'x runner_world executor" where
  "smoke_executor action =
     \<lparr>ex_canExecute = (\<lambda>ctx. returnP True),
      ex_execute = (\<lambda>input ctx. returnP \<lparr>res_status = Success,
        res_output = JObj [(''action'', JStr action), (''input'', input), (''mode'', JStr ''local-smoke'')],
        res_evidence = [\<lparr>evidenceId = action @ ''-local-smoke'', evidence_kind = ''local_smoke''\<rparr>]\<rparr>)\<rparr>"

definition add_smoke_action :: "string \<Rightarrow> 'x local_runner \<Rightarrow> js_error + 'x local_runner" where
  "add_smoke_action action r =
     bindE (runner_grant \<lparr>grant_id = ''local-smoke-'' @ action, grant_principal = ''coder'', grant_capability = action,
       grant_scope = ''*'', grant_effect = Allow\<rparr> r) (registerExecutor action (smoke_executor action))"

definition createLocalSmokeRunner :: "(string \<Rightarrow> string) \<Rightarrow> string \<Rightarrow> js_error + 'x local_runner" where
  "createLocalSmokeRunner sha mode =
     foldE add_smoke_action LOCAL_SMOKE_ACTIONS
       (new_local_runner sha None (Some mode) None None
          (Some [(''repo.read'', Auto), (''test.run'', Auto), (''github.pull_request.create'', Auto)]) None None None None)"

end
