(* ===== verification/RunnerRuns.thy ===== *)
theory RunnerRuns
  imports LocalRunner Async "HOL-Library.Sublist"
begin

text \<open>
  What a run of the local runner keeps.  The locale \<open>runner_frame\<close> names what every step does to the
  runner's world apart from metering; \<open>runner_invariant\<close> adds the metering.  They are interpreted for
  the number of tool calls, which only a step that was executed raises, and for the ledger, which only
  grows and stays a well-formed chain.
\<close>

section \<open>The frame\<close>

definition executors_keep :: "('x runner_world \<Rightarrow> bool) \<Rightarrow> 'x local_runner \<Rightarrow> bool" where
  "executors_keep I r \<longleftrightarrow>
     (\<forall>e \<in> set (map_values (rc_executors r)). \<forall>ids action input.
        keepsP I (ex_canExecute e (runner_context r ids action)) \<and>
        keepsP I (ex_execute e input (runner_context r ids action)))"

definition verifier_keeps :: "('x runner_world \<Rightarrow> bool) \<Rightarrow> 'x run_task_options \<Rightarrow> bool" where
  "verifier_keeps I opts = (case rt_onVerify opts of None \<Rightarrow> True | Some f \<Rightarrow> \<forall>results. keepsP I (f results))"

lemma bind_lift_error: "bindP (liftE (Inl e)) f = throwP e"
  by (auto simp: bindP_def liftE_def throwP_def)

lemma bind_lift_ok: "bindP (liftE (Inr a)) f = f a"
  by (auto simp: bindP_def liftE_def)

locale runner_frame =
  fixes r :: "'x local_runner" and I :: "'x runner_world \<Rightarrow> bool"
  assumes append_keeps [keeps_intros]: "keepsP I (rn_append r d)"
    and immune_keeps [keeps_intros]: "keepsP I (on_immune (evaluateAndApply (rc_sha r) q))"
    and host_moves: "I w \<Longrightarrow> I (w\<lparr>rn_immune := (rn_immune w)\<lparr>iw_host := h\<rparr>\<rparr>)"
    and outside_moves: "I w \<Longrightarrow> I (w\<lparr>rn_outside := x\<rparr>)"
begin

lemma host_keeps [keeps_intros]: "keepsP I (on_host f)"
  by (simp add: keepsP_def on_host_def on_immune_def case_prod_beta host_moves)

lemma outside_keeps [keeps_intros]: "keepsP I (on_outside p)"
  by (simp add: keepsP_def on_outside_def case_prod_beta outside_moves)

lemma log_keeps [keeps_intros]: "keepsP I (rn_log r ids type payload)"
  unfolding rn_log_def by (intro keeps_intros)

lemma refuse_keeps [keeps_intros]: "keepsP I (refuse r ids type payload error stop)"
  unfolding refuse_def by (intro keeps_intros)

lemma pass_keeps [keeps_intros]: "keepsP I pass"
  unfolding pass_def by (intro keeps_intros)

lemma and_then_keeps [keeps_intros]: "keepsP I p \<Longrightarrow> keepsP I q \<Longrightarrow> keepsP I (and_then p q)"
  unfolding and_then_def by (intro keepsP_bind) (auto split: option.split intro: keepsP_return)

lemma check_name_keeps [keeps_intros]: "keepsP I (check_name r ids action)"
  by (auto simp: check_name_def split: option.split sum.split intro: refuse_keeps pass_keeps)

lemma ask_keeps [keeps_intros]:
  "keepsP I (case ask of None \<Rightarrow> returnP False | Some f \<Rightarrow> on_outside (f action reason))"
  by (cases ask) (auto intro: keepsP_return outside_keeps)

lemma check_policy_keeps [keeps_intros]: "keepsP I (check_policy r ids action)"
proof -
  have "keepsP I (if \<not> approved then refuse r ids t pl e s else bindP (rn_log r ids t' pl') (\<lambda>_. pass))" for approved t pl e s t' pl'
    by (simp add: refuse_keeps keepsP_bind log_keeps pass_keeps)
  then show ?thesis unfolding check_policy_def Let_def
    by (simp add: refuse_keeps pass_keeps keepsP_bind log_keeps ask_keeps)
qed

lemma check_quota_keeps [keeps_intros]: "keepsP I (check_quota r ids action)"
  using refuse_keeps pass_keeps by (simp add: check_quota_def keepsP_def Let_def)

lemma check_immune_keeps [keeps_intros]: "keepsP I (check_immune r ids trust action)"
  unfolding check_immune_def by (intro keepsP_bind immune_keeps) (auto intro: refuse_keeps pass_keeps)

lemma emit_keeps [keeps_intros]: "keepsP I (ctx_emit (runner_context r ids action) d)"
  by (simp add: runner_context_def runner_emit_def keepsP_bind append_keeps host_keeps keepsP_return)

lemma execute_keeps:
  assumes "executors_keep I r"
  shows "keepsP I (execute action input (runner_context r ids action) (rc_executors r))"
proof (cases "map_get (rc_executors r) action")
  case None
  then show ?thesis
    unfolding execute_def Let_def executor_resolve_def
    by (simp add: bind_lift_error keepsP_bind emit_keeps keepsP_return keepsP_throw)
next
  case (Some e)
  have "e \<in> set (map_values (rc_executors r))" using map_of_SomeD [OF Some] by force
  then have "keepsP I (ex_canExecute e (runner_context r ids action))" "\<And>input. keepsP I (ex_execute e input (runner_context r ids action))"
    using assms by (auto simp: executors_keep_def)
  then show ?thesis
    unfolding execute_def Let_def executor_resolve_def
    by (simp add: Some bind_lift_ok keepsP_bind emit_keeps keepsP_return)
qed

abbreviation checks :: "run_ids \<Rightarrow> trust_state option \<Rightarrow> string \<Rightarrow> 'x step_check" where
  "checks ids trust action \<equiv> and_then (check_name r ids action) (and_then (check_policy r ids action)
     (and_then (check_quota r ids action) (check_immune r ids trust action)))"

lemma checks_keep: "keepsP I (checks ids trust action)"
  by (intro keeps_intros)

lemma finish_keeps: "keepsP I (finish_run r ids intent results v)"
proof -
  have flush: "keepsP I (runner_flush r)"
    by (auto simp: runner_flush_def split: option.split intro: keepsP_return outside_keeps)
  have report: "keepsP I (\<lambda>w'. (Inr (g w'), w'))" for g :: "'x runner_world \<Rightarrow> proof_carrying_outcome"
    by (simp add: keepsP_def)
  have "keepsP I (bindP (on_outside (rc_billing r u)) (\<lambda>_. bindP (runner_flush r) (\<lambda>_ w'. (Inr (g w'), w'))))"
    for u and g :: "'x runner_world \<Rightarrow> proof_carrying_outcome"
    by (intro keepsP_bind outside_keeps flush report)
  from keepsP_D [OF this] show ?thesis by (simp add: keepsP_def finish_run_def Let_def)
qed

lemma verify_keeps: "verifier_keeps I opts \<Longrightarrow> keepsP I (verify_run r ids intent opts results)"
  unfolding verify_run_def
  by (intro keepsP_bind host_keeps log_keeps keepsP_return)
    (auto simp: verifier_keeps_def split: option.splits intro: keepsP_return log_keeps)

end

locale runner_invariant = runner_frame +
  assumes record_keeps [keeps_intros]: "keepsP I (rn_record r e)"
begin

lemma use_keeps [keeps_intros]: "keepsP I (rn_use r ids resource)"
  unfolding rn_use_def by (intro keeps_intros)

lemma step_keeps:
  assumes "executors_keep I r"
  shows "keepsP I (run_step r ids trust s results)"
  unfolding run_step_def Let_def
  by (intro keepsP_bind checks_keep)
    (auto split: option.split intro!: keepsP_bind keepsP_lift keepsP_return use_keeps execute_keeps [OF assms])

lemma steps_keep: "executors_keep I r \<Longrightarrow> keepsP I (run_steps r ids trust ss results)"
  by (induction ss arbitrary: results) (auto intro!: keepsP_bind keepsP_return step_keeps)

lemma begin_keeps: "keepsP I (begin_run r intent opts)"
  unfolding begin_run_def Let_def by (intro keeps_intros)

lemma run_keeps:
  "executors_keep I r \<Longrightarrow> verifier_keeps I opts \<Longrightarrow> keepsP I (runner_run r intent opts)"
  unfolding runner_run_def by (intro keepsP_bind begin_keeps steps_keep verify_keeps finish_keeps)

end

section \<open>Tool calls\<close>

definition tool_calls_are :: "int \<Rightarrow> 'x runner_world \<Rightarrow> bool" where
  "tool_calls_are n w \<longleftrightarrow> meter_usage (rn_meter w) Tool_calls = n"

lemma append_world:
  "\<exists>h. snd (rn_append r d w) = w\<lparr>rn_immune := (rn_immune w)\<lparr>iw_host := h,
     iw_ledger := Some (snd (snd (append_event (rc_sha r) d (iw_host (rn_immune w), rn_ledger w))))\<rparr>\<rparr>"
  by (auto simp: rn_append_def case_prod_beta)

lemma append_meter [simp]: "rn_meter (snd (rn_append r d w)) = rn_meter w"
  using append_world [of r d w] by auto

interpretation calls: runner_frame r "tool_calls_are n" for r :: "'x local_runner" and n
  by unfold_locales (simp_all add: tool_calls_are_def keepsP_def on_immune_def case_prod_beta)

lemma record_calls:
  "tool_calls_are n w \<Longrightarrow>
    tool_calls_are (n + (if ue_resource e = Tool_calls then ue_amount e else 0)) (snd (rn_record r e w))"
  using keepsP_D [OF calls.append_keeps]
  by (auto simp: rn_record_def Let_def bindP_def returnP_def case_prod_beta tool_calls_are_def meter_record_def
      meter_usage_def add_usage_def split: sum.splits)

lemma use_calls:
  assumes "tool_calls_are n w"
  shows "tool_calls_are (n + (if resource = Tool_calls then 1 else 0)) (snd (rn_use r ids resource w))"
proof -
  obtain now w1 where w1: "on_host date_now w = (Inr now, w1)" by (auto simp: on_host_def on_immune_def case_prod_beta)
  then have "tool_calls_are n w1" using keepsP_D [OF calls.host_keeps assms, of date_now] by simp
  from record_calls [OF this, of "\<lparr>ue_resource = resource, ue_amount = 1, ue_at = now, ue_actorId = ri_actorId ids,
      ue_runId = ri_runId ids, ue_note = None, ue_tenantId = None, ue_userId = None\<rparr>" r]
  show ?thesis by (cases "resource = Tool_calls") (simp_all add: rn_use_def bindP_def w1)
qed

lemma use_other: "resource \<noteq> Tool_calls \<Longrightarrow> keepsP (tool_calls_are n) (rn_use r ids resource)"
  using use_calls [of n _ resource r ids] by (simp add: keepsP_def)

lemma begin_calls: "keepsP (tool_calls_are n) (begin_run r intent opts)"
  unfolding begin_run_def Let_def
  by (intro keepsP_bind calls.host_keeps calls.log_keeps use_other keepsP_return) simp_all

lemma and_then_passes:
  "and_then p q w = (Inr None, w') \<longleftrightarrow> (\<exists>w1. p w = (Inr None, w1) \<and> q w1 = (Inr None, w'))"
  by (auto simp: and_then_def bindP_ok returnP_def split: option.splits)

lemma quota_passes:
  "check_quota r ids action w = (Inr None, w') \<Longrightarrow> tool_calls_are n w \<Longrightarrow> n + 1 \<le> maxToolCalls (rc_budget r)"
  by (auto simp: check_quota_def Let_def refuse_def bindP_ok returnP_def budget_allows_iff limitFor_def tool_calls_are_def
      split: if_splits)

lemma checks_pass_quota:
  assumes "calls.checks r ids trust action w = (Inr None, w')" "tool_calls_are n w"
  shows "n + 1 \<le> maxToolCalls (rc_budget r)"
proof -
  from assms(1) obtain w1 w2 w3 where w: "check_name r ids action w = (Inr None, w1)"
      "check_policy r ids action w1 = (Inr None, w2)" "check_quota r ids action w2 = (Inr None, w3)"
    by (auto simp: and_then_passes)
  then have "tool_calls_are n w2"
    using keepsP_D [OF calls.check_name_keeps assms(2)] keepsP_D [OF calls.check_policy_keeps] by (metis snd_conv)
  then show ?thesis using quota_passes w(3) by blast
qed

lemma use_after:
  "p w1 = (x, w2) \<Longrightarrow>
    snd (bindP p (\<lambda>a. bindP (rn_use r ids Tool_calls) (\<lambda>_. returnP (g a))) w1) \<in> {w2, snd (rn_use r ids Tool_calls w2)}"
  by (auto simp: bindP_def returnP_def case_prod_beta split: sum.splits)

text \<open>One step raises the number by at most one, and only up to the limit.\<close>

definition leaves_calls :: "'x local_runner \<Rightarrow> bool" where
  "leaves_calls r \<longleftrightarrow> (\<forall>n. executors_keep (tool_calls_are n) r)"

abbreviation calls_within :: "'x local_runner \<Rightarrow> 'x runner_world \<Rightarrow> bool" where
  "calls_within r w \<equiv> meter_usage (rn_meter w) Tool_calls \<le> maxToolCalls (rc_budget r)"

lemma step_within:
  assumes "leaves_calls r"
  shows "keepsP (calls_within r) (run_step r ids trust s results)"
  unfolding keepsP_def
proof (intro allI impI)
  fix w assume le: "calls_within r w"
  define n where "n = meter_usage (rn_meter w) Tool_calls"
  then have w: "tool_calls_are n w" by (simp add: tool_calls_are_def)
  obtain v w1 where c: "calls.checks r ids trust (rs_action s) w = (v, w1)" by (cases "calls.checks r ids trust (rs_action s) w")
  then have w1: "tool_calls_are n w1" 
    using keepsP_D [OF calls.checks_keep [where r = r and ids = ids and trust = trust and action = "rs_action s"] w] by simp
  let ?exec = "bindP (liftE (step_input_of s results)) (\<lambda>input.
      execute (rs_action s) input (runner_context r ids (rs_action s)) (rc_executors r))"
  let ?go = "bindP ?exec (\<lambda>result. bindP (rn_use r ids Tool_calls) (\<lambda>_. returnP (result, False)))"
  show "calls_within r (snd (run_step r ids trust s results w))"
  proof (cases "v = Inr None")
    case False
    then have "snd (run_step r ids trust s results w) = w1"
      by (auto simp: run_step_def Let_def bindP_def c returnP_def split: sum.splits option.splits)
    then show ?thesis using w1 le n_def by (simp add: tool_calls_are_def)
  next
    case True
    then have lim: "n + 1 \<le> maxToolCalls (rc_budget r)" using checks_pass_quota c w by blast
    have step: "run_step r ids trust s results w = ?go w1" using c True
      by (cases "step_input_of s results") (simp_all add: run_step_def Let_def bindP_def liftE_def)
    obtain x w2 where x: "?exec w1 = (x, w2)" by (cases "?exec w1")
    have keep: "keepsP (tool_calls_are n) ?exec"
      using assms by (intro keepsP_bind keepsP_lift calls.execute_keeps) (simp add: leaves_calls_def)
    have w2: "tool_calls_are n w2"
      using keepsP_D [OF keep w1] x by simp
    have "tool_calls_are (n + 1) (snd (rn_use r ids Tool_calls w2))" using use_calls [OF w2, of Tool_calls r ids] by simp
    then have "snd (?go w1) = w2 \<or> tool_calls_are (n + 1) (snd (?go w1))"
      using use_after [where p = ?exec and r = r and ids = ids and g = "\<lambda>result. (result, False)", OF x] by auto
    then show ?thesis using step w2 lim by (auto simp: tool_calls_are_def)
  qed
qed

lemma keeps_within: "(\<And>n. keepsP (tool_calls_are n) p) \<Longrightarrow> keepsP (calls_within r) p"
  by (auto simp: keepsP_def tool_calls_are_def)

lemma run_within:
  assumes "leaves_calls r" "\<And>n. verifier_keeps (tool_calls_are n) opts"
  shows "keepsP (calls_within r) (runner_run r intent opts)"
proof -
  have "keepsP (calls_within r) (run_steps r ids trust ss results)" for ids trust ss results
    by (induction ss arbitrary: results) (auto intro!: keepsP_bind keepsP_return step_within assms(1))
  then show ?thesis unfolding runner_run_def
    by (intro keepsP_bind keeps_within [OF begin_calls] keeps_within [OF calls.verify_keeps]
        keeps_within [OF calls.finish_keeps] assms)
qed

section \<open>The ledger\<close>

definition immune_chain :: "(string \<Rightarrow> string) \<Rightarrow> ledger \<Rightarrow> immune_world \<Rightarrow> bool" where
  "immune_chain sha pre w \<longleftrightarrow> (\<exists>es. iw_ledger w = Some es \<and> prefix pre es \<and> ledger_wf sha es)"

lemma immune_chain_frame: "iw_ledger w' = iw_ledger w \<Longrightarrow> immune_chain sha pre w \<Longrightarrow> immune_chain sha pre w'"
  by (simp add: immune_chain_def)

lemma immune_open_keeps: "keepsP (immune_chain sha pre) (openIncident sha d entityId detail)"
  unfolding keepsP_def
proof (intro allI impI)
  fix w assume "immune_chain sha pre w"
  then obtain es where es: "iw_ledger w = Some es" "prefix pre es" "ledger_wf sha es" by (auto simp: immune_chain_def)
  from openIncident_ledger [OF es(1), of sha d entityId detail]
  show "immune_chain sha pre (snd (openIncident sha d entityId detail w))"
    using es(2,3) by (auto simp: immune_chain_def prefix_def)
qed

lemma apply_keeps: "keepsP (immune_chain sha pre) (apply_decision sha d request)"
proof -
  have [keeps_intros]: "keepsP (immune_chain sha pre) (runtime_metric f)" "keepsP (immune_chain sha pre) (runtime_killRequest req)"
      "keepsP (immune_chain sha pre) (runtime_quarantine i reason ev)" for f req i reason ev
    by (auto simp: keepsP_def runtime_metric_def runtime_killRequest_def runtime_quarantine_def case_prod_beta
        intro: immune_chain_frame split: prod.splits sum.splits)
  then show ?thesis unfolding apply_decision_def Let_def
    by (auto intro!: keepsP_bind keepsP_return immune_open_keeps)
qed

lemma immune_evaluate_keeps: "keepsP (immune_chain sha pre) (evaluateAndApply sha request)"
proof -
  have "keepsP (immune_chain sha pre) (runtime_evaluate request)"
    by (auto simp: keepsP_def runtime_evaluate_def case_prod_beta intro: immune_chain_frame)
  then show ?thesis unfolding evaluateAndApply_def by (intro keepsP_bind apply_keeps keepsP_return)
qed

definition chained :: "'x local_runner \<Rightarrow> ledger \<Rightarrow> 'x runner_world \<Rightarrow> bool" where
  "chained r pre w \<longleftrightarrow> immune_chain (rc_sha r) pre (rn_immune w)"

lemma chained_append: "keepsP (chained r pre) (rn_append r d)"
  unfolding keepsP_def
proof (intro allI impI)
  fix w assume "chained r pre w"
  then obtain es where es: "iw_ledger (rn_immune w) = Some es" "prefix pre es" "ledger_wf (rc_sha r) es"
    by (auto simp: chained_def immune_chain_def)
  then have "ledger_wf (rc_sha r) (snd (snd (append_event (rc_sha r) d (iw_host (rn_immune w), es))))"
    by (intro append_event_wf) simp
  then show "chained r pre (snd (rn_append r d w))"
    using es append_world [of r d w] by (auto simp: chained_def immune_chain_def rn_ledger_def prefix_def)
qed

lemma chained_frame:
  "chained r pre w \<Longrightarrow> chained r pre (w\<lparr>rn_immune := (rn_immune w)\<lparr>iw_host := h\<rparr>\<rparr>)"
  "chained r pre w \<Longrightarrow> chained r pre (w\<lparr>rn_outside := x\<rparr>)"
  "chained r pre (w\<lparr>rn_meter := m\<rparr>) = chained r pre w"
  by (auto simp: chained_def intro: immune_chain_frame)

lemma chained_immune: "keepsP (chained r pre) (on_immune (evaluateAndApply (rc_sha r) q))"
  using keepsP_D [OF immune_evaluate_keeps] by (auto simp: keepsP_def chained_def on_immune_def case_prod_beta)

lemma chained_record: "keepsP (chained r pre) (rn_record r e)"
proof -
  have "keepsP (chained r pre) (bindP (rn_append r d) (\<lambda>_. returnP ()))" for d
    by (intro keepsP_bind chained_append keepsP_return)
  from keepsP_D [OF this] show ?thesis by (simp add: keepsP_def rn_record_def Let_def chained_frame(3))
qed

interpretation chain: runner_invariant r "chained r pre" for r :: "'x local_runner" and pre
  by unfold_locales (rule chained_append chained_immune chained_frame chained_record; assumption?)+

end
