(* ===== verification/RunnerCases.thy ===== *)
theory RunnerCases
  imports RunnerRuns
begin

text \<open>
  What the runs of the local runner guarantee: the tool calls of any number of runs stay within the
  budget, an action the guard, the policy or the missing approval refuses runs nothing, the outcome's
  verdict is the one its results justify and its ledger a verifying extension of the ledger before.
\<close>

section \<open>Two runners\<close>

text \<open>The smoke runner, and a runner without grants.\<close>

definition demo_runner :: "unit local_runner" where
  "demo_runner = (case createLocalSmokeRunner demo_sha ''local'' of Inr r \<Rightarrow> r | Inl e \<Rightarrow> undefined)"

definition demo_stranger :: "unit local_runner" where
  "demo_stranger = new_local_runner demo_sha None None None None None None None None None"

definition demo_task :: "string list \<Rightarrow> unit run_task_options" where
  "demo_task plan = \<lparr>rt_actorId = None, rt_actorTrust = None, rt_plan = Some plan, rt_steps = None, rt_onVerify = None\<rparr>"

definition demo_rn_world :: "unit runner_world" where
  "demo_rn_world = new_runner_world [] demo_host ()"

lemma demo_executors: "rc_executors demo_runner = map (\<lambda>a. (a, smoke_executor a)) LOCAL_SMOKE_ACTIONS"
  "rc_budget demo_runner = FREE_BUDGET" "rc_sha demo_runner = demo_sha"
  by (simp_all add: demo_runner_def createLocalSmokeRunner_def LOCAL_SMOKE_ACTIONS_def add_smoke_action_def runner_grant_def
      addGrant_def registerExecutor_def executor_register_def new_local_runner_def)

lemma smoke_keeps: "executors_keep I demo_runner"
  by (simp add: executors_keep_def demo_executors LOCAL_SMOKE_ACTIONS_def smoke_executor_def keepsP_return)

section \<open>What a run does not look at\<close>

lemma append_ignores [simp]:
  "rn_append (r\<lparr>rc_executors := ex\<rparr>) = rn_append r" "rn_append (r\<lparr>rc_budget := b\<rparr>) = rn_append r"
  by (simp_all add: fun_eq_iff rn_append_def)

lemma log_ignores [simp]:
  "rn_log (r\<lparr>rc_executors := ex\<rparr>) = rn_log r" "rn_log (r\<lparr>rc_budget := b\<rparr>) = rn_log r"
  "rn_use (r\<lparr>rc_executors := ex\<rparr>) = rn_use r" "rn_use (r\<lparr>rc_budget := b\<rparr>) = rn_use r"
  by (simp_all add: fun_eq_iff rn_log_def rn_use_def rn_record_def)

lemma emit_ignores [simp]:
  "runner_emit (r\<lparr>rc_executors := ex\<rparr>) = runner_emit r" "runner_emit (r\<lparr>rc_budget := b\<rparr>) = runner_emit r"
  "runner_policy (r\<lparr>rc_executors := ex\<rparr>) = runner_policy r" "runner_policy (r\<lparr>rc_budget := b\<rparr>) = runner_policy r"
  by (simp_all add: fun_eq_iff runner_emit_def runner_policy_def)

lemma refuse_ignores [simp]:
  "refuse (r\<lparr>rc_executors := ex\<rparr>) = refuse r" "refuse (r\<lparr>rc_budget := b\<rparr>) = refuse r"
  by (simp_all add: fun_eq_iff refuse_def)

lemma checks_ignore [simp]:
  "check_name (r\<lparr>rc_executors := ex\<rparr>) = check_name r" "check_name (r\<lparr>rc_budget := b\<rparr>) = check_name r"
  "check_policy (r\<lparr>rc_executors := ex\<rparr>) = check_policy r" "check_policy (r\<lparr>rc_budget := b\<rparr>) = check_policy r"
  "check_quota (r\<lparr>rc_executors := ex\<rparr>) = check_quota r"
  "check_immune (r\<lparr>rc_executors := ex\<rparr>) = check_immune r" "check_immune (r\<lparr>rc_budget := b\<rparr>) = check_immune r"
  "runner_context (r\<lparr>rc_executors := ex\<rparr>) = runner_context r" "runner_context (r\<lparr>rc_budget := b\<rparr>) = runner_context r"
  by (simp_all add: fun_eq_iff refuse_def check_name_def check_policy_def check_quota_def check_immune_def
      runner_context_def cong: option.case_cong sum.case_cong if_cong)

lemma run_parts_ignore [simp]:
  "begin_run (r\<lparr>rc_executors := ex\<rparr>) = begin_run r" "begin_run (r\<lparr>rc_budget := b\<rparr>) = begin_run r"
  "verify_run (r\<lparr>rc_executors := ex\<rparr>) = verify_run r" "verify_run (r\<lparr>rc_budget := b\<rparr>) = verify_run r"
  "finish_run (r\<lparr>rc_executors := ex\<rparr>) = finish_run r" "finish_run (r\<lparr>rc_budget := b\<rparr>) = finish_run r"
  by (simp_all add: fun_eq_iff begin_run_def verify_run_def finish_run_def runner_flush_def Let_def
      cong: option.case_cong if_cong)

section \<open>Who gets to run\<close>

definition run_actor :: "'x run_task_options \<Rightarrow> string" where
  "run_actor opts = (case rt_actorId opts of None \<Rightarrow> ''coder'' | Some a \<Rightarrow> a)"

text \<open>The guard rejects the name, the policy denies the action, or it wants an approval nobody can give.\<close>

definition refused :: "'x local_runner \<Rightarrow> string \<Rightarrow> string \<Rightarrow> bool" where
  "refused r actor action \<longleftrightarrow>
     (case rc_guard r of None \<Rightarrow> False | Some g \<Rightarrow> (case g action of Inl _ \<Rightarrow> True | Inr _ \<Rightarrow> False)) \<or>
     (let d = evaluate (rc_policy r) actor action ''*'' in
        \<not> pd_allowed d \<or> (pd_approvalRequired d \<and> rc_onApprovalRequired r = None))"

lemma refuse_stops: "refuse r ids type payload error stop w \<noteq> (Inr None, w')"
  by (auto simp: refuse_def bindP_ok returnP_def)

lemma refused_stops:
  assumes "refused r (ri_actorId ids) action"
  shows "and_then (check_name r ids action) (and_then (check_policy r ids action) q) w \<noteq> (Inr None, w')"
proof
  assume "and_then (check_name r ids action) (and_then (check_policy r ids action) q) w = (Inr None, w')"
  then obtain w1 w2 where name: "check_name r ids action w = (Inr None, w1)" and pol: "check_policy r ids action w1 = (Inr None, w2)"
    by (auto simp: and_then_passes)
  have "\<not> (case rc_guard r of None \<Rightarrow> False | Some g \<Rightarrow> (case g action of Inl _ \<Rightarrow> True | Inr _ \<Rightarrow> False))"
    using name by (auto simp: check_name_def refuse_stops split: option.splits sum.splits)
  moreover have "pd_allowed (runner_policy r ids action) \<and>
      (pd_approvalRequired (runner_policy r ids action) \<longrightarrow> rc_onApprovalRequired r \<noteq> None)"
    using pol by (auto simp: check_policy_def Let_def refuse_stops bindP_ok returnP_def split: if_splits option.splits)
  ultimately show False using assms by (auto simp: refused_def runner_policy_def Let_def)
qed

lemma step_congruent:
  assumes "refused r (ri_actorId ids) (rs_action s) \<or> map_get (rc_executors r) (rs_action s) = map_get ex (rs_action s)"
  shows "run_step (r\<lparr>rc_executors := ex\<rparr>) ids trust s results = run_step r ids trust s results"
proof
  fix w
  let ?checks = "and_then (check_name r ids (rs_action s)) (and_then (check_policy r ids (rs_action s))
      (and_then (check_quota r ids (rs_action s)) (check_immune r ids trust (rs_action s))))"
  obtain v w1 where c: "?checks w = (v, w1)" by (cases "?checks w")
  show "run_step (r\<lparr>rc_executors := ex\<rparr>) ids trust s results w = run_step r ids trust s results w"
  proof (cases "v = Inr None")
    case True
    then have "map_get (rc_executors r) (rs_action s) = map_get ex (rs_action s)"
      using assms c refused_stops by metis
    then have "executor_resolve ex (rs_action s) = executor_resolve (rc_executors r) (rs_action s)"
      by (simp add: executor_resolve_def)
    then have "execute (rs_action s) i ctx ex = execute (rs_action s) i ctx (rc_executors r)" for i ctx
      by (simp add: execute_def cong: if_cong)
    then show ?thesis by (simp add: run_step_def Let_def)
  next
    case False
    then show ?thesis using c by (auto simp: run_step_def Let_def bindP_def split: sum.splits option.splits)
  qed
qed

lemma steps_congruent:
  "list_all (\<lambda>s. refused r (ri_actorId ids) (rs_action s) \<or> map_get (rc_executors r) (rs_action s) = map_get ex (rs_action s)) ss \<Longrightarrow>
    run_steps (r\<lparr>rc_executors := ex\<rparr>) ids trust ss results = run_steps r ids trust ss results"
proof (induction ss arbitrary: results)
  case (Cons s ss)
  then show ?case by (auto simp: step_congruent fun_eq_iff bindP_def split: sum.splits prod.splits)
qed simp

lemma begin_actor: "begin_run r intent opts w = (Inr ids, w') \<Longrightarrow> ri_actorId ids = run_actor opts"
  by (auto simp: begin_run_def bindP_ok Let_def returnP_def run_actor_def)

text \<open>C10.  An action nobody allowed runs nothing: the executors of the actions which the naming guard rejects,
  the policy denies or which need an approval that no handler can give make no difference to a run,
  neither to its outcome nor to the ledger, the meter or anything else it leaves behind.\<close>

theorem refused_actions_run_nothing:
  assumes "list_all (\<lambda>s. refused r (run_actor opts) (rs_action s) \<or>
      map_get (rc_executors r) (rs_action s) = map_get ex (rs_action s)) (steps_of opts)"
  shows "runner_run (r\<lparr>rc_executors := ex\<rparr>) intent opts w = runner_run r intent opts w"
proof (cases "begin_run r intent opts w")
  case (Pair v w1)
  show ?thesis
  proof (cases v)
    case (Inr ids)
    then have "ri_actorId ids = run_actor opts" using Pair begin_actor by blast
    then show ?thesis using assms steps_congruent [where ids = ids and ss = "steps_of opts" and ex = ex] Inr Pair
      by (simp add: runner_run_def bindP_def)
  qed (simp add: runner_run_def bindP_def Pair)
qed

theorem refused_actions_run_nothing_witness:
  "runner_run (demo_stranger\<lparr>rc_executors := [(''fs.write'', smoke_executor ''fs.write'')]\<rparr>) ''write'' (demo_task [''fs.write'']) demo_rn_world =
   runner_run demo_stranger ''write'' (demo_task [''fs.write'']) demo_rn_world"
proof (rule refused_actions_run_nothing)
  show "list_all (\<lambda>s. refused demo_stranger (run_actor (demo_task [''fs.write''])) (rs_action s) \<or>
      map_get (rc_executors demo_stranger) (rs_action s) = map_get [(''fs.write'', smoke_executor ''fs.write'')] (rs_action s))
      (steps_of (demo_task [''fs.write'']))"
    by (simp add: demo_task_def steps_of_def refused_def demo_stranger_def new_local_runner_def run_actor_def evaluate_def relevant_grants_def Let_def)
qed


text \<open>Of a budget the runner enforces the tool calls and nothing else: two budgets with the same limit
  of tool calls give the same run, whatever they say about runs, model calls, network requests,
  tokens, time and cost, although the runner meters runs and model calls and the free budget limits them.\<close>

theorem only_tool_calls_are_limited:
  assumes "maxToolCalls b = maxToolCalls (rc_budget r)"
  shows "runner_run (r\<lparr>rc_budget := b\<rparr>) intent opts w = runner_run r intent opts w"
proof -
  have quota: "check_quota (r\<lparr>rc_budget := b\<rparr>) = check_quota r"
    using assms by (simp add: fun_eq_iff check_quota_def budget_allows_def limitFor_def)
  have "run_step (r\<lparr>rc_budget := b\<rparr>) = run_step r" by (intro ext) (simp add: run_step_def quota)
  then have "run_steps (r\<lparr>rc_budget := b\<rparr>) ids trust ss results = run_steps r ids trust ss results" for ids trust ss results
    by (induction ss arbitrary: results) (auto simp: fun_eq_iff bindP_def split: sum.splits prod.splits)
  then show ?thesis by (simp add: runner_run_def)
qed

theorem only_tool_calls_are_limited_witness:
  "runner_run (demo_runner\<lparr>rc_budget := FREE_BUDGET\<lparr>maxRuns := Some 0, maxModelCalls := 0\<rparr>\<rparr>) ''read'' (demo_task [''repo.read'']) demo_rn_world =
   runner_run demo_runner ''read'' (demo_task [''repo.read'']) demo_rn_world"
  by (rule only_tool_calls_are_limited) (simp add: demo_executors)


section \<open>The outcome\<close>

text \<open>C23.  Any number of runs stays within the limit of tool calls, whatever they do and however they end, as
  long as executors and verifiers do not write the runner's own meter.\<close>

theorem tool_calls_within_budget:
  assumes "leaves_calls r" "\<And>n. list_all (\<lambda>(intent, opts). verifier_keeps (tool_calls_are n) opts) tasks"
    and "meter_usage (rn_meter w) Tool_calls \<le> maxToolCalls (rc_budget r)"
  shows "meter_usage (rn_meter (fold (\<lambda>(intent, opts) w. snd (runner_run r intent opts w)) tasks w)) Tool_calls \<le>
    maxToolCalls (rc_budget r)"
  using assms(2,3)
proof (induction tasks arbitrary: w)
  case (Cons t tasks)
  obtain intent opts where t: "t = (intent, opts)" by (cases t)
  have "calls_within r (snd (runner_run r intent opts w))"
    using keepsP_D [OF run_within [OF assms(1)]] Cons.prems t by simp
  then show ?case using Cons.IH Cons.prems(1) t by simp
qed simp

theorem tool_calls_within_budget_witness:
  "meter_usage (rn_meter (fold (\<lambda>(intent, opts) w. snd (runner_run demo_runner intent opts w))
     [(''a'', demo_task [''repo.read'']), (''b'', demo_task [''test.run'', ''fs.write''])] demo_rn_world)) Tool_calls \<le>
   maxToolCalls (rc_budget demo_runner)"
proof (rule tool_calls_within_budget)
  show "leaves_calls demo_runner" by (simp add: leaves_calls_def smoke_keeps)
  show "list_all (\<lambda>(intent, opts). verifier_keeps (tool_calls_are n) opts)
      [(''a'', demo_task [''repo.read'']), (''b'', demo_task [''test.run'', ''fs.write''])]" for n
    by (simp add: demo_task_def verifier_keeps_def)
  show "meter_usage (rn_meter demo_rn_world) Tool_calls \<le> maxToolCalls (rc_budget demo_runner)"
    by (simp add: demo_rn_world_def new_runner_world_def new_usage_meter_def meter_usage_def EMPTY_USAGE_def demo_executors FREE_BUDGET_def)
qed


lemma steps_length: "run_steps r ids trust ss results w = (Inr rs, w') \<Longrightarrow> length rs \<le> length results + length ss"
  by (induction ss arbitrary: results w) (fastforce simp: returnP_def bindP_ok split: prod.splits if_splits)+

lemma default_checks_verdicts:
  "list_all (\<lambda>c. vc_verdict c = V_PASSED) (default_checks rs) = list_all (\<lambda>x. res_status x = Success) rs"
proof -
  have "list_all (\<lambda>p. P (snd p)) (enumerate n xs) = list_all P xs" for P :: "exec_result \<Rightarrow> bool" and n xs
    by (induction xs arbitrary: n) simp_all
  from this [of "\<lambda>x. res_status x = Success"] show ?thesis
    by (simp add: default_checks_def list.pred_map comp_def case_prod_beta)
qed

lemma default_checks_evidence: "(checks_evidence (default_checks rs) \<noteq> []) = list_ex (\<lambda>x. res_evidence x \<noteq> []) rs"
proof -
  have "(concat (map (\<lambda>p. res_evidence (snd p)) (enumerate n xs)) \<noteq> []) = list_ex (\<lambda>x. res_evidence x \<noteq> []) xs" for n xs
    by (induction xs arbitrary: n) auto
  from this [of 0 rs] show ?thesis
    by (simp add: checks_evidence_def default_checks_def comp_def case_prod_beta)
qed

lemma verify_verdict:
  "(ver_verdict (fst (verify intent checks h)) = V_PASSED) =
     (list_all (\<lambda>c. vc_verdict c = V_PASSED) checks \<and> checks_evidence checks \<noteq> [])"
proof -
  have "list_all (\<lambda>c. vc_verdict c = V_PASSED) checks \<Longrightarrow> \<not> list_ex (\<lambda>c. vc_verdict c = V_FAILED) checks"
    by (auto simp: list_all_iff list_ex_iff)
  then show ?thesis
    by (cases checks) (auto simp: verify_def Let_def case_prod_beta deriveVerdict_def checks_evidence_def)
qed

lemma default_verdict:
  "(ver_verdict (fst (verify intent (default_checks rs) h)) = V_PASSED) =
     (list_all (\<lambda>x. res_status x = Success) rs \<and> list_ex (\<lambda>x. res_evidence x \<noteq> []) rs)"
  by (simp add: verify_verdict default_checks_verdicts default_checks_evidence)

lemma verify_checks [simp]: "ver_checks (fst (verify intent checks h)) = checks"
  by (simp add: verify_def Let_def case_prod_beta)

lemma log_last:
  assumes "rn_log r ids type payload w = (Inr u, w')"
  shows "\<exists>es ev. rn_ledger w' = es @ [ev] \<and> le_type ev = type"
  using assms by (auto simp: rn_log_def bindP_ok returnP_def rn_append_def rn_ledger_def case_prod_beta)

lemma verify_outcome:
  assumes "verify_run r ids intent opts results w = (Inr v, w')"
  shows "(ver_verdict v = V_PASSED) =
      (list_all (\<lambda>c. vc_verdict c = V_PASSED) (ver_checks v) \<and> checks_evidence (ver_checks v) \<noteq> [])"
    and "rt_onVerify opts = None \<Longrightarrow> ver_checks v = default_checks results"
    and "le_type (last (rn_ledger w')) = (if ver_verdict v = V_PASSED then ''TaskCompleted'' else ''TaskFailed'')"
proof -
  from assms obtain checks h w0 w1 w2 where c: "(case rt_onVerify opts of None \<Rightarrow> returnP (default_checks results) | Some f \<Rightarrow> f results) w = (Inr checks, w0)"
      and v: "v = fst (verify intent checks h)"
      and l: "(if ver_verdict v = V_PASSED then rn_log r ids ''TaskCompleted'' [(''intent'', JStr intent)]
        else rn_log r ids ''TaskFailed'' [(''intent'', JStr intent), (''verdict'', JStr (verdict_text (ver_verdict v)))]) w1 = (Inr (), w2)"
      and w': "w' = w2"
    by (auto simp: verify_run_def bindP_ok returnP_def on_host_def on_immune_def case_prod_beta)
  show "(ver_verdict v = V_PASSED) =
      (list_all (\<lambda>c. vc_verdict c = V_PASSED) (ver_checks v) \<and> checks_evidence (ver_checks v) \<noteq> [])"
    unfolding v by (simp add: verify_verdict)
  show "rt_onVerify opts = None \<Longrightarrow> ver_checks v = default_checks results"
    using c unfolding v by (simp add: returnP_def)
  show "le_type (last (rn_ledger w')) = (if ver_verdict v = V_PASSED then ''TaskCompleted'' else ''TaskFailed'')"
    using l w' by (auto dest!: log_last split: if_splits)
qed

lemma finish_outcome:
  assumes "finish_run r ids intent results v w = (Inr x, w')"
  shows "pco_ledger x = rn_ledger w' \<and> pco_results x = results \<and> pco_verification x = v \<and> pco_verdict x = ver_verdict v \<and> rn_ledger w' = rn_ledger w"
  using assms by (auto simp: finish_run_def Let_def bindP_ok on_outside_def runner_flush_def returnP_def rn_ledger_def
      case_prod_beta split: option.splits)

definition keeps_chain :: "'x local_runner \<Rightarrow> bool" where
  "keeps_chain r \<longleftrightarrow> (\<forall>pre. executors_keep (chained r pre) r)"

text \<open>C9.  A run carries its proof.  With executors and a verifier that only append to the ledger, a run that
  starts from a verifying ledger ends, also when it throws, with a ledger that extends it and verifies.
  The outcome it returns holds that ledger and at most one result per step; its verdict is PASSED
  exactly when every check of its verification passed and some check carries evidence; without a verifier of the
  task's own (\<open>onVerify\<close>) the checks are those of the results, so that this is: every result is a success
  and some result carries evidence.  The ledger's last event is TaskCompleted
  for a PASSED run and TaskFailed for any other.\<close>

theorem outcome_carries_proof:
  assumes "keeps_chain r" "\<And>pre. verifier_keeps (chained r pre) opts"
    and "iw_ledger (rn_immune w) = Some es" "ledger_wf (rc_sha r) es"
  shows "prefix es (rn_ledger (snd (runner_run r intent opts w))) \<and>
    cv_valid (verifyIntegrity (rc_sha r) (rn_ledger (snd (runner_run r intent opts w)))) \<and>
    (case fst (runner_run r intent opts w) of Inl e \<Rightarrow> True
     | Inr x \<Rightarrow> pco_ledger x = rn_ledger (snd (runner_run r intent opts w)) \<and>
         length (pco_results x) \<le> length (steps_of opts) \<and>
         (pco_verdict x = V_PASSED) = (list_all (\<lambda>c. vc_verdict c = V_PASSED) (ver_checks (pco_verification x)) \<and>
            checks_evidence (ver_checks (pco_verification x)) \<noteq> []) \<and>
         (rt_onVerify opts = None \<longrightarrow> (pco_verdict x = V_PASSED) =
            (list_all (\<lambda>s. res_status s = Success) (pco_results x) \<and> list_ex (\<lambda>s. res_evidence s \<noteq> []) (pco_results x))) \<and>
         le_type (last (pco_ledger x)) = (if pco_verdict x = V_PASSED then ''TaskCompleted'' else ''TaskFailed''))"
proof -
  obtain v w' where run: "runner_run r intent opts w = (v, w')" by (cases "runner_run r intent opts w")
  have "chained r es w" using assms(3,4) by (simp add: chained_def immune_chain_def)
  moreover have "executors_keep (chained r es) r" using assms(1) by (simp add: keeps_chain_def)
  ultimately have "chained r es w'" using keepsP_D [OF chain.run_keeps [OF _ assms(2)]] run by (metis snd_conv)
  then have chain: "prefix es (rn_ledger w')" "cv_valid (verifyIntegrity (rc_sha r) (rn_ledger w'))"
    by (auto simp: chained_def immune_chain_def rn_ledger_def verifyIntegrity_def verifyChain_valid ledger_wf_def)
  have "case v of Inl e \<Rightarrow> True
    | Inr x \<Rightarrow> pco_ledger x = rn_ledger w' \<and> length (pco_results x) \<le> length (steps_of opts) \<and>
       (pco_verdict x = V_PASSED) = (list_all (\<lambda>c. vc_verdict c = V_PASSED) (ver_checks (pco_verification x)) \<and>
          checks_evidence (ver_checks (pco_verification x)) \<noteq> []) \<and>
       (rt_onVerify opts = None \<longrightarrow> (pco_verdict x = V_PASSED) =
          (list_all (\<lambda>s. res_status s = Success) (pco_results x) \<and> list_ex (\<lambda>s. res_evidence s \<noteq> []) (pco_results x))) \<and>
       le_type (last (pco_ledger x)) = (if pco_verdict x = V_PASSED then ''TaskCompleted'' else ''TaskFailed'')"
  proof (cases v)
    case (Inr x)
    with run obtain ids w1 rs w2 ver w3 where
      "begin_run r intent opts w = (Inr ids, w1)" and steps: "run_steps r ids (rt_actorTrust opts) (steps_of opts) [] w1 = (Inr rs, w2)"
      and ver: "verify_run r ids intent opts rs w2 = (Inr ver, w3)" and fin: "finish_run r ids intent rs ver w3 = (Inr x, w')"
      by (auto simp: runner_run_def bindP_ok)
    show ?thesis
      using finish_outcome [OF fin] verify_outcome [OF ver] steps_length [OF steps] Inr
      by (auto simp: default_checks_verdicts default_checks_evidence)
  qed simp
  then show ?thesis using chain unfolding run fst_conv snd_conv by (intro conjI)
qed

text \<open>A task that brings its own verifier.\<close>

definition demo_verified_task :: "string list \<Rightarrow> unit run_task_options" where
  "demo_verified_task plan = (demo_task plan)\<lparr>rt_onVerify := Some (\<lambda>results. returnP (default_checks (take 1 results)))\<rparr>"

theorem outcome_carries_proof_witness:
  "(case fst (runner_run demo_runner ''read'' (demo_task [''repo.read'', ''fs.write'']) demo_rn_world) of Inl e \<Rightarrow> True
    | Inr x \<Rightarrow> (pco_verdict x = V_PASSED) =
        (list_all (\<lambda>s. res_status s = Success) (pco_results x) \<and> list_ex (\<lambda>s. res_evidence s \<noteq> []) (pco_results x))) \<and>
   cv_valid (verifyIntegrity (rc_sha demo_runner)
     (rn_ledger (snd (runner_run demo_runner ''read'' (demo_verified_task [''repo.read'', ''fs.write'']) demo_rn_world)))) \<and>
   (case fst (runner_run demo_runner ''read'' (demo_verified_task [''repo.read'', ''fs.write'']) demo_rn_world) of Inl e \<Rightarrow> True
    | Inr x \<Rightarrow> (pco_verdict x = V_PASSED) = (list_all (\<lambda>c. vc_verdict c = V_PASSED) (ver_checks (pco_verification x)) \<and>
        checks_evidence (ver_checks (pco_verification x)) \<noteq> []))"
proof -
  have ok: "keeps_chain demo_runner" "iw_ledger (rn_immune demo_rn_world) = Some []" "ledger_wf (rc_sha demo_runner) []"
    by (simp_all add: keeps_chain_def smoke_keeps demo_rn_world_def new_runner_world_def new_immune_runtime_def ledger_wf_def)
  have v: "verifier_keeps (chained demo_runner pre) (demo_task plan)"
    "verifier_keeps (chained demo_runner pre) (demo_verified_task plan)" for pre plan
    by (simp_all add: verifier_keeps_def demo_task_def demo_verified_task_def keepsP_return)
  have none: "rt_onVerify (demo_task plan) = None" for plan by (simp add: demo_task_def)
  show ?thesis
    using outcome_carries_proof [OF ok(1) v(1) ok(2,3), of "''read''" "[''repo.read'', ''fs.write'']"]
      outcome_carries_proof [OF ok(1) v(2) ok(2,3), of "''read''" "[''repo.read'', ''fs.write'']"]
    unfolding none by (elim conjE) (intro conjI; auto simp only: simp_thms split: sum.splits)
qed

end
