(* ===== verification/Storage.thy ===== *)
theory Storage
  imports Ledger Json
begin

text \<open>
  Durable storage: the SQLite and Postgres stores, the durable ledger and the projections of
  \<open>storage/store/src\<close>.  A SQLite table is the list of its rows in the order of their insertion; a
  TEXT column that holds \<open>JSON.stringify\<close> of a value is the value \<open>JSON.parse\<close> reads back from it.
  The Postgres driver is a parameter.  The interface \<open>event_store\<close> says what the durable ledger
  needs of a store; the SQLite event store provides it.
\<close>

section \<open>The SQLite event store\<close>

record event_row =
  er_seq :: nat
  er_id :: string
  er_type :: string
  er_task_id :: string
  er_run_id :: string
  er_actor_type :: actor_kind
  er_actor_id :: string
  er_payload :: jsv
  er_evidence :: "evidence_ref list option"
  er_prev_hash :: "string option"
  er_hash :: string
  er_timestamp :: string

definition rowToEvent :: "event_row \<Rightarrow> ledger_event" where
  "rowToEvent r = \<lparr>le_id = er_id r, le_seq = er_seq r, le_timestamp = er_timestamp r,
     le_actor = \<lparr>actor_kind = er_actor_type r, actor_id = er_actor_id r\<rparr>, le_type = er_type r, le_taskId = er_task_id r,
     le_runId = er_run_id r, le_payload = er_payload r, le_evidence = er_evidence r, le_prevHash = er_prev_hash r,
     le_hash = er_hash r\<rparr>"

text \<open>\<open>JSON.stringify\<close> of a value bound to a TEXT parameter; \<open>undefined\<close> cannot be bound.\<close>

definition text_column :: "nat \<Rightarrow> jsv \<Rightarrow> js_error + jsv" where
  "text_column i v =
     bindE (json_stringify v) (\<lambda>_. case json_norm v of
        None \<Rightarrow> Inl (JsError ''TypeError'' (''Provided value cannot be bound to SQLite parameter '' @ show_nat i @ ''.''))
      | Some u \<Rightarrow> Inr u)"

definition event_to_row :: "ledger_event \<Rightarrow> js_error + event_row" where
  "event_to_row e =
     bindE (text_column 8 (le_payload e)) (\<lambda>payload. Inr
       \<lparr>er_seq = le_seq e, er_id = le_id e, er_type = le_type e, er_task_id = le_taskId e, er_run_id = le_runId e,
        er_actor_type = actor_kind (le_actor e), er_actor_id = actor_id (le_actor e), er_payload = payload,
        er_evidence = le_evidence e, er_prev_hash = le_prevHash e, er_hash = le_hash e, er_timestamp = le_timestamp e\<rparr>)"

type_synonym event_table = "event_row list"

definition unique_violation :: "string \<Rightarrow> js_error" where
  "unique_violation column = plain_error (''UNIQUE constraint failed: '' @ column)"

definition sqlite_insert :: "ledger_event \<Rightarrow> event_table \<Rightarrow> js_error + event_table" where
  "sqlite_insert e rows =
     bindE (event_to_row e) (\<lambda>r.
       if er_seq r \<in> er_seq ` set rows then Inl (unique_violation ''events.seq'') else Inr (rows @ [r]))"

text \<open>The transaction: everything or, with \<open>ROLLBACK\<close>, nothing.\<close>

definition sqlite_append :: "ledger_event list \<Rightarrow> (event_table, unit) proc" where
  "sqlite_append events rows =
     (case foldE sqlite_insert events rows of Inl e \<Rightarrow> (Inl e, rows) | Inr rows' \<Rightarrow> (Inr (), rows'))"

definition sqlite_all :: "event_table \<Rightarrow> ledger_event list" where
  "sqlite_all rows = map rowToEvent (sort_key er_seq rows)"

definition sqlite_lastSeq :: "event_table \<Rightarrow> nat" where
  "sqlite_lastSeq rows = (if rows = [] then 0 else Max (er_seq ` set rows) + 1)"

definition sqlite_clear :: "event_table \<Rightarrow> event_table" where
  "sqlite_clear rows = []"

section \<open>Projections, checkpoints and evidence in SQLite\<close>

type_synonym projection_table = "(string, jsv) js_map"

definition projection_save :: "string \<Rightarrow> jsv \<Rightarrow> projection_table \<Rightarrow> js_error + projection_table" where
  "projection_save name state rows = bindE (text_column 2 state) (\<lambda>u. Inr (map_set name u rows))"

definition projection_load :: "string \<Rightarrow> projection_table \<Rightarrow> jsv option" where
  "projection_load name rows = map_get rows name"

record checkpoint_record =
  cp_id :: string
  cp_label :: string
  cp_kind :: string
  cp_state :: jsv
  cp_hash :: string
  cp_createdAt :: string

definition checkpoint_save :: "checkpoint_record \<Rightarrow> checkpoint_record list \<Rightarrow> js_error + checkpoint_record list" where
  "checkpoint_save c rows =
     bindE (text_column 4 (cp_state c)) (\<lambda>u.
       if cp_id c \<in> cp_id ` set rows then Inl (unique_violation ''checkpoints.id'') else Inr (rows @ [c\<lparr>cp_state := u\<rparr>]))"

definition checkpoint_get :: "string \<Rightarrow> checkpoint_record list \<Rightarrow> checkpoint_record option" where
  "checkpoint_get i rows = find (\<lambda>c. cp_id c = i) rows"

definition checkpoint_list :: "checkpoint_record list \<Rightarrow> checkpoint_record list" where
  "checkpoint_list rows = sort_key (\<lambda>c. map of_char (cp_createdAt c) :: nat list) rows"

record evidence_record =
  evr_id :: string
  evr_kind :: string
  evr_hash :: string
  evr_payload :: jsv
  evr_createdAt :: string

text \<open>\<open>INSERT OR REPLACE\<close> deletes the row of the same key and inserts the new one.\<close>

definition evidence_put :: "evidence_record \<Rightarrow> evidence_record list \<Rightarrow> js_error + evidence_record list" where
  "evidence_put e rows =
     bindE (text_column 4 (evr_payload e)) (\<lambda>u. Inr (filter (\<lambda>r. evr_id r \<noteq> evr_id e) rows @ [e\<lparr>evr_payload := u\<rparr>]))"

definition evidence_get :: "string \<Rightarrow> evidence_record list \<Rightarrow> evidence_record option" where
  "evidence_get i rows = find (\<lambda>r. evr_id r = i) rows"

definition evidence_list :: "evidence_record list \<Rightarrow> evidence_record list" where
  "evidence_list rows = sort_key (\<lambda>r. map of_char (evr_createdAt r) :: nat list) rows"

section \<open>The Postgres event store\<close>

datatype sql_value = SqlInt int | SqlText string | SqlNull | SqlUndefined

text \<open>The rows a query answers: events, and the row of an aggregate.\<close>

record 'w sql_driver =
  dr_query :: "string \<Rightarrow> ('w, event_row list) proc"
  dr_query_last :: "string \<Rightarrow> ('w, int option list) proc"
  dr_execute :: "string \<Rightarrow> sql_value list \<Rightarrow> ('w, unit) proc"
  dr_withTransaction :: "('w, unit) proc \<Rightarrow> ('w, unit) proc"

definition text_lines :: "string list \<Rightarrow> string" where
  "text_lines ls = join_with [CHR 0x0A] ls"

text \<open>\<open>SCHEMA\<close> with the table's name put for the word \<open>events\<close>, which it holds once.\<close>

definition pg_schema :: "string \<Rightarrow> string" where
  "pg_schema table = text_lines [
     [],
     ''  CREATE TABLE IF NOT EXISTS '' @ table @ '' ('',
     ''    seq BIGINT PRIMARY KEY,'',
     ''    id TEXT NOT NULL,'',
     ''    type TEXT NOT NULL,'',
     ''    task_id TEXT NOT NULL,'',
     ''    run_id TEXT NOT NULL,'',
     ''    actor_type TEXT NOT NULL,'',
     ''    actor_id TEXT NOT NULL,'',
     ''    payload JSONB NOT NULL,'',
     ''    evidence JSONB,'',
     ''    prev_hash TEXT,'',
     ''    hash TEXT NOT NULL,'',
     ''    timestamp TEXT NOT NULL'',
     ''  )'',
     []]"

definition pg_init :: "'w sql_driver \<Rightarrow> string \<Rightarrow> ('w, unit) proc" where
  "pg_init d table = dr_execute d (pg_schema table) []"

definition actor_kind_string :: "actor_kind \<Rightarrow> string" where
  "actor_kind_string k = (case k of ActUser \<Rightarrow> ''user'' | ActSystem \<Rightarrow> ''system'' | ActAgent \<Rightarrow> ''agent'' | ActTool \<Rightarrow> ''tool'')"

text \<open>\<open>JSON.stringify\<close> as a parameter.\<close>

definition json_param :: "jsv \<Rightarrow> js_error + sql_value" where
  "json_param v = bindE (json_stringify v) (\<lambda>t. Inr (case t of None \<Rightarrow> SqlUndefined | Some s \<Rightarrow> SqlText s))"

definition pg_insert :: "'w sql_driver \<Rightarrow> string \<Rightarrow> ledger_event \<Rightarrow> ('w, unit) proc" where
  "pg_insert d table e =
     bindP (liftE (json_param (le_payload e))) (\<lambda>payload.
     bindP (case le_evidence e of None \<Rightarrow> returnP SqlNull
         | Some ev \<Rightarrow> liftE (json_param (JArr (map evidence_jsv ev)))) (\<lambda>evidence.
       dr_execute d (text_lines [''INSERT INTO '' @ table @ '' (seq, id, type, task_id, run_id, actor_type, actor_id, payload, evidence, prev_hash, hash, timestamp)'',
           ''           VALUES ($1, $2, $3, $4, $5, $6, $7, $8, $9, $10, $11, $12)''])
         [SqlInt (int (le_seq e)), SqlText (le_id e), SqlText (le_type e), SqlText (le_taskId e), SqlText (le_runId e),
          SqlText (actor_kind_string (actor_kind (le_actor e))), SqlText (actor_id (le_actor e)), payload, evidence,
          (case le_prevHash e of None \<Rightarrow> SqlNull | Some h \<Rightarrow> SqlText h), SqlText (le_hash e), SqlText (le_timestamp e)]))"

definition pg_append :: "'w sql_driver \<Rightarrow> string \<Rightarrow> ledger_event list \<Rightarrow> ('w, unit) proc" where
  "pg_append d table events = dr_withTransaction d (forP (pg_insert d table) events)"

definition pg_all :: "'w sql_driver \<Rightarrow> string \<Rightarrow> ('w, ledger_event list) proc" where
  "pg_all d table =
     bindP (dr_query d (''SELECT * FROM '' @ table @ '' ORDER BY seq ASC'')) (\<lambda>rows. returnP (map rowToEvent rows))"

definition pg_lastSeq :: "'w sql_driver \<Rightarrow> string \<Rightarrow> ('w, int) proc" where
  "pg_lastSeq d table =
     bindP (dr_query_last d (''SELECT COALESCE(MAX(seq), -1) AS last FROM '' @ table)) (\<lambda>rows.
       returnP ((case rows of [] \<Rightarrow> -1 | r # rs \<Rightarrow> (case r of None \<Rightarrow> -1 | Some n \<Rightarrow> n)) + 1))"

definition pg_clear :: "'w sql_driver \<Rightarrow> string \<Rightarrow> ('w, unit) proc" where
  "pg_clear d table = dr_execute d (''DELETE FROM '' @ table) []"

section \<open>The durable ledger\<close>

record durable_ledger =
  dl_events :: ledger
  dl_pending :: "ledger_event list"

definition new_durable :: durable_ledger where
  "new_durable = \<lparr>dl_events = [], dl_pending = []\<rparr>"

definition dl_append ::
  "(string \<Rightarrow> string) \<Rightarrow> ledger_event_draft \<Rightarrow> host \<times> durable_ledger \<Rightarrow> ledger_event \<times> host \<times> durable_ledger" where
  "dl_append sha d = (\<lambda>(h, l).
     case append_event sha d (h, dl_events l) of
       (ev, h', es) \<Rightarrow> (ev, h', \<lparr>dl_events = es, dl_pending = dl_pending l @ [ev]\<rparr>))"

text \<open>\<open>flush\<close>: the batch is taken off before it is stored.\<close>

definition dl_flush :: "(ledger_event list \<Rightarrow> ('s, unit) proc) \<Rightarrow> (durable_ledger \<times> 's, unit) proc" where
  "dl_flush store_append = (\<lambda>(l, s).
     if dl_pending l = [] then (Inr (), (l, s))
     else case store_append (dl_pending l) s of (r, s') \<Rightarrow> (r, (l\<lparr>dl_pending := []\<rparr>, s')))"

definition pendingCount :: "durable_ledger \<Rightarrow> nat" where
  "pendingCount l = length (dl_pending l)"

fun hydrate_events ::
  "(string \<Rightarrow> string) \<Rightarrow> ledger_event list \<Rightarrow> (host \<times> durable_ledger, unit) proc" where
  "hydrate_events sha [] = returnP ()"
| "hydrate_events sha (e # es) = (\<lambda>(h, l).
     case append_event sha (draft_of e) (h, dl_events l) of
       (rebuilt, h', evs) \<Rightarrow>
         if le_hash rebuilt \<noteq> le_hash e then
           (Inl (plain_error (''durable ledger: hash mismatch at seq '' @ show_nat (le_seq e) @ '' (tamper detected)'')),
            (h', l\<lparr>dl_events := evs\<rparr>))
         else hydrate_events sha es (h', l\<lparr>dl_events := evs\<rparr>))"

definition dl_hydrate ::
  "(string \<Rightarrow> string) \<Rightarrow> ledger_event list \<Rightarrow> (host \<times> durable_ledger, unit) proc" where
  "dl_hydrate sha stored =
     (if stored = [] then returnP ()
      else
        let check = verifyChain sha stored in
        if \<not> cv_valid check then
          throwP (plain_error (''durable ledger: stored chain is invalid at seq '' @
            (case cv_index check of None \<Rightarrow> ''undefined'' | Some i \<Rightarrow> show_nat i)))
        else hydrate_events sha stored)"

section \<open>Projections\<close>

definition fold_events :: "ledger_event list \<Rightarrow> ('p \<Rightarrow> ledger_event \<Rightarrow> 'p) \<Rightarrow> 'p \<Rightarrow> 'p" where
  "fold_events events reducer initial = foldl reducer initial events"

record run_projection =
  rp_runs :: nat
  rp_completed :: nat
  rp_failed :: nat
  rp_blocked :: nat

definition initialRunProjection :: run_projection where
  "initialRunProjection = \<lparr>rp_runs = 0, rp_completed = 0, rp_failed = 0, rp_blocked = 0\<rparr>"

definition runProjectionReducer :: "run_projection \<Rightarrow> ledger_event \<Rightarrow> run_projection" where
  "runProjectionReducer s e =
     (if le_type e = ''RunCreated'' then s\<lparr>rp_runs := rp_runs s + 1\<rparr>
      else if le_type e = ''TaskCompleted'' then s\<lparr>rp_completed := rp_completed s + 1\<rparr>
      else if le_type e = ''TaskFailed'' then s\<lparr>rp_failed := rp_failed s + 1\<rparr>
      else if le_type e = ''ImmuneBlocked'' then s\<lparr>rp_blocked := rp_blocked s + 1\<rparr>
      else s)"

record approval_projection =
  app_required :: nat
  app_granted :: nat
  app_denied :: nat

definition initialApprovalProjection :: approval_projection where
  "initialApprovalProjection = \<lparr>app_required = 0, app_granted = 0, app_denied = 0\<rparr>"

definition approvalProjectionReducer :: "approval_projection \<Rightarrow> ledger_event \<Rightarrow> approval_projection" where
  "approvalProjectionReducer s e =
     (if le_type e = ''ApprovalRequired'' then s\<lparr>app_required := app_required s + 1\<rparr>
      else if le_type e = ''ApprovalGranted'' then s\<lparr>app_granted := app_granted s + 1\<rparr>
      else if le_type e = ''ApprovalDenied'' then s\<lparr>app_denied := app_denied s + 1\<rparr>
      else s)"

record usage_projection =
  up_runs :: nat
  up_modelCalls :: nat
  up_toolCalls :: nat

definition initialUsageProjection :: usage_projection where
  "initialUsageProjection = \<lparr>up_runs = 0, up_modelCalls = 0, up_toolCalls = 0\<rparr>"

definition usageProjectionReducer :: "usage_projection \<Rightarrow> ledger_event \<Rightarrow> usage_projection" where
  "usageProjectionReducer s e =
     (if le_type e = ''RunCreated'' then s\<lparr>up_runs := up_runs s + 1\<rparr>
      else if le_type e = ''PlanGenerated'' then s\<lparr>up_modelCalls := up_modelCalls s + 1\<rparr>
      else if le_type e = ''execution.completed'' then s\<lparr>up_toolCalls := up_toolCalls s + 1\<rparr>
      else s)"

record system_projection =
  sp_runs :: run_projection
  sp_approvals :: approval_projection
  sp_usage :: usage_projection

definition projectSystem :: "ledger_event list \<Rightarrow> system_projection" where
  "projectSystem events =
     \<lparr>sp_runs = fold_events events runProjectionReducer initialRunProjection,
      sp_approvals = fold_events events approvalProjectionReducer initialApprovalProjection,
      sp_usage = fold_events events usageProjectionReducer initialUsageProjection\<rparr>"

section \<open>What the SQLite event store promises\<close>

lemma event_to_row_kept: "json_pure (le_payload e) \<Longrightarrow> \<exists>r. event_to_row e = Inr r \<and> rowToEvent r = e \<and> er_seq r = le_seq e"
  by (simp add: event_to_row_def text_column_def json_stringify_def json_pure_no_bigint json_norm_pure rowToEvent_def)

lemma sort_key_snoc: "\<forall>x \<in> set xs. f x < f r \<Longrightarrow> sort_key f (xs @ [r]) = sort_key f xs @ [r]" for f :: "'a \<Rightarrow> nat"
proof (induction xs)
  case Nil
  then show ?case by simp
next
  case (Cons x xs)
  have "insort_key f x (ys @ [r]) = insort_key f x ys @ [r]" for ys
    using Cons.prems by (induction ys) auto
  then show ?case using Cons by simp
qed

lemma sqlite_insert_new:
  assumes "json_pure (le_payload e)" "\<forall>x \<in> set (sqlite_all rows). le_seq x < le_seq e"
  shows "\<exists>rows'. sqlite_insert e rows = Inr rows' \<and> sqlite_all rows' = sqlite_all rows @ [e]"
proof -
  obtain r where r: "event_to_row e = Inr r" "rowToEvent r = e" "er_seq r = le_seq e"
    using event_to_row_kept [OF assms(1)] by blast
  have less: "\<forall>x \<in> set rows. er_seq x < er_seq r"
    using assms(2) r(3) by (auto simp: sqlite_all_def rowToEvent_def)
  then have "er_seq r \<notin> er_seq ` set rows" by auto
  then have "sqlite_insert e rows = Inr (rows @ [r])" by (simp add: sqlite_insert_def r(1))
  then show ?thesis using sort_key_snoc [OF less] r(2) by (simp add: sqlite_all_def)
qed

lemma sqlite_append_new:
  "list_all (\<lambda>e. json_pure (le_payload e)) es \<Longrightarrow> sorted_wrt (<) (map le_seq (sqlite_all rows @ es)) \<Longrightarrow>
    \<exists>rows'. foldE sqlite_insert es rows = Inr rows' \<and> sqlite_all rows' = sqlite_all rows @ es"
proof (induction es arbitrary: rows)
  case Nil
  then show ?case by simp
next
  case (Cons e es)
  obtain rows1 where r1: "sqlite_insert e rows = Inr rows1" "sqlite_all rows1 = sqlite_all rows @ [e]"
    using sqlite_insert_new [of e rows] Cons.prems by (auto simp: sorted_wrt_append)
  have "sorted_wrt (<) (map le_seq (sqlite_all rows1 @ es))" using Cons.prems(2) by (simp add: r1(2))
  from Cons.IH [OF _ this] obtain rows2 where "foldE sqlite_insert es rows1 = Inr rows2" "sqlite_all rows2 = sqlite_all rows1 @ es"
    using Cons.prems(1) by auto
  then show ?case by (simp add: r1)
qed

section \<open>The interface and its client\<close>

text \<open>What the durable ledger needs: a batch that continues the stored sequence is stored behind it, and a
  batch that fails leaves nothing.\<close>

locale event_store =
  fixes st_append :: "ledger_event list \<Rightarrow> ('s, unit) proc" and st_all :: "'s \<Rightarrow> ledger_event list"
    and kept :: "jsv \<Rightarrow> bool"
  assumes append_stores: "list_all (\<lambda>e. kept (le_payload e)) es \<Longrightarrow> sorted_wrt (<) (map le_seq (st_all s @ es)) \<Longrightarrow>
      \<exists>s'. st_append es s = (Inr (), s') \<and> st_all s' = st_all s @ es"
    and append_atomic: "st_append es s = (Inl e, s') \<Longrightarrow> st_all s' = st_all s"

interpretation sqlite: event_store sqlite_append sqlite_all json_pure
proof unfold_locales
  fix es and s :: event_table
  assume "list_all (\<lambda>e. json_pure (le_payload e)) es" "sorted_wrt (<) (map le_seq (sqlite_all s @ es))"
  from sqlite_append_new [OF this] show "\<exists>s'. sqlite_append es s = (Inr (), s') \<and> sqlite_all s' = sqlite_all s @ es"
    by (auto simp: sqlite_append_def)
next
  fix es and s s' :: event_table and e
  assume "sqlite_append es s = (Inl e, s')"
  then show "sqlite_all s' = sqlite_all s" by (auto simp: sqlite_append_def split: sum.splits)
qed

datatype dl_op = Dl_append ledger_event_draft | Dl_flush

definition dl_step ::
  "(string \<Rightarrow> string) \<Rightarrow> (ledger_event list \<Rightarrow> ('s, unit) proc) \<Rightarrow> dl_op \<Rightarrow> host \<times> durable_ledger \<times> 's \<Rightarrow> host \<times> durable_ledger \<times> 's" where
  "dl_step sha store_append op = (\<lambda>(h, l, s).
     case op of
       Dl_append d \<Rightarrow> (case dl_append sha d (h, l) of (ev, h', l') \<Rightarrow> (h', l', s))
     | Dl_flush \<Rightarrow> (case dl_flush store_append (l, s) of (r, l', s') \<Rightarrow> (h, l', s')))"

definition op_payload_ok :: "(jsv \<Rightarrow> bool) \<Rightarrow> dl_op \<Rightarrow> bool" where
  "op_payload_ok ok op = (case op of Dl_append d \<Rightarrow> ok (ld_payload d) | Dl_flush \<Rightarrow> True)"

lemma wf_sorted: "ledger_wf sha es \<Longrightarrow> sorted_wrt (<) (map le_seq es)"
  by (auto simp: ledger_wf_def sorted_wrt_iff_nth_less)

context event_store
begin

lemma append_batches:
  "list_all (\<lambda>e. kept (le_payload e)) (concat batches) \<Longrightarrow> sorted_wrt (<) (map le_seq (st_all s @ concat batches)) \<Longrightarrow>
    \<exists>s'. forP st_append batches s = (Inr (), s') \<and> st_all s' = st_all s @ concat batches"
proof (induction batches arbitrary: s)
  case Nil
  then show ?case by (simp add: returnP_def)
next
  case (Cons b bs)
  have "sorted_wrt (<) (map le_seq (st_all s @ b))" using Cons.prems(2) by (auto simp: sorted_wrt_append)
  then obtain s1 where s1: "st_append b s = (Inr (), s1)" "st_all s1 = st_all s @ b"
    using append_stores [of b s] Cons.prems(1) by auto
  then show ?case using Cons.IH [of s1] Cons.prems by (simp add: bindP_def)
qed

definition in_step :: "(string \<Rightarrow> string) \<Rightarrow> host \<times> durable_ledger \<times> 's \<Rightarrow> bool" where
  "in_step sha = (\<lambda>(h, l, s). ledger_wf sha (dl_events l) \<and> st_all s @ dl_pending l = dl_events l \<and>
     list_all (\<lambda>e. kept (le_payload e)) (dl_events l))"

lemma flush_stores:
  assumes "in_step sha (h, l, s)"
  shows "\<exists>s'. dl_flush st_append (l, s) = (Inr (), (l\<lparr>dl_pending := []\<rparr>, s')) \<and> st_all s' = dl_events l"
proof (cases "dl_pending l = []")
  case True
  then have "l\<lparr>dl_pending := []\<rparr> = l" by simp
  then show ?thesis using True assms by (simp add: dl_flush_def in_step_def)
next
  case False
  have all: "st_all s @ dl_pending l = dl_events l" "ledger_wf sha (dl_events l)" using assms by (simp_all add: in_step_def)
  have "sorted_wrt (<) (map le_seq (st_all s @ dl_pending l))" unfolding all(1) by (rule wf_sorted [OF all(2)])
  moreover have "list_all (\<lambda>e. kept (le_payload e)) (st_all s @ dl_pending l)"
    unfolding all(1) using assms by (simp add: in_step_def)
  then have "list_all (\<lambda>e. kept (le_payload e)) (dl_pending l)" by simp
  ultimately obtain s' where "st_append (dl_pending l) s = (Inr (), s')" "st_all s' = st_all s @ dl_pending l"
    using append_stores by blast
  then show ?thesis using False assms by (simp add: dl_flush_def in_step_def)
qed

lemma step_in_step: "in_step sha c \<Longrightarrow> op_payload_ok kept op \<Longrightarrow> in_step sha (dl_step sha st_append op c)"
proof (cases c)
  case (fields h l s)
  assume c: "in_step sha c" and ok: "op_payload_ok kept op"
  show ?thesis
  proof (cases op)
    case (Dl_append d)
    obtain ev h' where ev: "append_event sha d (h, dl_events l) = (ev, h', dl_events l @ [ev])" "draft_of ev = d"
      using append_event_shape [of sha d h "dl_events l"] by auto
    then have "le_payload ev = ld_payload d" by (auto simp: draft_of_def)
    note ev = ev(1) this
    have "ledger_wf sha (dl_events l @ [ev])" using append_event_wf [of sha "(h, dl_events l)" d] c fields ev(1) by (simp add: in_step_def)
    then show ?thesis using c ok ev(2) fields Dl_append
      by (auto simp: dl_step_def dl_append_def ev(1) in_step_def op_payload_ok_def)
  next
    case Dl_flush
    then show ?thesis using flush_stores [of sha h l s] c fields by (auto simp: dl_step_def in_step_def)
  qed
qed

lemma steps_in_step: "in_step sha c \<Longrightarrow> list_all (op_payload_ok kept) ops \<Longrightarrow> in_step sha (fold (dl_step sha st_append) ops c)"
proof (induction ops arbitrary: c)
  case (Cons op ops)
  then show ?case using step_in_step [of sha c op] by simp
qed simp

lemma stored_after_flush:
  assumes "in_step sha c" "list_all (op_payload_ok kept) ops" "fold (dl_step sha st_append) (ops @ [Dl_flush]) c = (h', l, s)"
  shows "ledger_wf sha (dl_events l) \<and> st_all s = dl_events l"
proof -
  obtain h1 l1 s1 where one: "fold (dl_step sha st_append) ops c = (h1, l1, s1)" by (cases "fold (dl_step sha st_append) ops c")
  then have i: "in_step sha (h1, l1, s1)" using steps_in_step [OF assms(1,2)] by simp
  from flush_stores [OF this] obtain s' where "dl_flush st_append (l1, s1) = (Inr (), (l1\<lparr>dl_pending := []\<rparr>, s'))" "st_all s' = dl_events l1" by blast
  then show ?thesis using assms(3) one i by (auto simp: dl_step_def in_step_def)
qed

end

section \<open>Hydrating\<close>

lemma head_hash_eq: "map le_hash es = map le_hash fs \<Longrightarrow> head_hash None es = head_hash None fs"
  by (cases es rule: rev_cases; cases fs rule: rev_cases) (auto simp: head_hash_def)

lemma hydrate_events_ok:
  "chain_ok sha (head_hash None pre) es \<Longrightarrow> map le_hash (dl_events l) = map le_hash pre \<Longrightarrow> ledger_wf sha (dl_events l) \<Longrightarrow>
    \<exists>h' l'. hydrate_events sha es (h, l) = (Inr (), (h', l')) \<and> map le_hash (dl_events l') = map le_hash (pre @ es) \<and>
      map draft_of (dl_events l') = map draft_of (dl_events l) @ map draft_of es \<and> ledger_wf sha (dl_events l')"
proof (induction es arbitrary: pre h l)
  case Nil
  then show ?case by (simp add: returnP_def)
next
  case (Cons e es)
  let ?d = "draft_of e"
  obtain ev h1 where ev: "append_event sha ?d (h, dl_events l) = (ev, h1, dl_events l @ [ev])"
      "linked sha (head_hash None (dl_events l)) ev" "draft_of ev = ?d"
    using append_event_shape [of sha ?d h "dl_events l"] by auto
  have "le_payload ev = le_payload e" using ev(3) by (simp add: draft_of_def)
  moreover have "head_hash None (dl_events l) = head_hash None pre" by (rule head_hash_eq [OF Cons.prems(2)])
  ultimately have hash: "le_hash ev = le_hash e" using ev(2) Cons.prems(1) by (simp add: linked_def)
  have wf: "ledger_wf sha (dl_events l @ [ev])" using append_event_wf [of sha "(h, dl_events l)" ?d] Cons.prems(3) ev(1) by simp
  have "\<exists>h' l'. hydrate_events sha es (h1, l\<lparr>dl_events := dl_events l @ [ev]\<rparr>) = (Inr (), (h', l')) \<and>
      map le_hash (dl_events l') = map le_hash ((pre @ [e]) @ es) \<and>
      map draft_of (dl_events l') = map draft_of (dl_events l @ [ev]) @ map draft_of es \<and> ledger_wf sha (dl_events l')"
    using Cons.IH [of "pre @ [e]" "l\<lparr>dl_events := dl_events l @ [ev]\<rparr>" h1] Cons.prems(1,2) wf hash by simp
  then show ?case using ev(1,3) hash by simp
qed

lemma hydrate_ok:
  assumes "ledger_wf sha es"
  shows "\<exists>h' l'. dl_hydrate sha es (h, new_durable) = (Inr (), (h', l')) \<and> map le_hash (dl_events l') = map le_hash es \<and>
    map draft_of (dl_events l') = map draft_of es \<and> ledger_wf sha (dl_events l')"
proof (cases "es = []")
  case True
  then show ?thesis by (simp add: dl_hydrate_def returnP_def new_durable_def ledger_wf_def)
next
  case False
  have "cv_valid (verifyChain sha es)" using assms by (simp add: verifyChain_valid ledger_wf_def)
  then show ?thesis
    using False assms hydrate_events_ok [of sha "[]" es new_durable h]
    by (simp add: dl_hydrate_def ledger_wf_def new_durable_def)
qed

lemma hydrate_invalid: "es \<noteq> [] \<Longrightarrow> \<not> chain_ok sha None es \<Longrightarrow> \<exists>e. dl_hydrate sha es c = (Inl e, c)"
  by (simp add: dl_hydrate_def verifyChain_valid Let_def throwP_def)

lemma lastSeq_next:
  assumes "sqlite_all rows = es" "ledger_wf sha es"
  shows "sqlite_lastSeq rows = length es"
proof (cases "es = []")
  case True
  then have "length (sqlite_all rows) = 0" using assms(1) by simp
  then show ?thesis using True by (simp add: sqlite_all_def sqlite_lastSeq_def)
next
  case False
  have "er_seq ` set rows = le_seq ` set (sqlite_all rows)" by (auto simp: sqlite_all_def rowToEvent_def image_image)
  also have "\<dots> = set (map le_seq es)" by (simp add: assms(1))
  also have "map le_seq es = [0..<length es]" using assms(2) by (auto simp: ledger_wf_def intro: nth_equalityI)
  finally have seqs: "er_seq ` set rows = {0..<length es}" by simp
  moreover have "Max {0..<length es} = length es - 1" using False by (intro Max_eqI) (auto simp: Suc_le_eq)
  moreover have "rows \<noteq> []" using seqs False by auto
  ultimately show ?thesis using False by (simp add: sqlite_lastSeq_def)
qed

section \<open>Properties\<close>

text \<open>C35.  The SQLite event store refines an append-only log: a well-formed ledger of JSON data, appended in
  any split into batches, is read back by \<open>all\<close> exactly as it was.\<close>

theorem sqlite_refines_log:
  assumes "ledger_wf sha es" "list_all (\<lambda>e. json_pure (le_payload e)) es" "concat batches = es"
  shows "\<exists>rows. forP sqlite_append batches [] = (Inr (), rows) \<and> sqlite_all rows = es"
proof -
  have "sorted_wrt (<) (map le_seq (sqlite_all [] @ concat batches))"
    using wf_sorted [OF assms(1)] assms(3) by (simp add: sqlite_all_def)
  from sqlite.append_batches [OF _ this] obtain rows
    where rows: "forP sqlite_append batches [] = (Inr (), rows)" "sqlite_all rows = es"
    using assms(2,3) by (auto simp: sqlite_all_def)
  then show ?thesis by blast
qed

lemma demo_events_wf: "ledger_wf demo_sha (demo_events vs)"
  using append_all_wf [of demo_sha "(demo_host, [])" "map (demo_draft ''RunCreated'') vs"]
  by (simp add: ledger_wf_def demo_events_def)

lemma demo_events_pair:
  "demo_events [u] = take 1 (demo_events [u, v])" "length (demo_events [u, v]) = 2"
  "map le_payload (demo_events [u, v]) = [u, v]"
  by (simp_all add: demo_events_def append_event_def Let_def case_prod_beta demo_draft_def)

abbreviation demo_log :: ledger where
  "demo_log \<equiv> demo_events [JNull, JStr ''x'']"

lemma demo_log_payloads: "list_all (\<lambda>e. json_pure (le_payload e) \<and> canon_safe (le_payload e)) demo_log"
proof -
  have "list_all (\<lambda>v. json_pure v \<and> canon_safe v) (map le_payload demo_log)" by (simp add: demo_events_pair(3))
  then show ?thesis by (simp add: list.pred_map comp_def)
qed

theorem sqlite_refines_log_witness:
  "\<exists>rows. forP sqlite_append [take 1 demo_log, drop 1 demo_log] [] = (Inr (), rows) \<and> sqlite_all rows = demo_log"
proof (rule sqlite_refines_log [OF demo_events_wf])
  show "list_all (\<lambda>e. json_pure (le_payload e)) demo_log"
    using demo_log_payloads by (rule list.pred_mono_strong) simp
qed simp

text \<open>C12.  A durable ledger survives a restart: after any appends of JSON data and flushes, the last one of
  which comes last, a new process that hydrates from the SQLite store rebuilds the ledger, event for
  event with the same hashes, actors, types, runs, payloads and evidence, and its chain verifies.\<close>

theorem durable_ledger_survives_restart:
  assumes "list_all (op_payload_ok json_pure) ops"
    and "fold (dl_step sha sqlite_append) (ops @ [Dl_flush]) (h, new_durable, []) = (h', l, rows)"
  shows "\<exists>h2 l2. dl_hydrate sha (sqlite_all rows) (h1, new_durable) = (Inr (), (h2, l2)) \<and>
    map le_hash (dl_events l2) = map le_hash (dl_events l) \<and> map draft_of (dl_events l2) = map draft_of (dl_events l) \<and>
    cv_valid (verifyIntegrity sha (dl_events l2))"
proof -
  have "sqlite.in_step sha (h, new_durable, [])"
    by (simp add: sqlite.in_step_def new_durable_def ledger_wf_def sqlite_all_def)
  from sqlite.stored_after_flush [OF this assms] have "ledger_wf sha (dl_events l)" "sqlite_all rows = dl_events l" by simp_all
  then show ?thesis
    using hydrate_ok [of sha "dl_events l" h1] by (auto simp: verifyIntegrity_def verifyChain_valid ledger_wf_def)
qed

definition demo_dl_ops :: "dl_op list" where
  "demo_dl_ops = [Dl_append (demo_draft ''RunCreated'' JNull), Dl_flush, Dl_append (demo_draft ''TaskCompleted'' (JStr ''x''))]"

definition demo_durable :: "host \<times> durable_ledger \<times> event_table" where
  "demo_durable = fold (dl_step demo_sha sqlite_append) (demo_dl_ops @ [Dl_flush]) (demo_host, new_durable, [])"

theorem durable_ledger_survives_restart_witness:
  "\<exists>h2 l2. dl_hydrate demo_sha (sqlite_all (snd (snd demo_durable))) (demo_host, new_durable) = (Inr (), (h2, l2)) \<and>
     map le_hash (dl_events l2) = map le_hash (dl_events (fst (snd demo_durable))) \<and>
     map draft_of (dl_events l2) = map draft_of (dl_events (fst (snd demo_durable))) \<and>
     cv_valid (verifyIntegrity demo_sha (dl_events l2))"
proof (rule durable_ledger_survives_restart)
  show "list_all (op_payload_ok json_pure) demo_dl_ops" by (simp add: demo_dl_ops_def op_payload_ok_def demo_draft_def)
  show "fold (dl_step demo_sha sqlite_append) (demo_dl_ops @ [Dl_flush]) (demo_host, new_durable, []) =
      (fst demo_durable, fst (snd demo_durable), snd (snd demo_durable))"
    by (simp add: demo_durable_def)
qed

text \<open>A flush that fails once makes the store unreadable for good: its batch is taken off the pending
  events before it is stored, so the next batch that is stored does not link to what is there, and
  every later recovery throws, unless the hash function collides on the inputs of the chain.\<close>

theorem failed_flush_breaks_recovery:
  assumes "ledger_wf sha (dl_events l)" "sqlite_all rows @ dl_pending l = dl_events l" "dl_pending l \<noteq> []"
    and "dl_flush (\<lambda>batch s. (Inl err, s)) (l, rows) = (Inl err, (l1, rows))"
    and "dl_events l2 = dl_events l1 @ batch" "dl_pending l2 = dl_pending l1 @ batch" "batch \<noteq> []" "ledger_wf sha (dl_events l2)"
    and "list_all (\<lambda>e. json_pure (le_payload e) \<and> canon_safe (le_payload e)) (dl_events l2)" "\<And>x. sha x \<noteq> []"
  shows "\<exists>rows'. dl_flush sqlite_append (l2, rows) = (Inr (), (l2\<lparr>dl_pending := []\<rparr>, rows')) \<and>
    ((\<exists>e. dl_hydrate sha (sqlite_all rows') c = (Inl e, c)) \<or>
     collision sha (chain_inputs None (sqlite_all rows)) (chain_inputs None (dl_events l)))"
proof -
  let ?old = "sqlite_all rows" and ?lost = "dl_pending l"
  have l1: "dl_events l1 = dl_events l" "dl_pending l1 = []" using assms(3,4) by (auto simp: dl_flush_def)
  have chain: "chain_ok sha None (?old @ ?lost @ batch)" and sorted: "sorted_wrt (<) (map le_seq (?old @ ?lost @ batch))"
    using assms(2,5,8) l1 wf_sorted [OF assms(8)] by (simp_all add: ledger_wf_def append_assoc [symmetric] del: append_assoc)
  have "sorted_wrt (<) (map le_seq (?old @ batch))" using sorted by (auto simp: sorted_wrt_append)
  moreover have "list_all (\<lambda>e. json_pure (le_payload e)) batch" using assms(5,9) by (auto simp: list_all_iff)
  ultimately obtain rows' where flush: "sqlite_append batch rows = (Inr (), rows')" "sqlite_all rows' = ?old @ batch"
    using sqlite.append_stores by blast
  have "(\<exists>e. dl_hydrate sha (sqlite_all rows') c = (Inl e, c)) \<or>
      collision sha (chain_inputs None ?old) (chain_inputs None (dl_events l))"
  proof (cases "chain_ok sha None (?old @ batch)")
    case False
    then show ?thesis using hydrate_invalid [of "?old @ batch" sha c] assms(7) flush(2) by simp
  next
    case True
    obtain b bs where batch: "batch = b # bs" using assms(7) by (cases batch) auto
    have "le_prevHash b = head_hash None ?old" "le_prevHash b = head_hash None (?old @ ?lost)"
      using True chain by (simp_all add: batch chain_ok_append linked_def append_assoc [symmetric] del: append_assoc)
    moreover have "chain_ok sha None ?old" "chain_ok sha None (?old @ ?lost)" using chain by (simp_all add: chain_ok_append)
    moreover have "\<forall>e \<in> set ?old \<union> set (?old @ ?lost). canon_safe (le_payload e)"
    proof -
      have "list_all (\<lambda>e. canon_safe (le_payload e)) (dl_events l2)"
        using assms(9) by (rule list.pred_mono_strong) simp
      then have "list_all (\<lambda>e. canon_safe (le_payload e)) (?old @ ?lost)"
        unfolding assms(2) by (simp add: assms(5) l1(1))
      then show ?thesis by (auto simp: list_all_iff)
    qed
    ultimately have "norm_payloads ?old = norm_payloads (?old @ ?lost) \<or>
        collision sha (chain_inputs None ?old) (chain_inputs None (?old @ ?lost))"
      by (intro chains_with_same_head [OF assms(10)]) simp_all
    moreover have "length (norm_payloads ?old) \<noteq> length (norm_payloads (?old @ ?lost))"
      using assms(3) by (simp add: norm_payloads_def)
    ultimately show ?thesis using assms(2) by auto
  qed
  moreover have "dl_flush sqlite_append (l2, rows) = (Inr (), (l2\<lparr>dl_pending := []\<rparr>, rows'))"
    using flush(1) assms(6,7) l1(2) by (simp add: dl_flush_def)
  ultimately show ?thesis by blast
qed

definition demo_lost :: durable_ledger where
  "demo_lost = \<lparr>dl_events = take 1 demo_log, dl_pending = take 1 demo_log\<rparr>"

definition demo_later :: durable_ledger where
  "demo_later = \<lparr>dl_events = demo_log, dl_pending = drop 1 demo_log\<rparr>"

theorem failed_flush_breaks_recovery_witness:
  "\<exists>rows'. dl_flush sqlite_append (demo_later, []) = (Inr (), (demo_later\<lparr>dl_pending := []\<rparr>, rows')) \<and>
    ((\<exists>e. dl_hydrate demo_sha (sqlite_all rows') (demo_host, new_durable) = (Inl e, (demo_host, new_durable))) \<or>
     collision demo_sha (chain_inputs None (sqlite_all [])) (chain_inputs None (dl_events demo_lost)))"
proof (rule failed_flush_breaks_recovery
    [where err = "plain_error ''disk full''" and ?l1.0 = "demo_lost\<lparr>dl_pending := []\<rparr>" and batch = "drop 1 demo_log"])
  show "ledger_wf demo_sha (dl_events demo_lost)" "ledger_wf demo_sha (dl_events demo_later)"
    using demo_events_wf [of "[JNull]"] demo_events_wf [of "[JNull, JStr ''x'']"]
    by (simp_all add: demo_lost_def demo_later_def demo_events_pair(1) [of _ "JStr ''x''"])
  show "list_all (\<lambda>e. json_pure (le_payload e) \<and> canon_safe (le_payload e)) (dl_events demo_later)"
    using demo_log_payloads by (simp add: demo_later_def)
qed (auto simp: demo_lost_def demo_later_def sqlite_all_def dl_flush_def demo_events_pair(2) demo_sha_def dest: arg_cong [where f = length])

end
