(* ===== verification/Encoding.thy ===== *)
theory Encoding
  imports Canonicalize
begin

text \<open>
  What the code takes of the platform to put values into texts: \<open>Buffer\<close>'s base64, \<open>encodeURIComponent\<close>,
  the conversion of a value in a template literal and the property read of an untyped value.  A
  string stands for the bytes of its UTF-8 form.
\<close>

section \<open>Base64\<close>

definition b64_char :: "nat \<Rightarrow> char" where
  "b64_char n =
     (if n < 26 then char_of (65 + n) else if n < 52 then char_of (71 + n) else if n < 62 then char_of (n - 4)
      else if n = 62 then CHR ''+'' else CHR ''/'')"

fun b64_groups :: "nat list \<Rightarrow> string" where
  "b64_groups [] = []"
| "b64_groups [a] = [b64_char (a div 4), b64_char (a mod 4 * 16), CHR ''='', CHR ''='']"
| "b64_groups [a, b] = [b64_char (a div 4), b64_char (a mod 4 * 16 + b div 16), b64_char (b mod 16 * 4), CHR ''='']"
| "b64_groups (a # b # c # cs) =
     [b64_char (a div 4), b64_char (a mod 4 * 16 + b div 16), b64_char (b mod 16 * 4 + c div 64), b64_char (c mod 64)] @
     b64_groups cs"

definition b64encode :: "string \<Rightarrow> string" where
  "b64encode text = b64_groups (map of_char text)"

text \<open>The decoder stops at the padding and skips what is not in the alphabet, line breaks among it; it
  also reads the URL alphabet.\<close>

definition b64_value :: "char \<Rightarrow> nat option" where
  "b64_value c = (let n = of_char c :: nat in
     if 65 \<le> n \<and> n \<le> 90 then Some (n - 65) else if 97 \<le> n \<and> n \<le> 122 then Some (n - 71)
     else if 48 \<le> n \<and> n \<le> 57 then Some (n + 4) else if c = CHR ''+'' \<or> c = CHR ''-'' then Some 62
     else if c = CHR ''/'' \<or> c = CHR ''_'' then Some 63 else None)"

fun b64_bytes :: "nat list \<Rightarrow> nat list" where
  "b64_bytes (p # q # r # s # ss) =
     [p * 4 + q div 16, q mod 16 * 16 + r div 4, r mod 4 * 64 + s] @ b64_bytes ss"
| "b64_bytes [p, q, r] = [p * 4 + q div 16, q mod 16 * 16 + r div 4]"
| "b64_bytes [p, q] = [p * 4 + q div 16]"
| "b64_bytes [p] = []"
| "b64_bytes [] = []"

definition b64decode :: "string \<Rightarrow> string" where
  "b64decode text =
     map char_of (b64_bytes (List.map_filter b64_value (takeWhile (\<lambda>c. c \<noteq> CHR ''='') text)))"

lemma b64_value_char [simp]:
  assumes "n < 64"
  shows "b64_value (b64_char n) = Some n" "b64_char n \<noteq> CHR ''=''"
proof -
  have range: "(of_char (b64_char n) :: nat) =
      (if n < 26 then 65 + n else if n < 52 then 71 + n else if n < 62 then n - 4 else if n = 62 then 43 else 47)"
    using assms by (auto simp: b64_char_def)
  then show "b64_value (b64_char n) = Some n" using assms by (auto simp: b64_value_def Let_def b64_char_def)
  have "(of_char (b64_char n) :: nat) \<noteq> of_char (CHR ''='')" using range by auto
  then show "b64_char n \<noteq> CHR ''=''" by metis
qed

lemma join_bits:
  "b < 16 \<Longrightarrow> (a * 16 + b) div 16 = a" "b < 16 \<Longrightarrow> (a * 16 + b) mod 16 = b"
  "c < 4 \<Longrightarrow> (a * 4 + c) div 4 = a" "c < 4 \<Longrightarrow> (a * 4 + c) mod 4 = c" for a b c :: nat
  by simp_all

lemma byte_parts: "a < 256 \<Longrightarrow> a div 4 < 64" "a < 256 \<Longrightarrow> a div 16 < 16" "a < 256 \<Longrightarrow> a div 64 < 4" for a :: nat
  by (simp_all add: less_mult_imp_div_less)

lemma six_bits: "b < 16 \<Longrightarrow> a mod 4 * 16 + b < 64" "c < 4 \<Longrightarrow> a mod 16 * 4 + c < 64" for a b c :: nat
proof -
  have "a mod 4 < 4" "a mod 16 < 16" by simp_all
  then show "b < 16 \<Longrightarrow> a mod 4 * 16 + b < 64" "c < 4 \<Longrightarrow> a mod 16 * 4 + c < 64" by linarith+
qed

lemma b64_groups_bytes:
  "list_all (\<lambda>n. n < 256) bs \<Longrightarrow>
    b64_bytes (List.map_filter b64_value (takeWhile (\<lambda>c. c \<noteq> CHR ''='') (b64_groups bs))) = bs"
proof (induction bs rule: b64_groups.induct)
  case 1
  then show ?case by (simp add: List.map_filter_simps)
next
  case (2 a)
  then have "a div 4 < 64" "a mod 4 * 16 < 64" using byte_parts six_bits [of 0 a] by auto
  then show ?case by (simp add: List.map_filter_simps)
next
  case (3 a b)
  then have "a < 256" "b < 256" by simp_all
  then have "a div 4 < 64" "b div 16 < 16" "a mod 4 * 16 + b div 16 < 64" "b mod 16 * 4 < 64"
    using byte_parts six_bits(1) six_bits(2) [of 0 b] by auto
  then show ?case by (simp add: List.map_filter_simps join_bits del: mult_Suc_right)
next
  case (4 a b c cs)
  then have "a < 256" "b < 256" "c < 256" by simp_all
  then have "a div 4 < 64" "b div 16 < 16" "a mod 4 * 16 + b div 16 < 64" "c div 64 < 4" "b mod 16 * 4 + c div 64 < 64"
    using byte_parts six_bits by auto
  then show ?case using 4 by (simp add: List.map_filter_simps join_bits)
qed

lemma b64_round_trip: "b64decode (b64encode text) = text"
proof -
  have "list_all (\<lambda>n. n < 256) (map (of_char :: char \<Rightarrow> nat) text)" by (simp add: list_all_iff)
  from b64_groups_bytes [OF this] show ?thesis by (simp add: b64decode_def b64encode_def comp_def)
qed

section \<open>Percent encoding\<close>

definition upper_hex :: "nat \<Rightarrow> char" where
  "upper_hex n = (if n < 10 then char_of (48 + n) else char_of (55 + n))"

definition uri_kept :: "char \<Rightarrow> bool" where
  "uri_kept c \<longleftrightarrow> (let n = of_char c :: nat in
     (65 \<le> n \<and> n \<le> 90) \<or> (97 \<le> n \<and> n \<le> 122) \<or> (48 \<le> n \<and> n \<le> 57) \<or> c \<in> set ''-_.!~*()'' \<or> n = 39)"

definition encodeURIComponent :: "string \<Rightarrow> string" where
  "encodeURIComponent s =
     concat (map (\<lambda>c. if uri_kept c then [c]
       else [CHR ''%'', upper_hex (of_char c div 16), upper_hex (of_char c mod 16)]) s)"

section \<open>Untyped values\<close>

text \<open>\<open>`${v}`\<close>; of the non-finite numbers only NaN is shown.\<close>

function template_text :: "jsv \<Rightarrow> string" where
  "template_text JUndefined = ''undefined''"
| "template_text JNull = ''null''"
| "template_text (JBool b) = (if b then ''true'' else ''false'')"
| "template_text (JNum n) = show_int n"
| "template_text JNonFinite = ''NaN''"
| "template_text (JStr s) = s"
| "template_text (JArr vs) =
     join_with '','' (map (\<lambda>v. if v = JNull \<or> v = JUndefined then [] else template_text v) vs)"
| "template_text (JObj kvs) = ''[object Object]''"
| "template_text (JBigInt n) = show_int n"
| "template_text (JOther s) = s"
  by pat_completeness auto
termination
  by (relation "measure size") (auto dest: size_member)

text \<open>\<open>v.k\<close> for a property that no prototype has.\<close>

definition unreadable :: "string \<Rightarrow> string \<Rightarrow> js_error" where
  "unreadable what k = JsError ''TypeError'' (''Cannot read properties of '' @ what @ '' (reading '' @ quoted k @ '')'')"

definition js_get :: "string \<Rightarrow> jsv \<Rightarrow> js_error + jsv" where
  "js_get k v =
     (case v of
        JUndefined \<Rightarrow> Inl (unreadable ''undefined'' k)
      | JNull \<Rightarrow> Inl (unreadable ''null'' k)
      | JObj kvs \<Rightarrow> Inr (case map_of kvs k of None \<Rightarrow> JUndefined | Some u \<Rightarrow> u)
      | _ \<Rightarrow> Inr JUndefined)"

text \<open>\<open>v.k1.k2\<close>.\<close>

definition js_path :: "string list \<Rightarrow> jsv \<Rightarrow> js_error + jsv" where
  "js_path ks v = foldE js_get ks v"

text \<open>\<open>v?.k\<close>.\<close>

definition js_maybe :: "string \<Rightarrow> jsv \<Rightarrow> jsv" where
  "js_maybe k v = (case js_get k v of Inl _ \<Rightarrow> JUndefined | Inr u \<Rightarrow> u)"

definition js_nullish :: "jsv \<Rightarrow> bool" where
  "js_nullish v \<longleftrightarrow> v = JNull \<or> v = JUndefined"

text \<open>The truth value of a value; NaN, which is false, is among the non-finite numbers.\<close>

definition js_truthy :: "jsv \<Rightarrow> bool" where
  "js_truthy v \<longleftrightarrow> v \<notin> {JUndefined, JNull, JBool False, JNum 0, JBigInt 0, JStr []}"

end
