(* ===== verification/JsonParse.thy ===== *)
theory JsonParse
  imports Json JsString
begin

text \<open>
  \<open>JSON.parse\<close>: the grammar of ECMA-404 over the bytes of a text.  Numerals without fraction and
  exponent are the integers of the model; what the others denote is the parameter \<open>other\<close>.  An
  object keeps the place of the first and the value of the last of equal keys; keys that look like
  array indices are not moved to the front.  The message of a \<open>SyntaxError\<close> is not the engine's.
  The main result is that the text of a value reads back as its normal form.
\<close>

section \<open>Tokens\<close>

definition is_ws :: "char \<Rightarrow> bool" where
  "is_ws c \<longleftrightarrow> c = CHR 0x20 \<or> c = CHR 0x09 \<or> c = CHR 0x0A \<or> c = CHR 0x0D"

text \<open>The next character that is no white space, and what follows it.\<close>

fun next_tok :: "string \<Rightarrow> (char \<times> string) option" where
  "next_tok [] = None"
| "next_tok (c # cs) = (if is_ws c then next_tok cs else Some (c, cs))"

lemma next_tok_shrinks: "next_tok s = Some (c, r) \<Longrightarrow> length r < length s"
  by (induction s) (auto split: if_splits)

definition hex_value :: "char \<Rightarrow> nat option" where
  "hex_value c = (let n = of_char c :: nat in
     if 48 \<le> n \<and> n \<le> 57 then Some (n - 48) else if 97 \<le> n \<and> n \<le> 102 then Some (n - 87)
     else if 65 \<le> n \<and> n \<le> 70 then Some (n - 55) else None)"

definition hex4 :: "string \<Rightarrow> (nat \<times> string) option" where
  "hex4 s =
     (case s of
        a # b # c # d # r \<Rightarrow>
          (case (hex_value a, hex_value b, hex_value c, hex_value d) of
             (Some w, Some x, Some y, Some z) \<Rightarrow> Some (((w * 16 + x) * 16 + y) * 16 + z, r)
           | _ \<Rightarrow> None)
      | _ \<Rightarrow> None)"

lemma hex4_shrinks: "hex4 s = Some (n, r) \<Longrightarrow> length r < length s"
  by (auto simp: hex4_def split: list.splits option.splits)

text \<open>After \<open>\u\<close>: one unit, or the pair of a high and a low surrogate.\<close>

definition low_surrogate :: "string \<Rightarrow> (nat \<times> string) option" where
  "low_surrogate s =
     (case s of
        a # b # r \<Rightarrow>
          if a = CHR 0x5C \<and> b = CHR ''u'' then
            (case hex4 r of
               Some (m, q) \<Rightarrow> if 56320 \<le> m \<and> m < 57344 then Some (m, q) else None
             | None \<Rightarrow> None)
          else None
      | _ \<Rightarrow> None)"

lemma low_surrogate_shrinks: "low_surrogate s = Some (n, r) \<Longrightarrow> length r < length s"
  by (auto simp: low_surrogate_def split: list.splits option.splits if_splits dest!: hex4_shrinks)

definition read_unit :: "string \<Rightarrow> (string \<times> string) option" where
  "read_unit s =
     (case hex4 s of
        None \<Rightarrow> None
      | Some (n, r) \<Rightarrow>
          (case (if 55296 \<le> n \<and> n < 56320 then low_surrogate r else None) of
             Some (m, q) \<Rightarrow> Some (utf8 (65536 + (n - 55296) * 1024 + (m - 56320)), q)
           | None \<Rightarrow> Some (utf8 n, r)))"

definition read_escape :: "string \<Rightarrow> (string \<times> string) option" where
  "read_escape s =
     (case s of
        [] \<Rightarrow> None
      | c # r \<Rightarrow>
          if c = CHR 0x22 \<or> c = CHR 0x5C \<or> c = CHR ''/'' then Some ([c], r)
          else if c = CHR ''b'' then Some ([CHR 0x08], r)
          else if c = CHR ''t'' then Some ([CHR 0x09], r)
          else if c = CHR ''n'' then Some ([CHR 0x0A], r)
          else if c = CHR ''f'' then Some ([CHR 0x0C], r)
          else if c = CHR ''r'' then Some ([CHR 0x0D], r)
          else if c = CHR ''u'' then read_unit r
          else None)"

lemma read_escape_shrinks: "read_escape s = Some (t, r) \<Longrightarrow> length r < length s"
  by (auto simp: read_escape_def read_unit_def split: list.splits option.splits if_splits
      dest!: hex4_shrinks low_surrogate_shrinks)

text \<open>The characters of a string after its opening quotation mark.\<close>

function read_chars :: "string \<Rightarrow> (string \<times> string) option" where
  "read_chars [] = None"
| "read_chars (c # cs) =
     (if c = CHR 0x22 then Some ([], cs)
      else if c = CHR 0x5C then
        (case read_escape cs of
           None \<Rightarrow> None
         | Some (t, r) \<Rightarrow> map_option (\<lambda>(u, q). (t @ u, q)) (read_chars r))
      else if (of_char c :: nat) < 32 then None
      else map_option (\<lambda>(u, q). (c # u, q)) (read_chars cs))"
  by pat_completeness auto
termination
  by (relation "measure length") (auto dest: read_escape_shrinks)

lemma read_chars_shrinks: "read_chars s = Some (t, r) \<Longrightarrow> length r < length s"
  by (induction s arbitrary: t r rule: read_chars.induct)
    (force split: if_splits option.splits dest!: read_escape_shrinks)+

section \<open>Numerals\<close>

definition read_fraction :: "string \<Rightarrow> (string \<times> string) option" where
  "read_fraction s =
     (case s of
        c # cs \<Rightarrow>
          if c = CHR ''.'' then
            (if takeWhile is_digit cs = [] then None else Some (c # takeWhile is_digit cs, dropWhile is_digit cs))
          else Some ([], s)
      | [] \<Rightarrow> Some ([], []))"

definition split_sign :: "char set \<Rightarrow> string \<Rightarrow> string \<times> string" where
  "split_sign signs s = (case s of [] \<Rightarrow> ([], []) | c # cs \<Rightarrow> if c \<in> signs then ([c], cs) else ([], s))"

definition read_exponent :: "string \<Rightarrow> (string \<times> string) option" where
  "read_exponent s =
     (case s of
        c # cs \<Rightarrow>
          if c = CHR ''e'' \<or> c = CHR ''E'' then
            (case split_sign {CHR ''+'', CHR ''-''} cs of (sg, ds) \<Rightarrow>
               if takeWhile is_digit ds = [] then None
               else Some (c # sg @ takeWhile is_digit ds, dropWhile is_digit ds))
          else Some ([], s)
      | [] \<Rightarrow> Some ([], []))"

definition read_number :: "(string \<Rightarrow> jsv) \<Rightarrow> string \<Rightarrow> (jsv \<times> string) option" where
  "read_number other s =
     (case split_sign {CHR ''-''} s of (sg, s1) \<Rightarrow>
        let ds = takeWhile is_digit s1 in
        if ds = [] \<or> (hd ds = CHR ''0'' \<and> ds \<noteq> [CHR ''0'']) then None
        else
          Option.bind (read_fraction (dropWhile is_digit s1)) (\<lambda>(frac, s2).
          Option.bind (read_exponent s2) (\<lambda>(ex, r).
            Some (if frac = [] \<and> ex = [] then JNum (if sg = [] then int (digits_value ds) else - int (digits_value ds))
                  else other (sg @ ds @ frac @ ex), r))))"

lemma dropWhile_len: "length (dropWhile p s) \<le> length s"
  by (induction s) auto

lemma split_sign_len: "split_sign signs s = (t, r) \<Longrightarrow> length r \<le> length s"
  by (auto simp: split_sign_def split: list.splits if_splits)

lemma read_fraction_len: "read_fraction s = Some (t, r) \<Longrightarrow> length r \<le> length s"
  using dropWhile_len [of is_digit "tl s"] by (auto simp: read_fraction_def split: list.splits if_splits)

lemma read_exponent_len: "read_exponent s = Some (t, r) \<Longrightarrow> length r \<le> length s"
proof (cases s)
  case (Cons c cs)
  obtain sg ds where sp: "split_sign {CHR ''+'', CHR ''-''} cs = (sg, ds)" by (cases "split_sign {CHR ''+'', CHR ''-''} cs")
  then have "length (dropWhile is_digit ds) \<le> length cs"
    using split_sign_len [OF sp] dropWhile_len [of is_digit ds] by simp
  then show "read_exponent s = Some (t, r) \<Longrightarrow> ?thesis"
    using Cons sp by (auto simp: read_exponent_def split: if_splits)
qed (simp add: read_exponent_def)

lemma read_number_shrinks:
  assumes "read_number other s = Some (v, r)"
  shows "length r < length s"
proof -
  obtain sg s1 where sp: "split_sign {CHR ''-''} s = (sg, s1)" by (cases "split_sign {CHR ''-''} s")
  let ?ds = "takeWhile is_digit s1"
  from assms sp obtain frac s2 ex where ds: "?ds \<noteq> []" and f: "read_fraction (dropWhile is_digit s1) = Some (frac, s2)"
    and e: "read_exponent s2 = Some (ex, r)"
    by (auto simp: read_number_def Let_def split: if_splits option.splits bind_splits)
  have "length s1 = length ?ds + length (dropWhile is_digit s1)"
    by (metis length_append takeWhile_dropWhile_id)
  with ds have "length (dropWhile is_digit s1) < length s1" by simp
  then show ?thesis using split_sign_len [OF sp] read_fraction_len [OF f] read_exponent_len [OF e] by linarith
qed

section \<open>Values\<close>

definition read_literal :: "string \<Rightarrow> (jsv \<times> string) option" where
  "read_literal s =
     (if prefix ''null'' s then Some (JNull, drop 4 s)
      else if prefix ''true'' s then Some (JBool True, drop 4 s)
      else if prefix ''false'' s then Some (JBool False, drop 5 s)
      else None)"

lemma read_literal_shrinks: "read_literal s = Some (v, r) \<Longrightarrow> length r < length s"
  by (auto simp: read_literal_def prefix_def split: if_splits)

text \<open>The fuel bounds the depth of the calls; \<open>json_read\<close> below gives as much as a text can need.\<close>

fun read_value :: "(string \<Rightarrow> jsv) \<Rightarrow> nat \<Rightarrow> string \<Rightarrow> (jsv \<times> string) option"
and read_items :: "(string \<Rightarrow> jsv) \<Rightarrow> nat \<Rightarrow> string \<Rightarrow> (jsv list \<times> string) option"
and read_members :: "(string \<Rightarrow> jsv) \<Rightarrow> nat \<Rightarrow> (string \<times> jsv) list \<Rightarrow> string \<Rightarrow> ((string \<times> jsv) list \<times> string) option" where
  "read_value other 0 s = None"
| "read_value other (Suc n) s =
     Option.bind (next_tok s) (\<lambda>(c, cs).
       if c = CHR 0x22 then map_option (\<lambda>(t, r). (JStr t, r)) (read_chars cs)
       else if c = CHR ''['' then
         (case next_tok cs of
            Some (d, r) \<Rightarrow> if d = CHR '']'' then Some (JArr [], r)
              else map_option (\<lambda>(vs, q). (JArr vs, q)) (read_items other n cs)
          | None \<Rightarrow> None)
       else if c = CHR ''{'' then
         (case next_tok cs of
            Some (d, r) \<Rightarrow> if d = CHR ''}'' then Some (JObj [], r)
              else map_option (\<lambda>(kvs, q). (JObj kvs, q)) (read_members other n [] cs)
          | None \<Rightarrow> None)
       else if c = CHR ''-'' \<or> is_digit c then read_number other (c # cs)
       else read_literal (c # cs))"
| "read_items other 0 s = None"
| "read_items other (Suc n) s =
     Option.bind (read_value other n s) (\<lambda>(v, r).
     Option.bind (next_tok r) (\<lambda>(d, q).
       if d = CHR '','' then map_option (\<lambda>(vs, t). (v # vs, t)) (read_items other n q)
       else if d = CHR '']'' then Some ([v], q)
       else None))"
| "read_members other 0 kvs s = None"
| "read_members other (Suc n) kvs s =
     Option.bind (next_tok s) (\<lambda>(c, cs). if c \<noteq> CHR 0x22 then None else
     Option.bind (read_chars cs) (\<lambda>(k, r1).
     Option.bind (next_tok r1) (\<lambda>(d, r2). if d \<noteq> CHR '':'' then None else
     Option.bind (read_value other n r2) (\<lambda>(v, r3).
     Option.bind (next_tok r3) (\<lambda>(e, q).
       if e = CHR '','' then read_members other n (map_set k v kvs) q
       else if e = CHR ''}'' then Some (map_set k v kvs, q)
       else None)))))"

section \<open>The fuel is enough\<close>

lemma number_start: "c = CHR ''-'' \<or> is_digit c \<Longrightarrow> c \<noteq> CHR 0x22 \<and> c \<noteq> CHR ''['' \<and> c \<noteq> CHR ''{''"
  by (auto simp: is_digit_def)

lemma read_value_cases [consumes 1, case_names string empty_array array empty_object object number literal]:
  assumes "read_value other (Suc n) s = Some (v, r)"
  obtains c cs t where "next_tok s = Some (c, cs)" "read_chars cs = Some (t, r)" "v = JStr t"
  | c cs d where "next_tok s = Some (c, cs)" "next_tok cs = Some (d, r)" "v = JArr []"
  | c cs vs where "next_tok s = Some (c, cs)" "read_items other n cs = Some (vs, r)" "v = JArr vs"
  | c cs d where "next_tok s = Some (c, cs)" "next_tok cs = Some (d, r)" "v = JObj []"
  | c cs kvs where "next_tok s = Some (c, cs)" "read_members other n [] cs = Some (kvs, r)" "v = JObj kvs"
  | c cs where "next_tok s = Some (c, cs)" "read_number other (c # cs) = Some (v, r)"
  | c cs where "next_tok s = Some (c, cs)" "read_literal (c # cs) = Some (v, r)"
proof -
  from assms obtain c cs where tok: "next_tok s = Some (c, cs)" by (auto simp: bind_eq_Some_conv)
  note eq = assms [unfolded read_value.simps(2) tok bind.bind_lunit prod.case]
  show thesis
  proof (cases "c = CHR 0x22")
    case True
    then show thesis using eq tok that(1) by auto
  next
    case no_string: False
    show thesis
    proof (cases "c = CHR ''[''")
      case True
      note e = eq [unfolded True, simplified]
      then obtain d q where d: "next_tok cs = Some (d, q)" by (cases "next_tok cs") auto
      show thesis
      proof (cases "d = CHR '']''")
        case True
        then show thesis using e d tok that(2) by simp
      next
        case False
        then have "\<exists>x. read_items other n cs = Some (x, r) \<and> v = JArr x" using e d by auto
        then show thesis using tok that(3) by blast
      qed
    next
      case no_array: False
      show thesis
      proof (cases "c = CHR ''{''")
        case True
        note e = eq [unfolded True, simplified]
        then obtain d q where d: "next_tok cs = Some (d, q)" by (cases "next_tok cs") auto
        show thesis
        proof (cases "d = CHR ''}''")
          case True
          then show thesis using e d tok that(4) by simp
        next
          case False
          then have "\<exists>x. read_members other n [] cs = Some (x, r) \<and> v = JObj x" using e d by auto
          then show thesis using tok that(5) by blast
        qed
      next
        case False
        then show thesis using eq tok that(6,7) no_string no_array by (auto split: if_splits)
      qed
    qed
  qed
qed

lemma reads_shrink:
  "(\<forall>s v r. read_value other n s = Some (v, r) \<longrightarrow> length r < length s) \<and>
   (\<forall>s vs r. read_items other n s = Some (vs, r) \<longrightarrow> length r < length s) \<and>
   (\<forall>kvs s kvs' r. read_members other n kvs s = Some (kvs', r) \<longrightarrow> length r < length s)"
proof (induction n)
  case 0
  show ?case by simp
next
  case (Suc n)
  have vals: "length r < length s" if "read_value other (Suc n) s = Some (v, r)" for s v r
    using that
  proof (cases rule: read_value_cases)
    case (array c cs vs)
    then show ?thesis using Suc.IH next_tok_shrinks [OF array(1)] by fastforce
  next
    case (object c cs kvs)
    then show ?thesis using Suc.IH next_tok_shrinks [OF object(1)] by fastforce
  qed (auto dest!: next_tok_shrinks read_chars_shrinks read_number_shrinks read_literal_shrinks)
  have items: "length r < length s" if "read_items other (Suc n) s = Some (vs, r)" for s vs r
  proof -
    from that obtain u r1 d q where u: "read_value other n s = Some (u, r1)" "next_tok r1 = Some (d, q)"
        "q = r \<or> (\<exists>ws. read_items other n q = Some (ws, r))"
      by (auto simp: bind_eq_Some_conv split: if_splits)
    then have "length r \<le> length q" using Suc.IH by fastforce
    moreover have "length r1 < length s" using u(1) Suc.IH by blast
    ultimately show ?thesis using next_tok_shrinks [OF u(2)] by simp
  qed
  have members: "length r < length s" if "read_members other (Suc n) kvs s = Some (kvs', r)" for kvs s kvs' r
  proof -
    from that obtain c cs k r1 d r2 u r3 e q where u: "next_tok s = Some (c, cs)" "read_chars cs = Some (k, r1)"
        "next_tok r1 = Some (d, r2)" "read_value other n r2 = Some (u, r3)" "next_tok r3 = Some (e, q)"
        "q = r \<or> (\<exists>kvs1. read_members other n kvs1 q = Some (kvs', r))"
      by (auto simp: bind_eq_Some_conv split: if_splits) blast+
    then have "length r \<le> length q" using Suc.IH by fastforce
    moreover have "length r3 < length r2" using u(4) Suc.IH by blast
    ultimately show ?thesis
      using next_tok_shrinks [OF u(1)] read_chars_shrinks [OF u(2)] next_tok_shrinks [OF u(3)] next_tok_shrinks [OF u(5)]
      by linarith
  qed
  from vals items members show ?case by blast
qed

lemmas read_value_shrinks = reads_shrink [THEN conjunct1, rule_format]

text \<open>What a call does with the calls below it does not depend on the fuel, once those do not.\<close>

lemma fuel_steps:
  "(\<forall>s. 2 * length s < n \<longrightarrow> read_value other (Suc n) s = read_value other n s) \<and>
   (\<forall>s. 2 * length s + 1 < n \<longrightarrow> read_items other (Suc n) s = read_items other n s) \<and>
   (\<forall>kvs s. 2 * length s + 1 < n \<longrightarrow> read_members other (Suc n) kvs s = read_members other n kvs s)"
proof (induction n)
  case 0
  show ?case by simp
next
  case (Suc n)
  note step = read_value.simps(2) [of other "Suc n"] read_value.simps(2) [of other n]
  have vals: "read_value other (Suc (Suc n)) s = read_value other (Suc n) s" if "2 * length s < Suc n" for s
  proof (cases "next_tok s")
    case None
    then show ?thesis by simp
  next
    case (Some p)
    then obtain c cs where tok: "next_tok s = Some (c, cs)" by (cases p) auto
    then have "2 * length cs + 1 < n" using that next_tok_shrinks [OF tok] by simp
    then have "read_items other (Suc n) cs = read_items other n cs" "read_members other (Suc n) [] cs = read_members other n [] cs"
      using Suc.IH by blast+
    then show ?thesis unfolding step tok by (simp del: read_items.simps read_members.simps split: option.split)
  qed
  have items: "read_items other (Suc (Suc n)) s = read_items other (Suc n) s" if "2 * length s + 1 < Suc n" for s
  proof -
    have v: "read_value other (Suc n) s = read_value other n s" using that Suc.IH by simp
    have "read_items other (Suc n) q = read_items other n q"
      if "read_value other n s = Some (u, r)" "next_tok r = Some (d, q)" for u r d q
    proof -
      have "2 * length q + 1 < n"
        using \<open>2 * length s + 1 < Suc n\<close> read_value_shrinks [OF that(1)] next_tok_shrinks [OF that(2)] by simp
      then show ?thesis using Suc.IH by blast
    qed
    then show ?thesis unfolding read_items.simps(2) [of other "Suc n" s] read_items.simps(2) [of other n s] v
      by (intro bind_option_cong refl) (auto intro!: bind_option_cong simp del: read_items.simps)
  qed
  have members: "read_members other (Suc (Suc n)) kvs s = read_members other (Suc n) kvs s" if "2 * length s + 1 < Suc n" for kvs s
  proof -
    have below: "read_value other (Suc n) r2 = read_value other n r2"
        "read_value other n r2 = Some (u, r3) \<Longrightarrow> next_tok r3 = Some (e, q) \<Longrightarrow>
          read_members other (Suc n) kvs' q = read_members other n kvs' q"
      if "next_tok s = Some (c, cs)" "read_chars cs = Some (k, r1)" "next_tok r1 = Some (d, r2)"
      for c cs k r1 d r2 u r3 e q kvs'
    proof -
      have len: "2 * length r2 + 1 < n"
        using \<open>2 * length s + 1 < Suc n\<close> next_tok_shrinks [OF that(1)] read_chars_shrinks [OF that(2)] next_tok_shrinks [OF that(3)]
        by linarith
      then show "read_value other (Suc n) r2 = read_value other n r2" using Suc.IH by simp
      assume u: "read_value other n r2 = Some (u, r3)" "next_tok r3 = Some (e, q)"
      have "2 * length q + 1 < n" using len read_value_shrinks [OF u(1)] next_tok_shrinks [OF u(2)] by linarith
      then show "read_members other (Suc n) kvs' q = read_members other n kvs' q" using Suc.IH by blast
    qed
    show ?thesis unfolding read_members.simps(2) [of other "Suc n" kvs s] read_members.simps(2) [of other n kvs s]
      by (intro bind_option_cong refl) (auto intro!: bind_option_cong simp: below simp del: read_members.simps read_value.simps)
  qed
  from vals items members show ?case by blast
qed

declare read_value.simps [simp del] read_items.simps [simp del] read_members.simps [simp del]

lemma steady:
  assumes "k \<le> n" and "\<And>m. k \<le> m \<Longrightarrow> f (Suc m) = f m"
  shows "f n = f k"
  using assms by (induction n rule: dec_induct) simp_all

text \<open>The readers with the fuel a text can need, and their equations without it.\<close>

definition json_read :: "(string \<Rightarrow> jsv) \<Rightarrow> string \<Rightarrow> (jsv \<times> string) option" where
  "json_read other s = read_value other (2 * length s + 1) s"

definition json_items :: "(string \<Rightarrow> jsv) \<Rightarrow> string \<Rightarrow> (jsv list \<times> string) option" where
  "json_items other s = read_items other (2 * length s + 2) s"

definition json_members :: "(string \<Rightarrow> jsv) \<Rightarrow> (string \<times> jsv) list \<Rightarrow> string \<Rightarrow> ((string \<times> jsv) list \<times> string) option" where
  "json_members other kvs s = read_members other (2 * length s + 2) kvs s"

lemma fuel_enough:
  "2 * length s < n \<Longrightarrow> read_value other n s = json_read other s"
  "2 * length s + 1 < n \<Longrightarrow> read_items other n s = json_items other s"
  "2 * length s + 1 < n \<Longrightarrow> read_members other n kvs s = json_members other kvs s"
proof -
  have step: "2 * length s + 1 \<le> m \<Longrightarrow> read_value other (Suc m) s = read_value other m s"
      "2 * length s + 2 \<le> m \<Longrightarrow> read_items other (Suc m) s = read_items other m s"
      "2 * length s + 2 \<le> m \<Longrightarrow> read_members other (Suc m) kvs s = read_members other m kvs s" for m
    using fuel_steps [of m other] by simp_all
  show "2 * length s < n \<Longrightarrow> read_value other n s = json_read other s"
    unfolding json_read_def by (rule steady [where f = "\<lambda>m. read_value other m s"]) (simp_all add: step(1))
  show "2 * length s + 1 < n \<Longrightarrow> read_items other n s = json_items other s"
    unfolding json_items_def by (rule steady [where f = "\<lambda>m. read_items other m s"]) (simp_all add: step(2))
  show "2 * length s + 1 < n \<Longrightarrow> read_members other n kvs s = json_members other kvs s"
    unfolding json_members_def by (rule steady [where f = "\<lambda>m. read_members other m kvs s"]) (simp_all add: step(3))
qed

lemma json_read_eq:
  "json_read other s = Option.bind (next_tok s) (\<lambda>(c, cs).
     if c = CHR 0x22 then map_option (\<lambda>(t, r). (JStr t, r)) (read_chars cs)
     else if c = CHR ''['' then
       (case next_tok cs of
          Some (d, r) \<Rightarrow> if d = CHR '']'' then Some (JArr [], r) else map_option (\<lambda>(vs, q). (JArr vs, q)) (json_items other cs)
        | None \<Rightarrow> None)
     else if c = CHR ''{'' then
       (case next_tok cs of
          Some (d, r) \<Rightarrow> if d = CHR ''}'' then Some (JObj [], r)
            else map_option (\<lambda>(kvs, q). (JObj kvs, q)) (json_members other [] cs)
        | None \<Rightarrow> None)
     else if c = CHR ''-'' \<or> is_digit c then read_number other (c # cs)
     else read_literal (c # cs))"
proof (cases "next_tok s")
  case None
  then show ?thesis by (simp add: json_read_def read_value.simps)
next
  case (Some p)
  then obtain c cs where tok: "next_tok s = Some (c, cs)" by (cases p) auto
  have "2 * length cs + 1 < 2 * length s" using next_tok_shrinks [OF tok] by simp
  note enough = fuel_enough(2,3) [OF this]
  have suc: "2 * length s + 1 = Suc (2 * length s)" by simp
  show ?thesis unfolding json_read_def suc read_value.simps(2) tok bind.bind_lunit prod.case enough ..
qed

lemma json_items_eq:
  "json_items other s =
     Option.bind (json_read other s) (\<lambda>(v, r).
     Option.bind (next_tok r) (\<lambda>(d, q).
       if d = CHR '','' then map_option (\<lambda>(vs, t). (v # vs, t)) (json_items other q)
       else if d = CHR '']'' then Some ([v], q)
       else None))"
proof -
  have suc: "2 * length s + 2 = Suc (2 * length s + 1)" by simp
  have v: "read_value other (2 * length s + 1) s = json_read other s" by (simp only: json_read_def)
  have "read_items other (2 * length s + 1) q = json_items other q"
    if "json_read other s = Some (u, r)" "next_tok r = Some (d, q)" for u r d q
    using fuel_enough(2) [of q "2 * length s + 1"] read_value_shrinks [of other _ s, folded json_read_def, OF that(1) [unfolded json_read_def]]
      next_tok_shrinks [OF that(2)] by simp
  then show ?thesis unfolding json_items_def [of other s] suc read_items.simps(2) [of other "2 * length s + 1" s] v
    by (intro bind_option_cong refl) (auto intro!: bind_option_cong)
qed

lemma json_members_eq:
  "json_members other kvs s =
     Option.bind (next_tok s) (\<lambda>(c, cs). if c \<noteq> CHR 0x22 then None else
     Option.bind (read_chars cs) (\<lambda>(k, r1).
     Option.bind (next_tok r1) (\<lambda>(d, r2). if d \<noteq> CHR '':'' then None else
     Option.bind (json_read other r2) (\<lambda>(v, r3).
     Option.bind (next_tok r3) (\<lambda>(e, q).
       if e = CHR '','' then json_members other (map_set k v kvs) q
       else if e = CHR ''}'' then Some (map_set k v kvs, q)
       else None)))))"
proof -
  have suc: "2 * length s + 2 = Suc (2 * length s + 1)" by simp
  have below: "read_value other (2 * length s + 1) r2 = json_read other r2"
      "json_read other r2 = Some (u, r3) \<Longrightarrow> next_tok r3 = Some (e, q) \<Longrightarrow>
        read_members other (2 * length s + 1) kvs' q = json_members other kvs' q"
    if "next_tok s = Some (c, cs)" "read_chars cs = Some (k, r1)" "next_tok r1 = Some (d, r2)"
    for c cs k r1 d r2 u r3 e q kvs'
  proof -
    have len: "length r2 < length s"
      using next_tok_shrinks [OF that(1)] read_chars_shrinks [OF that(2)] next_tok_shrinks [OF that(3)] by linarith
    then show "read_value other (2 * length s + 1) r2 = json_read other r2" using fuel_enough(1) by simp
    assume u: "json_read other r2 = Some (u, r3)" "next_tok r3 = Some (e, q)"
    from u(1) have "length r3 < length r2" unfolding json_read_def by (rule read_value_shrinks)
    then show "read_members other (2 * length s + 1) kvs' q = json_members other kvs' q"
      using fuel_enough(3) [of q] len next_tok_shrinks [OF u(2)] by simp
  qed
  show ?thesis unfolding json_members_def [of other kvs s] suc read_members.simps(2) [of other "2 * length s + 1" kvs s]
    by (intro bind_option_cong refl) (auto intro!: bind_option_cong simp: below [simplified])
qed

definition JSON_parse :: "(string \<Rightarrow> jsv) \<Rightarrow> string \<Rightarrow> js_error + jsv" where
  "JSON_parse other s =
     (case json_read other s of
        None \<Rightarrow> Inl (JsError ''SyntaxError'' ''Unexpected token in JSON'')
      | Some (v, r) \<Rightarrow>
          (if next_tok r = None then Inr v
           else Inl (JsError ''SyntaxError'' ''Unexpected non-whitespace character after JSON'')))"

section \<open>Reading back what was written\<close>

lemma hex_value_digit: "n < 16 \<Longrightarrow> hex_value (hex_digit n) = Some n"
  by (auto simp: hex_value_def hex_digit_def Let_def of_char_of)

lemma read_chars_esc: "read_chars (json_esc c @ r) = map_option (\<lambda>(u, q). (c # u, q)) (read_chars r)"
proof -
  let ?n = "of_char c :: nat"
  have code: "?n = of_char d \<Longrightarrow> c = d" for d by simp
  note ctl = code [of "CHR 0x08"] code [of "CHR 0x09"] code [of "CHR 0x0A"] code [of "CHR 0x0C"] code [of "CHR 0x0D"]
  show ?thesis
  proof (cases "c \<in> {CHR 0x22, CHR 0x5C, CHR 0x08, CHR 0x09, CHR 0x0A, CHR 0x0C, CHR 0x0D} \<or> \<not> ?n < 32")
    case True
    then consider "c \<in> {CHR 0x22, CHR 0x5C, CHR 0x08, CHR 0x09, CHR 0x0A, CHR 0x0C, CHR 0x0D}"
      | "c \<notin> {CHR 0x22, CHR 0x5C}" "\<not> ?n < 32" by blast
    then show ?thesis
    proof cases
      case 1
      then show ?thesis by (elim insertE emptyE; simp add: json_esc_def read_escape_def)
    next
      case 2
      then show ?thesis by (simp add: json_esc_def Let_def)
    qed
  next
    case False
    then have n: "?n < 32" and esc: "json_esc c @ r = CHR 0x5C # CHR ''u'' # CHR ''0'' # CHR ''0'' # hex_digit (?n div 16) # hex_digit (?n mod 16) # r"
      using ctl by (auto simp: json_esc_def Let_def)
    have z: "hex_value (CHR ''0'') = Some 0" by (simp add: hex_value_def)
    have "hex4 (CHR ''0'' # CHR ''0'' # hex_digit (?n div 16) # hex_digit (?n mod 16) # r) = Some (?n, r)"
      using n by (simp add: hex4_def z hex_value_digit)
    then have "read_unit (CHR ''0'' # CHR ''0'' # hex_digit (?n div 16) # hex_digit (?n mod 16) # r) = Some ([c], r)"
      using n by (simp add: read_unit_def utf8_def)
    then show ?thesis unfolding esc by (simp add: read_escape_def split: option.split)
  qed
qed

lemma read_chars_string: "read_chars (concat (map json_esc s) @ CHR 0x22 # r) = Some (s, r)"
  by (induction s) (simp_all add: read_chars_esc)

lemma show_nat_start: "0 < n \<Longrightarrow> hd (show_nat n) \<noteq> CHR ''0''"
proof (induction n rule: show_nat.induct)
  case (1 n)
  show ?case
  proof (cases "n < 10")
    case True
    then have "(of_char (digit_char n) :: nat) \<noteq> of_char (CHR ''0'')" using 1 by (simp add: of_char_digit)
    then show ?thesis using True by (subst show_nat.simps) auto
  next
    case False
    then have "hd (show_nat (n div 10)) \<noteq> CHR ''0''" using 1 by simp
    then show ?thesis using False by (subst show_nat.simps) simp
  qed
qed

text \<open>Where a numeral ends.\<close>

definition numeral_end :: "string \<Rightarrow> bool" where
  "numeral_end r \<longleftrightarrow> r = [] \<or> \<not> is_digit (hd r) \<and> hd r \<notin> {CHR ''.'', CHR ''e'', CHR ''E''}"

lemma delim_numeral_end: "delim r \<Longrightarrow> numeral_end r"
  by (auto simp: delim_def numeral_end_def is_digit_def)

lemma delim_no_numeral: "numeral_end r \<Longrightarrow> takeWhile is_digit (show_nat n @ r) = show_nat n \<and> dropWhile is_digit (show_nat n @ r) = r"
  using show_nat_digits [of n] by (cases r) (auto simp: takeWhile_append2 dropWhile_append2 numeral_end_def)

lemma read_number_show:
  assumes "numeral_end r"
  shows "read_number other (show_int i @ r) = Some (JNum i, r)"
proof -
  have frac: "read_fraction r = Some ([], r)" "read_exponent r = Some ([], r)"
    using assms by (auto simp: read_fraction_def read_exponent_def numeral_end_def split: list.split)
  have zero: "hd (show_nat n) = CHR ''0'' \<Longrightarrow> show_nat n = ''0''" for n
    using show_nat_start [of n] by (cases n) (simp_all add: show_nat.simps digit_char_def char_of_def bit_0)
  show ?thesis
  proof (cases "i < 0")
    case True
    then show ?thesis using frac delim_no_numeral [OF assms] zero [of "nat (- i)"]
      by (auto simp: read_number_def show_int_def split_sign_def Let_def)
  next
    case False
    obtain d ds where sn: "show_nat (nat i) = d # ds" by (cases "show_nat (nat i)") simp_all
    then have "is_digit d" using show_nat_digits [of "nat i"] by simp
    then have "split_sign {CHR ''-''} (show_nat (nat i) @ r) = ([], show_nat (nat i) @ r)"
      using sn by (auto simp: split_sign_def is_digit_def)
    then show ?thesis using False frac delim_no_numeral [OF assms] zero [of "nat i"]
      by (auto simp: read_number_def show_int_def Let_def)
  qed
qed

text \<open>A value whose objects have no key twice.\<close>

function keys_distinct :: "jsv \<Rightarrow> bool" where
  "keys_distinct (JArr vs) = list_all keys_distinct vs"
| "keys_distinct (JObj kvs) = (distinct (map fst kvs) \<and> list_all (\<lambda>(k, v). keys_distinct v) kvs)"
| "keys_distinct JUndefined = True"
| "keys_distinct JNonFinite = True"
| "keys_distinct (JBigInt n) = True"
| "keys_distinct (JOther s) = True"
| "keys_distinct JNull = True"
| "keys_distinct (JBool b) = True"
| "keys_distinct (JNum n) = True"
| "keys_distinct (JStr s) = True"
  by pat_completeness auto
termination
  by (relation "measure size") (auto dest: size_snd_member size_member)

lemma next_tok_not_ws: "\<not> is_ws c \<Longrightarrow> next_tok (c # cs) = Some (c, cs)"
  by simp

lemma ws_simps [simp]:
  "\<not> is_ws (CHR 0x22)" "\<not> is_ws (CHR ''['')" "\<not> is_ws (CHR '']'')" "\<not> is_ws (CHR ''{'')" "\<not> is_ws (CHR ''}'')"
  "\<not> is_ws (CHR '','')" "\<not> is_ws (CHR '':'')" "\<not> is_ws (CHR ''n'')" "\<not> is_ws (CHR ''t'')" "\<not> is_ws (CHR ''f'')"
  by (simp_all add: is_ws_def)

lemma digit_not_ws: "c = CHR ''-'' \<or> is_digit c \<Longrightarrow> \<not> is_ws c"
  by (auto simp: is_ws_def is_digit_def)

lemma render_start:
  assumes "json_pure v"
  shows "\<exists>c cs. render v = c # cs \<and> \<not> is_ws c \<and> c \<noteq> CHR '']'' \<and> c \<noteq> CHR ''}''"
proof (cases v)
  case (JNum n)
  obtain c cs where s: "show_int n = c # cs" by (cases "show_int n") simp_all
  then have "c = CHR ''-'' \<or> is_digit c" by (rule show_int_cons)
  then have "\<not> is_ws c" "c \<noteq> CHR '']''" "c \<noteq> CHR ''}''" by (auto simp: is_ws_def is_digit_def)
  then show ?thesis using s JNum by simp
qed (use assms in \<open>auto simp: json_string_def\<close>)

definition reads_back :: "(string \<Rightarrow> jsv) \<Rightarrow> jsv \<Rightarrow> bool" where
  "reads_back other v \<longleftrightarrow> (\<forall>r. delim r \<longrightarrow> json_read other (render v @ r) = Some (v, r))"

lemma items_read_back:
  "vs \<noteq> [] \<Longrightarrow> list_all (reads_back other) vs \<Longrightarrow>
    json_items other (join_with '','' (map render vs) @ CHR '']'' # r) = Some (vs, r)"
proof (induction vs)
  case Nil
  then show ?case by simp
next
  case (Cons v vs)
  show ?case
  proof (cases vs)
    case Nil
    then have "json_read other (render v @ CHR '']'' # r) = Some (v, CHR '']'' # r)" using Cons.prems by (simp add: reads_back_def)
    then show ?thesis using Nil by (subst json_items_eq) simp
  next
    case (Cons w ws)
    let ?rest = "CHR '','' # join_with '','' (map render vs) @ CHR '']'' # r"
    have "json_read other (render v @ ?rest) = Some (v, ?rest)" using Cons.prems by (simp add: reads_back_def)
    moreover have "join_with '','' (map render (v # vs)) @ CHR '']'' # r = render v @ ?rest" using Cons by simp
    moreover have "json_items other (join_with '','' (map render vs) @ CHR '']'' # r) = Some (vs, r)"
      using Cons.IH Cons.prems Cons by simp
    ultimately show ?thesis by (simp only:) (subst json_items_eq, simp)
  qed
qed

abbreviation member_text :: "string \<times> jsv \<Rightarrow> string" where
  "member_text \<equiv> \<lambda>(k, v). json_string k @ '':'' @ render v"

lemma members_read_back:
  "kvs \<noteq> [] \<Longrightarrow> list_all (\<lambda>(k, v). reads_back other v) kvs \<Longrightarrow> distinct (map fst (acc @ kvs)) \<Longrightarrow>
    json_members other acc (join_with '','' (map member_text kvs) @ CHR ''}'' # r) = Some (acc @ kvs, r)"
proof (induction kvs arbitrary: acc)
  case Nil
  then show ?case by simp
next
  case (Cons p kvs)
  obtain k v where p: "p = (k, v)" by (cases p)
  have new: "map_set k v acc = acc @ [(k, v)]"
    using Cons.prems(3) p by (intro map_set_new) (auto simp: map_of_eq_None_iff)
  have key: "json_members other acc (member_text (k, v) @ e # q) =
      (if e = CHR '','' then json_members other (acc @ [(k, v)]) q
       else if e = CHR ''}'' then Some (acc @ [(k, v)], q) else None)"
    if "delim (e # q)" "\<not> is_ws e" for e q
  proof -
    have "json_read other (render v @ e # q) = Some (v, e # q)" using Cons.prems(2) p that by (simp add: reads_back_def)
    then show ?thesis using that(2)
      by (subst json_members_eq) (simp add: json_string_def read_chars_string new)
  qed
  show ?case
  proof (cases kvs)
    case Nil
    then show ?thesis using key [of "CHR ''}''" r] p by simp
  next
    case more: (Cons m ms)
    have "json_members other (acc @ [(k, v)]) (join_with '','' (map member_text kvs) @ CHR ''}'' # r) = Some ((acc @ [(k, v)]) @ kvs, r)"
      by (rule Cons.IH) (use Cons.prems more p in auto)
    moreover have "join_with '','' (map member_text (p # kvs)) @ CHR ''}'' # r =
        member_text (k, v) @ CHR '','' # join_with '','' (map member_text kvs) @ CHR ''}'' # r"
      using more p by simp
    ultimately show ?thesis using key [of "CHR '',''"] p by simp
  qed
qed

lemma array_read:
  "join_with '','' (map render vs) @ CHR '']'' # r = c # q \<Longrightarrow> \<not> is_ws c \<Longrightarrow> c \<noteq> CHR '']'' \<Longrightarrow>
    json_items other (join_with '','' (map render vs) @ CHR '']'' # r) = Some (vs, r) \<Longrightarrow>
    json_read other (render (JArr vs) @ r) = Some (JArr vs, r)"
  by (simp add: json_read_eq [of other "CHR ''['' # s" for s])

lemma object_read:
  "join_with '','' (map member_text kvs) @ CHR ''}'' # r = CHR 0x22 # q \<Longrightarrow>
    json_members other [] (join_with '','' (map member_text kvs) @ CHR ''}'' # r) = Some (kvs, r) \<Longrightarrow>
    json_read other (render (JObj kvs) @ r) = Some (JObj kvs, r)"
  by (simp add: json_read_eq [of other "CHR ''{'' # s" for s])

lemma render_reads_back: "json_pure v \<Longrightarrow> keys_distinct v \<Longrightarrow> reads_back other v"
proof (induction v)
  case (JArr vs)
  show ?case
  proof (cases vs)
    case Nil
    then show ?thesis by (simp add: reads_back_def json_read_eq [of other "CHR ''['' # s" for s])
  next
    case (Cons w ws)
    have all: "list_all (reads_back other) vs" using JArr by (simp add: list_all_iff)
    have "json_pure w" using JArr.prems Cons by simp
    from render_start [OF this] obtain c cs where c: "render w = c # cs" "\<not> is_ws c" "c \<noteq> CHR '']''" by blast
    have "\<exists>q. join_with '','' (map render vs) @ CHR '']'' # r = c # q" for r
      using Cons c(1) by (cases ws) auto
    then have "json_read other (render (JArr vs) @ r) = Some (JArr vs, r)" for r
      using items_read_back [OF _ all, of r] Cons c(2,3) next_tok_not_ws [OF c(2)]
      by (metis (no_types, lifting) array_read list.distinct(1))
    then show ?thesis by (simp add: reads_back_def)
  qed
next
  case (JObj kvs)
  show ?case
  proof (cases kvs)
    case Nil
    then show ?thesis by (simp add: reads_back_def json_read_eq [of other "CHR ''{'' # s" for s])
  next
    case (Cons p ps)
    have all: "list_all (\<lambda>(k, v). reads_back other v) kvs"
      using JObj by (fastforce simp: list_all_iff)
    have "\<exists>q. join_with '','' (map member_text kvs) @ CHR ''}'' # r = CHR 0x22 # q" for r
      using Cons by (cases p; cases ps) (auto simp: json_string_def)
    then have "json_read other (render (JObj kvs) @ r) = Some (JObj kvs, r)" for r
      using members_read_back [OF _ all, of "[]" r] Cons JObj.prems object_read by fastforce
    then show ?thesis by (simp add: reads_back_def)
  qed
next
  case (JNum n)
  obtain c cs where s: "show_int n = c # cs" by (cases "show_int n") simp_all
  then have c: "c = CHR ''-'' \<or> is_digit c" by (rule show_int_cons)
  have "json_read other (show_int n @ r) = read_number other (show_int n @ r)" for r
    unfolding s using digit_not_ws [OF c] number_start [OF c] c by (simp add: json_read_eq)
  then show ?case by (simp add: reads_back_def read_number_show delim_numeral_end)
next
  case (JStr s)
  then show ?case by (simp add: reads_back_def json_string_def json_read_eq [of other "CHR 0x22 # s" for s] read_chars_string)
next
  case (JBool b)
  then show ?case by (simp add: reads_back_def json_read_eq read_literal_def is_digit_def)
next
  case JNull
  then show ?case by (simp add: reads_back_def json_read_eq read_literal_def is_digit_def)
qed simp_all

lemma json_norm_distinct: "json_norm v = Some u \<Longrightarrow> keys_distinct v \<Longrightarrow> keys_distinct u"
proof (induction v arbitrary: u rule: json_norm.induct)
  case (9 vs)
  have "keys_distinct (case json_norm v of None \<Rightarrow> JNull | Some u \<Rightarrow> u)" if "v \<in> set vs" for v
    using that 9 by (auto simp: list_all_iff split: option.split)
  then show ?case using "9.prems" by (auto simp: list_all_iff)
next
  case (10 kvs)
  let ?f = "\<lambda>(k, v). case json_norm v of None \<Rightarrow> [] | Some u \<Rightarrow> [(k, u)]"
  have keys: "set (map fst (concat (map ?f ps))) \<subseteq> set (map fst ps)" for ps :: "(string \<times> jsv) list"
    by (force split: option.splits)
  have "distinct (map fst (concat (map ?f ps)))" if "distinct (map fst ps)" for ps :: "(string \<times> jsv) list"
    using that
  proof (induction ps)
    case (Cons p ps)
    then have "fst p \<notin> set (map fst ps)" by simp
    then have "fst p \<notin> set (map fst (concat (map ?f ps)))" using keys [of ps] by (meson subsetD)
    then show ?case using Cons by (cases p) (auto split: option.split)
  qed simp
  moreover have "keys_distinct u" if "(k, v) \<in> set kvs" "json_norm v = Some u" for k v u
    using that 10 by (auto simp: list_all_iff)
  ultimately show ?case using "10.prems" by (fastforce simp: list_all_iff split: option.splits)
qed auto

lemma json_text_render: "json_text v = map_option render (json_norm v)"
proof (induction v rule: json_text.induct)
  case (9 vs)
  have "(case json_text v of None \<Rightarrow> ''null'' | Some t \<Rightarrow> t) = render (case json_norm v of None \<Rightarrow> JNull | Some u \<Rightarrow> u)"
    if "v \<in> set vs" for v
    using 9 [OF that] by (cases "json_norm v") simp_all
  then show ?case by (simp cong: map_cong)
next
  case (10 kvs)
  have "map member_text (case json_norm v of None \<Rightarrow> [] | Some u \<Rightarrow> [(k, u)]) =
      (case json_text v of None \<Rightarrow> [] | Some t \<Rightarrow> [json_string k @ '':'' @ t])" if "(k, v) \<in> set kvs" for k v
    using 10 [OF that refl] by (cases "json_norm v") simp_all
  then show ?case by (auto simp: map_concat comp_def intro!: arg_cong [where f = "join_with '',''"] arg_cong [where f = concat] map_cong)
qed simp_all

lemma json_text_reads_back:
  assumes "json_text v = Some t" "keys_distinct v"
  shows "\<exists>u. json_norm v = Some u \<and> JSON_parse other t = Inr u"
proof -
  from assms(1) obtain u where u: "json_norm v = Some u" "t = render u" by (auto simp: json_text_render)
  have "reads_back other u"
    using render_reads_back json_norm_idem [OF u(1)] json_norm_distinct [OF u(1) assms(2)] by blast
  then have "json_read other (t @ []) = Some (u, [])" unfolding u(2) reads_back_def using delim_simps(1) by blast
  then show ?thesis using u(1) by (simp add: JSON_parse_def)
qed

text \<open>A tree of JSON data; \<open>JNonFinite\<close> is a numeral out of range.\<close>

function json_data :: "jsv \<Rightarrow> bool" where
  "json_data (JArr vs) = list_all json_data vs"
| "json_data (JObj kvs) = (distinct (map fst kvs) \<and> list_all (\<lambda>(k, v). json_data v) kvs)"
| "json_data JUndefined = False"
| "json_data JNonFinite = True"
| "json_data (JBigInt n) = False"
| "json_data (JOther s) = False"
| "json_data JNull = True"
| "json_data (JBool b) = True"
| "json_data (JNum n) = True"
| "json_data (JStr s) = True"
  by pat_completeness auto
termination
  by (relation "measure size") (auto dest: size_snd_member size_member)

lemma update_all: "list_all (\<lambda>(k, v). P v) kvs \<Longrightarrow> P v \<Longrightarrow> list_all (\<lambda>(k, v). P v) (map_set k v kvs)"
  by (induction kvs) auto

lemma read_number_data: "(\<And>n. json_data (other n)) \<Longrightarrow> read_number other s = Some (v, r) \<Longrightarrow> json_data v"
  by (auto simp: read_number_def Let_def bind_eq_Some_conv split: prod.splits if_splits)

lemma reads_data:
  assumes other: "\<And>n. json_data (other n)"
  shows "(\<forall>s v r. read_value other n s = Some (v, r) \<longrightarrow> json_data v) \<and>
    (\<forall>s vs r. read_items other n s = Some (vs, r) \<longrightarrow> list_all json_data vs) \<and>
    (\<forall>kvs s kvs' r. read_members other n kvs s = Some (kvs', r) \<longrightarrow> json_data (JObj kvs) \<longrightarrow> json_data (JObj kvs'))"
proof (induction n)
  case 0
  show ?case by (simp add: read_value.simps read_items.simps read_members.simps)
next
  case (Suc n)
  have vals: "json_data v" if "read_value other (Suc n) s = Some (v, r)" for s v r
    using that
  proof (cases rule: read_value_cases)
    case (array c cs vs)
    then have "list_all json_data vs" using Suc.IH by blast
    then show ?thesis using array by simp
  next
    case (object c cs kvs)
    moreover have "json_data (JObj [])" by simp
    ultimately have "json_data (JObj kvs)" using Suc.IH by blast
    then show ?thesis using object by simp
  next
    case (number c cs)
    then show ?thesis by (intro read_number_data [OF _ number(2)] other)
  next
    case (literal c cs)
    then show ?thesis by (auto simp: read_literal_def split: if_splits)
  qed simp_all
  have items: "list_all json_data vs" if "read_items other (Suc n) s = Some (vs, r)" for s vs r
    using that Suc.IH unfolding read_items.simps
    by (fastforce simp: bind_eq_Some_conv split: if_splits)
  have members: "json_data (JObj kvs')" if "read_members other (Suc n) kvs s = Some (kvs', r)" "json_data (JObj kvs)" for kvs s kvs' r
  proof -
    from that(1) obtain k r2 u r3 e q where u: "read_value other n r2 = Some (u, r3)"
        "kvs' = map_set k u kvs \<or> read_members other n (map_set k u kvs) q = Some (kvs', r)"
      unfolding read_members.simps by (auto simp: bind_eq_Some_conv split: if_splits) blast+
    have "json_data u" using Suc.IH u(1) by blast
    then have "json_data (JObj (map_set k u kvs))" using that(2) by (simp add: distinct_update update_all)
    then show ?thesis using u(2) Suc.IH by blast
  qed
  from vals items members show ?case by blast
qed

section \<open>Properties\<close>

text \<open>The text of a value reads back as its normal form: for every value without a big integer and without
  equal keys in one object, \<open>JSON.parse\<close> of its \<open>JSON.stringify\<close> succeeds and gives the value in which
  what JSON cannot hold is dropped from objects and \<open>null\<close> elsewhere, however the other numerals are read.\<close>

theorem json_round_trip:
  assumes "json_stringify v = Inr (Some t)" and "keys_distinct v"
  shows "\<exists>u. json_norm v = Some u \<and> JSON_parse other t = Inr u"
proof (rule json_text_reads_back)
  show "json_text v = Some t" using assms(1) by (auto simp: json_stringify_def split: if_splits)
qed (rule assms(2))

definition demo_value :: jsv where
  "demo_value = JObj [(''a'', JArr [JNum (- 12), JUndefined, JNonFinite]), (''b'', JUndefined),
     (''c'', JStr [CHR 0x22, CHR 0x0A, CHR 0x07])]"

theorem json_round_trip_witness:
  "\<exists>t. json_stringify demo_value = Inr (Some t) \<and> JSON_parse (\<lambda>_. JNonFinite) t =
     Inr (JObj [(''a'', JArr [JNum (- 12), JNull, JNull]), (''c'', JStr [CHR 0x22, CHR 0x0A, CHR 0x07])])"
proof -
  obtain t where t: "json_stringify demo_value = Inr (Some t)" by (simp add: json_stringify_def demo_value_def)
  have "keys_distinct demo_value" by (simp add: demo_value_def)
  from json_round_trip [OF t this] show ?thesis using t by (simp add: demo_value_def)
qed

text \<open>Whatever the text, a value that \<open>JSON.parse\<close> returns is JSON data: no \<open>undefined\<close>, big integer or
  function anywhere and no key twice in one object, provided the numerals with a fraction or an
  exponent denote numbers.\<close>

theorem parsed_is_data:
  assumes "JSON_parse other s = Inr v" and "\<And>n. other n = JNonFinite \<or> (\<exists>i. other n = JNum i)"
  shows "json_data v \<and> \<not> has_bigint v"
proof -
  have "json_data (other n)" for n using assms(2) [of n] by auto
  note data = reads_data [THEN conjunct1, rule_format, OF this]
  from assms(1) obtain r where "json_read other s = Some (v, r)" by (auto simp: JSON_parse_def split: option.splits if_splits)
  then have "json_data v" unfolding json_read_def by (rule data)
  moreover have "json_data u \<Longrightarrow> \<not> has_bigint u" for u
    by (induction u rule: has_bigint.induct) (auto simp: list_all_iff list_ex_iff)
  ultimately show ?thesis by blast
qed

theorem parsed_is_data_witness:
  "json_data (JArr [JNum 1, JNonFinite]) \<and> \<not> has_bigint (JArr [JNum 1, JNonFinite])"
proof (rule parsed_is_data)
  show "JSON_parse (\<lambda>_. JNonFinite) ''[1, 1e999]'' = Inr (JArr [JNum 1, JNonFinite])"
    by (simp add: JSON_parse_def json_read_eq json_items_eq read_number_def split_sign_def is_digit_def is_ws_def
        read_fraction_def read_exponent_def digits_value_def)
qed simp

end
