(* ===== verification/Github.thy ===== *)
theory Github
  imports Encoding Registry Execution Vault JsonParse
begin

text \<open>
  The GitHub plugin of \<open>plugins/tools/github/src\<close>: the transport's errors, the seven operations, the
  dispatcher and the executors the plugin registers.  \<open>fetch\<close>, the numerals of a response that are no
  integers, the zod schemas and the transport are parameters; the HTTPS transport is one transport.  Responses are
  untyped values, read as the code reads them: a missing part makes the read throw.
\<close>

section \<open>The transport\<close>

record github_response =
  gr_status :: int
  gr_json :: jsv

type_synonym 'w github_transport = "string \<Rightarrow> string \<Rightarrow> jsv option \<Rightarrow> ('w, github_response) proc"

definition GitHubRequestError :: "int \<Rightarrow> string \<Rightarrow> string \<Rightarrow> js_error" where
  "GitHubRequestError status msg path =
     JsError ''GitHubRequestError'' (''GitHub API '' @ show_int status @ '' on '' @ path @ '': '' @ msg)"

record http_init =
  hi_method :: string
  hi_headers :: "(string \<times> string) list"
  hi_body :: "string option"

record http_response =
  hr_status :: int
  hr_ok :: bool
  hr_text :: string

record 'w http_transport =
  ht_baseUrl :: string
  ht_token :: string
  ht_fetch :: "string \<Rightarrow> http_init \<Rightarrow> ('w, http_response) proc"
  ht_numeral :: "string \<Rightarrow> jsv"

definition http_headers :: "string \<Rightarrow> (string \<times> string) list" where
  "http_headers token =
     [(''Accept'', ''application/vnd.github+json''), (''Authorization'', ''Bearer '' @ token),
      (''X-GitHub-Api-Version'', ''2022-11-28''), (''Content-Type'', ''application/json'')]"

text \<open>The response's text as JSON, the text itself where it is none, \<open>undefined\<close> where it is empty.\<close>

definition response_json :: "(string \<Rightarrow> jsv) \<Rightarrow> string \<Rightarrow> jsv" where
  "response_json nm text =
     (if text = [] then JUndefined else case JSON_parse nm text of Inl _ \<Rightarrow> JStr text | Inr v \<Rightarrow> v)"

definition http_request :: "'w http_transport \<Rightarrow> 'w github_transport" where
  "http_request t method path body =
     bindP (liftE (case body of None \<Rightarrow> Inr None | Some v \<Rightarrow> json_stringify v)) (\<lambda>payload.
     bindP (ht_fetch t (ht_baseUrl t @ path)
       \<lparr>hi_method = method, hi_headers = http_headers (ht_token t), hi_body = payload\<rparr>) (\<lambda>res.
       let json = response_json (ht_numeral t) (hr_text res) in
       if \<not> hr_ok res then
         (let m = js_maybe ''message'' json in
          throwP (GitHubRequestError (hr_status res) (if js_nullish m then hr_text res else template_text m) path))
       else returnP \<lparr>gr_status = hr_status res, gr_json = json\<rparr>))"

section \<open>Credentials\<close>

definition resolveToken :: "vault_state \<Rightarrow> secret_ref \<Rightarrow> (host, string) proc" where
  "resolveToken vault ref = bindP (vault_resolve vault ref) (\<lambda>c. returnP (cred_value c))"

definition tokenFromEnv :: "(string \<Rightarrow> string option) \<Rightarrow> string option" where
  "tokenFromEnv env = (case env ''GH_TOKEN'' of None \<Rightarrow> env ''GITHUB_TOKEN'' | Some t \<Rightarrow> Some t)"

section \<open>The operations\<close>

definition GITHUB_ACTIONS :: "string list" where
  "GITHUB_ACTIONS =
     [''github.repo.read'', ''github.repo.branch.create'', ''github.repo.file.read'', ''github.repo.file.write'',
      ''github.git.commit'', ''github.pull_request.create'', ''github.pull_request.read'']"

text \<open>A parsed input is an object with the string properties its schema asks for.\<close>

definition text_of :: "string \<Rightarrow> jsv \<Rightarrow> string" where
  "text_of k input = template_text (js_maybe k input)"

definition repo_path :: "jsv \<Rightarrow> string" where
  "repo_path input = ''/repos/'' @ text_of ''owner'' input @ ''/'' @ text_of ''repo'' input"

definition request_json :: "'w github_transport \<Rightarrow> string \<Rightarrow> string \<Rightarrow> jsv option \<Rightarrow> ('w, jsv) proc" where
  "request_json t method path body = bindP (t method path body) (\<lambda>res. returnP (gr_json res))"

definition repoRead :: "'w github_transport \<Rightarrow> jsv \<Rightarrow> ('w, jsv) proc" where
  "repoRead t input =
     bindP (request_json t ''GET'' (repo_path input) None) (\<lambda>repo.
     bindP (liftE (js_get ''default_branch'' repo)) (\<lambda>default.
     bindP (request_json t ''GET'' (repo_path input @ ''/git/ref/heads/'' @ template_text default) None) (\<lambda>ref.
     bindP (liftE (js_path [''object'', ''sha''] ref)) (\<lambda>sha.
       returnP (JObj [(''owner'', js_maybe ''owner'' input), (''repo'', js_maybe ''repo'' input),
         (''fullName'', js_maybe ''full_name'' repo), (''defaultBranch'', default), (''defaultBranchSha'', sha)])))))"

definition branchCreate :: "'w github_transport \<Rightarrow> jsv \<Rightarrow> ('w, jsv) proc" where
  "branchCreate t input =
     bindP (request_json t ''POST'' (repo_path input @ ''/git/refs'')
       (Some (JObj [(''ref'', JStr (''refs/heads/'' @ text_of ''branch'' input)), (''sha'', js_maybe ''from'' input)]))) (\<lambda>created.
     bindP (liftE (js_get ''ref'' created)) (\<lambda>ref.
     bindP (liftE (js_path [''object'', ''sha''] created)) (\<lambda>sha.
       returnP (JObj [(''ref'', ref), (''sha'', sha)]))))"

definition ref_query :: "jsv \<Rightarrow> string" where
  "ref_query input =
     (let r = js_maybe ''ref'' input in
      if js_nullish r \<or> r = JStr [] then [] else ''?ref='' @ encodeURIComponent (template_text r))"

text \<open>\<open>Buffer.from(encoded, 'base64')\<close> throws for what is no text; the arrays and buffer-like objects that
  it would copy instead are not told apart.\<close>

definition decoded_content :: "jsv \<Rightarrow> js_error + string" where
  "decoded_content v = (case v of JStr s \<Rightarrow> Inr (b64decode s)
     | _ \<Rightarrow> Inl (JsError ''TypeError'' ''The first argument must be of type string''))"

definition fileRead :: "'w github_transport \<Rightarrow> jsv \<Rightarrow> ('w, jsv) proc" where
  "fileRead t input =
     bindP (request_json t ''GET'' (repo_path input @ ''/contents/'' @ text_of ''path'' input @ ref_query input) None) (\<lambda>file.
     bindP (liftE (bindE (js_get ''content'' file) decoded_content)) (\<lambda>content.
     bindP (liftE (js_get ''sha'' file)) (\<lambda>sha.
       returnP (JObj [(''path'', js_maybe ''path'' input), (''content'', JStr content), (''sha'', sha)]))))"

definition fileWrite :: "'w github_transport \<Rightarrow> jsv \<Rightarrow> ('w, jsv) proc" where
  "fileWrite t input =
     bindP (request_json t ''PUT'' (repo_path input @ ''/contents/'' @ text_of ''path'' input)
       (Some (JObj [(''message'', js_maybe ''message'' input), (''content'', JStr (b64encode (text_of ''content'' input))),
         (''branch'', js_maybe ''branch'' input)]))) (\<lambda>out.
     bindP (liftE (js_path [''commit'', ''sha''] out)) (\<lambda>commit.
     bindP (liftE (js_path [''content'', ''sha''] out)) (\<lambda>content.
       returnP (JObj [(''commitSha'', commit), (''contentSha'', content)]))))"

definition gitCommit :: "'w github_transport \<Rightarrow> jsv \<Rightarrow> ('w, jsv) proc" where
  "gitCommit t input =
     bindP (request_json t ''GET'' (repo_path input @ ''/git/ref/heads/'' @ text_of ''branch'' input) None) (\<lambda>ref.
     bindP (liftE (js_path [''object'', ''sha''] ref)) (\<lambda>parentSha.
     bindP (request_json t ''GET'' (repo_path input @ ''/git/commits/'' @ template_text parentSha) None) (\<lambda>parent.
     bindP (liftE (js_path [''tree'', ''sha''] parent)) (\<lambda>tree.
     bindP (request_json t ''POST'' (repo_path input @ ''/git/commits'')
       (Some (JObj [(''message'', js_maybe ''message'' input), (''tree'', tree), (''parents'', JArr [parentSha])]))) (\<lambda>commit.
     bindP (liftE (js_get ''sha'' commit)) (\<lambda>sha.
     bindP (request_json t ''PATCH'' (repo_path input @ ''/git/refs/heads/'' @ text_of ''branch'' input)
       (Some (JObj [(''sha'', sha)]))) (\<lambda>_.
       returnP (JObj [(''sha'', sha)]))))))))"

definition prCreate :: "'w github_transport \<Rightarrow> jsv \<Rightarrow> ('w, jsv) proc" where
  "prCreate t input =
     bindP (request_json t ''POST'' (repo_path input @ ''/pulls'')
       (Some (JObj [(''title'', js_maybe ''title'' input), (''head'', js_maybe ''head'' input), (''base'', js_maybe ''base'' input),
         (''body'', let b = js_maybe ''body'' input in if js_nullish b then JStr [] else b)]))) (\<lambda>pr.
     bindP (liftE (js_get ''number'' pr)) (\<lambda>number.
     bindP (liftE (js_get ''html_url'' pr)) (\<lambda>url.
     bindP (liftE (js_path [''head'', ''sha''] pr)) (\<lambda>headSha.
     bindP (liftE (js_path [''head'', ''ref''] pr)) (\<lambda>headRef.
     bindP (liftE (js_path [''base'', ''ref''] pr)) (\<lambda>baseRef.
       returnP (JObj [(''number'', number), (''url'', url), (''headSha'', headSha), (''headRef'', headRef),
         (''baseRef'', baseRef), (''state'', js_maybe ''state'' pr)])))))))"

definition prRead :: "'w github_transport \<Rightarrow> jsv \<Rightarrow> ('w, jsv) proc" where
  "prRead t input =
     (let path = repo_path input @ ''/pulls/'' @ text_of ''number'' input in
      bindP (request_json t ''GET'' path None) (\<lambda>pr.
      bindP (request_json t ''GET'' (path @ ''/files'') None) (\<lambda>files.
      bindP (liftE (js_get ''number'' pr)) (\<lambda>number.
      bindP (liftE (js_path [''head'', ''sha''] pr)) (\<lambda>headSha.
      bindP (liftE (js_path [''head'', ''ref''] pr)) (\<lambda>headRef.
      bindP (liftE (js_path [''base'', ''ref''] pr)) (\<lambda>baseRef.
        returnP (JObj [(''number'', number), (''state'', js_maybe ''state'' pr), (''headSha'', headSha), (''headRef'', headRef),
          (''baseRef'', baseRef), (''title'', js_maybe ''title'' pr), (''url'', js_maybe ''html_url'' pr), (''files'', files)]))))))))"

text \<open>\<open>dispatch\<close>: the operation of an action and its evidence; \<open>undefined\<close> for any other action.\<close>

definition with_evidence :: "string \<Rightarrow> string \<Rightarrow> string \<Rightarrow> ('w, jsv) proc \<Rightarrow> ('w, jsv \<times> evidence_ref list) proc" where
  "with_evidence tag field kind p =
     bindP p (\<lambda>out. returnP (out, [\<lparr>evidenceId = tag @ text_of field out, evidence_kind = kind\<rparr>]))"

definition dispatch :: "string \<Rightarrow> jsv \<Rightarrow> 'w github_transport \<Rightarrow> ('w, (jsv \<times> evidence_ref list) option) proc" where
  "dispatch action input t =
     (let run = (\<lambda>tag field kind p. bindP (with_evidence tag field kind p) (\<lambda>o1. returnP (Some o1))) in
      if action = ''github.repo.read'' then run ''github.repo.read:'' ''fullName'' ''http_check'' (repoRead t input)
      else if action = ''github.repo.branch.create'' then
        run ''github.repo.branch.create:'' ''sha'' ''git_commit'' (branchCreate t input)
      else if action = ''github.repo.file.read'' then run ''github.repo.file.read:'' ''sha'' ''file'' (fileRead t input)
      else if action = ''github.repo.file.write'' then
        run ''github.repo.file.write:'' ''commitSha'' ''git_commit'' (fileWrite t input)
      else if action = ''github.git.commit'' then run ''github.git.commit:'' ''sha'' ''git_commit'' (gitCommit t input)
      else if action = ''github.pull_request.create'' then
        run ''github.pull_request.create:#'' ''number'' ''artifact'' (prCreate t input)
      else if action = ''github.pull_request.read'' then
        run ''github.pull_request.read:#'' ''number'' ''http_check'' (prRead t input)
      else returnP None)"

section \<open>The plugin\<close>

type_synonym tool_schemas = "string \<Rightarrow> schema \<times> schema"

record 'w github_plugin =
  gp_transport :: "'w github_transport"
  gp_schemas :: schema_registry

definition register_tool :: "tool_schemas \<Rightarrow> string \<Rightarrow> schema_registry \<Rightarrow> js_error + schema_registry" where
  "register_tool schemas name = registerCapability name (fst (schemas name)) (snd (schemas name))"

definition new_github_plugin :: "tool_schemas \<Rightarrow> 'w github_transport \<Rightarrow> js_error + 'w github_plugin" where
  "new_github_plugin schemas t =
     bindE (foldE (register_tool schemas) GITHUB_ACTIONS new_schema_registry)
       (\<lambda>reg. Inr \<lparr>gp_transport = t, gp_schemas = reg\<rparr>)"

text \<open>Destructuring \<open>undefined\<close> throws.\<close>

definition plugin_try :: "'w github_plugin \<Rightarrow> string \<Rightarrow> jsv \<Rightarrow> ('w, exec_result) proc" where
  "plugin_try p action input =
     bindP (liftE (validateCapabilityInput (gp_schemas p) action input)) (\<lambda>parsed.
     bindP (dispatch action parsed (gp_transport p)) (\<lambda>outcome.
       case outcome of
         None \<Rightarrow> throwP (JsError ''TypeError'' ''Cannot destructure property of undefined'')
       | Some (out, evidence) \<Rightarrow>
           bindP (liftE (validateCapabilityOutput (gp_schemas p) action out)) (\<lambda>_.
             returnP \<lparr>res_status = Success, res_output = out, res_evidence = evidence\<rparr>)))"

definition plugin_executor :: "'w github_plugin \<Rightarrow> string \<Rightarrow> 'w executor" where
  "plugin_executor p action =
     \<lparr>ex_canExecute = (\<lambda>ctx. returnP True),
      ex_execute = (\<lambda>input ctx. catchP (plugin_try p action input) (\<lambda>e. returnP (fail_result (err_message e))))\<rparr>"

definition plugin_register :: "'w github_plugin \<Rightarrow> 'w executor_registry \<Rightarrow> js_error + 'w executor_registry" where
  "plugin_register p reg = foldE (\<lambda>action. executor_register action (plugin_executor p action)) GITHUB_ACTIONS reg"

section \<open>What the operations leave\<close>

lemma with_evidence_one: "with_evidence tag field kind q w = (Inr (out, ev), w') \<Longrightarrow> length ev = 1"
  by (auto simp: with_evidence_def bindP_ok returnP_def)

lemma dispatch_evidence: "dispatch action input t w = (Inr (Some (out, ev)), w') \<Longrightarrow> length ev = 1"
  by (auto simp: dispatch_def Let_def bindP_ok returnP_def dest!: with_evidence_one split: if_splits)

lemma plugin_try_refused:
  "validateCapabilityInput (gp_schemas p) action input = Inl e \<Longrightarrow> plugin_try p action input w = (Inl e, w)"
  by (simp add: plugin_try_def bindP_def liftE_def)

lemma plugin_try_success:
  assumes "plugin_try p action input w = (Inr res, w')"
  shows "res_status res = Success \<and> length (res_evidence res) = 1 \<and>
    is_ok (validateCapabilityOutput (gp_schemas p) action (res_output res))"
  using assms
  by (auto simp: plugin_try_def bindP_ok liftE_def throwP_def returnP_def is_ok_def dest!: dispatch_evidence
      split: option.splits)

lemma b64_ignores_breaks: "b64decode (filter (\<lambda>c. c \<noteq> CHR 0x0A) s) = b64decode s"
proof -
  have nl: "b64_value (CHR 0x0A) = None" by (simp add: b64_value_def)
  have "List.map_filter b64_value (takeWhile (\<lambda>c. c \<noteq> CHR ''='') (filter (\<lambda>c. c \<noteq> CHR 0x0A) s)) =
      List.map_filter b64_value (takeWhile (\<lambda>c. c \<noteq> CHR ''='') s)"
    by (induction s) (auto simp: List.map_filter_simps nl split: option.split)
  then show ?thesis by (simp add: b64decode_def)
qed

text \<open>The constructor never throws: the seven names are valid and distinct.\<close>

lemma github_names_valid: "list_all isValidName GITHUB_ACTIONS \<and> distinct GITHUB_ACTIONS"
  by code_simp

lemma register_tools:
  "list_all isValidName names \<Longrightarrow> distinct names \<Longrightarrow> set names \<inter> set (listCapabilities reg) = {} \<Longrightarrow>
    \<exists>reg'. foldE (register_tool schemas) names reg = Inr reg' \<and> listCapabilities reg' = listCapabilities reg @ names"
proof (induction names arbitrary: reg)
  case (Cons n ns)
  let ?r = "reg\<lparr>sr_capabilities := map_set n \<lparr>ce_name = n, ce_inputSchema = fst (schemas n), ce_outputSchema = snd (schemas n)\<rparr>
    (sr_capabilities reg)\<rparr>"
  have new: "map_of (sr_capabilities reg) n = None"
    using Cons.prems(3) by (auto simp: listCapabilities_def map_of_eq_None_iff)
  then have one: "register_tool schemas n reg = Inr ?r"
    using Cons.prems(1) by (simp add: register_tool_def registerCapability_def isValidName_def Let_def)
  have caps: "listCapabilities ?r = listCapabilities reg @ [n]" using new by (simp add: listCapabilities_def map_set_new)
  show ?case using Cons.IH [of ?r] Cons.prems one caps by auto
qed simp

lemma new_github_plugin_ok:
  "\<exists>p. new_github_plugin schemas t = Inr p \<and> gp_transport p = t \<and> listCapabilities (gp_schemas p) = GITHUB_ACTIONS"
proof -
  obtain reg where "foldE (register_tool schemas) GITHUB_ACTIONS new_schema_registry = Inr reg" "listCapabilities reg = GITHUB_ACTIONS"
    using register_tools [of GITHUB_ACTIONS new_schema_registry schemas] github_names_valid
    by (auto simp: listCapabilities_def new_schema_registry_def)
  then show ?thesis by (auto simp: new_github_plugin_def)
qed

section \<open>Properties\<close>

text \<open>An executor of the plugin never throws, whatever the input, the transport and the response: an input
  its schema refuses is answered with the schema's message and no request is made; otherwise the result
  is either a success whose output satisfies the output schema and which carries exactly one piece of
  evidence, or a failure without evidence.\<close>

theorem plugin_executor_total:
  "\<exists>res w'. ex_execute (plugin_executor p action) input ctx w = (Inr res, w') \<and>
     (case validateCapabilityInput (gp_schemas p) action input of
        Inl e \<Rightarrow> res = fail_result (err_message e) \<and> w' = w
      | Inr parsed \<Rightarrow>
          (if res_status res = Success
           then is_ok (validateCapabilityOutput (gp_schemas p) action (res_output res)) \<and> length (res_evidence res) = 1
           else res_evidence res = []))"
proof (cases "plugin_try p action input w")
  case (Pair v w')
  show ?thesis
  proof (cases v)
    case (Inl e)
    then have "ex_execute (plugin_executor p action) input ctx w = (Inr (fail_result (err_message e)), w')"
      by (simp add: plugin_executor_def catchP_def Pair returnP_def)
    then show ?thesis using plugin_try_refused [of p action input _ w] Pair Inl
      by (auto simp: fail_result_def split: sum.split)
  next
    case (Inr res)
    then have "ex_execute (plugin_executor p action) input ctx w = (Inr res, w')"
      by (simp add: plugin_executor_def catchP_def Pair)
    then show ?thesis using plugin_try_refused [of p action input _ w] plugin_try_success [of p action input w res w'] Pair Inr
      by (auto split: sum.split)
  qed
qed

text \<open>What is written can be read back: over a transport that keeps what is PUT at a path and answers it
  there, line breaks inserted or not, \<open>fileRead\<close> after a \<open>fileWrite\<close> that returned gives the content that
  was written.\<close>

theorem written_file_reads_back:
  assumes keeps: "\<And>body res w w'. t ''PUT'' (repo_path input @ ''/contents/'' @ text_of ''path'' input) (Some body) w = (Inr res, w') \<Longrightarrow>
      \<exists>status entry kept w''. t ''GET'' (repo_path input @ ''/contents/'' @ text_of ''path'' input @ ref_query input2) None w' =
          (Inr \<lparr>gr_status = status, gr_json = JObj entry\<rparr>, w'') \<and> map_of entry ''content'' = Some (JStr kept) \<and>
        js_maybe ''content'' body = JStr (filter (\<lambda>c. c \<noteq> CHR 0x0A) kept)"
    and same: "repo_path input2 = repo_path input" "text_of ''path'' input2 = text_of ''path'' input"
    and written: "fileWrite t input w = (Inr out, w')"
  shows "\<exists>entry. fst (fileRead t input2 w') = Inr entry \<and> js_get ''content'' entry = Inr (JStr (text_of ''content'' input))"
proof -
  let ?body = "JObj [(''message'', js_maybe ''message'' input), (''content'', JStr (b64encode (text_of ''content'' input))),
     (''branch'', js_maybe ''branch'' input)]"
  from written obtain res where "t ''PUT'' (repo_path input @ ''/contents/'' @ text_of ''path'' input) (Some ?body) w = (Inr res, w')"
    by (auto simp: fileWrite_def request_json_def bindP_ok returnP_def liftE_def)
  from keeps [OF this] obtain status entry kept w'' where
    got: "t ''GET'' (repo_path input @ ''/contents/'' @ text_of ''path'' input @ ref_query input2) None w' =
        (Inr \<lparr>gr_status = status, gr_json = JObj entry\<rparr>, w'')" "map_of entry ''content'' = Some (JStr kept)"
      "js_maybe ''content'' ?body = JStr (filter (\<lambda>c. c \<noteq> CHR 0x0A) kept)"
    by blast
  then have "filter (\<lambda>c. c \<noteq> CHR 0x0A) kept = b64encode (text_of ''content'' input)" by (simp add: js_maybe_def js_get_def)
  then have "b64decode kept = text_of ''content'' input" using b64_ignores_breaks [of kept] b64_round_trip by metis
  then show ?thesis
    using got(1,2) same by (simp add: fileRead_def request_json_def bindP_def returnP_def liftE_def js_get_def decoded_content_def)
qed

text \<open>A repository of one file: it keeps the content with a line break at its end.\<close>

definition demo_contents :: "string github_transport" where
  "demo_contents method path body = (\<lambda>kept.
     if method = ''GET'' then
       (Inr \<lparr>gr_status = 200, gr_json = JObj [(''content'', JStr kept), (''sha'', JStr ''s2'')]\<rparr>, kept)
     else case body of
       None \<Rightarrow> (Inl (plain_error ''no body''), kept)
     | Some b \<Rightarrow>
         (case js_maybe ''content'' b of
            JStr c \<Rightarrow>
              if CHR 0x0A \<in> set c then (Inl (plain_error ''bad content''), kept)
              else (Inr \<lparr>gr_status = 201, gr_json = JObj [(''commit'', JObj [(''sha'', JStr ''s1'')]),
                  (''content'', JObj [(''sha'', JStr ''s2'')])]\<rparr>, c @ [CHR 0x0A])
          | _ \<Rightarrow> (Inl (plain_error ''bad content''), kept)))"

definition demo_write :: jsv where
  "demo_write = JObj [(''owner'', JStr ''o''), (''repo'', JStr ''r''), (''path'', JStr ''p''), (''branch'', JStr ''b''),
     (''content'', JStr ''text''), (''message'', JStr ''m'')]"

definition demo_read :: jsv where
  "demo_read = JObj [(''owner'', JStr ''o''), (''repo'', JStr ''r''), (''path'', JStr ''p''), (''ref'', JStr ''b'')]"

lemma demo_contents_keeps:
  assumes "demo_contents ''PUT'' path (Some body) w = (Inr res, w')"
  shows "js_maybe ''content'' body = JStr (filter (\<lambda>c. c \<noteq> CHR 0x0A) w')"
proof -
  have "filter (\<lambda>c. c \<noteq> CHR 0x0A) c = c" if "CHR 0x0A \<notin> set c" for c
    using that by (auto simp: filter_id_conv)
  then show ?thesis using assms by (auto simp: demo_contents_def split: jsv.splits if_splits)
qed

lemma demo_fileWrite: "\<exists>out w'. fileWrite demo_contents demo_write [] = (Inr out, w') \<and> w' = b64encode ''text'' @ [CHR 0x0A]"
proof -
  have "CHR 0x0A \<notin> set (b64encode ''text'')" by code_simp
  then show ?thesis
    by (simp add: fileWrite_def request_json_def demo_write_def demo_contents_def bindP_def returnP_def liftE_def js_maybe_def
        js_get_def js_path_def text_of_def)
qed

theorem written_file_reads_back_witness:
  "\<exists>entry. fst (fileRead demo_contents demo_read (b64encode ''text'' @ [CHR 0x0A])) = Inr entry \<and>
     js_get ''content'' entry = Inr (JStr (text_of ''content'' demo_write))"
proof -
  obtain out where out: "fileWrite demo_contents demo_write [] = (Inr out, b64encode ''text'' @ [CHR 0x0A])"
    using demo_fileWrite by blast
  show ?thesis
  proof (rule written_file_reads_back [OF _ _ _ out])
    fix body res w w'
    assume "demo_contents ''PUT'' (repo_path demo_write @ ''/contents/'' @ text_of ''path'' demo_write) (Some body) w = (Inr res, w')"
    from demo_contents_keeps [OF this]
    show "\<exists>status entry kept w''. demo_contents ''GET'' (repo_path demo_write @ ''/contents/'' @ text_of ''path'' demo_write @
          ref_query demo_read) None w' = (Inr \<lparr>gr_status = status, gr_json = JObj entry\<rparr>, w'') \<and>
        map_of entry ''content'' = Some (JStr kept) \<and> js_maybe ''content'' body = JStr (filter (\<lambda>c. c \<noteq> CHR 0x0A) kept)"
      by (simp add: demo_contents_def)
  qed (simp_all add: demo_write_def demo_read_def repo_path_def text_of_def js_maybe_def js_get_def)
qed

end
