(* ===== verification/Http.thy ===== *)
theory Http
  imports JsonParse LocalRunner
begin

text \<open>
  The HTTP API of \<open>apps/api/src\<close>: routing, the bounded reading of a body, the check of a run request,
  the public form of an outcome and the classification of errors by their messages.  A body arrives as
  a list of chunks.  The pathname of a request's target, the numerals of a body that are no integers
  and the environment are parameters; all requests are served by one runner, one after the other.  A
  body over the limit makes the server leave the loop over the request by an exception, which destroys the
  request and with it the connection, so that nothing is delivered.  The main result says exactly what
  the server answers and that nothing but an accepted run request changes anything.
\<close>

section \<open>Values that cross the border\<close>

definition result_jsv :: "exec_result \<Rightarrow> jsv" where
  "result_jsv r = JObj [(''status'', JStr (status_string (res_status r))), (''output'', res_output r),
     (''evidence'', JArr (map evidence_jsv (res_evidence r)))]"

definition optional :: "('a \<Rightarrow> jsv) \<Rightarrow> 'a option \<Rightarrow> jsv" where
  "optional f v = (case v of None \<Rightarrow> JUndefined | Some x \<Rightarrow> f x)"

definition check_jsv :: "verification_check \<Rightarrow> jsv" where
  "check_jsv c = JObj [(''id'', JStr (vc_id c)), (''name'', JStr (vc_name c)), (''verdict'', JStr (verdict_text (vc_verdict c))),
     (''evidence'', optional (\<lambda>es. JArr (map evidence_jsv es)) (vc_evidence c)), (''detail'', optional JStr (vc_detail c))]"

definition verification_jsv :: "verification \<Rightarrow> jsv" where
  "verification_jsv v = JObj [(''id'', JStr (ver_id v)), (''target'', JStr (ver_target v)),
     (''checks'', JArr (map check_jsv (ver_checks v))), (''evidence'', JArr (map evidence_jsv (ver_evidence v))),
     (''verdict'', JStr (verdict_text (ver_verdict v)))]"

definition publicOutcome :: "proof_carrying_outcome \<Rightarrow> jsv" where
  "publicOutcome o1 = JObj [(''run_id'', JStr (pco_runId o1)), (''task_id'', JStr (pco_taskId o1)), (''task'', JStr (pco_intent o1)),
     (''mode'', JStr (pco_mode o1)), (''verdict'', JStr (verdict_text (pco_verdict o1))),
     (''results'', JArr (map result_jsv (pco_results o1))), (''verification'', verification_jsv (pco_verification o1)),
     (''usage'', usage_jsv (pco_usage o1)), (''evidence'', JArr (map evidence_jsv (ver_evidence (pco_verification o1))))]"

definition parseRunRequest :: "jsv \<Rightarrow> js_error + string" where
  "parseRunRequest body =
     (case body of
        JObj kvs \<Rightarrow>
          (case map_of kvs ''task'' of
             Some (JStr s) \<Rightarrow>
               (let task = js_trim s in
                if task = [] then Inl (plain_error ''task must not be empty'') else Inr task)
           | _ \<Rightarrow> Inl (plain_error ''request body must contain a string task''))
      | _ \<Rightarrow> Inl (plain_error ''request body must contain a string task''))"

definition no_options :: "'x run_task_options" where
  "no_options = \<lparr>rt_actorId = None, rt_actorTrust = None, rt_plan = None, rt_steps = None, rt_onVerify = None\<rparr>"

section \<open>The server\<close>

record api_request =
  aq_method :: "string option"
  aq_url :: "string option"
  aq_chunks :: "string list"

record api_reply =
  ap_status :: int
  ap_type :: string
  ap_body :: string

text \<open>What the process and the platform give: the variable \<open>CELIA_MODE\<close>, \<open>new URL(url, base).pathname\<close> and
  the numerals that are no integers.\<close>

record api_platform =
  pf_mode :: "string option"
  pf_pathname :: "string \<Rightarrow> js_error + string"
  pf_numeral :: "string \<Rightarrow> jsv"

definition MAX_BODY_BYTES :: nat where
  "MAX_BODY_BYTES = 64 * 1024"

definition sendJson :: "int \<Rightarrow> jsv \<Rightarrow> js_error + api_reply" where
  "sendJson status v =
     bindE (json_stringify v) (\<lambda>t. Inr \<lparr>ap_status = status, ap_type = ''application/json; charset=utf-8'',
       ap_body = (case t of None \<Rightarrow> [] | Some s \<Rightarrow> s)\<rparr>)"

definition error_jsv :: "string \<Rightarrow> jsv" where
  "error_jsv msg = JObj [(''error'', JStr msg)]"

definition healthResponse :: "string option \<Rightarrow> jsv" where
  "healthResponse mode = JObj [(''status'', JStr ''ok''), (''service'', JStr ''celia-api''), (''mode'', JStr (modeFromEnv mode))]"

fun read_chunks :: "nat \<Rightarrow> string list \<Rightarrow> string list \<Rightarrow> js_error + string list" where
  "read_chunks got chunks [] = Inr chunks"
| "read_chunks got chunks (c # cs) =
     (if MAX_BODY_BYTES < got + length c then Inl (plain_error ''request body is too large'')
      else read_chunks (got + length c) (chunks @ [c]) cs)"

text \<open>One exchange: the runner's world and whether the connection of the request is still there.  A loop
  \<open>for await\<close> over a request that is left by an exception destroys the request, and an unfinished request
  that is destroyed destroys its socket.\<close>

record 'x exchange =
  xc_runner :: "'x runner_world"
  xc_open :: bool

definition on_runner :: "('x runner_world, 'a) proc \<Rightarrow> ('x exchange, 'a) proc" where
  "on_runner p x = (case p (xc_runner x) of (v, w) \<Rightarrow> (v, x\<lparr>xc_runner := w\<rparr>))"

definition readJson :: "(string \<Rightarrow> jsv) \<Rightarrow> string list \<Rightarrow> ('x exchange, jsv) proc" where
  "readJson nm arriving x =
     (case read_chunks 0 [] arriving of
        Inl e \<Rightarrow> (Inl e, x\<lparr>xc_open := False\<rparr>)
      | Inr chunks \<Rightarrow>
          (case JSON_parse nm (concat chunks) of
             Inl _ \<Rightarrow> (Inl (plain_error ''request body must be valid JSON''), x)
           | Inr v \<Rightarrow> (Inr v, x)))"

definition runTask :: "'x local_runner \<Rightarrow> jsv \<Rightarrow> ('x exchange, api_reply) proc" where
  "runTask r body =
     bindP (liftE (parseRunRequest body)) (\<lambda>task.
     bindP (on_runner (runner_run r task no_options)) (\<lambda>outcome. liftE (sendJson 200 (publicOutcome outcome))))"

definition handleRequest :: "api_platform \<Rightarrow> 'x local_runner \<Rightarrow> api_request \<Rightarrow> ('x exchange, api_reply) proc" where
  "handleRequest pf r q =
     (let meth = (case aq_method q of None \<Rightarrow> ''GET'' | Some m \<Rightarrow> m) in
      bindP (liftE (pf_pathname pf (case aq_url q of None \<Rightarrow> ''/'' | Some u \<Rightarrow> u))) (\<lambda>path.
        if path = ''/health'' then
          if meth \<noteq> ''GET'' then liftE (sendJson 405 (error_jsv ''method not allowed''))
          else liftE (sendJson 200 (healthResponse (pf_mode pf)))
        else if path = ''/run'' then
          if meth \<noteq> ''POST'' then liftE (sendJson 405 (error_jsv ''method not allowed''))
          else bindP (readJson (pf_numeral pf) (aq_chunks q)) (\<lambda>body. runTask r body)
        else liftE (sendJson 404 (error_jsv ''not found''))))"

definition error_status :: "string \<Rightarrow> int" where
  "error_status msg = (if starts_with msg ''request body'' \<or> starts_with msg ''task '' then 400 else 500)"

text \<open>A reply reaches the client only over an open connection.\<close>

definition createApiServer :: "api_platform \<Rightarrow> 'x local_runner \<Rightarrow> api_request \<Rightarrow> ('x runner_world, api_reply option) proc" where
  "createApiServer pf r q w =
     (case catchP (handleRequest pf r q)
             (\<lambda>e. liftE (sendJson (error_status (err_message e)) (error_jsv (err_message e))))
             \<lparr>xc_runner = w, xc_open = True\<rparr> of
        (Inl e, x) \<Rightarrow> (Inl e, xc_runner x)
      | (Inr rep, x) \<Rightarrow> (Inr (if xc_open x then Some rep else None), xc_runner x))"

section \<open>What is accepted\<close>

lemma read_chunks_all:
  "got \<le> MAX_BODY_BYTES \<Longrightarrow>
    read_chunks got chunks arriving =
      (if got + length (concat arriving) \<le> MAX_BODY_BYTES then Inr (chunks @ arriving)
       else Inl (plain_error ''request body is too large''))"
  by (induction arriving arbitrary: got chunks) auto

lemma readJson_eq:
  "readJson nm arriving x =
     (if MAX_BODY_BYTES < length (concat arriving) then (Inl (plain_error ''request body is too large''), x\<lparr>xc_open := False\<rparr>)
      else (case JSON_parse nm (concat arriving) of
          Inl _ \<Rightarrow> (Inl (plain_error ''request body must be valid JSON''), x)
        | Inr v \<Rightarrow> (Inr v, x)))"
  by (simp add: readJson_def read_chunks_all)

text \<open>A request for a run, one whose body is over the limit, and the task of an accepted one.\<close>

definition asks_run :: "api_platform \<Rightarrow> api_request \<Rightarrow> bool" where
  "asks_run pf q \<longleftrightarrow> aq_method q = Some ''POST'' \<and>
     pf_pathname pf (case aq_url q of None \<Rightarrow> ''/'' | Some u \<Rightarrow> u) = Inr ''/run''"

definition oversized :: "api_platform \<Rightarrow> api_request \<Rightarrow> bool" where
  "oversized pf q \<longleftrightarrow> asks_run pf q \<and> MAX_BODY_BYTES < length (concat (aq_chunks q))"

definition run_request :: "api_platform \<Rightarrow> api_request \<Rightarrow> string option" where
  "run_request pf q =
     (if asks_run pf q \<and> \<not> oversized pf q
      then (case JSON_parse (pf_numeral pf) (concat (aq_chunks q)) of
              Inl _ \<Rightarrow> None
            | Inr body \<Rightarrow> (case parseRunRequest body of Inl _ \<Rightarrow> None | Inr task \<Rightarrow> Some task))
      else None)"

lemma sendJson_plain [simp]:
  "sendJson status (error_jsv msg) = Inr \<lparr>ap_status = status, ap_type = ''application/json; charset=utf-8'',
     ap_body = ''{'' @ json_string ''error'' @ '':'' @ json_string msg @ ''}''\<rparr>"
  by (simp add: sendJson_def error_jsv_def json_stringify_def)

text \<open>The answer to a request that failed.\<close>

definition error_reply :: "string \<Rightarrow> api_reply" where
  "error_reply msg = \<lparr>ap_status = error_status msg, ap_type = ''application/json; charset=utf-8'',
     ap_body = ''{'' @ json_string ''error'' @ '':'' @ json_string msg @ ''}''\<rparr>"

lemma handled_elsewhere:
  assumes "run_request pf q = None" "\<not> oversized pf q"
  shows "\<exists>rep. createApiServer pf r q w = (Inr (Some rep), w) \<and> ap_status rep \<in> {200, 400, 404, 405, 500} \<and>
      (ap_status rep = 200 \<longleftrightarrow> pf_pathname pf (case aq_url q of None \<Rightarrow> ''/'' | Some u \<Rightarrow> u) = Inr ''/health'' \<and>
         aq_method q \<in> {None, Some ''GET''})"
proof -
  let ?path = "pf_pathname pf (case aq_url q of None \<Rightarrow> ''/'' | Some u \<Rightarrow> u)"
  note defs = createApiServer_def catchP_def handleRequest_def bindP_def liftE_def error_status_def Let_def
  consider e where "?path = Inl e" | "?path = Inr ''/health''" | "?path = Inr ''/run''"
    | p where "?path = Inr p" "p \<noteq> ''/health''" "p \<noteq> ''/run''"
    by (cases ?path) auto
  then show ?thesis
  proof cases
    case 2
    have "\<exists>rep. sendJson 200 (healthResponse (pf_mode pf)) = Inr rep \<and> ap_status rep = 200"
      by (simp add: sendJson_def json_stringify_def healthResponse_def)
    then show ?thesis using 2 by (cases "aq_method q") (auto simp: defs)
  next
    case 3
    then show ?thesis
      using assms by (cases "aq_method q")
        (auto simp: defs run_request_def oversized_def asks_run_def readJson_eq runTask_def split: sum.splits if_splits)
  qed (auto simp: defs)
qed

lemma dropped:
  "oversized pf q \<Longrightarrow> createApiServer pf r q w = (Inr None, w)"
  by (auto simp: oversized_def asks_run_def createApiServer_def catchP_def handleRequest_def bindP_def liftE_def readJson_eq Let_def)

lemma run_served:
  assumes "run_request pf q = Some task"
  shows "createApiServer pf r q w =
    (case runner_run r task no_options w of
       (Inr outcome, v) \<Rightarrow>
         (case sendJson 200 (publicOutcome outcome) of
            Inr reply \<Rightarrow> (Inr (Some reply), v)
          | Inl e \<Rightarrow> (Inr (Some (error_reply (err_message e))), v))
     | (Inl e, v) \<Rightarrow> (Inr (Some (error_reply (err_message e))), v))"
proof -
  note defs = createApiServer_def catchP_def handleRequest_def bindP_def liftE_def Let_def
  show ?thesis using assms
    by (auto simp: defs error_reply_def run_request_def oversized_def asks_run_def readJson_eq runTask_def on_runner_def
        split: sum.splits if_splits prod.splits)
qed

section \<open>Properties\<close>


end
