(* ===== verification/Worker.thy ===== *)
theory Worker
  imports Http Encoding "HOL-Library.Multiset"
begin

text \<open>
  The edge worker of \<open>apps/worker/src\<close>: the request handler and the table of runs behind it.  The
  table is the list of its rows in the order of their insertion; its columns hold texts, and JSON is
  written to and read from them.  How D1 orders rows of the same \<open>created_at\<close> is open: the sorting is
  a parameter.  The URL and the body of a request come parsed into pathname, query and text.  Failures
  of D1 other than a taken primary key are not modelled.
\<close>

section \<open>Numbers and escapes in a request\<close>

text \<open>\<open>Number(text)\<close> with the exact value of a decimal literal; the other literals (\<open>0x\<close>, \<open>Infinity\<close>) are
  the parameter.\<close>

datatype js_number = NaN | Infinite bool | Finite rat

fun decimal_digits :: "string \<Rightarrow> rat" where
  "decimal_digits s = of_nat (digits_value s)"

text \<open>The exponent part, if it is one.\<close>

definition exponent_of :: "string \<Rightarrow> int option" where
  "exponent_of s =
     (case s of
        [] \<Rightarrow> Some 0
      | c # cs \<Rightarrow>
          if c = CHR ''e'' \<or> c = CHR ''E'' then
            (case split_sign {CHR ''+'', CHR ''-''} cs of (sg, ds) \<Rightarrow>
               if ds = [] \<or> \<not> list_all is_digit ds then None
               else Some (if sg = ''-'' then - int (digits_value ds) else int (digits_value ds)))
          else None)"

definition ten_to :: "int \<Rightarrow> rat" where
  "ten_to e = (if 0 \<le> e then 10 ^ nat e else 1 / 10 ^ nat (- e))"

definition decimal_literal :: "string \<Rightarrow> rat option" where
  "decimal_literal s =
     (let whole = takeWhile is_digit s; s1 = dropWhile is_digit s;
          (frac, s2) = (case s1 of c # cs \<Rightarrow> if c = CHR ''.'' then (takeWhile is_digit cs, dropWhile is_digit cs) else ([], s1)
                          | [] \<Rightarrow> ([], []))
      in if whole = [] \<and> frac = [] then None
         else map_option (\<lambda>e. (decimal_digits whole + decimal_digits frac / 10 ^ length frac) * ten_to e) (exponent_of s2))"

definition js_Number :: "(string \<Rightarrow> js_number) \<Rightarrow> string \<Rightarrow> js_number" where
  "js_Number other s =
     (let t = js_trim s in
      if t = [] then Finite 0
      else (case split_sign {CHR ''+'', CHR ''-''} t of (sg, u) \<Rightarrow>
              case decimal_literal u of
                None \<Rightarrow> other t
              | Some x \<Rightarrow> Finite (if sg = ''-'' then - x else x)))"

text \<open>\<open>decodeURIComponent\<close>: every escape is part of the UTF-8 form of a code point.\<close>

definition URIError :: js_error where
  "URIError = JsError ''URIError'' ''URI malformed''"

fun escaped_byte :: "string \<Rightarrow> (nat \<times> string) option" where
  "escaped_byte (p # a # b # r) =
     (if p = CHR ''%'' then
        (case (hex_value a, hex_value b) of (Some x, Some y) \<Rightarrow> Some (16 * x + y, r) | _ \<Rightarrow> None)
      else None)"
| "escaped_byte _ = None"

fun continuation :: "nat \<Rightarrow> nat \<Rightarrow> string \<Rightarrow> (nat \<times> string \<times> string) option" where
  "continuation 0 n s = Some (n, [], s)"
| "continuation (Suc k) n s =
     (case escaped_byte s of
        None \<Rightarrow> None
      | Some (b, r) \<Rightarrow>
          if b div 64 = 2 then
            map_option (\<lambda>(m, t, q). (m, char_of b # t, q)) (continuation k (64 * n + b mod 64) r)
          else None)"

text \<open>The bytes of the code point whose escaped form starts here.\<close>

definition escaped_point :: "string \<Rightarrow> (string \<times> string) option" where
  "escaped_point s =
     (case escaped_byte s of
        None \<Rightarrow> None
      | Some (b, r) \<Rightarrow>
          if b < 128 then Some ([char_of b], r)
          else
            (case (if b div 32 = 6 then continuation 1 (b mod 32) r
                   else if b div 16 = 14 then continuation 2 (b mod 16) r
                   else if b div 8 = 30 then continuation 3 (b mod 8) r else None) of
               None \<Rightarrow> None
             | Some (n, t, q) \<Rightarrow>
                 if (if b div 32 = 6 then 128 \<le> n else if b div 16 = 14 then 2048 \<le> n \<and> \<not> (55296 \<le> n \<and> n < 57344)
                     else 65536 \<le> n \<and> n < 1114112)
                 then Some (char_of b # t, q) else None))"

lemma escaped_byte_shrinks: "escaped_byte s = Some (b, r) \<Longrightarrow> length r < length s"
  by (induction s rule: escaped_byte.induct) (auto split: if_splits option.splits)

lemma continuation_shrinks: "continuation k n s = Some (m, t, q) \<Longrightarrow> length q \<le> length s"
proof (induction k arbitrary: n s m t)
  case (Suc k)
  then show ?case by (auto split: option.splits if_splits dest!: escaped_byte_shrinks) (metis le_trans less_imp_le)
qed simp

lemma escaped_point_shrinks: "escaped_point s = Some (t, q) \<Longrightarrow> length q < length s"
  by (auto simp: escaped_point_def split: option.splits if_splits dest!: escaped_byte_shrinks continuation_shrinks)

function decodeURIComponent :: "string \<Rightarrow> js_error + string" where
  "decodeURIComponent [] = Inr []"
| "decodeURIComponent (c # cs) =
     (if c = CHR ''%'' then
        (case escaped_point (c # cs) of
           None \<Rightarrow> Inl URIError
         | Some (t, q) \<Rightarrow> bindE (decodeURIComponent q) (\<lambda>u. Inr (t @ u)))
      else bindE (decodeURIComponent cs) (\<lambda>u. Inr (c # u)))"
  by pat_completeness auto
termination
  by (relation "measure length") (auto dest: escaped_point_shrinks)

lemma hex_value_upper: "n < 16 \<Longrightarrow> hex_value (upper_hex n) = Some n"
  by (auto simp: hex_value_def upper_hex_def Let_def of_char_of)

lemma escaped_point_encoded:
  "(of_char c :: nat) < 128 \<Longrightarrow>
    escaped_point (CHR ''%'' # upper_hex (of_char c div 16) # upper_hex (of_char c mod 16) # r) = Some ([c], r)"
  by (simp add: escaped_point_def hex_value_upper)

lemma decode_encode: "list_all (\<lambda>c. (of_char c :: nat) < 128) s \<Longrightarrow> decodeURIComponent (encodeURIComponent s) = Inr s"
proof (induction s)
  case Nil
  then show ?case by (simp add: encodeURIComponent_def)
next
  case (Cons c s)
  have enc: "encodeURIComponent (c # s) = (if uri_kept c then [c]
      else [CHR ''%'', upper_hex (of_char c div 16), upper_hex (of_char c mod 16)]) @ encodeURIComponent s"
    by (simp add: encodeURIComponent_def)
  have "uri_kept c \<Longrightarrow> c \<noteq> CHR ''%''" by (auto simp: uri_kept_def Let_def)
  then show ?case using Cons unfolding enc by (simp add: escaped_point_encoded)
qed

section \<open>The table of runs\<close>

record run_row =
  rw_run_id :: string
  rw_task_id :: string
  rw_task :: string
  rw_mode :: string
  rw_verdict :: string
  rw_results_json :: string
  rw_verification_json :: string
  rw_usage_json :: string
  rw_evidence_json :: string
  rw_created_at :: string
  rw_completed_at :: string

record run_record =
  rr_run_id :: string
  rr_task_id :: string
  rr_task :: string
  rr_mode :: string
  rr_verdict :: string
  rr_results :: jsv
  rr_verification :: jsv
  rr_usage :: jsv
  rr_evidence :: jsv
  rr_created_at :: string
  rr_completed_at :: string

definition MAX_PAGE_SIZE :: int where
  "MAX_PAGE_SIZE = 100"

definition integer_of :: "js_number \<Rightarrow> int option" where
  "integer_of n = (case n of Finite x \<Rightarrow> if of_int \<lfloor>x\<rfloor> = x then Some \<lfloor>x\<rfloor> else None | _ \<Rightarrow> None)"

definition pageSize :: "(string \<Rightarrow> js_number) \<Rightarrow> string option \<Rightarrow> int" where
  "pageSize other value =
     (case integer_of (case value of None \<Rightarrow> Finite 25 | Some s \<Rightarrow> js_Number other s) of
        None \<Rightarrow> 25
      | Some parsed \<Rightarrow> if parsed < 1 then 25 else min parsed MAX_PAGE_SIZE)"

text \<open>\<open>JSON.stringify\<close> of a value bound to a column; \<open>undefined\<close> is no column value.\<close>

definition bound_text :: "jsv \<Rightarrow> js_error + string" where
  "bound_text v =
     bindE (json_stringify v) (\<lambda>t. case t of
        None \<Rightarrow> Inl (plain_error ''D1_TYPE_ERROR: Type 'undefined' not supported'')
      | Some s \<Rightarrow> Inr s)"

definition row_of :: "proof_carrying_outcome \<Rightarrow> string \<Rightarrow> js_error + run_row" where
  "row_of o1 now =
     bindE (bound_text (JArr (map result_jsv (pco_results o1)))) (\<lambda>results.
     bindE (bound_text (verification_jsv (pco_verification o1))) (\<lambda>verification.
     bindE (bound_text (usage_jsv (pco_usage o1))) (\<lambda>usage.
     bindE (bound_text (JArr (map evidence_jsv (ver_evidence (pco_verification o1))))) (\<lambda>evidence.
       Inr \<lparr>rw_run_id = pco_runId o1, rw_task_id = pco_taskId o1, rw_task = pco_intent o1, rw_mode = pco_mode o1,
         rw_verdict = verdict_text (pco_verdict o1), rw_results_json = results, rw_verification_json = verification,
         rw_usage_json = usage, rw_evidence_json = evidence, rw_created_at = now, rw_completed_at = now\<rparr>))))"

definition saveRun :: "proof_carrying_outcome \<Rightarrow> string \<Rightarrow> run_row list \<Rightarrow> js_error + run_row list" where
  "saveRun o1 now db =
     bindE (row_of o1 now) (\<lambda>row.
       if rw_run_id row \<in> set (map rw_run_id db) then
         Inl (plain_error ''D1_ERROR: UNIQUE constraint failed: runs.run_id: SQLITE_CONSTRAINT'')
       else Inr (db @ [row]))"

definition deserialize :: "(string \<Rightarrow> jsv) \<Rightarrow> run_row \<Rightarrow> js_error + run_record" where
  "deserialize nm row =
     bindE (JSON_parse nm (rw_results_json row)) (\<lambda>results.
     bindE (JSON_parse nm (rw_verification_json row)) (\<lambda>verification.
     bindE (JSON_parse nm (rw_usage_json row)) (\<lambda>usage.
     bindE (JSON_parse nm (rw_evidence_json row)) (\<lambda>evidence.
       Inr \<lparr>rr_run_id = rw_run_id row, rr_task_id = rw_task_id row, rr_task = rw_task row, rr_mode = rw_mode row,
         rr_verdict = rw_verdict row, rr_results = results, rr_verification = verification, rr_usage = usage,
         rr_evidence = evidence, rr_created_at = rw_created_at row, rr_completed_at = rw_completed_at row\<rparr>))))"

definition getRun :: "(string \<Rightarrow> jsv) \<Rightarrow> run_row list \<Rightarrow> string \<Rightarrow> js_error + run_record option" where
  "getRun nm db runId =
     (case find (\<lambda>row. rw_run_id row = runId) db of
        None \<Rightarrow> Inr None
      | Some row \<Rightarrow> bindE (deserialize nm row) (\<lambda>r. Inr (Some r)))"

fun mapE :: "('a \<Rightarrow> 'e + 'b) \<Rightarrow> 'a list \<Rightarrow> 'e + 'b list" where
  "mapE f [] = Inr []"
| "mapE f (x # xs) = bindE (f x) (\<lambda>y. bindE (mapE f xs) (\<lambda>ys. Inr (y # ys)))"

text \<open>The rows a listing selects; an empty \<open>taskId\<close> selects all.\<close>

definition select_rows :: "(run_row list \<Rightarrow> run_row list) \<Rightarrow> run_row list \<Rightarrow> int \<Rightarrow> string option \<Rightarrow> run_row list" where
  "select_rows sorting db most taskId =
     take (nat most) (sorting
       (if taskId = None \<or> taskId = Some [] then db else filter (\<lambda>row. Some (rw_task_id row) = taskId) db))"

definition listRunsByTask ::
  "(string \<Rightarrow> jsv) \<Rightarrow> (run_row list \<Rightarrow> run_row list) \<Rightarrow> run_row list \<Rightarrow> int \<Rightarrow> string option \<Rightarrow> js_error + run_record list" where
  "listRunsByTask nm sorting db most taskId = mapE (deserialize nm) (select_rows sorting db most taskId)"

definition listRuns ::
  "(string \<Rightarrow> jsv) \<Rightarrow> (run_row list \<Rightarrow> run_row list) \<Rightarrow> run_row list \<Rightarrow> int \<Rightarrow> js_error + run_record list" where
  "listRuns nm sorting db most = listRunsByTask nm sorting db most None"

definition listTasks :: "(run_row list \<Rightarrow> run_row list) \<Rightarrow> run_row list \<Rightarrow> int \<Rightarrow> jsv list" where
  "listTasks sorting db most =
     map (\<lambda>row. JObj [(''task_id'', JStr (rw_task_id row)), (''task'', JStr (rw_task row)), (''verdict'', JStr (rw_verdict row)),
       (''created_at'', JStr (rw_created_at row)), (''completed_at'', JStr (rw_completed_at row))])
       (select_rows sorting db most None)"

text \<open>\<open>ORDER BY created_at DESC\<close>, rows of the same time in some order.\<close>

definition newest_first :: "(run_row list \<Rightarrow> run_row list) \<Rightarrow> bool" where
  "newest_first sorting \<longleftrightarrow>
     (\<forall>rows. mset (sorting rows) = mset rows \<and> sorted_wrt (\<lambda>a b. rw_created_at b \<le> rw_created_at a) (sorting rows))"

section \<open>The request handler\<close>

record worker_env =
  we_mode :: "string option"
  we_sha :: "string \<Rightarrow> string"
  we_numeral :: "string \<Rightarrow> jsv"
  we_number :: "string \<Rightarrow> js_number"
  we_sorting :: "run_row list \<Rightarrow> run_row list"

record worker_world =
  ww_db :: "run_row list option"
  ww_host :: host

record worker_request =
  wq_method :: string
  wq_pathname :: string
  wq_search :: "string \<Rightarrow> string option"
  wq_origin :: "string option"
  wq_contentLength :: "string option"
  wq_body :: string

record worker_reply =
  wr_status :: int
  wr_headers :: "(string \<times> string) list"
  wr_body :: "string option"

definition CONSOLE_ORIGIN :: string where
  "CONSOLE_ORIGIN = ''https://celia-console.pages.dev''"

definition allowedOrigin :: "string option \<Rightarrow> string" where
  "allowedOrigin origin =
     (case origin of
        Some s \<Rightarrow> if s \<in> {CONSOLE_ORIGIN, ''http://localhost:5173'', ''http://127.0.0.1:5173''} then s else CONSOLE_ORIGIN
      | None \<Rightarrow> CONSOLE_ORIGIN)"

definition cors_headers :: "string option \<Rightarrow> (string \<times> string) list" where
  "cors_headers origin =
     [(''access-control-allow-headers'', ''content-type''), (''access-control-allow-methods'', ''GET, POST, OPTIONS''),
      (''access-control-allow-origin'', allowedOrigin origin)]"

definition json_reply :: "jsv \<Rightarrow> int \<Rightarrow> (string \<times> string) list \<Rightarrow> js_error + worker_reply" where
  "json_reply v status headers =
     bindE (json_stringify v) (\<lambda>t. Inr \<lparr>wr_status = status,
       wr_headers = map_set ''content-type'' ''application/json; charset=utf-8'' headers, wr_body = t\<rparr>)"

definition run_record_jsv :: "run_record \<Rightarrow> jsv" where
  "run_record_jsv r = JObj [(''run_id'', JStr (rr_run_id r)), (''task_id'', JStr (rr_task_id r)), (''task'', JStr (rr_task r)),
     (''mode'', JStr (rr_mode r)), (''verdict'', JStr (rr_verdict r)), (''results'', rr_results r),
     (''verification'', rr_verification r), (''usage'', rr_usage r), (''evidence'', rr_evidence r),
     (''created_at'', JStr (rr_created_at r)), (''completed_at'', JStr (rr_completed_at r))]"

text \<open>The worker's body reader trusts the declared length.\<close>

definition exceeds :: "js_number \<Rightarrow> rat \<Rightarrow> bool" where
  "exceeds n x = (case n of NaN \<Rightarrow> False | Infinite positive \<Rightarrow> positive | Finite y \<Rightarrow> x < y)"

definition worker_readJson :: "worker_env \<Rightarrow> worker_request \<Rightarrow> js_error + jsv" where
  "worker_readJson e q =
     (if exceeds (case wq_contentLength q of None \<Rightarrow> Finite 0 | Some s \<Rightarrow> js_Number (we_number e) s) (of_nat MAX_BODY_BYTES)
      then Inl (plain_error ''request body is too large'')
      else JSON_parse (we_numeral e) (wq_body q))"

text \<open>The worker's copies of the API's functions.\<close>

definition worker_parseRunRequest :: "jsv \<Rightarrow> js_error + string" where
  "worker_parseRunRequest = parseRunRequest"

definition worker_publicOutcome :: "proof_carrying_outcome \<Rightarrow> jsv" where
  "worker_publicOutcome = publicOutcome"

text \<open>A run of a new smoke runner with a new ledger.\<close>

definition fresh_run :: "worker_env \<Rightarrow> string \<Rightarrow> (worker_world, proof_carrying_outcome) proc" where
  "fresh_run e task =
     bindP (liftE (createLocalSmokeRunner (we_sha e) (modeFromEnv (we_mode e)))) (\<lambda>r w.
       case runner_run r task no_options (new_runner_world [] (ww_host w) ()) of
         (v, rw) \<Rightarrow> (v, w\<lparr>ww_host := iw_host (rn_immune rw)\<rparr>))"

definition worker_save :: "proof_carrying_outcome \<Rightarrow> (worker_world, unit) proc" where
  "worker_save outcome w =
     (case ww_db w of
        None \<Rightarrow> (Inl (plain_error ''no database''), w)
      | Some db \<Rightarrow>
          (case new_date_iso (ww_host w) of (now, h) \<Rightarrow>
             (case saveRun outcome now db of
                Inl err \<Rightarrow> (Inl err, w\<lparr>ww_host := h\<rparr>)
              | Inr db' \<Rightarrow> (Inr (), w\<lparr>ww_db := Some db', ww_host := h\<rparr>))))"

definition post_run :: "worker_env \<Rightarrow> worker_request \<Rightarrow> (worker_world, worker_reply) proc" where
  "post_run e q =
     bindP (liftE (worker_readJson e q)) (\<lambda>body.
     bindP (liftE (worker_parseRunRequest body)) (\<lambda>task.
     bindP (fresh_run e task) (\<lambda>outcome.
     bindP (worker_save outcome) (\<lambda>_.
       liftE (json_reply (worker_publicOutcome outcome) 200 (cors_headers (wq_origin q)))))))"

text \<open>\<open>/^\/runs\/([^/]+)$/\<close>.\<close>

definition run_match :: "string \<Rightarrow> string option" where
  "run_match path =
     (if starts_with path ''/runs/'' \<and> drop 6 path \<noteq> [] \<and> CHR ''/'' \<notin> set (drop 6 path) then Some (drop 6 path) else None)"

definition no_database :: "worker_request \<Rightarrow> js_error + worker_reply" where
  "no_database q = json_reply (error_jsv ''D1 persistence is not configured'') 503 (cors_headers (wq_origin q))"

definition get_run :: "worker_env \<Rightarrow> worker_request \<Rightarrow> string \<Rightarrow> run_row list \<Rightarrow> js_error + worker_reply" where
  "get_run e q part db =
     bindE (decodeURIComponent part) (\<lambda>runId.
     bindE (getRun (we_numeral e) db runId) (\<lambda>found.
       case found of
         Some run \<Rightarrow> json_reply (run_record_jsv run) 200 (cors_headers (wq_origin q))
       | None \<Rightarrow> json_reply (error_jsv ''run not found'') 404 (cors_headers (wq_origin q))))"

definition worker_health :: "worker_env \<Rightarrow> run_row list option \<Rightarrow> jsv" where
  "worker_health e db = JObj [(''status'', JStr ''ok''), (''service'', JStr ''celia-worker''), (''mode'', JStr (modeFromEnv (we_mode e))),
     (''persistence'', JStr (if db = None then ''unavailable'' else ''d1''))]"

definition worker_fetch :: "worker_env \<Rightarrow> worker_request \<Rightarrow> (worker_world, worker_reply) proc" where
  "worker_fetch e q = (\<lambda>w.
     let cors = cors_headers (wq_origin q); path = wq_pathname q; meth = wq_method q;
         reply = (\<lambda>v status. liftE (json_reply v status cors)) in
     if meth = ''OPTIONS'' then (Inr \<lparr>wr_status = 204, wr_headers = cors, wr_body = None\<rparr>, w)
     else if path = ''/health'' then
       (if meth \<noteq> ''GET'' then reply (error_jsv ''method not allowed'') 405 w else reply (worker_health e (ww_db w)) 200 w)
     else if meth = ''GET'' \<and> path = ''/runs'' then
       (case ww_db w of
          None \<Rightarrow> liftE (no_database q) w
        | Some db \<Rightarrow> liftE (bindE (listRunsByTask (we_numeral e) (we_sorting e) db (pageSize (we_number e) (wq_search q ''limit''))
              (wq_search q ''task_id''))
            (\<lambda>runs. json_reply (JObj [(''runs'', JArr (map run_record_jsv runs))]) 200 cors)) w)
     else if meth = ''GET'' \<and> run_match path \<noteq> None then
       (case ww_db w of None \<Rightarrow> liftE (no_database q) w | Some db \<Rightarrow> liftE (get_run e q (the (run_match path)) db) w)
     else if meth = ''GET'' \<and> path = ''/tasks'' then
       (case ww_db w of
          None \<Rightarrow> liftE (no_database q) w
        | Some db \<Rightarrow> reply (JObj [(''tasks'', JArr (listTasks (we_sorting e) db (pageSize (we_number e) (wq_search q ''limit''))))]) 200 w)
     else if path \<noteq> ''/run'' then reply (error_jsv ''not found'') 404 w
     else if meth \<noteq> ''POST'' then reply (error_jsv ''method not allowed'') 405 w
     else if ww_db w = None then reply (error_jsv ''D1 persistence is required for /run'') 503 w
     else catchP (post_run e q) (\<lambda>err. reply (error_jsv (err_message err)) (error_status (err_message err))) w)"

section \<open>What is kept\<close>

lemma no_bigint_simps [simp]:
  "\<not> has_bigint (evidence_jsv e)" "\<not> has_bigint (check_jsv c)" "\<not> has_bigint (verification_jsv v)" "\<not> has_bigint (usage_jsv u)"
  "has_bigint (result_jsv r) = has_bigint (res_output r)"
  by (auto simp: evidence_jsv_def check_jsv_def verification_jsv_def usage_jsv_def result_jsv_def optional_def list_ex_iff
      split: option.split)

lemma keys_distinct_simps [simp]:
  "keys_distinct (evidence_jsv e)" "keys_distinct (check_jsv c)" "keys_distinct (verification_jsv v)" "keys_distinct (usage_jsv u)"
  "keys_distinct (result_jsv r) = keys_distinct (res_output r)"
  by (auto simp: evidence_jsv_def check_jsv_def verification_jsv_def usage_jsv_def resource_string_def result_jsv_def optional_def list_all_iff
      split: option.split)

lemma bound_text_reads_back:
  assumes "bound_text v = Inr t" "keys_distinct v"
  shows "\<exists>u. JSON_parse nm t = Inr u \<and> json_norm v = Some u"
proof -
  have "json_text v = Some t" using assms(1) by (auto simp: bound_text_def json_stringify_def split: option.splits if_splits)
  from json_text_reads_back [OF this assms(2), of nm] show ?thesis by blast
qed

lemma find_new: "k \<notin> set (map f xs) \<Longrightarrow> f y = k \<Longrightarrow> find (\<lambda>x. f x = k) (xs @ [y]) = Some y"
  by (induction xs) auto

lemma row_of_ok: "(\<exists>row. row_of o1 now = Inr row) = (\<not> list_ex (\<lambda>r. has_bigint (res_output r)) (pco_results o1))"
  by (auto simp: row_of_def bound_text_def json_stringify_def list_ex_iff verification_jsv_def usage_jsv_def)

lemma json_reply_outcome:
  "\<not> list_ex (\<lambda>r. has_bigint (res_output r)) (pco_results o1) \<Longrightarrow>
    \<exists>rep. json_reply (worker_publicOutcome o1) 200 hs = Inr rep \<and> wr_status rep = 200 \<and> wr_body rep = json_text (publicOutcome o1)"
  by (auto simp: json_reply_def json_stringify_def worker_publicOutcome_def publicOutcome_def list_ex_iff)

lemma reply_error [simp]:
  "json_reply (error_jsv msg) status hs = Inr \<lparr>wr_status = status,
     wr_headers = map_set ''content-type'' ''application/json; charset=utf-8'' hs, wr_body = json_text (error_jsv msg)\<rparr>"
  by (simp add: json_reply_def error_jsv_def json_stringify_def)

lemma fetch_reads_only:
  assumes "wq_method q \<noteq> ''POST'' \<or> wq_pathname q \<noteq> ''/run'' \<or> ww_db w = None"
  shows "snd (worker_fetch e q w) = w"
  using assms by (auto simp: worker_fetch_def Let_def liftE_def split: option.split)

section \<open>Properties\<close>

text \<open>What is saved is served: after \<open>saveRun\<close> succeeded, \<open>getRun\<close> of the run's identifier gives a record
  with the outcome's fields, whose JSON parts are the normal forms of what was saved, however the other
  rows look and however numerals that are no integers are read.\<close>

theorem saved_run_is_served:
  assumes "saveRun o1 now db = Inr db'" and "\<And>r. r \<in> set (pco_results o1) \<Longrightarrow> keys_distinct (res_output r)"
  shows "\<exists>rec. getRun nm db' (pco_runId o1) = Inr (Some rec) \<and> rr_run_id rec = pco_runId o1 \<and> rr_task rec = pco_intent o1 \<and>
    rr_verdict rec = verdict_text (pco_verdict o1) \<and> rr_created_at rec = now \<and>
    json_norm (JArr (map result_jsv (pco_results o1))) = Some (rr_results rec) \<and>
    json_norm (verification_jsv (pco_verification o1)) = Some (rr_verification rec) \<and>
    json_norm (usage_jsv (pco_usage o1)) = Some (rr_usage rec) \<and>
    json_norm (JArr (map evidence_jsv (ver_evidence (pco_verification o1)))) = Some (rr_evidence rec)"
proof -
  from assms(1) obtain row where row: "row_of o1 now = Inr row" "rw_run_id row \<notin> set (map rw_run_id db)" "db' = db @ [row]"
    by (auto simp: saveRun_def bindE_Inr split: if_splits)
  then obtain a b c d where texts: "bound_text (JArr (map result_jsv (pco_results o1))) = Inr a"
      "bound_text (verification_jsv (pco_verification o1)) = Inr b" "bound_text (usage_jsv (pco_usage o1)) = Inr c"
      "bound_text (JArr (map evidence_jsv (ver_evidence (pco_verification o1)))) = Inr d"
      and fields: "row = \<lparr>rw_run_id = pco_runId o1, rw_task_id = pco_taskId o1, rw_task = pco_intent o1, rw_mode = pco_mode o1,
         rw_verdict = verdict_text (pco_verdict o1), rw_results_json = a, rw_verification_json = b,
         rw_usage_json = c, rw_evidence_json = d, rw_created_at = now, rw_completed_at = now\<rparr>"
    by (auto simp: row_of_def bindE_Inr)
  have "find (\<lambda>r. rw_run_id r = pco_runId o1) db' = Some row" unfolding row(3)
    by (rule find_new) (use row(2) fields in auto)
  moreover have "keys_distinct (JArr (map result_jsv (pco_results o1)))"
      "keys_distinct (JArr (map evidence_jsv (ver_evidence (pco_verification o1))))"
    using assms(2) by (simp_all add: list_all_iff)
  ultimately show ?thesis
    using bound_text_reads_back [OF texts(1), of nm] bound_text_reads_back [OF texts(2), of nm]
      bound_text_reads_back [OF texts(3), of nm] bound_text_reads_back [OF texts(4), of nm] fields
    by (auto simp: getRun_def deserialize_def)
qed

definition demo_outcome :: proof_carrying_outcome where
  "demo_outcome = \<lparr>pco_runId = ''r-1'', pco_taskId = ''t-1'', pco_intent = ''build'', pco_actorId = ''coder'', pco_mode = ''local'',
     pco_verdict = V_PASSED,
     pco_results = [\<lparr>res_status = Success, res_output = JObj [(''n'', JNum 1), (''gone'', JUndefined)], res_evidence = []\<rparr>],
     pco_verification = \<lparr>ver_id = ''v-1'', ver_target = ''build'', ver_checks = [], ver_evidence = [], ver_verdict = V_PASSED\<rparr>,
     pco_usage = (\<lambda>_. 0), pco_ledger = []\<rparr>"

theorem saved_run_is_served_witness:
  "\<exists>db' rec. saveRun demo_outcome ''2026-01-01'' [] = Inr db' \<and> getRun (\<lambda>_. JNonFinite) db' ''r-1'' = Inr (Some rec) \<and>
     rr_results rec = JArr [JObj [(''status'', JStr ''success''), (''output'', JObj [(''n'', JNum 1)]), (''evidence'', JArr [])]]"
proof -
  obtain row where row: "row_of demo_outcome ''2026-01-01'' = Inr row"
    using row_of_ok [of demo_outcome "''2026-01-01''"] by (auto simp: demo_outcome_def)
  then have save: "saveRun demo_outcome ''2026-01-01'' [] = Inr [row]" by (simp add: saveRun_def)
  have "r \<in> set (pco_results demo_outcome) \<Longrightarrow> keys_distinct (res_output r)" for r by (simp add: demo_outcome_def)
  from saved_run_is_served [OF save this, of "\<lambda>_. JNonFinite"] show ?thesis
    using save by (auto simp: demo_outcome_def result_jsv_def status_string_def)
qed

text \<open>C22.  A listing is a page of the newest runs: its size is at most the page size, which lies between 1 and
  100 for every text of the query; it is in descending order of creation; and what is left out is of
  the same selection and not newer, and only left out when the page is full.\<close>

theorem listing_is_newest_page:
  assumes "newest_first sorting"
  shows "\<exists>rest. mset (select_rows sorting db (pageSize other v) taskId) + mset rest =
      mset (if taskId = None \<or> taskId = Some [] then db else filter (\<lambda>row. Some (rw_task_id row) = taskId) db) \<and>
    sorted_wrt (\<lambda>a b. rw_created_at b \<le> rw_created_at a) (select_rows sorting db (pageSize other v) taskId) \<and>
    (\<forall>a \<in> set (select_rows sorting db (pageSize other v) taskId). \<forall>b \<in> set rest. rw_created_at b \<le> rw_created_at a) \<and>
    (rest = [] \<or> int (length (select_rows sorting db (pageSize other v) taskId)) = pageSize other v) \<and>
    1 \<le> pageSize other v \<and> pageSize other v \<le> 100"
proof -
  let ?all = "if taskId = None \<or> taskId = Some [] then db else filter (\<lambda>row. Some (rw_task_id row) = taskId) db"
  let ?n = "nat (pageSize other v)"
  have page: "1 \<le> pageSize other v \<and> pageSize other v \<le> 100"
    by (auto simp: pageSize_def MAX_PAGE_SIZE_def split: option.split)
  let ?s = "sorting ?all"
  have s: "mset ?s = mset ?all" "sorted_wrt (\<lambda>a b. rw_created_at b \<le> rw_created_at a) ?s"
    using assms by (auto simp: newest_first_def)
  have split: "take ?n ?s @ drop ?n ?s = ?s" by simp
  have "mset (take ?n ?s) + mset (drop ?n ?s) = mset ?all" using s(1) by (metis mset_append split)
  moreover have "sorted_wrt (\<lambda>a b. rw_created_at b \<le> rw_created_at a) (take ?n ?s @ drop ?n ?s)"
    unfolding split by (rule s(2))
  then have "sorted_wrt (\<lambda>a b. rw_created_at b \<le> rw_created_at a) (take ?n ?s)"
    "\<forall>a \<in> set (take ?n ?s). \<forall>b \<in> set (drop ?n ?s). rw_created_at b \<le> rw_created_at a"
    unfolding sorted_wrt_append by blast+
  moreover have "drop ?n ?s = [] \<or> int (length (take ?n ?s)) = pageSize other v" using page by auto
  ultimately show ?thesis using page unfolding select_rows_def by blast
qed

definition demo_sorting :: "run_row list \<Rightarrow> run_row list" where
  "demo_sorting rows = rev (sort_key rw_created_at rows)"

lemma demo_sorting_newest: "newest_first demo_sorting"
proof -
  have "sorted_wrt (\<lambda>a b. rw_created_at b \<le> rw_created_at a) (rev (sort_key rw_created_at rows))"
    for rows :: "run_row list"
    using sorted_sort_key [of rw_created_at rows] by (simp add: sorted_wrt_rev sorted_wrt_map)
  then show ?thesis by (simp add: newest_first_def demo_sorting_def)
qed

definition demo_rows :: "run_row list" where
  "demo_rows = (case (row_of demo_outcome ''2026-01-01'', row_of demo_outcome ''2026-01-02'') of (Inr a, Inr b) \<Rightarrow> [a, b] | _ \<Rightarrow> [])"

theorem listing_is_newest_page_witness:
  "\<exists>rest. mset (select_rows demo_sorting demo_rows (pageSize (\<lambda>_. NaN) (Some ''1'')) None) + mset rest = mset demo_rows \<and>
     (\<forall>a \<in> set (select_rows demo_sorting demo_rows (pageSize (\<lambda>_. NaN) (Some ''1'')) None). \<forall>b \<in> set rest.
        rw_created_at b \<le> rw_created_at a)"
  using listing_is_newest_page [OF demo_sorting_newest, of demo_rows "\<lambda>_. NaN" "Some ''1''" None] by auto

text \<open>What a run of the request's task leads to: an error that leaves the table alone, or the saved row.\<close>

lemma post_run_cases:
  assumes "ww_db w = Some db"
  obtains (failed) err w' where "post_run e q w = (Inl err, w')" "ww_db w' = Some db"
  | (saved) rep w' body task outcome w1 now row where "post_run e q w = (Inr rep, w')" "wr_status rep = 200"
      "worker_readJson e q = Inr body" "parseRunRequest body = Inr task" "fresh_run e task w = (Inr outcome, w1)"
      "row_of outcome now = Inr row" "ww_db w' = Some (db @ [row])" "rw_run_id row \<notin> set (map rw_run_id db)"
      "wr_body rep = json_text (publicOutcome outcome)"
proof (cases "bindE (worker_readJson e q) parseRunRequest")
  case (Inl err)
  then have "post_run e q w = (Inl err, w)"
    by (cases "worker_readJson e q") (auto simp: post_run_def bindP_def liftE_def worker_parseRunRequest_def)
  then show thesis using failed assms by blast
next
  case (Inr task)
  then obtain body where read: "worker_readJson e q = Inr body" "parseRunRequest body = Inr task" by (auto simp: bindE_Inr)
  obtain v w1 where run: "fresh_run e task w = (v, w1)" by (cases "fresh_run e task w")
  then have db: "ww_db w1 = Some db" using assms by (auto simp: fresh_run_def bindP_def liftE_def split: sum.splits prod.splits)
  obtain now h where now: "new_date_iso (ww_host w1) = (now, h)" by (cases "new_date_iso (ww_host w1)")
  note post = post_run_def bindP_def liftE_def worker_parseRunRequest_def worker_save_def read run db now
  show thesis
  proof (cases v)
    case (Inl err)
    then have "post_run e q w = (Inl err, w1)" by (simp add: post)
    then show thesis using failed db by blast
  next
    case outcome: (Inr outcome)
    show thesis
    proof (cases "saveRun outcome now db")
      case (Inl err)
      then have "post_run e q w = (Inl err, w1\<lparr>ww_host := h\<rparr>)" using outcome by (simp add: post)
      then show thesis using failed db by simp
    next
      case kept: (Inr db')
      then obtain row where row: "row_of outcome now = Inr row" "rw_run_id row \<notin> set (map rw_run_id db)" "db' = db @ [row]"
        by (auto simp: saveRun_def bindE_Inr split: if_splits)
      then have "\<not> list_ex (\<lambda>r. has_bigint (res_output r)) (pco_results outcome)" using row_of_ok [of outcome now] by blast
      from json_reply_outcome [OF this, of "cors_headers (wq_origin q)"]
      obtain rep where rep: "json_reply (worker_publicOutcome outcome) 200 (cors_headers (wq_origin q)) = Inr rep"
          "wr_status rep = 200" "wr_body rep = json_text (publicOutcome outcome)" by blast
      have "post_run e q w = (Inr rep, w1\<lparr>ww_db := Some db', ww_host := h\<rparr>)" using outcome kept rep(1) by (simp add: post)
      then show thesis using saved rep(2,3) read run outcome row by simp
    qed
  qed
qed

text \<open>C14.  A run is answered with 200 exactly when it was saved: for every \<open>POST\<close> to \<open>/run\<close> with a database the
  worker answers, and either the status is 200, one row has been added, it is the row of the outcome of
  a fresh run of the request's task, and the body is that outcome; or the status is 400 or 500 and the
  table is as it was.\<close>

theorem worker_saves_what_it_answers:
  "\<exists>rep w'. worker_fetch e (q\<lparr>wq_method := ''POST'', wq_pathname := ''/run''\<rparr>) (w\<lparr>ww_db := Some db\<rparr>) = (Inr rep, w') \<and>
     ((wr_status rep = 200 \<and>
        (\<exists>body task outcome w1 now row. worker_readJson e q = Inr body \<and> parseRunRequest body = Inr task \<and>
           fresh_run e task (w\<lparr>ww_db := Some db\<rparr>) = (Inr outcome, w1) \<and> row_of outcome now = Inr row \<and>
           ww_db w' = Some (db @ [row]) \<and> rw_run_id row \<notin> set (map rw_run_id db) \<and>
           wr_body rep = json_text (publicOutcome outcome))) \<or>
      (wr_status rep \<in> {400, 500} \<and> ww_db w' = Some db))"
proof -
  let ?q = "q\<lparr>wq_method := ''POST'', wq_pathname := ''/run''\<rparr>" and ?w = "w\<lparr>ww_db := Some db\<rparr>"
  have fetch: "worker_fetch e ?q ?w = catchP (post_run e ?q) (\<lambda>err. liftE (json_reply (error_jsv (err_message err))
      (error_status (err_message err)) (cors_headers (wq_origin q)))) ?w"
    by (simp add: worker_fetch_def run_match_def Let_def)
  have reads: "worker_readJson e ?q = worker_readJson e q" by (simp add: worker_readJson_def)
  have "ww_db ?w = Some db" by simp
  then show ?thesis
  proof (cases rule: post_run_cases [of ?w db e ?q])
    case (failed err w')
    then show ?thesis by (simp add: fetch catchP_def liftE_def error_status_def)
  next
    case (saved rep w' body task outcome w1 now row)
    then have "worker_fetch e ?q ?w = (Inr rep, w')" by (simp add: fetch catchP_def)
    then show ?thesis using saved unfolding reads by blast
  qed
qed

end
