(* ===== verification/GithubE2E.thy ===== *)
theory GithubE2E
  imports Github Http
begin

text \<open>
  The end-to-end run against GitHub, \<open>apps/cli/src/github-e2e.ts\<close>: the local runner with the seven
  actions of the GitHub plugin, seven steps whose inputs depend on earlier results, and seven checks on
  what they returned.  \<open>fetch\<close>, the tests of the repository, the zod schemas, the paths and the writing
  of the evidence file are parameters.  The main result says which results pass the verification.
\<close>

section \<open>Configuration\<close>

record e2e_config =
  ge_token :: string
  ge_owner :: string
  ge_repo :: string
  ge_branch :: string
  ge_readPath :: string
  ge_writePath :: string
  ge_fileContent :: string
  ge_commitMessage :: string
  ge_prTitle :: string
  ge_prBody :: "string option"
  ge_base :: "string option"

text \<open>What the run takes of its surroundings: the hash function, the variable \<open>CELIA_MODE\<close>, the schemas, the
  network, the numerals that are no integers, \<open>cfg.runTests\<close> and, when \<open>cfg.evidenceDir\<close> is set, the writing of
  a named file of indented JSON, which gives its path.\<close>

record 'x e2e_platform =
  gp_sha :: "string \<Rightarrow> string"
  gp_mode :: "string option"
  gp_tools :: tool_schemas
  gp_fetch :: "string \<Rightarrow> http_init \<Rightarrow> ('x, http_response) proc"
  gp_number :: "string \<Rightarrow> jsv"
  gp_tests :: "('x, bool) proc option"
  gp_export :: "(string \<Rightarrow> jsv \<Rightarrow> ('x, string) proc) option"

record e2e_check =
  ec_name :: string
  ec_verdict :: verdict
  ec_detail :: "string option"

record e2e_outcome =
  eo_verdict :: verdict
  eo_prNumber :: jsv
  eo_prUrl :: jsv
  eo_commitSha :: jsv
  eo_checks :: "e2e_check list"
  eo_evidencePath :: "string option"
  eo_ledgerEventTypes :: "string list"
  eo_executedActions :: "string list"
  eo_chainValid :: bool
  eo_merkleRoot :: string
  eo_usage :: usage

datatype e2e_failure = GithubE2EError string e2e_outcome js_error | Thrown js_error

definition GITHUB_APPROVAL_POLICY :: approval_policy where
  "GITHUB_APPROVAL_POLICY =
     [(''github.repo.read'', Auto), (''github.repo.branch.create'', Auto), (''github.repo.file.read'', Auto),
      (''github.repo.file.write'', Auto), (''github.git.commit'', Auto), (''github.pull_request.create'', Approval),
      (''github.pull_request.read'', Auto)]"

definition base_of :: "e2e_config \<Rightarrow> string" where
  "base_of cfg = (case ge_base cfg of None \<Rightarrow> ''main'' | Some b \<Rightarrow> b)"

section \<open>The runner of the run\<close>

definition e2e_grant :: "string \<Rightarrow> grant" where
  "e2e_grant a = \<lparr>grant_id = ''g-'' @ a, grant_principal = ''coder'', grant_capability = a, grant_scope = ''*'', grant_effect = Allow\<rparr>"

definition e2e_transport :: "'x e2e_platform \<Rightarrow> e2e_config \<Rightarrow> 'x runner_world github_transport" where
  "e2e_transport pf cfg =
     http_request \<lparr>ht_baseUrl = ''https://api.github.com'', ht_token = ge_token cfg,
       ht_fetch = (\<lambda>url init. on_outside (gp_fetch pf url init)), ht_numeral = gp_number pf\<rparr>"

definition e2e_runner :: "'x e2e_platform \<Rightarrow> e2e_config \<Rightarrow> js_error + 'x local_runner" where
  "e2e_runner pf cfg =
     bindE (foldE (\<lambda>a. runner_grant (e2e_grant a)) GITHUB_ACTIONS
       (new_local_runner (gp_sha pf) (gp_mode pf) None None None (Some GITHUB_APPROVAL_POLICY) (Some (\<lambda>_ _. returnP True))
          None None None)) (\<lambda>r.
     bindE (new_github_plugin (gp_tools pf) (e2e_transport pf cfg)) (\<lambda>plugin.
     bindE (plugin_register plugin (rc_executors r)) (\<lambda>reg. Inr (r\<lparr>rc_executors := reg\<rparr>))))"

section \<open>The steps\<close>

text \<open>\<open>results[n]!.output\<close>.\<close>

definition output_of :: "nat \<Rightarrow> exec_result list \<Rightarrow> js_error + jsv" where
  "output_of n results =
     (if n < length results then Inr (res_output (results ! n)) else Inl (unreadable ''undefined'' ''output''))"

definition in_repo :: "e2e_config \<Rightarrow> (string \<times> jsv) list \<Rightarrow> jsv" where
  "in_repo cfg props = JObj ([(''owner'', JStr (ge_owner cfg)), (''repo'', JStr (ge_repo cfg))] @ props)"

definition e2e_steps :: "e2e_config \<Rightarrow> run_step list" where
  "e2e_steps cfg =
     [\<lparr>rs_action = ''github.repo.read'', rs_input = Input_value (in_repo cfg [])\<rparr>,
      \<lparr>rs_action = ''github.repo.branch.create'', rs_input = Input_from (\<lambda>results.
         bindE (output_of 0 results) (\<lambda>r. bindE (js_get ''defaultBranchSha'' r) (\<lambda>sha.
           Inr (in_repo cfg [(''branch'', JStr (ge_branch cfg)), (''from'', sha)]))))\<rparr>,
      \<lparr>rs_action = ''github.repo.file.read'', rs_input = Input_value (in_repo cfg
         [(''path'', JStr (ge_readPath cfg)), (''ref'', JStr (ge_branch cfg))])\<rparr>,
      \<lparr>rs_action = ''github.repo.file.write'', rs_input = Input_value (in_repo cfg
         [(''path'', JStr (ge_writePath cfg)), (''branch'', JStr (ge_branch cfg)), (''content'', JStr (ge_fileContent cfg)),
          (''message'', JStr (ge_commitMessage cfg))])\<rparr>,
      \<lparr>rs_action = ''github.git.commit'', rs_input = Input_value (in_repo cfg
         [(''branch'', JStr (ge_branch cfg)), (''message'', JStr (ge_commitMessage cfg @ '' (empty commit)''))])\<rparr>,
      \<lparr>rs_action = ''github.pull_request.create'', rs_input = Input_value (in_repo cfg
         [(''title'', JStr (ge_prTitle cfg)), (''head'', JStr (ge_branch cfg)), (''base'', JStr (base_of cfg)),
          (''body'', JStr (case ge_prBody cfg of None \<Rightarrow> [] | Some b \<Rightarrow> b))])\<rparr>,
      \<lparr>rs_action = ''github.pull_request.read'', rs_input = Input_from (\<lambda>results.
         bindE (output_of 5 results) (\<lambda>pr. bindE (js_get ''number'' pr) (\<lambda>number.
           Inr (in_repo cfg [(''number'', number)]))))\<rparr>]"

section \<open>The checks\<close>

text \<open>\<open>results[n]?.output\<close>.\<close>

definition maybe_output :: "nat \<Rightarrow> exec_result list \<Rightarrow> jsv" where
  "maybe_output n results = (if n < length results then res_output (results ! n) else JUndefined)"

text \<open>\<open>===\<close> of values from different places: objects are never identical; a non-finite number is taken as NaN.\<close>

definition strict_eq :: "jsv \<Rightarrow> jsv \<Rightarrow> bool" where
  "strict_eq a b \<longleftrightarrow>
     (case a of JArr _ \<Rightarrow> False | JObj _ \<Rightarrow> False | JOther _ \<Rightarrow> False | JNonFinite \<Rightarrow> False | _ \<Rightarrow> a = b)"

fun some_file :: "string \<Rightarrow> jsv list \<Rightarrow> js_error + bool" where
  "some_file path [] = Inr False"
| "some_file path (f # fs) = bindE (js_get ''filename'' f) (\<lambda>n. if n = JStr path then Inr True else some_file path fs)"

fun file_names :: "jsv list \<Rightarrow> js_error + string list" where
  "file_names [] = Inr []"
| "file_names (f # fs) =
     bindE (js_get ''filename'' f) (\<lambda>n. bindE (file_names fs) (\<lambda>ns.
       Inr ((if js_nullish n then [] else template_text n) # ns)))"

text \<open>\<open>pr?.files?.some(\<dots>)\<close> and \<open>pr?.files?.map(\<dots>).join(', ')\<close>.\<close>

definition listed_file :: "string \<Rightarrow> jsv \<Rightarrow> js_error + bool" where
  "listed_file path files =
     (if js_nullish files then Inr False
      else case files of JArr fs \<Rightarrow> some_file path fs
        | _ \<Rightarrow> Inl (JsError ''TypeError'' ''pr?.files?.some is not a function''))"

definition listed_names :: "jsv \<Rightarrow> js_error + string option" where
  "listed_names files =
     (if js_nullish files then Inr None
      else case files of JArr fs \<Rightarrow> bindE (file_names fs) (\<lambda>ns. Inr (Some (join_with '', '' ns)))
        | _ \<Rightarrow> Inl (JsError ''TypeError'' ''pr?.files?.map is not a function''))"

definition passed_if :: "bool \<Rightarrow> verdict" where
  "passed_if b = (if b then V_PASSED else V_FAILED)"

definition plain_check :: "string \<Rightarrow> string \<Rightarrow> bool \<Rightarrow> evidence_ref list option \<Rightarrow> string option \<Rightarrow> verification_check" where
  "plain_check i name ok evidence detail =
     \<lparr>vc_id = i, vc_name = name, vc_verdict = passed_if ok, vc_evidence = evidence, vc_detail = detail\<rparr>"

definition e2e_checks :: "e2e_config \<Rightarrow> exec_result list \<Rightarrow> bool \<Rightarrow> bool \<Rightarrow> js_error + verification_check list" where
  "e2e_checks cfg results tests_ok intact =
     (let repoInfo = maybe_output 0 results; commit = maybe_output 4 results; pr = maybe_output 6 results;
          fullName = js_maybe ''fullName'' repoInfo; headRef = js_maybe ''headRef'' pr; baseRef = js_maybe ''baseRef'' pr;
          headSha = js_maybe ''headSha'' pr; sha = js_maybe ''sha'' commit; files = js_maybe ''files'' pr in
      bindE (listed_file (ge_writePath cfg) files) (\<lambda>listed.
      bindE (listed_names files) (\<lambda>names.
        Inr [plain_check ''pr.exists'' ''PR exists'' (js_truthy pr)
               (if js_truthy pr then Some [\<lparr>evidenceId = ''pr:'' @ template_text (js_maybe ''number'' pr), evidence_kind = ''http_check''\<rparr>]
                else None) None,
             plain_check ''repo.correct'' ''correct repository'' (fullName = JStr (ge_owner cfg @ ''/'' @ ge_repo cfg)) None
               (case fullName of JStr s \<Rightarrow> Some s | _ \<Rightarrow> None),
             plain_check ''branch.correct'' ''correct branch'' (headRef = JStr (ge_branch cfg) \<and> baseRef = JStr (base_of cfg)) None
               (Some (template_text headRef @ '' '' @ utf8 8594 @ '' '' @ template_text baseRef)),
             plain_check ''commit.expected'' ''expected commit'' (strict_eq headSha sha) None
               (Some (''head='' @ template_text headSha @ '' commit='' @ template_text sha)),
             plain_check ''diff.expected'' ''expected diff'' listed None names,
             plain_check ''tests.pass'' ''tests'' tests_ok
               (if tests_ok then Some [\<lparr>evidenceId = ''tests'', evidence_kind = ''test_result''\<rparr>] else None) None,
             plain_check ''ledger.intact'' ''ledger chain intact'' intact None None])))"

definition e2e_verify :: "'x e2e_platform \<Rightarrow> e2e_config \<Rightarrow> exec_result list \<Rightarrow> ('x runner_world, verification_check list) proc" where
  "e2e_verify pf cfg results =
     bindP (case gp_tests pf of None \<Rightarrow> returnP True | Some tests \<Rightarrow> on_outside tests) (\<lambda>ok w.
       (e2e_checks cfg results ok (cv_valid (verifyChain (gp_sha pf) (rn_ledger w))), w))"

section \<open>The run\<close>

definition executed_actions :: "ledger_event list \<Rightarrow> string list" where
  "executed_actions es =
     concat (map (\<lambda>e. case js_maybe ''action'' (le_payload e) of JStr a \<Rightarrow> [a] | _ \<Rightarrow> [])
       (filter (\<lambda>e. le_type e = ''execution.completed'') es))"

text \<open>The intent, in UTF-8: the Arabic words are given by their code points.\<close>

definition e2e_intent :: "e2e_config \<Rightarrow> string" where
  "e2e_intent cfg =
     concat (map utf8 [1575, 1601, 1581, 1589, 32, 1575, 1604, 1605, 1587, 1578, 1608, 1583, 1593, 32]) @
     ge_owner cfg @ ''/'' @ ge_repo cfg @ concat (map utf8 [32, 1608, 1571, 1606, 1588, 1574, 32]) @ ''PR'' @
     concat (map utf8 [32, 1610, 1590, 1610, 1601, 32]) @ ge_writePath cfg"

definition e2e_options :: "'x e2e_platform \<Rightarrow> e2e_config \<Rightarrow> 'x run_task_options" where
  "e2e_options pf cfg = \<lparr>rt_actorId = None, rt_actorTrust = None, rt_plan = None, rt_steps = Some (e2e_steps cfg),
     rt_onVerify = Some (e2e_verify pf cfg)\<rparr>"

text \<open>The exported evidence.\<close>

definition evidence_value :: "(string \<Rightarrow> string) \<Rightarrow> proof_carrying_outcome \<Rightarrow> ledger_event list \<Rightarrow> jsv" where
  "evidence_value sha o1 es =
     JObj [(''runId'', JStr (pco_runId o1)), (''intent'', JStr (pco_intent o1)), (''verdict'', JStr (verdict_text (pco_verdict o1))),
       (''verification'', verification_jsv (pco_verification o1)), (''results'', JArr (map result_jsv (pco_results o1))),
       (''chainValid'', JBool (cv_valid (verifyChain sha es))), (''merkleRoot'', JStr (merkleRoot sha es))]"

definition export_evidence :: "'x e2e_platform \<Rightarrow> proof_carrying_outcome \<Rightarrow> ('x runner_world, string option) proc" where
  "export_evidence pf o1 =
     (case gp_export pf of
        None \<Rightarrow> returnP None
      | Some save \<Rightarrow> (\<lambda>w.
          let v = evidence_value (gp_sha pf) o1 (rn_ledger w) in
          bindP (liftE (json_stringify v)) (\<lambda>_.
          bindP (on_outside (save (''evidence-'' @ pco_runId o1 @ ''.json'') v)) (\<lambda>path. returnP (Some path))) w))"

definition e2e_done :: "'x e2e_platform \<Rightarrow> proof_carrying_outcome \<Rightarrow> string option \<Rightarrow> 'x runner_world \<Rightarrow> e2e_outcome" where
  "e2e_done pf o1 path w =
     (let pr = maybe_output 6 (pco_results o1); commit = maybe_output 4 (pco_results o1) in
      \<lparr>eo_verdict = pco_verdict o1, eo_prNumber = js_maybe ''number'' pr, eo_prUrl = js_maybe ''url'' pr,
       eo_commitSha = js_maybe ''sha'' commit,
       eo_checks = map (\<lambda>c. \<lparr>ec_name = vc_name c, ec_verdict = vc_verdict c, ec_detail = vc_detail c\<rparr>) (ver_checks (pco_verification o1)),
       eo_evidencePath = path,
       eo_ledgerEventTypes = map le_type (pco_ledger o1), eo_executedActions = executed_actions (pco_ledger o1),
       eo_chainValid = cv_valid (verifyChain (gp_sha pf) (rn_ledger w)), eo_merkleRoot = merkleRoot (gp_sha pf) (rn_ledger w),
       eo_usage = pco_usage o1\<rparr>)"

definition e2e_failed :: "'x e2e_platform \<Rightarrow> js_error \<Rightarrow> 'x runner_world \<Rightarrow> e2e_failure" where
  "e2e_failed pf e w =
     (let actions = executed_actions (rn_ledger w) in
      GithubE2EError (''GitHub E2E failed after '' @ (if actions = [] then ''no completed action'' else last actions) @ '': '' @ err_message e)
        \<lparr>eo_verdict = V_FAILED, eo_prNumber = JUndefined, eo_prUrl = JUndefined, eo_commitSha = JUndefined,
         eo_checks = [\<lparr>ec_name = ''run failure'', ec_verdict = V_FAILED, ec_detail = Some (err_message e)\<rparr>],
         eo_evidencePath = None,
         eo_ledgerEventTypes = map le_type (rn_ledger w), eo_executedActions = actions,
         eo_chainValid = cv_valid (verifyChain (gp_sha pf) (rn_ledger w)), eo_merkleRoot = merkleRoot (gp_sha pf) (rn_ledger w),
         eo_usage = meter_usage (rn_meter w)\<rparr> e)"

text \<open>\<open>runGithubE2E\<close>; an exception before the run is passed on.\<close>

definition runGithubE2E ::
  "'x e2e_platform \<Rightarrow> e2e_config \<Rightarrow> host \<Rightarrow> 'x \<Rightarrow> js_error + ((e2e_failure + e2e_outcome) \<times> 'x runner_world)" where
  "runGithubE2E pf cfg h x =
     bindE (e2e_runner pf cfg) (\<lambda>r.
       Inr (case runner_run r (e2e_intent cfg) (e2e_options pf cfg) (new_runner_world [] h x) of
          (Inl e, w) \<Rightarrow> (Inl (e2e_failed pf e w), w)
        | (Inr o1, w) \<Rightarrow>
            (case export_evidence pf o1 w of
               (Inl e, w') \<Rightarrow> (Inl (Thrown e), w')
             | (Inr path, w') \<Rightarrow> (Inr (e2e_done pf o1 path w'), w'))))"

text \<open>\<open>runRepoTests\<close>: \<open>execSync\<close> is a parameter; the last 400 units of its output, of its \<open>stdout\<close> or
  \<open>stderr\<close> when it failed, or of the exception.\<close>

definition last_chars :: "nat \<Rightarrow> string \<Rightarrow> string" where
  "last_chars n s = drop_units (utf16_length s - n) s"

definition runRepoTests :: "(string \<times> string option \<times> string option) + string \<Rightarrow> bool \<times> string" where
  "runRepoTests exec =
     (case exec of
        Inr out \<Rightarrow> (True, last_chars 400 out)
      | Inl (err, stdout, stderr) \<Rightarrow>
          (False, last_chars 400 (case stdout of Some s \<Rightarrow> s | None \<Rightarrow> (case stderr of Some s \<Rightarrow> s | None \<Rightarrow> err))))"

text \<open>The runner is built: the grants and the executors have seven different names.\<close>

lemma grants_made:
  "rc_policy r = \<lparr>pe_grants = [], pe_approvalPolicy = p\<rparr> \<Longrightarrow>
    foldE (\<lambda>a. runner_grant (e2e_grant a)) GITHUB_ACTIONS r =
      Inr (r\<lparr>rc_policy := \<lparr>pe_grants = map e2e_grant GITHUB_ACTIONS, pe_approvalPolicy = p\<rparr>\<rparr>)"
  by (simp add: GITHUB_ACTIONS_def runner_grant_def addGrant_def e2e_grant_def)

lemma e2e_runner_ok: "is_ok (e2e_runner pf cfg)"
proof -
  obtain plugin where plugin: "new_github_plugin (gp_tools pf) (e2e_transport pf cfg) = Inr plugin"
    using new_github_plugin_ok [of "gp_tools pf" "e2e_transport pf cfg"] by (auto simp: is_ok_iff)
  have "is_ok (plugin_register plugin [])"
    by (simp add: plugin_register_def GITHUB_ACTIONS_def executor_register_def)
  then show ?thesis
    by (auto simp: e2e_runner_def new_local_runner_def grants_made plugin is_ok_iff)
qed

section \<open>Properties\<close>

lemma passed_if_iff [simp]: "passed_if b = V_PASSED \<longleftrightarrow> b"
  by (simp add: passed_if_def)

lemma derived_passed: "checks \<noteq> [] \<Longrightarrow> deriveVerdict checks = V_PASSED \<longleftrightarrow> list_all (\<lambda>c. vc_verdict c = V_PASSED) checks"
  by (auto simp: deriveVerdict_def list_ex_iff list_all_iff)

text \<open>C19.  The verdict of the end-to-end run means what it says: whatever the seven steps returned, the
  verification passes exactly when a pull request was read whose head and base are the configured
  branches, whose head commit is the one that was created, which changes the configured file, in the
  configured repository, and the tests pass and the ledger verifies.\<close>

theorem e2e_verdict_iff:
  "(case e2e_checks cfg results tests_ok intact of
      Inl e \<Rightarrow> False
    | Inr checks \<Rightarrow> ver_verdict (fst (verify (e2e_intent cfg) checks h)) = V_PASSED) \<longleftrightarrow>
   (let pr = maybe_output 6 results in
      js_maybe ''fullName'' (maybe_output 0 results) = JStr (ge_owner cfg @ ''/'' @ ge_repo cfg) \<and>
      js_maybe ''headRef'' pr = JStr (ge_branch cfg) \<and> js_maybe ''baseRef'' pr = JStr (base_of cfg) \<and>
      strict_eq (js_maybe ''headSha'' pr) (js_maybe ''sha'' (maybe_output 4 results)) \<and>
      listed_file (ge_writePath cfg) (js_maybe ''files'' pr) = Inr True \<and>
      is_ok (listed_names (js_maybe ''files'' pr)) \<and> tests_ok \<and> intact)"
proof -
  let ?pr = "maybe_output 6 results" and ?files = "js_maybe ''files'' (maybe_output 6 results)"
  have pr: "js_maybe ''headRef'' ?pr = JStr s \<Longrightarrow> js_truthy ?pr" for s
    by (cases ?pr) (auto simp: js_maybe_def js_get_def js_truthy_def)
  show ?thesis
  proof (cases "listed_file (ge_writePath cfg) ?files")
    case (Inl e)
    then show ?thesis by (simp add: e2e_checks_def Let_def)
  next
    case (Inr listed)
    show ?thesis
    proof (cases "listed_names ?files")
      case (Inl e)
      then show ?thesis using Inr by (simp add: e2e_checks_def Let_def)
    next
      case names: (Inr names)
      obtain checks where checks: "e2e_checks cfg results tests_ok intact = Inr checks" "checks \<noteq> []"
        using Inr names by (simp add: e2e_checks_def Let_def)
      have "ver_verdict (fst (verify (e2e_intent cfg) checks h)) = V_PASSED \<longleftrightarrow>
          list_all (\<lambda>c. vc_verdict c = V_PASSED) checks \<and> checks_evidence checks \<noteq> []"
        using derived_passed [OF checks(2)] by (auto simp: verify_def Let_def case_prod_beta)
      moreover have "list_all (\<lambda>c. vc_verdict c = V_PASSED) checks \<longleftrightarrow> js_truthy ?pr \<and>
          js_maybe ''fullName'' (maybe_output 0 results) = JStr (ge_owner cfg @ ''/'' @ ge_repo cfg) \<and>
          (js_maybe ''headRef'' ?pr = JStr (ge_branch cfg) \<and> js_maybe ''baseRef'' ?pr = JStr (base_of cfg)) \<and>
          strict_eq (js_maybe ''headSha'' ?pr) (js_maybe ''sha'' (maybe_output 4 results)) \<and> listed \<and> tests_ok \<and> intact"
        using checks(1) Inr names by (auto simp: e2e_checks_def Let_def plain_check_def)
      moreover have "tests_ok \<Longrightarrow> checks_evidence checks \<noteq> []"
        using checks(1) Inr names by (auto simp: e2e_checks_def Let_def plain_check_def checks_evidence_def)
      ultimately show ?thesis using checks(1) Inr names pr by (auto simp: Let_def)
    qed
  qed
qed

end
