(* ===== verification/ConsoleApi.thy ===== *)
theory ConsoleApi
  imports Github Http
begin

text \<open>
  The console's client of the HTTP API, \<open>apps/console/src/api.ts\<close>: four calls that classify what can go
  wrong into four kinds.  \<open>fetch\<close> and the numerals of a response that are no integers are parameters; the
  messages are given by their code points.
\<close>

section \<open>Errors and messages\<close>

datatype run_error_kind = Network | Invalid_response | Api_rejected | Infrastructure_unavailable

text \<open>A \<open>RunRequestError\<close>, or the \<open>TypeError\<close> of \<open>in\<close> on a response that is no object.\<close>

datatype client_error = RunRequestError run_error_kind string | Type_error string

definition u_text :: "nat list \<Rightarrow> string" where
  "u_text points = concat (map utf8 points)"

record call_texts =
  ct_network :: string
  ct_invalid :: string
  ct_unready :: string
  ct_failed :: string
  ct_incomplete :: string

definition run_texts :: call_texts where
  "run_texts = \<lparr>
     ct_network = u_text [1578, 1593, 1584, 1585, 32, 1575, 1604, 1608, 1589, 1608, 1604, 32, 1573, 1604,
       1609, 32, 1582, 1583, 1605, 1577, 32, 1575, 1604, 1578, 1606, 1601, 1610, 1584, 46, 32, 1578, 1581,
       1602, 1602, 32, 1605, 1606, 32, 1575, 1604, 1575, 1578, 1589, 1575, 1604, 32, 1608, 1581, 1575, 1608,
       1604, 32, 1605, 1585, 1577, 32, 1571, 1582, 1585, 1609, 46],
     ct_invalid = u_text [1575, 1587, 1578, 1580, 1575, 1576, 1577, 32, 1594, 1610, 1585, 32, 1589, 1575,
       1604, 1581, 1577, 32, 1605, 1606, 32, 1582, 1583, 1605, 1577, 32, 1575, 1604, 1578, 1606, 1601, 1610,
       1584],
     ct_unready = u_text [1582, 1583, 1605, 1577, 32, 1575, 1604, 1578, 1606, 1601, 1610, 1584, 32, 1594,
       1610, 1585, 32, 1580, 1575, 1607, 1586, 1577, 32, 1605, 1572, 1602, 1578, 1611, 1575, 46, 32, 1581,
       1575, 1608, 1604, 32, 1605, 1585, 1577, 32, 1571, 1582, 1585, 1609, 32, 1604, 1575, 1581, 1602, 1611,
       1575, 46],
     ct_failed = u_text [1601, 1588, 1604, 32, 1591, 1604, 1576, 32, 1575, 1604, 1578, 1606, 1601, 1610, 1584],
     ct_incomplete = u_text [1575, 1587, 1578, 1580, 1575, 1576, 1577, 32, 1575, 1604, 1578, 1606, 1601, 1610,
       1584, 32, 1606, 1575, 1602, 1589, 1577, 32, 1571, 1608, 32, 1594, 1610, 1585, 32, 1589, 1575, 1604,
       1581, 1577, 46]\<rparr>"

definition tasks_texts :: call_texts where
  "tasks_texts = \<lparr>
     ct_network = u_text [1578, 1593, 1584, 1585, 32, 1575, 1604, 1608, 1589, 1608, 1604, 32, 1573, 1604,
       1609, 32, 1587, 1580, 1604, 32, 1575, 1604, 1605, 1607, 1575, 1605, 46],
     ct_invalid = u_text [1575, 1587, 1578, 1580, 1575, 1576, 1577, 32, 1594, 1610, 1585, 32, 1589, 1575,
       1604, 1581, 1577, 32, 1605, 1606, 32, 1587, 1580, 1604, 32, 1575, 1604, 1605, 1607, 1575, 1605],
     ct_unready = u_text [1587, 1580, 1604, 32, 1575, 1604, 1605, 1607, 1575, 1605, 32, 1594, 1610, 1585, 32,
       1580, 1575, 1607, 1586, 32, 1605, 1572, 1602, 1578, 1611, 1575, 46, 32, 1581, 1575, 1608, 1604, 32,
       1605, 1585, 1577, 32, 1571, 1582, 1585, 1609, 32, 1604, 1575, 1581, 1602, 1611, 1575, 46],
     ct_failed = u_text [1601, 1588, 1604, 32, 1591, 1604, 1576, 32, 1587, 1580, 1604, 32, 1575, 1604, 1605,
       1607, 1575, 1605],
     ct_incomplete = u_text [1575, 1587, 1578, 1580, 1575, 1576, 1577, 32, 1587, 1580, 1604, 32, 1575, 1604,
       1605, 1607, 1575, 1605, 32, 1606, 1575, 1602, 1589, 1577, 32, 1571, 1608, 32, 1594, 1610, 1585, 32,
       1589, 1575, 1604, 1581, 1577, 46]\<rparr>"

definition runs_texts :: call_texts where
  "runs_texts = \<lparr>
     ct_network = u_text [1578, 1593, 1584, 1585, 32, 1575, 1604, 1608, 1589, 1608, 1604, 32, 1573, 1604,
       1609, 32, 1587, 1580, 1604, 32, 1575, 1604, 1578, 1588, 1594, 1610, 1604, 1575, 1578, 46],
     ct_invalid = u_text [1575, 1587, 1578, 1580, 1575, 1576, 1577, 32, 1594, 1610, 1585, 32, 1589, 1575,
       1604, 1581, 1577, 32, 1605, 1606, 32, 1587, 1580, 1604, 32, 1575, 1604, 1578, 1588, 1594, 1610, 1604,
       1575, 1578],
     ct_unready = u_text [1587, 1580, 1604, 32, 1575, 1604, 1578, 1588, 1594, 1610, 1604, 1575, 1578, 32,
       1594, 1610, 1585, 32, 1580, 1575, 1607, 1586, 32, 1605, 1572, 1602, 1578, 1611, 1575, 46, 32, 1581,
       1575, 1608, 1604, 32, 1605, 1585, 1577, 32, 1571, 1582, 1585, 1609, 32, 1604, 1575, 1581, 1602, 1611,
       1575, 46],
     ct_failed = u_text [1601, 1588, 1604, 32, 1591, 1604, 1576, 32, 1587, 1580, 1604, 32, 1575, 1604, 1578,
       1588, 1594, 1610, 1604, 1575, 1578],
     ct_incomplete = u_text [1575, 1587, 1578, 1580, 1575, 1576, 1577, 32, 1587, 1580, 1604, 32, 1575, 1604,
       1578, 1588, 1594, 1610, 1604, 1575, 1578, 32, 1606, 1575, 1602, 1589, 1577, 32, 1571, 1608, 32, 1594,
       1610, 1585, 32, 1589, 1575, 1604, 1581, 1577, 46]\<rparr>"

definition details_texts :: call_texts where
  "details_texts = \<lparr>
     ct_network = u_text [1578, 1593, 1584, 1585, 32, 1575, 1604, 1608, 1589, 1608, 1604, 32, 1573, 1604,
       1609, 32, 1578, 1601, 1575, 1589, 1610, 1604, 32, 1575, 1604, 1578, 1588, 1594, 1610, 1604, 46],
     ct_invalid = u_text [1575, 1587, 1578, 1580, 1575, 1576, 1577, 32, 1594, 1610, 1585, 32, 1589, 1575,
       1604, 1581, 1577, 32, 1605, 1606, 32, 1578, 1601, 1575, 1589, 1610, 1604, 32, 1575, 1604, 1578, 1588,
       1594, 1610, 1604],
     ct_unready = u_text [1578, 1601, 1575, 1589, 1610, 1604, 32, 1575, 1604, 1578, 1588, 1594, 1610, 1604,
       32, 1594, 1610, 1585, 32, 1580, 1575, 1607, 1586, 1577, 32, 1605, 1572, 1602, 1578, 1611, 1575, 46, 32,
       1581, 1575, 1608, 1604, 32, 1605, 1585, 1577, 32, 1571, 1582, 1585, 1609, 32, 1604, 1575, 1581, 1602,
       1611, 1575, 46],
     ct_failed = u_text [1601, 1588, 1604, 32, 1591, 1604, 1576, 32, 1578, 1601, 1575, 1589, 1610, 1604, 32,
       1575, 1604, 1578, 1588, 1594, 1610, 1604],
     ct_incomplete = u_text [1575, 1587, 1578, 1580, 1575, 1576, 1577, 32, 1578, 1601, 1575, 1589, 1610, 1604,
       32, 1575, 1604, 1578, 1588, 1594, 1610, 1604, 32, 1606, 1575, 1602, 1589, 1577, 32, 1571, 1608, 32,
       1594, 1610, 1585, 32, 1589, 1575, 1604, 1581, 1577, 46]\<rparr>"

section \<open>A call\<close>

definition API_BASE_URL :: "string option \<Rightarrow> string" where
  "API_BASE_URL v = rev (dropWhile (\<lambda>c. c = CHR ''/'') (rev (case v of None \<Rightarrow> [] | Some s \<Rightarrow> s)))"

text \<open>\<open>k in body\<close>.\<close>

definition prop_in :: "string \<Rightarrow> jsv \<Rightarrow> client_error + bool" where
  "prop_in k body =
     (case body of
        JObj kvs \<Rightarrow> Inr (map_has kvs k)
      | JArr _ \<Rightarrow> Inr False
      | _ \<Rightarrow> Inl (Type_error (''Cannot use 'in' operator to search for '' @ quoted k)))"

definition with_status :: "string \<Rightarrow> int \<Rightarrow> string" where
  "with_status msg status = msg @ '' ('' @ show_int status @ '').''"

definition read_response ::
  "(string \<Rightarrow> jsv) \<Rightarrow> call_texts \<Rightarrow> (jsv \<Rightarrow> client_error + 'a) \<Rightarrow> http_response \<Rightarrow> client_error + 'a" where
  "read_response nm texts accept res =
     (case JSON_parse nm (hr_text res) of
        Inl _ \<Rightarrow> Inl (RunRequestError Invalid_response (with_status (ct_invalid texts) (hr_status res)))
      | Inr body \<Rightarrow>
          if \<not> hr_ok res then
            (if hr_status res = 503 then Inl (RunRequestError Infrastructure_unavailable (ct_unready texts))
             else bindE (prop_in ''error'' body) (\<lambda>there.
               Inl (RunRequestError Api_rejected
                 (if there \<and> js_truthy (js_maybe ''error'' body) then template_text (js_maybe ''error'' body)
                  else with_status (ct_failed texts) (hr_status res)))))
          else accept body)"

definition api_call ::
  "(string \<Rightarrow> jsv) \<Rightarrow> (string \<Rightarrow> http_init \<Rightarrow> ('w, http_response) proc) \<Rightarrow> call_texts \<Rightarrow> string \<Rightarrow> http_init \<Rightarrow>
    (jsv \<Rightarrow> client_error + 'a) \<Rightarrow> 'w \<Rightarrow> (client_error + 'a) \<times> 'w" where
  "api_call nm fetch texts url init accept w =
     (case fetch url init w of
        (Inl _, w') \<Rightarrow> (Inl (RunRequestError Network (ct_network texts)), w')
      | (Inr res, w') \<Rightarrow> (read_response nm texts accept res, w'))"

definition get_init :: http_init where
  "get_init = \<lparr>hi_method = ''GET'', hi_headers = [], hi_body = None\<rparr>"

section \<open>The four calls\<close>

definition incomplete :: "call_texts \<Rightarrow> client_error" where
  "incomplete texts = RunRequestError Invalid_response (ct_incomplete texts)"

definition accept_run :: "jsv \<Rightarrow> client_error + jsv" where
  "accept_run body =
     bindE (prop_in ''verdict'' body) (\<lambda>there.
       if \<not> there \<or> \<not> js_truthy (js_maybe ''run_id'' body) \<or> \<not> js_truthy (js_maybe ''task_id'' body)
       then Inl (incomplete run_texts) else Inr body)"

definition client_runTask ::
  "(string \<Rightarrow> jsv) \<Rightarrow> (string \<Rightarrow> http_init \<Rightarrow> ('w, http_response) proc) \<Rightarrow> string \<Rightarrow> string \<Rightarrow> 'w \<Rightarrow> (client_error + jsv) \<times> 'w" where
  "client_runTask nm fetch base task =
     api_call nm fetch run_texts (base @ ''/run'')
       \<lparr>hi_method = ''POST'', hi_headers = [(''content-type'', ''application/json'')],
        hi_body = json_text (JObj [(''task'', JStr task)])\<rparr> accept_run"

definition accept_list :: "call_texts \<Rightarrow> string \<Rightarrow> jsv \<Rightarrow> client_error + jsv list" where
  "accept_list texts k body =
     bindE (prop_in k body) (\<lambda>there.
       case js_maybe k body of
         JArr items \<Rightarrow> if there then Inr items else Inl (incomplete texts)
       | _ \<Rightarrow> Inl (incomplete texts))"

definition client_listTasks ::
  "(string \<Rightarrow> jsv) \<Rightarrow> (string \<Rightarrow> http_init \<Rightarrow> ('w, http_response) proc) \<Rightarrow> string \<Rightarrow> int \<Rightarrow> 'w \<Rightarrow> (client_error + jsv list) \<times> 'w" where
  "client_listTasks nm fetch base maximum =
     api_call nm fetch tasks_texts (base @ ''/tasks?limit='' @ encodeURIComponent (show_int maximum)) get_init
       (accept_list tasks_texts ''tasks'')"

text \<open>The serialisation of \<open>URLSearchParams\<close>.\<close>

definition form_encode :: "string \<Rightarrow> string" where
  "form_encode s =
     concat (map (\<lambda>c. let n = of_char c :: nat in
       if (65 \<le> n \<and> n \<le> 90) \<or> (97 \<le> n \<and> n \<le> 122) \<or> (48 \<le> n \<and> n \<le> 57) \<or> c \<in> set ''*-._'' then [c]
       else if c = CHR '' '' then ''+''
       else [CHR ''%'', upper_hex (n div 16), upper_hex (n mod 16)]) s)"

definition client_listRuns ::
  "(string \<Rightarrow> jsv) \<Rightarrow> (string \<Rightarrow> http_init \<Rightarrow> ('w, http_response) proc) \<Rightarrow> string \<Rightarrow> string \<Rightarrow> int \<Rightarrow> 'w \<Rightarrow>
    (client_error + jsv list) \<times> 'w" where
  "client_listRuns nm fetch base taskId maximum =
     api_call nm fetch runs_texts (base @ ''/runs?limit='' @ form_encode (show_int maximum) @ ''&task_id='' @ form_encode taskId)
       get_init (accept_list runs_texts ''runs'')"

definition accept_details :: "jsv \<Rightarrow> client_error + jsv" where
  "accept_details body =
     bindE (prop_in ''run_id'' body) (\<lambda>there.
       if \<not> there \<or> \<not> js_truthy (js_maybe ''run_id'' body) then Inl (incomplete details_texts)
       else (case js_maybe ''evidence'' body of JArr _ \<Rightarrow> Inr body | _ \<Rightarrow> Inl (incomplete details_texts)))"

definition client_getRun ::
  "(string \<Rightarrow> jsv) \<Rightarrow> (string \<Rightarrow> http_init \<Rightarrow> ('w, http_response) proc) \<Rightarrow> string \<Rightarrow> string \<Rightarrow> 'w \<Rightarrow> (client_error + jsv) \<times> 'w" where
  "client_getRun nm fetch base runId =
     api_call nm fetch details_texts (base @ ''/runs/'' @ encodeURIComponent runId) get_init accept_details"

end
