(* ===== verification/ConsoleKernel.thy ===== *)
theory ConsoleKernel
  imports ConsoleApi Models
begin

text \<open>
  The console's own state and its bridge to the kernel: the types of \<open>apps/console/src/domain.ts\<close>, the state
  machine of \<open>agent-state.ts\<close>, the provider table and the routing of \<open>kernel.ts\<close>, and the classification of
  goals and the identifiers of \<open>mock.ts\<close>.  Arabic texts are given by their code points.
\<close>

section \<open>The types of the console\<close>

datatype node_status = Node_done | Node_active | Node_pending | Node_failed | Node_blocked

datatype activity_kind = By_agent | By_tool | By_model | By_system | By_user

record ui_activity =
  ua_id :: string
  ua_kind :: activity_kind
  ua_text :: string
  ua_detail :: "string option"
  ua_time :: string

datatype file_kind = File_code | File_test | File_config | File_doc | File_other

datatype file_status = File_new | File_modified | File_unchanged

record workspace_file =
  wf_path :: string
  wf_kind :: file_kind
  wf_status :: file_status

record agent_node =
  an_id :: string
  an_label :: string
  an_tool :: "string option"
  an_status :: node_status

datatype shown_state = Shown_running | Shown_needs_approval | Shown_completed | Shown_failed

text \<open>A run as it is shown; what comes from the server is a JSON value, \<open>JUndefined\<close> when it is absent.\<close>

record agent_run =
  ar_id :: string
  ar_project :: string
  ar_goal :: string
  ar_state :: shown_state
  ar_nodes :: "agent_node list"
  ar_files :: "workspace_file list"
  ar_error :: "string option"
  ar_backendRunId :: jsv
  ar_taskId :: jsv
  ar_verdict :: jsv
  ar_evidenceCount :: jsv
  ar_evidence :: jsv

datatype agent_phase = Idle | Is_planning | Is_running | Is_waiting | Is_completed | Is_failed | Is_cancelled

datatype step_status = Step_pending | Step_running | Step_completed | Step_failed | Step_skipped

datatype plan_state = Plan_unavailable | Plan_available

record plan_step =
  ps_id :: string
  ps_title :: string
  ps_description :: "string option"
  ps_status :: step_status

record agent_plan =
  ap_id :: string
  ap_title :: string
  ap_state :: plan_state
  ap_steps :: "plan_step list"
  ap_note :: "string option"

record agent_state =
  as_state :: agent_phase
  as_runId :: jsv
  as_error :: "string option"

datatype project_section = Sec_overview | Sec_chat | Sec_agent | Sec_tasks | Sec_files | Sec_knowledge | Sec_artifacts
  | Sec_activity | Sec_settings

record project_state =
  pj_id :: string
  pj_name :: string
  pj_repository :: string
  pj_section :: project_section

datatype chat_role = From_user | From_assistant

record chat_message =
  cm_id :: string
  cm_role :: chat_role
  cm_content :: string
  cm_time :: string
  cm_meta :: "string option"

record provider_status =
  pv_name :: string
  pv_tier :: string
  pv_status :: string
  pv_models :: string
  pv_last :: "string option"

section \<open>The state of the agent\<close>

datatype agent_event = Ev_planning | Ev_started jsv | Ev_completed jsv jsv | Ev_failed string | Ev_cancelled

definition initialAgentState :: agent_state where
  "initialAgentState = \<lparr>as_state = Idle, as_runId = JUndefined, as_error = None\<rparr>"

definition transitionAgentState :: "agent_state \<Rightarrow> agent_event \<Rightarrow> agent_state" where
  "transitionAgentState current event =
     (case event of
        Ev_planning \<Rightarrow> \<lparr>as_state = Is_planning, as_runId = JUndefined, as_error = None\<rparr>
      | Ev_started runId \<Rightarrow> \<lparr>as_state = Is_running, as_runId = runId, as_error = None\<rparr>
      | Ev_completed runId v \<Rightarrow>
          \<lparr>as_state = (if v = JStr ''PASSED'' then Is_completed else Is_failed), as_runId = runId, as_error = None\<rparr>
      | Ev_failed msg \<Rightarrow> \<lparr>as_state = Is_failed, as_runId = JUndefined, as_error = Some msg\<rparr>
      | Ev_cancelled \<Rightarrow> \<lparr>as_state = Is_cancelled, as_runId = as_runId current, as_error = None\<rparr>)"

definition transitionPlanStep :: "plan_step \<Rightarrow> step_status \<Rightarrow> plan_step" where
  "transitionPlanStep s status = s\<lparr>ps_status := status\<rparr>"

definition createUnavailablePlan :: agent_plan where
  "createUnavailablePlan =
     \<lparr>ap_id = ''pending-backend-plan'',
      ap_title = u_text [1582, 1591, 1577, 32, 1575, 1604, 1578, 1606, 1601, 1610, 1584],
      ap_state = Plan_unavailable, ap_steps = [],
      ap_note = Some (
        u_text [1583, 1593, 1605, 32, 1575, 1604, 1582, 1591, 1577, 32, 1605, 1606, 32, 98, 97, 99, 107, 101, 110,
       100, 32, 1594, 1610, 1585, 32, 1605, 1578, 1575, 1581, 32, 1601, 1610, 32, 1593, 1602, 1583, 32, 47, 114, 117, 110, 32, 1575, 1604, 1581, 1575, 1604, 1610, 46])\<rparr>"

section \<open>Providers and routing\<close>

text \<open>A provider of the table with its tier and its label.\<close>

type_synonym 'w seed_provider = "'w model_provider \<times> string \<times> string"

definition PROVIDER_SEED :: "'w seed_provider list" where
  "PROVIDER_SEED =
     [(stubProvider ''gemini''
         [\<lparr>model_id = ''gemini-2.5-flash'', model_providerId = ''gemini'', contextWindow = 1000000, maxOutputTokens = 8192,
           supportsTools = True, supportsStructuredOutput = True, costPer1kInputUsd = 0, costPer1kOutputUsd = 0, latencyMs = 400,
           model_capabilities = [MC_completion, MC_vision, MC_tool_use, MC_structured_output]\<rparr>], ''Free'', ''Gemini''),
      (stubProvider ''openrouter''
         [\<lparr>model_id = ''deepseek-chat'', model_providerId = ''openrouter'', contextWindow = 128000, maxOutputTokens = 8192,
           supportsTools = True, supportsStructuredOutput = True, costPer1kInputUsd = 0, costPer1kOutputUsd = 0, latencyMs = 600,
           model_capabilities = [MC_completion, MC_tool_use, MC_structured_output]\<rparr>], ''Free tier'', ''OpenRouter''),
      (stubProvider ''huggingface''
         [\<lparr>model_id = ''llama-3.3-70b-instruct'', model_providerId = ''huggingface'', contextWindow = 32000, maxOutputTokens = 4096,
           supportsTools = False, supportsStructuredOutput = False, costPer1kInputUsd = 0, costPer1kOutputUsd = 0, latencyMs = 900,
           model_capabilities = [MC_completion]\<rparr>], ''Free tier'', ''HuggingFace''),
      (stubProvider ''anthropic''
         [\<lparr>model_id = ''claude-3.5-sonnet'', model_providerId = ''anthropic'', contextWindow = 200000, maxOutputTokens = 8192,
           supportsTools = True, supportsStructuredOutput = True, costPer1kInputUsd = 3, costPer1kOutputUsd = 15, latencyMs = 300,
           model_capabilities = [MC_completion, MC_vision, MC_tool_use, MC_structured_output]\<rparr>], ''BYOK'', ''Anthropic (Claude)''),
      (stubProvider ''ollama''
         [\<lparr>model_id = ''qwen2.5-coder:14b'', model_providerId = ''ollama'', contextWindow = 32000, maxOutputTokens = 4096,
           supportsTools = True, supportsStructuredOutput = False, costPer1kInputUsd = 0, costPer1kOutputUsd = 0, latencyMs = 1200,
           model_capabilities = [MC_completion, MC_tool_use]\<rparr>], ''Local'', ''Ollama (Local)'')]"

definition buildRouter :: "'w router" where
  "buildRouter = fold (\<lambda>(p, _). registerProvider p) PROVIDER_SEED []"

text \<open>The table has the five kinds of task of the console.\<close>

definition TASK_PROVIDER_PRIORITY :: "task_type_hint \<Rightarrow> string list option" where
  "TASK_PROVIDER_PRIORITY t =
     (case t of
        Planning \<Rightarrow> Some [''gemini'', ''openrouter'', ''ollama'']
      | Coding \<Rightarrow> Some [''gemini'', ''openrouter'', ''anthropic'', ''ollama'']
      | Research \<Rightarrow> Some [''openrouter'', ''gemini'']
      | Summarization \<Rightarrow> Some [''gemini'', ''huggingface'']
      | Vision \<Rightarrow> Some [''gemini'', ''anthropic'']
      | _ \<Rightarrow> None)"

definition route_requirement :: "task_type_hint \<Rightarrow> bool \<Rightarrow> routing_requirement" where
  "route_requirement taskType needsTools =
     \<lparr>rr_taskType = taskType, rr_minContext = None, rr_needsTools = needsTools, rr_needsStructuredOutput = False,
      rr_maxCostPer1kInputUsd = None, rr_maxLatencyMs = None, rr_preferredProviders = TASK_PROVIDER_PRIORITY taskType\<rparr>"

definition routeTask :: "task_type_hint \<Rightarrow> bool \<Rightarrow> model_info option" where
  "routeTask taskType needsTools =
     (case choose_model (buildRouter :: unit router) (route_requirement taskType needsTools) of Inl _ \<Rightarrow> None | Inr m \<Rightarrow> Some m)"

definition providerStatus :: "provider_status list" where
  "providerStatus =
     [\<lparr>pv_name = ''Gemini'', pv_tier = ''Free'', pv_status = ''healthy'', pv_models = ''gemini-2.5-flash'', pv_last = Some (
         u_text [1602, 1576, 1604, 32, 1583, 1602, 1610, 1602, 1577])\<rparr>,
      \<lparr>pv_name = ''OpenRouter'', pv_tier = ''Free tier'', pv_status = ''healthy'', pv_models = ''deepseek-chat'', pv_last = Some (
         u_text [1602, 1576, 1604, 32, 1635, 32, 1583])\<rparr>,
      \<lparr>pv_name = ''HuggingFace'', pv_tier = ''Free tier'', pv_status = ''rate_limited'', pv_models = ''llama-3.3-70b'', pv_last = Some (
         u_text [1602, 1576, 1604, 32, 1641, 32, 1583])\<rparr>,
      \<lparr>pv_name = ''Anthropic'', pv_tier = ''BYOK'', pv_status = ''healthy'', pv_models = ''claude-3.5-sonnet'', pv_last = Some (
         u_text [8212])\<rparr>,
      \<lparr>pv_name = ''Ollama'', pv_tier = ''Local'', pv_status = ''offline'', pv_models = ''qwen2.5-coder:14b'', pv_last = Some (
         u_text [1594, 1610, 1585, 32, 1605, 1578, 1589, 1604])\<rparr>]"

definition NODE_LABEL :: "node_type \<Rightarrow> string" where
  "NODE_LABEL t =
     (case t of
        NT_RESEARCH \<Rightarrow> u_text [1578, 1581, 1604, 1610, 1604, 32, 1575, 1604, 1605, 1578, 1591, 1604,
       1576, 1575, 1578]
      | NT_CODE \<Rightarrow> u_text [1603, 1578, 1575, 1576, 1577, 32, 1575, 1604, 1603, 1608, 1583]
      | NT_BROWSER \<Rightarrow> u_text [1593, 1605, 1604, 1610, 1575, 1578, 32, 1575, 1604, 1605, 1578, 1589,
       1601, 1581]
      | NT_TOOL \<Rightarrow> u_text [1578, 1606, 1601, 1610, 1584, 32, 1571, 1583, 1575, 1577]
      | NT_REVIEW \<Rightarrow> u_text [1605, 1585, 1575, 1580, 1593, 1577]
      | NT_VERIFY \<Rightarrow> u_text [1578, 1581, 1602, 1602]
      | NT_APPROVE \<Rightarrow> u_text [1605, 1608, 1575, 1601, 1602, 1577]
      | NT_SUBTASK \<Rightarrow> u_text [1605, 1607, 1605, 1577, 32, 1601, 1585, 1593, 1610, 1577])"

definition STATE_LABEL :: "task_state \<Rightarrow> string" where
  "STATE_LABEL s =
     (case s of
        TS_PLANNED \<Rightarrow> u_text [1605, 1582, 1591, 1591]
      | TS_RUNNING \<Rightarrow> u_text [1602, 1610, 1583, 32, 1575, 1604, 1578, 1606, 1601, 1610, 1584]
      | TS_WAITING_APPROVAL \<Rightarrow> u_text [1576, 1575, 1606, 1578, 1592, 1575, 1585, 32, 1575, 1604, 1605,
       1608, 1575, 1601, 1602, 1577]
      | TS_VERIFYING \<Rightarrow> u_text [1580, 1575, 1585, 1613, 32, 1575, 1604, 1578, 1581, 1602, 1602]
      | TS_PAUSED \<Rightarrow> u_text [1605, 1593, 1604, 1617, 1602]
      | TS_COMPLETED \<Rightarrow> u_text [1605, 1603, 1578, 1605, 1604]
      | TS_FAILED \<Rightarrow> u_text [1601, 1588, 1604]
      | TS_CANCELLED \<Rightarrow> u_text [1605, 1604, 1594, 1610])"

definition runFromTask :: "task \<Rightarrow> workspace_file list \<Rightarrow> agent_run" where
  "runFromTask t files =
     \<lparr>ar_id = task_id t, ar_project = ''canyou'', ar_goal = task_goal t,
      ar_state = (if task_state t = TS_COMPLETED then Shown_completed
        else if task_state t = TS_FAILED \<or> task_state t = TS_CANCELLED then Shown_failed
        else if task_state t = TS_WAITING_APPROVAL then Shown_needs_approval else Shown_running),
      ar_nodes = [], ar_files = files, ar_error = None, ar_backendRunId = JUndefined, ar_taskId = JUndefined,
      ar_verdict = JUndefined, ar_evidenceCount = JUndefined, ar_evidence = JUndefined\<rparr>"

section \<open>Goals and identifiers\<close>

text \<open>\<open>ulid\<close>: each value of \<open>Math.random()\<close> picks a character of the alphabet.\<close>

definition ULID_ALPHABET :: string where
  "ULID_ALPHABET = ''0123456789abcdefghjkmnpqrstvwxyz''"

definition ulid :: "rat list \<Rightarrow> string" where
  "ulid randoms = map (\<lambda>r. ULID_ALPHABET ! nat \<lfloor>r * 31\<rfloor>) randoms"

text \<open>\<open>toLowerCase\<close> as far as the keywords can tell: the letters of ASCII and the two other characters whose lower
  case has a letter of ASCII, the dotted capital I and the Kelvin sign.\<close>

fun keyFor :: "string \<Rightarrow> string" where
  "keyFor (a # b # c # s) =
     (if of_char a = (196 :: nat) \<and> of_char b = (176 :: nat) then CHR ''i'' # CHR 0xCC # CHR 0x87 # keyFor (c # s)
      else if of_char a = (226 :: nat) \<and> of_char b = (132 :: nat) \<and> of_char c = (170 :: nat) then CHR ''k'' # keyFor s
      else (let n = of_char a :: nat in if 65 \<le> n \<and> n \<le> 90 then char_of (n + 32) else a) # keyFor (b # c # s))"
| "keyFor (a # s) =
     (if of_char a = (196 :: nat) \<and> s = [CHR 0xB0] then [CHR ''i'', CHR 0xCC, CHR 0x87]
      else (let n = of_char a :: nat in if 65 \<le> n \<and> n \<le> 90 then char_of (n + 32) else a) # keyFor s)"
| "keyFor [] = []"

definition names_one_of :: "string list \<Rightarrow> string \<Rightarrow> bool" where
  "names_one_of keys s \<longleftrightarrow> list_ex (\<lambda>k. includes_str s k) keys"

definition CODING_WORDS :: "string list" where
  "CODING_WORDS = [u_text [1578, 1587, 1580, 1610, 1604], ''register'', ''login'', ''signup'', ''auth'', ''etl'',
       ''api'', ''pipeline'',
     u_text [1605, 1603, 1608, 1617, 1606], ''component'', u_text [1575, 1576, 1606], ''build'', u_text [1575,
       1603, 1578, 1576], ''code'']"

definition RESEARCH_WORDS :: "string list" where
  "RESEARCH_WORDS = [u_text [1576, 1581, 1579], ''search'', ''research'', u_text [1587, 1608, 1602], u_text [1575,
       1578, 1580, 1575, 1607]]"

definition VISION_WORDS :: "string list" where
  "VISION_WORDS = [u_text [1589, 1608, 1585, 1577], ''image'', u_text [1604, 1602, 1591, 1577], ''vision'']"

definition SUMMARY_WORDS :: "string list" where
  "SUMMARY_WORDS = [u_text [1604, 1582, 1589], ''summarize'', u_text [1575, 1582, 1578, 1589, 1585]]"

definition guessType :: "string \<Rightarrow> task_type_hint" where
  "guessType goal =
     (let g = keyFor goal in
      if names_one_of CODING_WORDS g then Coding
      else if names_one_of RESEARCH_WORDS g then Research
      else if names_one_of VISION_WORDS g then Vision
      else if names_one_of SUMMARY_WORDS g then Summarization
      else Planning)"

section \<open>Properties\<close>

text \<open>Every kind of task has a model, and it costs nothing.\<close>

lemma router_models: "discover (buildRouter :: 'w router) = concat (map (\<lambda>(p, _). mp_models p) (PROVIDER_SEED :: 'w seed_provider list))"
  by (simp add: buildRouter_def PROVIDER_SEED_def registerProvider_def discover_def)

text \<open>The console's routing keeps to the models that are free: for every kind of task, with or without
  tools, the bridge finds a model, which costs nothing, supports tools when they are needed and belongs to
  a preferred provider, although the table also has a provider that must be paid.\<close>

theorem routed_model_is_free:
  "case routeTask t needs of
     None \<Rightarrow> False
   | Some m \<Rightarrow> costPer1kInputUsd m = 0 \<and> costPer1kOutputUsd m = 0 \<and> needs \<le> supportsTools m \<and>
       (case TASK_PROVIDER_PRIORITY t of None \<Rightarrow> True | Some ps \<Rightarrow> model_providerId m \<in> set ps)"
  by (cases t; cases needs)
    (simp_all add: routeTask_def choose_model_def candidates_def router_models PROVIDER_SEED_def stubProvider_def
      model_satisfies_def route_requirement_def TASK_PROVIDER_PRIORITY_def score_def provider_rank_def preferred_providers_def)

text \<open>An identifier never contains the last character of its alphabet.\<close>

lemma ulid_without_z:
  assumes "\<forall>r \<in> set randoms. 0 \<le> r \<and> r < 1"
  shows "CHR ''z'' \<notin> set (ulid randoms)"
proof -
  have "ULID_ALPHABET ! nat \<lfloor>r * 31\<rfloor> \<noteq> CHR ''z''" if "0 \<le> r" "r < 1" for r :: rat
  proof -
    have "r * 31 < 31" using that(2) by simp
    then have "\<lfloor>r * 31\<rfloor> < 31" by linarith
    then have "nat \<lfloor>r * 31\<rfloor> < 31" by arith
    moreover have "list_all (\<lambda>c. c \<noteq> CHR ''z'') (take 31 ULID_ALPHABET)" "length ULID_ALPHABET = 32" by (simp_all add: ULID_ALPHABET_def)
    ultimately show ?thesis by (auto simp: list_all_length)
  qed
  then show ?thesis using assms unfolding ulid_def set_map image_iff by metis
qed

end
