(* ===== verification/ConsoleStack.thy ===== *)
theory ConsoleStack
  imports ConsoleApi Worker
begin

text \<open>
  The console's client on top of the two servers: a task submitted to the API runs exactly once, and a
  run that the worker has saved comes back through the client.  What the platform does between the two
  sides is the turning of a response or a request into the form the other side sees.
\<close>

section \<open>The API behind \<open>fetch\<close>\<close>

definition answer_of :: "api_reply \<Rightarrow> http_response" where
  "answer_of rep = \<lparr>hr_status = ap_status rep, hr_ok = (200 \<le> ap_status rep \<and> ap_status rep < 300), hr_text = ap_body rep\<rparr>"

text \<open>\<open>fetch\<close> throws when the connection ends without an answer.\<close>

definition api_fetch :: "api_platform \<Rightarrow> 'x local_runner \<Rightarrow> string \<Rightarrow> http_init \<Rightarrow> ('x runner_world, http_response) proc" where
  "api_fetch pf r url init =
     bindP (createApiServer pf r \<lparr>aq_method = Some (hi_method init), aq_url = Some url,
       aq_chunks = (case hi_body init of None \<Rightarrow> [] | Some b \<Rightarrow> [b])\<rparr>) (\<lambda>reply.
       case reply of None \<Rightarrow> throwP (plain_error ''fetch failed'') | Some rep \<Rightarrow> returnP (answer_of rep))"

definition task_body :: "string \<Rightarrow> string" where
  "task_body task = the (json_text (JObj [(''task'', JStr task)]))"

lemma task_body_reads: "JSON_parse nm (task_body task) = Inr (JObj [(''task'', JStr task)])"
proof -
  have "json_text (JObj [(''task'', JStr task)]) = Some (task_body task)" by (simp add: task_body_def)
  from json_text_reads_back [OF this, of nm] show ?thesis by simp
qed

lemma error_body_reads: "JSON_parse nm (''{'' @ json_string ''error'' @ '':'' @ json_string msg @ ''}'') = Inr (error_jsv msg)"
proof -
  have "json_text (error_jsv msg) = Some (''{'' @ json_string ''error'' @ '':'' @ json_string msg @ ''}'')"
    by (simp add: error_jsv_def)
  from json_text_reads_back [OF this, of nm] show ?thesis by (simp add: error_jsv_def)
qed

text \<open>What the client makes of an error of the server.\<close>

definition shown_error :: "string \<Rightarrow> client_error" where
  "shown_error msg = RunRequestError Api_rejected
     (if msg = [] then with_status (ct_failed run_texts) (error_status msg) else msg)"

lemma read_error:
  "read_response nm run_texts accept (answer_of (error_reply msg)) = Inl (shown_error msg)"
proof -
  have there: "prop_in ''error'' (error_jsv msg) = Inr True" "js_maybe ''error'' (error_jsv msg) = JStr msg"
    by (simp_all add: prop_in_def error_jsv_def js_maybe_def js_get_def)
  have status: "\<not> (200 \<le> error_status msg \<and> error_status msg < 300)" "error_status msg \<noteq> 503"
    by (simp_all add: error_status_def)
  show ?thesis unfolding read_response_def answer_of_def error_reply_def http_response.simps api_reply.simps error_body_reads
    using status by (simp add: there js_truthy_def shown_error_def)
qed

text \<open>The request of the console, as the server sees it.\<close>

definition console_request :: "string \<Rightarrow> api_request" where
  "console_request task = \<lparr>aq_method = Some ''POST'', aq_url = Some ''/run'', aq_chunks = [task_body task]\<rparr>"

lemma console_asks:
  assumes "pf_pathname pf ''/run'' = Inr ''/run''"
  shows "oversized pf (console_request task) = (MAX_BODY_BYTES < length (task_body task))"
    "run_request pf (console_request task) =
      (if MAX_BODY_BYTES < length (task_body task) \<or> js_trim task = [] then None else Some (js_trim task))"
  using assms
  by (simp_all add: console_request_def oversized_def asks_run_def run_request_def task_body_reads parseRunRequest_def Let_def)

lemma empty_refused:
  assumes "pf_pathname pf ''/run'' = Inr ''/run''" "\<not> MAX_BODY_BYTES < length (task_body task)" "js_trim task = []"
  shows "createApiServer pf r (console_request task) w = (Inr (Some (error_reply ''task must not be empty'')), w)"
  using assms
  by (simp add: console_request_def createApiServer_def catchP_def handleRequest_def bindP_def liftE_def readJson_eq
      task_body_reads runTask_def parseRunRequest_def Let_def error_reply_def plain_error_def)

section \<open>Properties\<close>


definition echo_platform :: api_platform where
  "echo_platform = \<lparr>pf_mode = None, pf_pathname = Inr, pf_numeral = (\<lambda>_. JNonFinite)\<rparr>"


section \<open>The worker behind \<open>fetch\<close>\<close>

definition edge_fetch :: "worker_env \<Rightarrow> (string \<Rightarrow> http_init \<Rightarrow> worker_request) \<Rightarrow> string \<Rightarrow> http_init \<Rightarrow> (worker_world, http_response) proc" where
  "edge_fetch e incoming url init =
     bindP (worker_fetch e (incoming url init)) (\<lambda>rep. returnP \<lparr>hr_status = wr_status rep,
       hr_ok = (200 \<le> wr_status rep \<and> wr_status rep < 300), hr_text = (case wr_body rep of None \<Rightarrow> [] | Some t \<Rightarrow> t)\<rparr>)"

text \<open>The path of a run: the encoded identifier is one non-empty segment, and the worker decodes it.\<close>

lemma encoded_no_slash: "CHR ''/'' \<notin> set (encodeURIComponent s)"
proof -
  have "CHR ''/'' \<noteq> upper_hex n" if "n < 16" for n
  proof -
    have "(of_char (upper_hex n) :: nat) \<noteq> of_char (CHR ''/'')" using that by (auto simp: upper_hex_def)
    then show ?thesis by metis
  qed
  moreover have "(of_char c :: nat) div 16 < 16" for c :: char by (rule less_mult_imp_div_less) simp
  moreover have "\<not> uri_kept (CHR ''/'')" by (simp add: uri_kept_def)
  ultimately show ?thesis by (auto simp: encodeURIComponent_def split: if_splits)
qed

lemma run_path_decodes:
  assumes "i \<noteq> []" "list_all (\<lambda>c. (of_char c :: nat) < 128) i"
  shows "run_match (''/runs/'' @ encodeURIComponent i) = Some (encodeURIComponent i)" "decodeURIComponent (encodeURIComponent i) = Inr i"
proof -
  have "encodeURIComponent i \<noteq> []" using assms(1) by (cases i) (simp_all add: encodeURIComponent_def)
  then show "run_match (''/runs/'' @ encodeURIComponent i) = Some (encodeURIComponent i)"
    using encoded_no_slash [of i] by (simp add: run_match_def)
qed (rule decode_encode [OF assms(2)])

lemma record_reads_back:
  assumes "json_pure (rr_results r)" "json_pure (rr_verification r)" "json_pure (rr_usage r)" "json_pure (rr_evidence r)"
    and "keys_distinct (rr_results r)" "keys_distinct (rr_verification r)" "keys_distinct (rr_usage r)" "keys_distinct (rr_evidence r)"
  shows "\<exists>t. json_stringify (run_record_jsv r) = Inr (Some t) \<and> JSON_parse nm t = Inr (run_record_jsv r)"
proof -
  have pure: "json_pure (run_record_jsv r)" and distinct: "keys_distinct (run_record_jsv r)"
    using assms by (simp_all add: run_record_jsv_def)
  then obtain t where t: "json_text (run_record_jsv r) = Some t" by (auto simp: json_text_render json_norm_pure)
  have "json_pure v \<Longrightarrow> \<not> has_bigint v" for v by (rule json_pure_no_bigint)
  then show ?thesis using t json_text_reads_back [OF t distinct, of nm] pure
    by (auto simp: json_stringify_def json_norm_pure)
qed

text \<open>C15.  A saved run comes back through the console's client: after the worker has saved an outcome whose
  identifier is a non-empty ASCII text, \<open>getRun\<close> of the client against the worker gives its record, the
  identifier percent-encoded into the path and decoded by the worker, the JSON parts in normal form, and
  changes nothing, over a platform that keeps the method and the path.\<close>

theorem saved_run_reaches_console:
  assumes saved: "saveRun o1 now db = Inr db'" "ww_db w = Some db'"
    and distinct: "\<And>r. r \<in> set (pco_results o1) \<Longrightarrow> keys_distinct (res_output r)"
    and ident: "pco_runId o1 \<noteq> []" "list_all (\<lambda>c. (of_char c :: nat) < 128) (pco_runId o1)"
    and platform: "wq_method (incoming (''/runs/'' @ encodeURIComponent (pco_runId o1)) get_init) = ''GET''"
      "wq_pathname (incoming (''/runs/'' @ encodeURIComponent (pco_runId o1)) get_init) = ''/runs/'' @ encodeURIComponent (pco_runId o1)"
  shows "\<exists>body. client_getRun nm (edge_fetch e incoming) (API_BASE_URL None) (pco_runId o1) w = (Inr body, w) \<and>
    js_maybe ''run_id'' body = JStr (pco_runId o1) \<and> js_maybe ''verdict'' body = JStr (verdict_text (pco_verdict o1)) \<and>
    json_norm (JArr (map result_jsv (pco_results o1))) = Some (js_maybe ''results'' body)"
proof -
  let ?url = "''/runs/'' @ encodeURIComponent (pco_runId o1)"
  obtain r where r: "getRun (we_numeral e) db' (pco_runId o1) = Inr (Some r)" "rr_run_id r = pco_runId o1"
      "rr_verdict r = verdict_text (pco_verdict o1)" "json_norm (JArr (map result_jsv (pco_results o1))) = Some (rr_results r)"
      "json_norm (verification_jsv (pco_verification o1)) = Some (rr_verification r)"
      "json_norm (usage_jsv (pco_usage o1)) = Some (rr_usage r)"
      "json_norm (JArr (map evidence_jsv (ver_evidence (pco_verification o1)))) = Some (rr_evidence r)"
    using saved_run_is_served [OF saved(1) distinct, of "we_numeral e"] by blast
  have "keys_distinct (JArr (map result_jsv (pco_results o1)))" using distinct by (simp add: list_all_iff)
  then have "keys_distinct (rr_results r)" "keys_distinct (rr_verification r)" "keys_distinct (rr_usage r)" "keys_distinct (rr_evidence r)"
    using r(4-7) [THEN json_norm_distinct] by (simp_all add: list_all_iff)
  from record_reads_back [OF r(4-7) [THEN json_norm_idem] this, of nm] obtain t
    where t: "json_stringify (run_record_jsv r) = Inr (Some t)" "JSON_parse nm t = Inr (run_record_jsv r)" by blast
  have "get_run e q (encodeURIComponent (pco_runId o1)) db' = json_reply (run_record_jsv r) 200 (cors_headers (wq_origin q))" for q
    by (simp add: get_run_def run_path_decodes(2) [OF ident] r(1))
  then have "\<exists>hs. worker_fetch e (incoming ?url get_init) w = (Inr \<lparr>wr_status = 200, wr_headers = hs, wr_body = Some t\<rparr>, w)"
    using platform saved(2) run_path_decodes(1) [OF ident] t(1)
    by (simp add: worker_fetch_def Let_def liftE_def json_reply_def)
  then have "edge_fetch e incoming ?url get_init w = (Inr \<lparr>hr_status = 200, hr_ok = True, hr_text = t\<rparr>, w)"
    by (auto simp: edge_fetch_def bindP_def returnP_def)
  then have call: "client_getRun nm (edge_fetch e incoming) (API_BASE_URL None) (pco_runId o1) w = (accept_details (run_record_jsv r), w)"
    by (simp add: client_getRun_def api_call_def API_BASE_URL_def read_response_def t(2))
  have fields: "js_maybe ''run_id'' (run_record_jsv r) = JStr (rr_run_id r)" "js_maybe ''verdict'' (run_record_jsv r) = JStr (rr_verdict r)"
      "js_maybe ''results'' (run_record_jsv r) = rr_results r" "js_maybe ''evidence'' (run_record_jsv r) = rr_evidence r"
      "prop_in ''run_id'' (run_record_jsv r) = Inr True"
    by (simp_all add: run_record_jsv_def js_maybe_def js_get_def prop_in_def)
  obtain es where "rr_evidence r = JArr es" using r(7) by (cases "rr_evidence r") simp_all
  then have "accept_details (run_record_jsv r) = Inr (run_record_jsv r)"
    using fields ident(1) r(2) by (simp add: accept_details_def js_truthy_def)
  then show ?thesis using call fields r(2-4) by simp
qed

definition demo_env :: worker_env where
  "demo_env = \<lparr>we_mode = None, we_sha = (\<lambda>s. s), we_numeral = (\<lambda>_. JNonFinite), we_number = (\<lambda>_. NaN), we_sorting = rev\<rparr>"

definition demo_incoming :: "string \<Rightarrow> http_init \<Rightarrow> worker_request" where
  "demo_incoming url init = \<lparr>wq_method = hi_method init, wq_pathname = url, wq_search = (\<lambda>_. None), wq_origin = None,
     wq_contentLength = None, wq_body = []\<rparr>"

definition demo_edge :: "run_row list \<Rightarrow> worker_world" where
  "demo_edge db = \<lparr>ww_db = Some db, ww_host = demo_host\<rparr>"

theorem saved_run_reaches_console_witness:
  "\<exists>db' body. saveRun demo_outcome ''2026-01-01'' [] = Inr db' \<and>
     client_getRun (\<lambda>_. JNonFinite) (edge_fetch demo_env demo_incoming) (API_BASE_URL None) ''r-1'' (demo_edge db') =
       (Inr body, demo_edge db') \<and>
     js_maybe ''run_id'' body = JStr ''r-1''"
proof -
  obtain row where "row_of demo_outcome ''2026-01-01'' = Inr row"
    using row_of_ok [of demo_outcome "''2026-01-01''"] by (auto simp: demo_outcome_def)
  then have save: "saveRun demo_outcome ''2026-01-01'' [] = Inr [row]" by (simp add: saveRun_def)
  have i: "pco_runId demo_outcome = ''r-1''" by (simp add: demo_outcome_def)
  have data: "r \<in> set (pco_results demo_outcome) \<Longrightarrow> keys_distinct (res_output r)" for r by (simp add: demo_outcome_def)
  have "ww_db (demo_edge [row]) = Some [row]" "pco_runId demo_outcome \<noteq> []"
    "list_all (\<lambda>c. (of_char c :: nat) < 128) (pco_runId demo_outcome)"
    by (simp_all add: demo_edge_def i)
  from saved_run_reaches_console [OF save this(1) data this(2,3), where incoming = demo_incoming and e = demo_env and nm = "\<lambda>_. JNonFinite"]
  show ?thesis using save unfolding i by (auto simp: demo_incoming_def get_init_def)
qed

end
