(* ===== verification/Console.thy ===== *)
theory Console
  imports ConsoleKernel ConsoleStack
begin

text \<open>
  The states and the event handlers of the console: \<open>App.tsx\<close>, which runs one task at a time, and
  \<open>TasksPanel.tsx\<close>, which lists the runs of a task.  A handler is a function of the state that its updates
  leave; the components are rendered after every event, so a handler sees the state that is shown.  The
  calls in flight are part of the state; their markup is left out.
\<close>

section \<open>The application\<close>

datatype view = View_home | View_workspace | View_chat | View_tasks | View_files | View_agents | View_projects
  | View_providers | View_keys | View_settings

record app_state =
  app_view :: view
  app_messages :: "chat_message list"
  app_busy :: bool
  app_run :: "agent_run option"
  app_activities :: "ui_activity list"
  app_routeNote :: "string option"
  app_runsCount :: nat
  app_agentState :: agent_state
  app_plan :: agent_plan
  app_project :: project_state
  app_asked :: "string list"

text \<open>What an event takes from \<open>ulid\<close> and the clock.\<close>

record ui_fresh =
  fr_message :: string
  fr_run :: string
  fr_activity :: string
  fr_time :: string

definition initial_app :: app_state where
  "initial_app = \<lparr>app_view = View_home, app_messages = [], app_busy = False, app_run = None, app_activities = [],
     app_routeNote = None, app_runsCount = 0, app_agentState = initialAgentState, app_plan = createUnavailablePlan,
     app_project = \<lparr>pj_id = ''chat-ai'', pj_name = ''Celia'', pj_repository = ''elazamey/chat.ai'', pj_section = Sec_overview\<rparr>,
     app_asked = []\<rparr>"

definition route_note :: "string \<Rightarrow> string" where
  "route_note clean =
     (let type = guessType clean in
      case routeTask type (type = Coding \<or> type = Planning) of
        Some m \<Rightarrow> model_providerId m @ '' '' @ u_text [183] @ '' '' @ model_id m
      | None \<Rightarrow> u_text [1604, 1575, 32, 1606, 1605, 1608, 1584, 1580, 32, 1605, 1578, 1575, 1581])"

definition new_run :: "string \<Rightarrow> string \<Rightarrow> agent_run" where
  "new_run i goal = \<lparr>ar_id = ''run_'' @ i, ar_project = ''elazamey/chat.ai'', ar_goal = goal, ar_state = Shown_running,
     ar_nodes = [], ar_files = [], ar_error = None, ar_backendRunId = JUndefined, ar_taskId = JUndefined,
     ar_verdict = JUndefined, ar_evidenceCount = JUndefined, ar_evidence = JUndefined\<rparr>"

text \<open>\<open>submitGoal\<close> up to its call of \<open>runTask\<close>.\<close>

definition submit_goal :: "ui_fresh \<Rightarrow> string \<Rightarrow> app_state \<Rightarrow> app_state" where
  "submit_goal fr goal st =
     (let clean = js_trim goal in
      if clean = [] \<or> app_busy st then st
      else st\<lparr>app_messages := app_messages st @
          [\<lparr>cm_id = ''u_'' @ fr_message fr, cm_role = From_user, cm_content = clean, cm_time = fr_time fr, cm_meta = None\<rparr>],
        app_routeNote := Some (route_note clean), app_view := View_workspace, app_busy := True,
        app_agentState := transitionAgentState (transitionAgentState (app_agentState st) Ev_planning) (Ev_started JUndefined),
        app_runsCount := app_runsCount st + 1,
        app_run := Some (new_run (fr_run fr) clean),
        app_activities := [\<lparr>ua_id = ''a_'' @ fr_activity fr, ua_kind = By_agent,
          ua_text = u_text [1576, 1583, 1571, 1578, 32, 67, 101, 108, 105, 97, 32, 1578, 1581, 1604, 1610, 1604,
       32, 1575, 1604, 1605, 1607, 1605, 1577],
          ua_detail = None, ua_time = fr_time fr\<rparr>],
        app_asked := app_asked st @ [clean]\<rparr>)"

text \<open>\<open>v.length\<close>; a text has the length of its UTF-16 form.\<close>

definition utf16_length :: "string \<Rightarrow> nat" where
  "utf16_length s =
     sum_list (map (\<lambda>c. let n = of_char c :: nat in if n < 128 then 1 else if n < 192 then 0 else if n < 240 then 1 else 2) s)"

definition length_of :: "jsv \<Rightarrow> js_error + jsv" where
  "length_of v =
     (case v of
        JArr vs \<Rightarrow> Inr (JNum (int (length vs)))
      | JStr s \<Rightarrow> Inr (JNum (int (utf16_length s)))
      | _ \<Rightarrow> js_get ''length'' v)"

text \<open>The rest of \<open>submitGoal\<close> after an outcome; its updates read the evidence, and an exception of theirs is one
  of the rendering.\<close>

definition settle_done :: "ui_fresh \<Rightarrow> jsv \<Rightarrow> app_state \<Rightarrow> js_error + app_state" where
  "settle_done fr outcome st =
     (let v = js_maybe ''verdict'' outcome; evidence = js_maybe ''evidence'' outcome; runId = js_maybe ''run_id'' outcome in
      bindE (length_of evidence) (\<lambda>count.
        Inr (st\<lparr>app_agentState := transitionAgentState (app_agentState st) (Ev_completed runId v),
          app_run := map_option (\<lambda>r. r\<lparr>ar_state := if v = JStr ''PASSED'' then Shown_completed else Shown_failed, ar_nodes := [],
            ar_backendRunId := runId, ar_taskId := js_maybe ''task_id'' outcome, ar_verdict := v,
            ar_evidenceCount := count, ar_evidence := evidence\<rparr>) (app_run st),
          app_activities := app_activities st @ [\<lparr>ua_id = ''a_'' @ fr_activity fr, ua_kind = By_tool,
            ua_text = u_text [1575, 1603, 1578, 1605, 1604, 32, 1575, 1604, 1578, 1606, 1601, 1610, 1584, 58,
       32] @ template_text v,
            ua_detail = Some (template_text count @ '' evidence items''), ua_time = fr_time fr\<rparr>],
          app_messages := app_messages st @ [\<lparr>cm_id = ''m_'' @ fr_message fr, cm_role = From_assistant,
            cm_content = u_text [1575, 1603, 1578, 1605, 1604, 32, 1575, 1604, 1578, 1606, 1601, 1610, 1584, 32,
       1593, 1576, 1585, 32, 65, 80, 73, 58, 32] @ template_text v,
            cm_time = fr_time fr,
            cm_meta = Some (template_text (js_maybe ''mode'' outcome) @ '' '' @ u_text [183] @ '' run '' @ template_text runId)\<rparr>],
          app_busy := False\<rparr>)))"

definition error_text :: "client_error \<Rightarrow> string" where
  "error_text e = (case e of RunRequestError _ msg \<Rightarrow> msg | Type_error msg \<Rightarrow> msg)"

definition error_kind :: "client_error \<Rightarrow> string" where
  "error_kind e =
     (case e of
        RunRequestError Network _ \<Rightarrow> ''network''
      | RunRequestError Api_rejected _ \<Rightarrow> ''api_rejected''
      | RunRequestError Infrastructure_unavailable _ \<Rightarrow> ''infrastructure_unavailable''
      | _ \<Rightarrow> ''invalid_response'')"

definition settle_failed :: "ui_fresh \<Rightarrow> client_error \<Rightarrow> app_state \<Rightarrow> app_state" where
  "settle_failed fr e st =
     st\<lparr>app_agentState := transitionAgentState (app_agentState st) (Ev_failed (error_text e)),
       app_run := map_option (\<lambda>r. r\<lparr>ar_state := Shown_failed, ar_error := Some (error_text e), ar_nodes := []\<rparr>) (app_run st),
       app_activities := app_activities st @ [\<lparr>ua_id = ''a_'' @ fr_activity fr, ua_kind = By_system,
         ua_text = u_text [1601, 1588, 1604, 32, 1575, 1604, 1591, 1604, 1576, 32, 40] @ error_kind e @ '')'',
         ua_detail = Some (error_text e), ua_time = fr_time fr\<rparr>],
       app_messages := app_messages st @ [\<lparr>cm_id = ''m_'' @ fr_message fr, cm_role = From_assistant,
         cm_content = u_text [1578, 1593, 1584, 1585, 32, 1578, 1606, 1601, 1610, 1584, 32, 1575, 1604, 1605, 1607,
       1605, 1577, 32, 1593, 1576, 1585, 32, 65, 80, 73, 58, 32] @ error_text e,
         cm_time = fr_time fr, cm_meta = None\<rparr>],
       app_busy := False\<rparr>"

definition choose_section :: "project_section \<Rightarrow> app_state \<Rightarrow> app_state" where
  "choose_section s st =
     st\<lparr>app_project := (app_project st)\<lparr>pj_section := s\<rparr>,
       app_view := (if s = Sec_agent then View_workspace else if s = Sec_chat then View_chat else app_view st)\<rparr>"

text \<open>The console is shown, or an exception of its rendering has removed it.\<close>

datatype console = Showing app_state | Gone js_error

datatype console_event = Submit ui_fresh string | Settled ui_fresh "client_error + jsv" | Go view | Section project_section

definition settle :: "ui_fresh \<Rightarrow> client_error + jsv \<Rightarrow> app_state \<Rightarrow> console" where
  "settle fr res st =
     (case res of
        Inl e \<Rightarrow> Showing (settle_failed fr e st)
      | Inr outcome \<Rightarrow> (case settle_done fr outcome st of Inl e \<Rightarrow> Gone e | Inr st' \<Rightarrow> Showing st'))"

inductive console_step :: "console \<Rightarrow> console_event \<Rightarrow> console \<Rightarrow> bool" where
  submits: "console_step (Showing st) (Submit fr goal) (Showing (submit_goal fr goal st))"
| settles: "app_asked st = before @ t # after \<Longrightarrow>
    console_step (Showing st) (Settled fr res) (settle fr res (st\<lparr>app_asked := before @ after\<rparr>))"
| goes: "console_step (Showing st) (Go v) (Showing (st\<lparr>app_view := v\<rparr>))"
| sections: "console_step (Showing st) (Section s) (Showing (choose_section s st))"

inductive console_reach :: "console \<Rightarrow> bool" where
  starts: "console_reach (Showing initial_app)"
| steps: "console_reach c \<Longrightarrow> console_step c ev c' \<Longrightarrow> console_reach c'"

inductive_cases step_shown: "console_step (Showing st) ev c"
inductive_cases step_gone: "console_step (Gone e) ev c"

section \<open>The list of tasks\<close>

record tasks_panel =
  tp_tasks :: "jsv list option"
  tp_runs :: "jsv list option"
  tp_taskId :: string
  tp_activeTaskId :: string
  tp_error :: "string option"
  tp_asked :: "string list"

definition initial_panel :: tasks_panel where
  "initial_panel = \<lparr>tp_tasks = None, tp_runs = None, tp_taskId = [], tp_activeTaskId = [], tp_error = None, tp_asked = []\<rparr>"

text \<open>The effect of mounting, when \<open>listTasks\<close> settles before the panel is left.\<close>

definition panel_tasks :: "client_error + jsv list \<Rightarrow> tasks_panel \<Rightarrow> tasks_panel" where
  "panel_tasks res p =
     (case res of
        Inr items \<Rightarrow> p\<lparr>tp_tasks := Some items\<rparr>
      | Inl (RunRequestError _ msg) \<Rightarrow> p\<lparr>tp_error := Some msg\<rparr>
      | Inl (Type_error _) \<Rightarrow> p\<lparr>tp_error := Some (
          u_text [1578, 1593, 1584, 1585, 32, 1578, 1581, 1605, 1610, 1604, 32, 1587, 1580, 1604, 32, 1575, 1604,
       1605, 1607, 1575, 1605, 46])\<rparr>)"

definition panel_submit :: "tasks_panel \<Rightarrow> tasks_panel" where
  "panel_submit p =
     (let v = js_trim (tp_taskId p); q = p\<lparr>tp_error := None, tp_activeTaskId := v, tp_runs := None\<rparr> in
      if v = [] then q else q\<lparr>tp_asked := tp_asked p @ [v]\<rparr>)"

text \<open>A call of \<open>listRuns\<close> settles.\<close>

definition panel_runs :: "client_error + jsv list \<Rightarrow> tasks_panel \<Rightarrow> tasks_panel" where
  "panel_runs res p =
     (case res of
        Inr items \<Rightarrow> p\<lparr>tp_runs := Some items\<rparr>
      | Inl (RunRequestError _ msg) \<Rightarrow> p\<lparr>tp_error := Some msg\<rparr>
      | Inl (Type_error _) \<Rightarrow> p\<lparr>tp_error := Some (
          u_text [1578, 1593, 1584, 1585, 32, 1578, 1581, 1605, 1610, 1604, 32, 1578, 1588, 1594, 1610, 1604, 1575,
       1578, 32, 1575, 1604, 1605, 1607, 1605, 1577, 46])\<rparr>)"

datatype panel_view = Shows_error string | Shows_loading | Shows_runs string "jsv list" | Shows_no_runs string
  | Shows_tasks "jsv list" | Shows_nothing

definition panel_view_of :: "tasks_panel \<Rightarrow> panel_view" where
  "panel_view_of p =
     (case tp_error p of
        Some (c # cs) \<Rightarrow> Shows_error (c # cs)
      | _ \<Rightarrow>
          (case tp_tasks p of
             None \<Rightarrow> Shows_loading
           | Some tasks \<Rightarrow>
               if tp_activeTaskId p \<noteq> [] then
                 (case tp_runs p of Some (r # rs) \<Rightarrow> Shows_runs (tp_activeTaskId p) (r # rs) | _ \<Rightarrow> Shows_no_runs (tp_activeTaskId p))
               else if tasks \<noteq> [] then Shows_tasks tasks else Shows_nothing))"

definition form_shown :: "tasks_panel \<Rightarrow> bool" where
  "form_shown p = (case panel_view_of p of Shows_error _ \<Rightarrow> False | Shows_loading \<Rightarrow> False | _ \<Rightarrow> True)"

text \<open>The panel against a server with the runs \<open>rows t\<close> of each task, whose answers arrive in any order; a patient
  user does not submit while a call is in flight.\<close>

inductive panel_reach :: "bool \<Rightarrow> (string \<Rightarrow> jsv list) \<Rightarrow> tasks_panel \<Rightarrow> bool" for patient rows where
  mounted: "panel_reach patient rows initial_panel"
| listed: "panel_reach patient rows p \<Longrightarrow> panel_reach patient rows (panel_tasks res p)"
| typed: "panel_reach patient rows p \<Longrightarrow> form_shown p \<Longrightarrow> panel_reach patient rows (p\<lparr>tp_taskId := s\<rparr>)"
| submitted: "panel_reach patient rows p \<Longrightarrow> form_shown p \<Longrightarrow> (patient \<Longrightarrow> tp_asked p = []) \<Longrightarrow>
    panel_reach patient rows (panel_submit p)"
| answered: "panel_reach patient rows p \<Longrightarrow> tp_asked p = before @ t # after \<Longrightarrow> res = Inr (rows t) \<or> res = Inl e \<Longrightarrow>
    panel_reach patient rows (panel_runs res (p\<lparr>tp_asked := before @ after\<rparr>))"

section \<open>Properties\<close>

text \<open>The turns of a conversation of \<open>n\<close> goals.\<close>

definition turns :: "nat \<Rightarrow> chat_role list" where
  "turns n = concat (replicate n [From_user, From_assistant])"

lemma turns_Suc: "turns (Suc n) = turns n @ [From_user, From_assistant]"
  by (induction n) (simp_all add: turns_def)

definition console_ok :: "app_state \<Rightarrow> bool" where
  "console_ok st \<longleftrightarrow>
     app_busy st = (app_asked st \<noteq> []) \<and>
     map cm_role (app_messages st) @ replicate (length (app_asked st)) From_assistant = turns (app_runsCount st) \<and>
     (case app_run st of
        None \<Rightarrow> app_asked st = [] \<and> app_agentState st = initialAgentState \<and> app_runsCount st = 0
      | Some r \<Rightarrow>
          if app_asked st = [] then
            (as_state (app_agentState st), ar_state r) \<in> {(Is_completed, Shown_completed), (Is_failed, Shown_failed)} \<and>
            (ar_state r = Shown_completed) = (ar_verdict r = JStr ''PASSED'')
          else app_asked st = [ar_goal r] \<and> as_state (app_agentState st) = Is_running \<and> ar_state r = Shown_running \<and>
            ar_verdict r = JUndefined)"

lemma ok_submit: "console_ok st \<Longrightarrow> console_ok (submit_goal fr goal st)"
  by (cases "app_run st") (auto simp: submit_goal_def Let_def console_ok_def new_run_def transitionAgentState_def turns_Suc)

lemma ok_settle:
  assumes "console_ok st" "app_asked st = before @ t # after" "settle fr res (st\<lparr>app_asked := before @ after\<rparr>) = Showing st'"
  shows "console_ok st'"
proof -
  obtain r where r: "app_run st = Some r" "app_asked st = [t]" "before = []" "after = []" "ar_verdict r = JUndefined"
    using assms(1,2) by (cases "app_run st") (auto simp: console_ok_def append_eq_Cons_conv split: if_splits)
  show ?thesis using assms(1,3) r
    by (auto simp: settle_def settle_failed_def settle_done_def console_ok_def transitionAgentState_def Let_def bindE_Inr
        split: sum.splits if_splits)
qed

lemma reach_ok: "console_reach c \<Longrightarrow> c = Showing st \<Longrightarrow> console_ok st"
proof (induction arbitrary: st rule: console_reach.induct)
  case starts
  then show ?case by (auto simp: initial_app_def console_ok_def turns_def)
next
  case (steps c ev c')
  have "console_step c ev (Showing st)" using steps.hyps(2) steps.prems by simp
  moreover from this obtain now where "c = Showing now" by cases auto
  ultimately have "console_step (Showing now) ev (Showing st)" and now: "c = Showing now" "console_ok now"
    using steps.IH by simp_all
  from this(1) show ?case
  proof (cases rule: console_step.cases)
    case (submits fr goal)
    then show ?thesis using ok_submit now(2) by simp
  next
    case (settles before t after fr res)
    then show ?thesis using ok_settle now(2) by metis
  next
    case (goes v)
    then show ?thesis using now(2) by (cases "app_run now") (auto simp: console_ok_def split: if_splits)
  next
    case (sections s)
    then show ?thesis using now(2) by (cases "app_run now") (auto simp: console_ok_def choose_section_def split: if_splits)
  qed
qed

text \<open>C17.  The console runs one task at a time and shows what came of it: in every reachable state at most one
  call is in flight, and then the console is busy and shows the goal of that call as running; otherwise the
  agent's state and the run agree, completed exactly when the server's verdict is PASSED; and every goal of
  the conversation has one answer, save the one in flight.\<close>

theorem console_shows_its_run:
  assumes "console_reach (Showing st)"
  shows "app_busy st = (app_asked st \<noteq> []) \<and>
    map cm_role (app_messages st) @ replicate (length (app_asked st)) From_assistant = turns (app_runsCount st) \<and>
    (case app_run st of
       None \<Rightarrow> app_asked st = [] \<and> app_agentState st = initialAgentState
     | Some r \<Rightarrow>
         if app_busy st then app_asked st = [ar_goal r] \<and> as_state (app_agentState st) = Is_running \<and> ar_state r = Shown_running
         else (as_state (app_agentState st), ar_state r) =
           (if ar_verdict r = JStr ''PASSED'' then (Is_completed, Shown_completed) else (Is_failed, Shown_failed)))"
  using reach_ok [OF assms refl] by (auto simp: console_ok_def split: option.splits if_splits)

definition demo_fresh :: ui_fresh where
  "demo_fresh = \<lparr>fr_message = ''1'', fr_run = ''2'', fr_activity = ''3'', fr_time = ''10:00''\<rparr>"

theorem console_shows_its_run_witness:
  "console_reach (Showing (submit_goal demo_fresh ''build'' initial_app)) \<and>
   app_asked (submit_goal demo_fresh ''build'' initial_app) = [''build''] \<and>
   as_state (app_agentState (submit_goal demo_fresh ''build'' initial_app)) = Is_running"
proof -
  have reach: "console_reach (Showing (submit_goal demo_fresh ''build'' initial_app))"
    by (rule console_reach.steps [OF starts submits])
  have "js_trim ''build'' = ''build''" by (rule js_trim_plain) (simp_all add: printable_def)
  then have "app_busy (submit_goal demo_fresh ''build'' initial_app)"
    "app_run (submit_goal demo_fresh ''build'' initial_app) = Some (new_run ''2'' ''build'')"
    by (simp_all add: submit_goal_def Let_def initial_app_def demo_fresh_def)
  then show ?thesis using console_shows_its_run [OF reach] reach by (simp add: new_run_def)
qed

text \<open>An outcome that the API server has sent is rendered: its evidence is a list.\<close>

lemma served_outcome_renders:
  assumes "json_norm (publicOutcome o1) = Some v"
  shows "\<exists>n. length_of (js_maybe ''evidence'' v) = Inr (JNum n)"
proof -
  obtain a b where "json_norm (verification_jsv (pco_verification o1)) = Some a" "json_norm (usage_jsv (pco_usage o1)) = Some b"
    by (simp add: verification_jsv_def usage_jsv_def)
  then show ?thesis using assms by (auto simp: publicOutcome_def js_maybe_def js_get_def length_of_def)
qed

text \<open>C18.  For a user who waits for an answer before asking again, the panel shows the runs of the task that its
  heading names, whatever fails in between.\<close>

theorem panel_shows_its_task:
  assumes "panel_reach True rows p" "panel_view_of p = Shows_runs t rs"
  shows "rs = rows t"
proof -
  have "(tp_asked p = [] \<or> tp_asked p = [tp_activeTaskId p] \<and> tp_runs p = None) \<and>
    (case tp_runs p of None \<Rightarrow> True | Some rs \<Rightarrow> rs = rows (tp_activeTaskId p))"
    using assms(1)
  proof induction
    case (answered p before t after res e)
    then show ?case by (auto simp: panel_runs_def append_eq_Cons_conv split: option.splits client_error.splits)
  qed (auto simp: initial_panel_def panel_tasks_def panel_submit_def Let_def split: sum.splits client_error.splits option.splits)
  then show ?thesis using assms(2)
    by (auto simp: panel_view_of_def split: option.splits list.splits if_splits)
qed

lemma panel_example:
  assumes "p = panel_tasks (Inr []) initial_panel" "js_trim a = a" "a \<noteq> []"
  shows "panel_reach b rows (panel_submit (p\<lparr>tp_taskId := a\<rparr>))"
    "panel_submit (p\<lparr>tp_taskId := a\<rparr>) = \<lparr>tp_tasks = Some [], tp_runs = None, tp_taskId = a, tp_activeTaskId = a, tp_error = None, tp_asked = [a]\<rparr>"
proof -
  have p: "panel_reach b rows p" "form_shown p" "form_shown (p\<lparr>tp_taskId := a\<rparr>)" "tp_asked (p\<lparr>tp_taskId := a\<rparr>) = []"
    using mounted [THEN listed, of b rows "Inr []"] assms(1)
    by (simp_all add: panel_tasks_def initial_panel_def form_shown_def panel_view_of_def)
  show "panel_reach b rows (panel_submit (p\<lparr>tp_taskId := a\<rparr>))"
    by (rule submitted [OF typed [OF p(1,2)] p(3)]) (rule p(4))
  show "panel_submit (p\<lparr>tp_taskId := a\<rparr>) = \<lparr>tp_tasks = Some [], tp_runs = None, tp_taskId = a, tp_activeTaskId = a, tp_error = None, tp_asked = [a]\<rparr>"
    using assms by (simp add: panel_submit_def panel_tasks_def initial_panel_def)
qed

theorem panel_shows_its_task_witness:
  "\<exists>p. panel_reach True (\<lambda>t. [JStr t]) p \<and> panel_view_of p = Shows_runs ''a'' [JStr ''a'']"
proof -
  have trim: "js_trim ''a'' = ''a''" by (rule js_trim_plain) (simp_all add: printable_def)
  note p = panel_example [OF refl trim, simplified]
  define q :: tasks_panel where
    "q = panel_runs (Inr [JStr ''a'']) (\<lparr>tp_tasks = Some [], tp_runs = None, tp_taskId = ''a'', tp_activeTaskId = ''a'', tp_error = None, tp_asked = []\<rparr>)"
  have "panel_reach True (\<lambda>t. [JStr t]) q" unfolding q_def
    using answered [OF p(1) [of True "\<lambda>t. [JStr t]"], of "[]" "''a''" "[]"] by (simp add: p(2))
  moreover have "panel_view_of q = Shows_runs ''a'' [JStr ''a'']" by (simp add: q_def panel_runs_def panel_view_of_def)
  moreover have "[JStr ''a''] = (\<lambda>t. [JStr t]) ''a''" by (rule panel_shows_its_task [OF calculation])
  ultimately show ?thesis by blast
qed

text \<open>Without that patience the panel can show the runs of one task under the name of another: the answers of two
  calls arrive in the opposite order.\<close>

lemma panel_shows_stale_runs:
  "\<exists>p. panel_reach False (\<lambda>t. [JStr t]) p \<and> tp_asked p = [] \<and> panel_view_of p = Shows_runs ''b'' [JStr ''a'']"
proof -
  have trim_a: "js_trim ''a'' = ''a''" by (rule js_trim_plain) (simp_all add: printable_def)
  have trim: "js_trim ''b'' = ''b''" by (rule js_trim_plain) (simp_all add: printable_def)
  note p = panel_example [OF refl trim_a, simplified]
  let ?rows = "\<lambda>t. [JStr t]"
  let ?p = "\<lparr>tp_tasks = Some [], tp_runs = None, tp_taskId = ''a'', tp_activeTaskId = ''a'', tp_error = None, tp_asked = [''a'']\<rparr>"
  have "panel_reach False ?rows ?p" using p(1) [of False ?rows] by (simp add: p(2))
  from submitted [OF typed [OF this, of "''b''"]]
  have "panel_reach False ?rows (panel_submit (?p\<lparr>tp_taskId := ''b''\<rparr>))" by (simp add: form_shown_def panel_view_of_def)
  then have "panel_reach False ?rows (?p\<lparr>tp_taskId := ''b'', tp_activeTaskId := ''b'', tp_asked := [''a'', ''b'']\<rparr>)"
    by (simp add: panel_submit_def trim Let_def)
  from answered [OF this, of "[''a'']" "''b''" "[]" "Inr [JStr ''b'']"]
  have "panel_reach False ?rows (panel_runs (Inr [JStr ''b'']) (?p\<lparr>tp_taskId := ''b'', tp_activeTaskId := ''b''\<rparr>))" by simp
  from answered [OF this, of "[]" "''a''" "[]" "Inr [JStr ''a'']"]
  have "panel_reach False ?rows (\<lparr>tp_tasks = Some [], tp_runs = Some [JStr ''a''], tp_taskId = ''b'', tp_activeTaskId = ''b'', tp_error = None, tp_asked = []\<rparr>)"
    by (simp add: panel_runs_def)
  then show ?thesis by (intro exI conjI) (assumption, simp_all add: panel_view_of_def)
qed

end
