(* ===== verification/Progress.thy ===== *)
theory Progress
  imports Async
begin

text \<open>
  Progress of pools.  A computation \<^emph>\<open>owes\<close> a condition if it reaches it before it returns.  It is
  \<^emph>\<open>hungry\<close> for a job if it does not return while the job is waiting, and owes the job's condition once
  it has taken it.  A pool of hungry computations that has returned has reached the condition, in every
  interleaving, unless somebody stopped it.
\<close>

section \<open>Owing\<close>

text \<open>Every path of the computation, through states that satisfy \<open>I\<close>, ends a segment in \<open>Q\<close> or throws.\<close>

primrec owes :: "('s \<Rightarrow> bool) \<Rightarrow> ('s \<Rightarrow> bool) \<Rightarrow> ('s, 'a) res \<Rightarrow> bool" where
  "owes I Q (Ret a) = False"
| "owes I Q (Throw e) = True"
| "owes I Q (Await g k) = (\<forall>s. I s \<longrightarrow> (case map_prod (owes I Q) id (k s) of (b, s') \<Rightarrow> Q s' \<or> b))"

definition met :: "('s \<Rightarrow> bool) \<Rightarrow> ('s \<Rightarrow> bool) \<Rightarrow> ('s, 'a) res \<times> 's \<Rightarrow> bool" where
  "met I Q x \<longleftrightarrow> Q (snd x) \<or> owes I Q (fst x)"

definition owesA :: "('s \<Rightarrow> bool) \<Rightarrow> ('s \<Rightarrow> bool) \<Rightarrow> ('s, 'a) async \<Rightarrow> bool" where
  "owesA I Q m \<longleftrightarrow> (\<forall>s. I s \<longrightarrow> met I Q (m s))"

lemma owes_Await: "owes I Q (Await g k) \<longleftrightarrow> owesA I Q k"
  by (auto simp: owesA_def met_def case_prod_beta)

lemma owesA_D: "owesA I Q m \<Longrightarrow> I s \<Longrightarrow> met I Q (m s)"
  by (simp add: owesA_def)

lemma met_simps [simp]:
  "met I Q (Ret a, s) = Q s" "met I Q (Throw e, s)" "met I Q (Await g k, s) = (Q s \<or> owesA I Q k)"
  by (simp_all add: met_def owes_Await del: owes.simps(3))

lemma keeps_seg: "keeps I (Await g k) \<Longrightarrow> k s = (r, s') \<Longrightarrow> keeps I r \<and> (I s \<longrightarrow> I s')"
  unfolding keeps_Await keepsA_def by (metis fst_conv snd_conv)

text \<open>What comes last may owe it, what comes first may have met it.\<close>

lemma owesA_bind_res: "keeps I r \<Longrightarrow> (\<And>a. owesA I Q (f a)) \<Longrightarrow> owesA I Q (bind_res f r)"
proof (induction r)
  case (Await g k)
  have "owesA I Q (\<lambda>t. case map_prod (bind_res f) id (k t) of (m, t') \<Rightarrow> m t')"
    unfolding owesA_def
  proof (intro allI impI)
    fix t assume t: "I t"
    obtain r t' where k: "k t = (r, t')" by (cases "k t")
    have mem: "r \<in> Basic_BNFs.fsts (k t)" by (simp add: k prod_set_simps)
    have r: "keeps I r" "I t'" using keeps_seg [OF Await.prems(1) k] t by simp_all
    show "met I Q (case map_prod (bind_res f) id (k t) of (m, t') \<Rightarrow> m t')"
      using owesA_D [OF Await.IH [OF rangeI mem r(1) Await.prems(2)] r(2)] by (simp add: k)
  qed
  then show ?case by (simp add: owesA_def)
qed (simp_all add: owesA_def)

lemma owesA_last: "keepsA I m \<Longrightarrow> (\<And>a. owesA I Q (f a)) \<Longrightarrow> owesA I Q (bindA m f)"
  using owesA_bind_res [of I _ Q f] by (auto simp: owesA_def keepsA_def bindA_def case_prod_beta)

lemma met_bind_res: "met I Q (r, s) \<Longrightarrow> (\<And>a. keepsA Q (f a)) \<Longrightarrow> met I Q (bind_res f r s)"
proof (induction r arbitrary: s)
  case (Ret a)
  then show ?case by (simp add: met_def keepsA_def)
next
  case (Await g k)
  show ?case
  proof (cases "Q s")
    case False
    then have k: "owesA I Q k" using Await.prems(1) by simp
    have "owesA I Q (\<lambda>t. case map_prod (bind_res f) id (k t) of (m, t') \<Rightarrow> m t')"
      unfolding owesA_def
    proof (intro allI impI)
      fix t assume t: "I t"
      obtain r t' where r: "k t = (r, t')" by (cases "k t")
      have mem: "r \<in> Basic_BNFs.fsts (k t)" by (simp add: r prod_set_simps)
      show "met I Q (case map_prod (bind_res f) id (k t) of (m, t') \<Rightarrow> m t')"
        using Await.IH [OF rangeI mem _ Await.prems(2)] owesA_D [OF k t] by (simp add: r)
    qed
    then show ?thesis by simp
  qed simp
qed simp

lemma owesA_first: "owesA I Q m \<Longrightarrow> (\<And>a. keepsA Q (f a)) \<Longrightarrow> owesA I Q (bindA m f)"
  using met_bind_res [of I Q _ _ f] by (auto simp: owesA_def bindA_def case_prod_beta)

lemma met_catch_res:
  "met I Q (r, s) \<Longrightarrow> keeps I r \<Longrightarrow> I s \<Longrightarrow> (\<And>e. owesA I Q (h e)) \<Longrightarrow> met I Q (catch_res h r s)"
proof (induction r arbitrary: s)
  case (Throw e)
  then show ?case by (simp add: owesA_def)
next
  case (Await g k)
  show ?case
  proof (cases "Q s")
    case False
    then have k: "owesA I Q k" using Await.prems(1) by simp
    have "owesA I Q (\<lambda>t. case map_prod (catch_res h) id (k t) of (m, t') \<Rightarrow> m t')"
      unfolding owesA_def
    proof (intro allI impI)
      fix t assume t: "I t"
      obtain r t' where r: "k t = (r, t')" by (cases "k t")
      have mem: "r \<in> Basic_BNFs.fsts (k t)" by (simp add: r prod_set_simps)
      have i: "keeps I r" "I t'" using keeps_seg [OF Await.prems(2) r] t by simp_all
      show "met I Q (case map_prod (catch_res h) id (k t) of (m, t') \<Rightarrow> m t')"
        using Await.IH [OF rangeI mem _ i Await.prems(4)] owesA_D [OF k t] by (simp add: r)
    qed
    then show ?thesis by simp
  qed simp
qed simp

lemma owesA_catch: "owesA I Q m \<Longrightarrow> keepsA I m \<Longrightarrow> (\<And>e. owesA I Q (h e)) \<Longrightarrow> owesA I Q (catchA m h)"
  using met_catch_res [of I Q _ _ h] by (auto simp: owesA_def keepsA_def catchA_def case_prod_beta)

lemma owesA_throw: "owesA I Q (throwA e)"
  by (simp add: owesA_def throwA_def)

lemma owesA_sync: "(\<And>s a s'. I s \<Longrightarrow> p s = (Inr a, s') \<Longrightarrow> Q s') \<Longrightarrow> owesA I Q (syncA p)"
  by (auto simp: owesA_def syncA_def sumR_def met_def split: prod.split sum.split)

lemma owesA_await_throw: "owesA I Q (awaitA (throwP e))"
  by (simp add: owesA_def awaitA_def throwP_def sumR_def)

lemma owesA_awaited: "owesA I Q m \<Longrightarrow> keepsA I m \<Longrightarrow> owesA I Q (awaited m)"
  unfolding awaited_def
  by (intro owesA_first owesA_catch owesA_await_throw keepsA_await keepsP_return)

lemma owesA_finally: "owesA I Q m \<Longrightarrow> keepsA I m \<Longrightarrow> (\<And>s. Q s \<Longrightarrow> Q (p s)) \<Longrightarrow> owesA I Q (finallyA m p)"
  unfolding finallyA_def
  by (intro owesA_first owesA_catch) (simp_all add: owesA_def keepsA_def)

lemma owesA_if: "(\<And>s. I s \<Longrightarrow> b s \<Longrightarrow> Q (snd (m s))) \<Longrightarrow> owesA I Q n \<Longrightarrow> owesA I Q (\<lambda>s. if b s then m s else n s)"
  by (auto simp: owesA_def met_def)

lemma met_first: "met I Q (m s) \<Longrightarrow> (\<And>a. keepsA Q (f a)) \<Longrightarrow> met I Q (bindA m f s)"
  using met_bind_res [of I Q "fst (m s)" "snd (m s)" f] by (simp add: bindA_def case_prod_beta)

lemma met_awaited:
  assumes "met I Q (m s)" "keepsA I m" "I s"
  shows "met I Q (awaited m s)"
proof -
  have "met I Q (catchA m (\<lambda>e. awaitA (throwP e)) s)"
    using assms met_catch_res [of I Q "fst (m s)" "snd (m s)"] by (simp add: catchA_def case_prod_beta keepsA_def owesA_await_throw)
  then show ?thesis unfolding awaited_def by (rule met_first) (intro keepsA_await keepsP_return)
qed

section \<open>Hunger\<close>

text \<open>\<open>W\<close> says that the job is waiting, \<open>size_q\<close> is the number of jobs that wait, \<open>stop\<close> says that the pool has
  been stopped.  A computation is hungry with \<open>n\<close> if this holds as long as at most \<open>n\<close> jobs wait.\<close>

primrec hungry ::
  "('s \<Rightarrow> bool) \<Rightarrow> ('s \<Rightarrow> bool) \<Rightarrow> ('s \<Rightarrow> nat) \<Rightarrow> ('s \<Rightarrow> bool) \<Rightarrow> ('s \<Rightarrow> bool) \<Rightarrow> ('s, 'a) res \<Rightarrow> nat \<Rightarrow> bool" where
  "hungry I W L Q stop (Ret a) = (\<lambda>n. n = 0)"
| "hungry I W L Q stop (Throw e) = (\<lambda>n. True)"
| "hungry I W L Q stop (Await g k) = (\<lambda>n. \<forall>s. I s \<and> W s \<and> L s \<le> n \<longrightarrow>
     (case map_prod (hungry I W L Q stop) id (k s) of (h, s') \<Rightarrow>
        stop s' \<or> Q s' \<or> owes I Q (fst (k s)) \<or> W s' \<and> (\<exists>m. L s' \<le> m \<and> h m)))"

definition working ::
  "('s \<Rightarrow> bool) \<Rightarrow> ('s \<Rightarrow> bool) \<Rightarrow> ('s \<Rightarrow> nat) \<Rightarrow> ('s \<Rightarrow> bool) \<Rightarrow> ('s \<Rightarrow> bool) \<Rightarrow> ('s, 'a) res \<times> 's \<Rightarrow> bool" where
  "working I W L Q stop x \<longleftrightarrow> stop (snd x) \<or> Q (snd x) \<or> owes I Q (fst x) \<or>
     W (snd x) \<and> (\<exists>m. L (snd x) \<le> m \<and> hungry I W L Q stop (fst x) m)"

definition hungryA ::
  "('s \<Rightarrow> bool) \<Rightarrow> ('s \<Rightarrow> bool) \<Rightarrow> ('s \<Rightarrow> nat) \<Rightarrow> ('s \<Rightarrow> bool) \<Rightarrow> ('s \<Rightarrow> bool) \<Rightarrow> nat \<Rightarrow> ('s, 'a) async \<Rightarrow> bool" where
  "hungryA I W L Q stop n m \<longleftrightarrow> (\<forall>s. I s \<and> W s \<and> L s \<le> n \<longrightarrow> working I W L Q stop (m s))"

lemma hungry_Await: "hungry I W L Q stop (Await g k) n \<longleftrightarrow> hungryA I W L Q stop n k"
  by (auto simp: hungryA_def working_def case_prod_beta)

lemma hungryA_D: "hungryA I W L Q stop n m \<Longrightarrow> I s \<Longrightarrow> W s \<Longrightarrow> L s \<le> n \<Longrightarrow> working I W L Q stop (m s)"
  by (simp add: hungryA_def)

lemma met_working: "met I Q x \<Longrightarrow> working I W L Q stop x"
  by (auto simp: met_def working_def)

text \<open>A computation that leaves the jobs alone, then a hungry one.\<close>

lemma hungryA_bind_res:
  "keeps I r \<Longrightarrow> keeps W r \<Longrightarrow> (\<And>c. keeps (\<lambda>s. L s \<le> c) r) \<Longrightarrow> (\<And>a. hungryA I W L Q stop n (f a)) \<Longrightarrow>
    hungryA I W L Q stop n (bind_res f r)"
proof (induction r)
  case (Throw e)
  then show ?case by (auto simp: hungryA_def working_def)
next
  case (Await g k)
  have "hungryA I W L Q stop n (\<lambda>t. case map_prod (bind_res f) id (k t) of (m, t') \<Rightarrow> m t')"
    unfolding hungryA_def
  proof (intro allI impI)
    fix t assume t: "I t \<and> W t \<and> L t \<le> n"
    obtain r t' where k: "k t = (r, t')" by (cases "k t")
    have mem: "r \<in> Basic_BNFs.fsts (k t)" by (simp add: k prod_set_simps)
    have r: "keeps I r" "keeps W r" "I t'" "W t'"
      using keeps_seg [OF Await.prems(1) k] keeps_seg [OF Await.prems(2) k] t by simp_all
    have l: "keeps (\<lambda>s. L s \<le> c) r" "L t \<le> c \<longrightarrow> L t' \<le> c" for c
      using keeps_seg [OF Await.prems(3) k, of c] by simp_all
    have "L t' \<le> n" using l(2) [of n] t by simp
    then show "working I W L Q stop (case map_prod (bind_res f) id (k t) of (m, t') \<Rightarrow> m t')"
      using hungryA_D [OF Await.IH [OF rangeI mem r(1,2) l(1) Await.prems(4)] r(3,4)] by (simp add: k)
  qed
  then have "hungry I W L Q stop (Await g (\<lambda>t. case map_prod (bind_res f) id (k t) of (m, t') \<Rightarrow> m t')) n"
    by (simp only: hungry_Await)
  then show ?case unfolding hungryA_def working_def by (auto simp del: hungry.simps owes.simps)
qed (simp add: hungryA_def)

lemma hungry_bind:
  assumes "keepsA I m" "keepsA W m" "\<And>c. keepsA (\<lambda>s. L s \<le> c) m" "I s" "W s" "L s \<le> n" "\<And>a. hungryA I W L Q stop n (f a)"
  shows "working I W L Q stop (bindA m f s)"
proof -
  obtain r t where m: "m s = (r, t)" by (cases "m s")
  have l: "keeps (\<lambda>s. L s \<le> c) r" for c using keepsA_res [OF assms(3) m] .
  have "I t" "W t" "L t \<le> n"
    using keepsA_D [OF assms(1) assms(4) m] keepsA_D [OF assms(2) assms(5) m] keepsA_D [OF assms(3) _ m, of n] assms(6) by simp_all
  then show ?thesis
    using hungryA_D [OF hungryA_bind_res [OF keepsA_res [OF assms(1) m] keepsA_res [OF assms(2) m] l assms(7)]]
    by (simp add: bindA_def m)
qed

section \<open>Pools of hungry computations\<close>

definition pool_works ::
  "('s \<Rightarrow> bool) \<Rightarrow> ('s \<Rightarrow> bool) \<Rightarrow> ('s \<Rightarrow> nat) \<Rightarrow> ('s \<Rightarrow> bool) \<Rightarrow> ('s \<Rightarrow> bool) \<Rightarrow> 's \<times> ('s, 'a) res list \<Rightarrow> bool" where
  "pool_works I W L Q stop p \<longleftrightarrow> stop (fst p) \<or> Q (fst p) \<or> (\<exists>t \<in> set (snd p). owes I Q t) \<or>
     W (fst p) \<and> (\<forall>t \<in> set (snd p). \<exists>m. L (fst p) \<le> m \<and> hungry I W L Q stop t m)"

text \<open>What everything that runs keeps: the members of the pool and the calls from outside.\<close>

definition all_keep :: "('s \<Rightarrow> 's \<Rightarrow> bool) \<Rightarrow> ('s \<Rightarrow> bool) \<Rightarrow> ('s, 'a) res list \<Rightarrow> bool" where
  "all_keep outside P ts \<longleftrightarrow> list_all (keeps P) ts \<and> (\<forall>s s'. outside s s' \<longrightarrow> P s \<longrightarrow> P s')"

lemma all_keep_step:
  assumes "pool_step outside p q" "all_keep outside P (snd p)"
  shows "all_keep outside P (snd q) \<and> (P (fst p) \<longrightarrow> P (fst q))"
  using assms
proof (induction rule: pool_step.induct)
  case (segment i ts g k s r s')
  then have "keeps P (Await g k)" by (metis all_keep_def list_all_length snd_conv)
  moreover have "set (ts[i := r]) \<subseteq> insert r (set ts)" by (rule set_update_subset_insert)
  ultimately show ?case using segment keeps_seg [of P g k s r s'] by (auto simp: all_keep_def list_all_iff)
next
  case (outside s s' ts)
  then show ?case by (simp add: all_keep_def)
qed

lemma pool_step_works:
  assumes "pool_step outside p q" "pool_works I W L Q stop p" "I (fst p)"
    and keep: "all_keep outside Q (snd p)" "all_keep outside stop (snd p)" "\<And>c. all_keep outside (\<lambda>s. L s \<le> c) (snd p)"
    and outside: "\<And>s s'. outside s s' \<Longrightarrow> W s \<Longrightarrow> W s'"
  shows "pool_works I W L Q stop q"
proof -
  have kept: "Q (fst p) \<longrightarrow> Q (fst q)" "stop (fst p) \<longrightarrow> stop (fst q)" "L (fst q) \<le> L (fst p)"
    using all_keep_step [OF assms(1) keep(1)] all_keep_step [OF assms(1) keep(2)]
      all_keep_step [OF assms(1) keep(3), of "L (fst p)"] by simp_all
  show ?thesis using assms(1)
  proof (cases rule: pool_step.cases)
    case (segment i ts g k s r s')
    have t: "Await g k \<in> set ts" using segment(3,4) nth_mem by metis
    have new: "r \<in> set (ts[i := r])" using segment(3) by (rule set_update_memI)
    consider "stop s" | "Q s" | u where "u \<in> set ts" "owes I Q u"
      | "W s" "\<forall>t \<in> set ts. \<exists>m. L s \<le> m \<and> hungry I W L Q stop t m"
      using assms(2) segment(1) by (auto simp: pool_works_def)
    then show ?thesis
    proof cases
      case 3
      show ?thesis
      proof (cases "u \<in> set (ts[i := r])")
        case True
        then show ?thesis using 3 segment(2) by (auto simp: pool_works_def)
      next
        case False
        then have "u = Await g k" using 3(1) segment(3,4) by (metis in_set_conv_nth length_list_update nth_list_update_neq)
        then have "owesA I Q k" using 3(2) by (simp only: owes_Await)
        then have "met I Q (k s)" using assms(3) segment(1) by (simp add: owesA_D)
        then show ?thesis using new segment(2,6) by (auto simp: pool_works_def met_def)
      qed
    next
      case 4
      then obtain m where "L s \<le> m" "hungryA I W L Q stop m k" using t by (metis hungry_Await)
      then have "working I W L Q stop (r, s')" using hungryA_D [of I W L Q stop m k s] 4(1) assms(3) segment(1,6) by simp
      then consider "stop s' \<or> Q s' \<or> owes I Q r" | m where "W s'" "L s' \<le> m" "hungry I W L Q stop r m"
        by (auto simp: working_def)
      then show ?thesis
      proof cases
        case 1
        then show ?thesis using new segment(2) by (auto simp: pool_works_def)
      next
        case 2
        have "\<exists>m. L s' \<le> m \<and> hungry I W L Q stop u m" if "u \<in> set (ts[i := r])" for u
        proof (cases "u = r")
          case False
          then have "u \<in> set ts" using that set_update_subset_insert by fast
          then obtain m where "L s \<le> m" "hungry I W L Q stop u m" using 4(2) by blast
          moreover have "L s' \<le> L s" using kept(3) segment(1,2) by simp
          ultimately show ?thesis using order_trans by blast
        qed (use 2 in blast)
        then show ?thesis using 2(1) segment(2) by (simp add: pool_works_def)
      qed
    qed (use kept segment in \<open>simp_all add: pool_works_def\<close>)
  next
    case (outside s s' ts)
    have "\<forall>u \<in> set ts. \<exists>m. L s' \<le> m \<and> hungry I W L Q stop u m" if "\<forall>u \<in> set ts. \<exists>m. L s \<le> m \<and> hungry I W L Q stop u m"
      using that kept(3) outside(1,2) order_trans by fastforce
    then show ?thesis using assms(2,7) kept(1,2) outside by (auto simp: pool_works_def)
  qed
qed

text \<open>A pool that starts with a waiting job and has returned has reached the condition or was stopped.\<close>

lemma start_pool_works:
  assumes "\<And>m. m \<in> set ms \<Longrightarrow> keepsA Q m" "\<And>m. m \<in> set ms \<Longrightarrow> keepsA stop m" "\<And>m. m \<in> set ms \<Longrightarrow> keepsA I m"
    and "\<And>m c. m \<in> set ms \<Longrightarrow> keepsA (\<lambda>s. L s \<le> c) m" "\<And>m. m \<in> set ms \<Longrightarrow> hungryA I W L Q stop n m"
    and "I s" "W s" "L s \<le> n"
  shows "pool_works I W L Q stop (start_pool ms s) \<and> (stop (fst (start_pool ms s)) \<or> L (fst (start_pool ms s)) \<le> L s)"
  using assms
proof (induction ms arbitrary: s)
  case Nil
  then show ?case by (simp add: pool_works_def)
next
  case (Cons m ms)
  obtain r s1 where m: "m s = (r, s1)" by (cases "m s")
  obtain s2 rs where rest: "start_pool ms s1 = (s2, rs)" by (cases "start_pool ms s1")
  have stays: "P s1 \<Longrightarrow> P s2" if "\<And>m. m \<in> set ms \<Longrightarrow> keepsA P m" for P
    using start_pool_inv [of P s1 ms] that rest by (simp add: pool_inv_def)
  have first: "keepsA I m" "keepsA (\<lambda>s. L s \<le> c) m" "hungryA I W L Q stop n m" for c using Cons.prems(3-5) by simp_all
  have I: "I s1" using keepsA_D [OF first(1) Cons.prems(6) m] by simp
  have l: "L s1 \<le> L s" using keepsA_D [OF first(2) _ m, of "L s"] by simp
  moreover have "L s2 \<le> L s1" using stays [of "\<lambda>s. L s \<le> L s1"] Cons.prems(4) by simp
  ultimately have shrunk: "L s2 \<le> L s" by simp
  consider "stop s1 \<or> Q s1 \<or> owes I Q r" | k where "W s1" "L s1 \<le> k" "hungry I W L Q stop r k"
    using hungryA_D [OF first(3) Cons.prems(6-8)] m by (auto simp: working_def)
  then show ?case
  proof cases
    case 1
    then show ?thesis using stays [of stop] stays [of Q] Cons.prems(1,2) m rest shrunk by (auto simp: pool_works_def)
  next
    case 2
    have "pool_works I W L Q stop (start_pool ms s1)"
      using Cons.IH [of s1] Cons.prems I 2(1) l by simp
    moreover have "L s2 \<le> k" using \<open>L s2 \<le> L s1\<close> 2(2) by simp
    ultimately show ?thesis using m rest shrunk 2(3) by (auto simp: pool_works_def)
  qed
qed

lemma pool_reach_works:
  assumes "pool_reach outside p q" "pool_works I W L Q stop p" "I (fst p)"
    and keep: "all_keep outside I (snd p)" "all_keep outside Q (snd p)" "all_keep outside stop (snd p)"
      "\<And>c. all_keep outside (\<lambda>s. L s \<le> c) (snd p)"
    and outside: "\<And>s s'. outside s s' \<Longrightarrow> W s \<Longrightarrow> W s'"
  shows "pool_works I W L Q stop q"
proof -
  have "pool_works I W L Q stop q \<and> I (fst q) \<and> all_keep outside I (snd q) \<and> all_keep outside Q (snd q) \<and>
    all_keep outside stop (snd q) \<and> (\<forall>c. all_keep outside (\<lambda>s. L s \<le> c) (snd q))"
    using assms(1) unfolding pool_reach_def
  proof (induction rule: rtranclp_induct)
    case base
    then show ?case using assms by simp
  next
    case (step q q')
    then show ?case using pool_step_works [OF step.hyps(2)] all_keep_step [OF step.hyps(2)] outside by blast
  qed
  then show ?thesis by simp
qed

lemma pool_settles:
  assumes "pool_reach outside (start_pool ms s) (s', ts)" "list_all (\<lambda>t. t = Ret a) ts" "ms \<noteq> []"
    and members: "\<And>m. m \<in> set ms \<Longrightarrow> keepsA I m" "\<And>m. m \<in> set ms \<Longrightarrow> keepsA Q m" "\<And>m. m \<in> set ms \<Longrightarrow> keepsA stop m"
      "\<And>m c. m \<in> set ms \<Longrightarrow> keepsA (\<lambda>s. L s \<le> c) m" "\<And>m. m \<in> set ms \<Longrightarrow> hungryA I W L Q stop n m"
    and outside: "\<And>s s'. outside s s' \<Longrightarrow> I s \<Longrightarrow> I s'" "\<And>s s'. outside s s' \<Longrightarrow> Q s \<Longrightarrow> Q s'"
      "\<And>s s'. outside s s' \<Longrightarrow> stop s \<Longrightarrow> stop s'" "\<And>s s' c. outside s s' \<Longrightarrow> L s \<le> c \<Longrightarrow> L s' \<le> c"
      "\<And>s s'. outside s s' \<Longrightarrow> W s \<Longrightarrow> W s'"
    and start: "I s" "W s" "L s \<le> n" and waits: "\<And>s. W s \<Longrightarrow> 0 < L s"
  shows "stop s' \<or> Q s'"
proof -
  have keeps: "list_all (keeps P) (snd (start_pool ms s))" if "\<And>m. m \<in> set ms \<Longrightarrow> keepsA P m" for P
    using that
  proof (induction ms arbitrary: s)
    case (Cons m ms)
    obtain r s1 where "m s = (r, s1)" by (cases "m s")
    then show ?case using Cons keepsA_res [of P m s r s1] by (simp add: case_prod_beta)
  qed simp
  have I: "I (fst (start_pool ms s))" using start_pool_inv [of I s ms] members(1) start(1) by (simp add: pool_inv_def)
  have "pool_works I W L Q stop (start_pool ms s)"
    using start_pool_works [of ms Q stop I L W n s] members start by blast
  from pool_reach_works [OF assms(1) this I] have "pool_works I W L Q stop (s', ts)"
    using keeps members outside by (simp add: all_keep_def)
  moreover have "ts \<noteq> []"
  proof -
    have "length (snd (start_pool ms s)) = length ms" for s by (induction ms arbitrary: s) (simp_all add: case_prod_beta)
    moreover have "length (snd q) = length (snd p)" if "pool_reach outside p q" for p q :: "'a \<times> ('a, 'b) res list"
      using that unfolding pool_reach_def
      by (induction rule: rtranclp_induct) (auto elim: pool_step.cases)
    ultimately show ?thesis using assms(1,3) by (metis length_0_conv snd_conv)
  qed
  ultimately show ?thesis using assms(2) waits [of s'] by (cases ts) (auto simp: pool_works_def list_all_iff)
qed

end
