(* ===== verification/ExecutorRounds.thy ===== *)
theory ExecutorRounds
  imports ExecutorRuns Progress
begin

text \<open>
  Progress of the executor: a round that returns has dealt with every node that was ready when it began,
  unless the run was cancelled, and so the loop of \<open>drive\<close> makes at most as many rounds as there are
  nodes.  Nothing is assumed of the handler, of the interleaving or of what the queue held before.
\<close>

section \<open>Nodes that have left the beginning\<close>

definition left_ready :: "string \<Rightarrow> 'w exec_state \<Rightarrow> bool" where
  "left_ready i s \<longleftrightarrow> status_of s i \<notin> {Some WS_PLANNED, Some WS_READY}"

definition not_planned :: "string \<Rightarrow> workflow_node \<Rightarrow> 'w exec_state \<Rightarrow> bool" where
  "not_planned i d s \<longleftrightarrow> def_of s i = Some d \<and> status_of s i \<noteq> Some WS_PLANNED"

definition nodes_named :: "'w exec_state \<Rightarrow> bool" where
  "nodes_named s \<longleftrightarrow> map_wf (ex_nodes s) \<and> (\<forall>k d. def_of s k = Some d \<longrightarrow> node_id d = k)"

lemma nodes_named_same: "map_keys (ex_nodes s') = map_keys (ex_nodes s) \<Longrightarrow> def_of s' = def_of s \<Longrightarrow> nodes_named s \<Longrightarrow> nodes_named s'"
  by (simp add: nodes_named_def map_wf_def)

lemma next_not_planned: "next_state workflowNodeMachine st e = Some st' \<Longrightarrow> st' \<noteq> WS_PLANNED"
  by (cases st) (auto simp: workflow_next_simps split: if_splits)

lemma next_not_ready: "next_state workflowNodeMachine st e = Some st' \<Longrightarrow> e \<noteq> WE_PREPARE \<Longrightarrow> st' \<noteq> WS_READY"
  by (cases st) (auto simp: workflow_next_simps split: if_splits)

lemma moved_fields [simp]:
  "status_of (cancel reason s) = status_of s" "def_of (cancel reason s) = def_of s"
  "status_of (s\<lparr>ex_queue := q\<rparr>) = status_of s" "def_of (s\<lparr>ex_queue := q\<rparr>) = def_of s"
  "ex_nodes (cancel reason s) = ex_nodes s"
  by (simp_all add: cancel_def status_of_def def_of_def fun_eq_iff)

interpretation left: executor_invariant cfg "left_ready i" for cfg i
  by unfold_locales (auto simp: left_ready_def same_progress_def dest: next_not_planned next_not_ready)

interpretation planned: executor_invariant cfg "not_planned i d" for cfg i d
  by unfold_locales (auto simp: not_planned_def same_progress_def dest: next_not_planned)

interpretation named: executor_invariant cfg nodes_named for cfg
  by unfold_locales (auto elim!: nodes_named_same [rotated 2] simp: same_progress_def)

interpretation stopped: executor_invariant cfg ex_cancelled for cfg
  by unfold_locales (auto simp: same_progress_def cancel_def)

interpretation queued: executor_jobs cfg "\<lambda>s. P (ex_queue s)" for cfg P
  by unfold_locales (auto simp: same_progress_def)

section \<open>A job deals with its node\<close>

lemma left_readyI: "not_planned i d s \<Longrightarrow> status_of s i \<noteq> Some WS_READY \<Longrightarrow> left_ready i s"
  by (simp add: not_planned_def left_ready_def)

lemma terminal_left: "node_terminal s i \<Longrightarrow> left_ready i s"
  by (auto simp: node_terminal_def left_ready_def split: option.splits)

lemma enter_failed_left:
  assumes "not_planned i d s" "enter_failed i s = (Inr a, s')"
  shows "left_ready i s'"
proof -
  obtain st where st: "status_of s i = Some st" "st \<noteq> WS_PLANNED"
    using assms(1) by (auto simp: not_planned_def status_of_def def_of_def)
  then show ?thesis using assms(2)
    by (cases st) (auto simp: enter_failed_def node_transition_eq workflow_next_simps bindP_def left_ready_def)
qed

lemma failNode_owes: "node_id d = i \<Longrightarrow> owesA (not_planned i d') (left_ready i) (failNode cfg d e quarantined)"
  unfolding failNode_def Let_def
proof (rule owesA_first)
  assume i: "node_id d = i"
  have error: "keepsP (left_ready i) (modify (upd_node k (\<lambda>n. n\<lparr>in_error := Some e\<rparr>)))" for k
    by (rule left.upd_node_keeps) simp_all
  show "owesA (not_planned i d') (left_ready i)
      (syncA (bindP (enter_failed (node_id d)) (\<lambda>_. modify (upd_node (node_id d) (\<lambda>n. n\<lparr>in_error := Some e\<rparr>)))))"
  proof (rule owesA_sync)
    fix s a s'
    assume "not_planned i d' s"
      "bindP (enter_failed (node_id d)) (\<lambda>_. modify (upd_node (node_id d) (\<lambda>n. n\<lparr>in_error := Some e\<rparr>))) s = (Inr a, s')"
    then obtain b s1 where "enter_failed i s = (Inr b, s1)" "s' = snd (modify (upd_node i (\<lambda>n. n\<lparr>in_error := Some e\<rparr>)) s1)"
      by (auto simp: bindP_def i split: prod.splits sum.splits)
    then show "left_ready i s'" using enter_failed_left keepsP_D [OF error] \<open>not_planned i d' s\<close> by metis
  qed
  show "keepsA (left_ready i) (if quarantined
      then bindA (syncA (bindP (node_transition (node_id d) WE_QUARANTINE) (\<lambda>_. emit (WorkflowNodeQuarantined (node_id d) e)))) (\<lambda>_. persist cfg)
      else (case compensationFor (exec_registry cfg) d of
          Some (CompAction action input) \<Rightarrow>
            bindA (syncA (bindP (node_transition (node_id d) WE_COMPENSATE) (\<lambda>_. emit (WorkflowNodeCompensating (node_id d) action)))) (\<lambda>_.
            bindA (persist cfg) (\<lambda>_.
            bindA (run_compensation cfg action input d) (\<lambda>_.
            bindA (syncA (bindP (node_transition (node_id d) WE_ROLLBACK) (\<lambda>_. emit (WorkflowNodeRolledBack (node_id d) e)))) (\<lambda>_.
            bindA (awaited (compensateUpstream cfg (node_id d))) (\<lambda>_. persist cfg)))))
        | _ \<Rightarrow>
            bindA (syncA (emit (WorkflowNodeFailed (node_id d) e (compensationFor (exec_registry cfg) d = Some CompIrreversible)))) (\<lambda>_. persist cfg)))"
    for a :: unit
    by (auto intro!: keepsA_bind keepsA_sync keepsA_awaited keepsP_bind left.persist_keeps left.emit_keeps left.node_transition_keeps
        left.run_compensation_keeps left.compensateUpstream_keeps split: option.splits compensation_spec.splits)
qed

lemma recorded_left:
  "left_ready k ((upd_node i (in_result_update f) s)\<lparr>ex_results := x, ex_completionOrder := y\<rparr>) = left_ready k s"
proof -
  have "status_of (t\<lparr>ex_results := x, ex_completionOrder := y\<rparr>) = status_of t" for t :: "'a exec_state"
    by (simp add: status_of_def fun_eq_iff)
  then show ?thesis by (cases "map_get (ex_nodes s) i") (simp_all add: left_ready_def status_of_def)
qed

lemma completeNode_left:
  assumes "completeNode cfg d r s = (Inr a, s')" "node_id d = i"
  shows "left_ready i s'"
proof -
  let ?rest = "\<lambda>_ :: unit. bindP (modify (\<lambda>s. (upd_node i (\<lambda>n. n\<lparr>in_result := Some r\<rparr>) s)
         \<lparr>ex_results := map_set i r (ex_results s), ex_completionOrder := ex_completionOrder s @ [i]\<rparr>)) (\<lambda>_.
     bindP (\<lambda>s. (keyOf cfg s d, s)) (\<lambda>key.
     bindP (\<lambda>s. emit (WorkflowNodeCompleted i r (operationId s d) key) s) (\<lambda>_. promoteReady)))"
  obtain s1 where "bindP (node_transition i WE_COMPLETE) ?rest s1 = (Inr a, s')"
    using assms(1) unfolding completeNode_def assms(2) by (rule bindP_returns)
  then obtain b s2 where "node_transition i WE_COMPLETE s1 = (Inr b, s2)" and rest: "?rest () s2 = (Inr a, s')"
    by (rule bindP_returns)
  then have "s2 = set_status i WS_COMPLETED s1"
    by (auto simp: node_transition_eq next_COMPLETE split: option.splits if_splits)
  then have s2: "left_ready i s2" by (auto simp: left_ready_def)
  have "keepsP (left_ready i) (modify (\<lambda>s. (upd_node i (\<lambda>n. n\<lparr>in_result := Some r\<rparr>) s)
         \<lparr>ex_results := map_set i r (ex_results s), ex_completionOrder := ex_completionOrder s @ [i]\<rparr>))"
    by (simp add: keepsP_def modify_def recorded_left)
  moreover have "keepsP (left_ready i) (\<lambda>s. emit (WorkflowNodeCompleted i r (operationId s d) key) s)" for key
    by (simp add: keepsP_def keepsP_D [OF left.emit_keeps])
  ultimately have "keepsP (left_ready i) (bindP (modify (\<lambda>s. (upd_node i (\<lambda>n. n\<lparr>in_result := Some r\<rparr>) s)
         \<lparr>ex_results := map_set i r (ex_results s), ex_completionOrder := ex_completionOrder s @ [i]\<rparr>)) (\<lambda>_.
     bindP (\<lambda>s. (keyOf cfg s d, s)) (\<lambda>key.
     bindP (\<lambda>s. emit (WorkflowNodeCompleted i r (operationId s d) key) s) (\<lambda>_. promoteReady))))"
    by (intro keepsP_bind left.promoteReady_keeps) (simp_all add: keepsP_def)
  from keepsP_D [OF this s2] rest show ?thesis by simp
qed

lemma deliver_job_owes:
  assumes i: "node_id d = i"
  shows "owesA (not_planned i d') (left_ready i) (deliver_job cfg d job)"
proof -
  have "owesA (not_planned i d') (left_ready i)
      (bindA (awaited (idem_run ex_idempotency put_idempotency (wj_idempotencyKey job) (awaited (executeWithRetry cfg d job)))) (\<lambda>result.
       syncA (bindP (modify (\<lambda>s. if dup then s\<lparr>ex_deduped := ex_deduped s + 1\<rparr> else s)) (\<lambda>_ s.
         if node_terminal s (node_id d) then (Inr (), s) else completeNode cfg d result s))))" for dup
    by (intro owesA_last keepsA_awaited planned.idem_run_keeps planned.executeWithRetry_keeps owesA_sync)
      (auto simp: bindP_def modify_def i split: if_splits intro: terminal_left completeNode_left)
  then show ?thesis by (simp add: deliver_job_def Let_def owesA_def)
qed

lemma runJob_met:
  assumes "\<not> ex_cancelled s" "not_planned i d s" "node_id d = i" "wj_nodeId job = i"
  shows "met (not_planned i d) (left_ready i) (runJob cfg job s)"
proof -
  obtain n where n: "map_get (ex_nodes s) i = Some n" "in_def n = d"
    using assms(2) by (auto simp: not_planned_def def_of_def)
  let ?h = "\<lambda>e. if is_crash e then throwA e
      else (\<lambda>s. if node_terminal s (node_id d) then returnA () s else awaited (failNode cfg d (err_message e) False) s)"
  have handler: "owesA (not_planned i d) (left_ready i) (?h e)" for e
  proof -
    have "owesA (not_planned i d) (left_ready i) (awaited (failNode cfg d (err_message e) False))"
      by (intro owesA_awaited failNode_owes planned.failNode_keeps assms(3))
    then show ?thesis using assms(3) by (auto intro!: owesA_throw owesA_if simp: returnA_def intro: terminal_left)
  qed
  have handler_keeps: "keepsA (not_planned i d) (?h e)" for e
    by (auto intro!: keepsA_throw keepsA_if keepsA_return keepsA_awaited planned.failNode_keeps)
  have "owesA (not_planned i d) (left_ready i) (finallyA (catchA (deliver_job cfg d job) ?h) (release_slot (job_slot job d)))"
  proof (rule owesA_finally)
    show "left_ready i s \<Longrightarrow> left_ready i (release_slot (job_slot job d) s)" for s :: "'a exec_state"
      by (simp add: left_ready_def release_slot_def status_of_def)
  qed (intro owesA_catch deliver_job_owes keepsA_catch planned.deliver_job_keeps assms(3) handler handler_keeps)+
  then have "owesA (not_planned i d) (left_ready i) (bindA (acquire_slot cfg (job_slot job d)) (\<lambda>_.
      finallyA (catchA (deliver_job cfg d job) ?h) (release_slot (job_slot job d))))"
    by (intro owesA_last planned.acquire_slot_keeps)
  from owesA_D [OF this assms(2)] show ?thesis using assms(1,4) n by (simp add: runJob_def Let_def)
qed

section \<open>A worker does not return while a job waits\<close>

abbreviation waiting :: "workflow_job \<Rightarrow> 'w exec_state \<Rightarrow> bool" where
  "waiting job s \<equiv> job \<in> set (ex_queue s)"

abbreviation queue_length :: "'w exec_state \<Rightarrow> nat" where
  "queue_length s \<equiv> length (ex_queue s)"

lemma worker_next:
  "\<not> ex_cancelled s \<Longrightarrow> ex_queue s = j # q \<Longrightarrow>
    worker cfg (Suc n) s = bindA (awaited (runJob cfg j)) (\<lambda>_. worker cfg n) (s\<lparr>ex_queue := q\<rparr>)"
  by (simp add: queue_dequeue_def)

lemma worker_shortens: "keepsA (\<lambda>s. queue_length s \<le> c) (worker cfg n)"
proof (induction n)
  case 0
  then show ?case by (simp add: keepsA_return)
next
  case (Suc n)
  have "keepsA (\<lambda>s. queue_length s \<le> c) (bindA (awaited (runJob cfg j)) (\<lambda>_. worker cfg n))" for j
    by (intro keepsA_bind keepsA_awaited queued.runJob_keeps Suc)
  then show ?case
    using keepsA_return [of "\<lambda>s. queue_length s \<le> c" "()"]
    by (auto simp: keepsA_def case_prod_beta queue_dequeue_def split: option.splits prod.splits list.splits)
qed

lemma worker_hungry:
  fixes cfg :: "'w exec_options"
  assumes "node_id d = i" "wj_nodeId job = i"
  shows "hungryA (not_planned i d) (waiting job) queue_length (left_ready i) ex_cancelled n (worker cfg n)"
proof (induction n)
  case 0
  then show ?case by (auto simp: hungryA_def)
next
  case (Suc n)
  show ?case unfolding hungryA_def
  proof (intro allI impI, elim conjE)
    fix s :: "'w exec_state"
    assume s: "not_planned i d s" "waiting job s" "queue_length s \<le> Suc n"
    show "working (not_planned i d) (waiting job) queue_length (left_ready i) ex_cancelled (worker cfg (Suc n) s)"
    proof (cases "ex_cancelled s")
      case True
      then show ?thesis by (simp add: working_def returnA_def)
    next
      case False
      obtain j q where q: "ex_queue s = j # q" using s(2) by (cases "ex_queue s") auto
      let ?s = "s\<lparr>ex_queue := q\<rparr>"
      have s': "not_planned i d ?s" using planned.requeue s(1) .
      note next_job = worker_next [OF False q]
      show ?thesis
      proof (cases "j = job")
        case True
        have "met (not_planned i d) (left_ready i) (runJob cfg job ?s)"
          by (rule runJob_met) (use False s' assms in simp_all)
        then have "met (not_planned i d) (left_ready i) (worker cfg (Suc n) s)"
          unfolding next_job True using s' by (intro met_first met_awaited left.worker_keeps planned.runJob_keeps)
        then show ?thesis by (rule met_working)
      next
        case other: False
        then have "waiting job ?s" using s(2) q by simp
        moreover have "queue_length ?s \<le> n" using s(3) q by simp
        ultimately show ?thesis unfolding next_job using s' Suc
          by (intro hungry_bind keepsA_awaited planned.runJob_keeps queued.runJob_keeps)
      qed
    qed
  qed
qed

lemma cancels_queue: "cancels s s' \<Longrightarrow> ex_queue s' = ex_queue s"
  by (auto simp: cancels_def cancel_def)

lemma dispatched_left:
  assumes "dispatched cfg s (Inr ()) s'" "not_planned i d s" "node_id d = i" "wj_nodeId job = i" "waiting job s"
  shows "ex_cancelled s' \<or> left_ready i s'"
  using assms(1)
proof (cases rule: dispatched.cases)
  case (all_return ts)
  show ?thesis
  proof (rule pool_settles [OF all_return, where I = "not_planned i d" and W = "waiting job" and L = queue_length
        and Q = "left_ready i" and stop = ex_cancelled and n = "queue_length s"])
    show "workers cfg s \<noteq> []" by (simp add: workers_def concurrency_def)
    show "hungryA (not_planned i d) (waiting job) queue_length (left_ready i) ex_cancelled (queue_length s) m"
      if "m \<in> set (workers cfg s)" for m
      using that worker_hungry [OF assms(3,4)] by (auto simp: workers_def)
  qed (auto simp: assms workers_def planned.worker_keeps left.worker_keeps stopped.worker_keeps worker_shortens cancels_queue
      dest: planned.cancels_keeps left.cancels_keeps stopped.cancels_keeps)
qed

section \<open>Rounds\<close>

text \<open>A round of \<open>drive\<close>: one iteration of its loop that goes on to the next.\<close>

inductive one_round :: "'w exec_options \<Rightarrow> 'w exec_state \<Rightarrow> 'w exec_state \<Rightarrow> bool" for cfg where
  one_round: "\<not> ex_cancelled s \<Longrightarrow> ready_nodes s \<noteq> [] \<Longrightarrow>
    bindP (enqueue_ready cfg) (\<lambda>_. persist_call cfg) s = (Inr (), s1) \<Longrightarrow> cancels\<^sup>*\<^sup>* s1 s2 \<Longrightarrow>
    dispatched cfg s2 (Inr ()) s3 \<Longrightarrow> one_round cfg s s3"

inductive_cases one_roundE: "one_round cfg s s'"

lemma toJobs_nodes: "toJobs cfg ns s = (Inr js, s') \<Longrightarrow> map wj_nodeId js = map node_id ns"
proof (induction ns arbitrary: s js)
  case (Cons n ns)
  from Cons.prems obtain j s1 where j: "toJob cfg n s = (Inr j, s1)"
    and "bindP (toJobs cfg ns) (\<lambda>js. returnP (j # js)) s1 = (Inr js, s')"
    by (auto elim: bindP_returns)
  moreover from this(2) obtain js' where "toJobs cfg ns s1 = (Inr js', s')" "js = j # js'"
    by (auto elim!: bindP_returns simp: returnP_def)
  moreover have "wj_nodeId j = node_id n" using j by (auto simp: toJob_def split: sum.splits prod.splits)
  ultimately show ?case using Cons.IH by simp
qed (simp add: returnP_def)

lemma enqueue_job_queue: "snd (enqueue_job j s) = s' \<Longrightarrow> ex_queue s' = ex_queue s @ [j]"
  by (auto simp: enqueue_job_def bindP_def modify_def emit_def queue_enqueue_def)

lemma enqueue_all_queue: "forP enqueue_job js s = (Inr (), s') \<Longrightarrow> ex_queue s' = ex_queue s @ js"
proof (induction js arbitrary: s)
  case (Cons j js)
  from Cons.prems have "bindP (enqueue_job j) (\<lambda>_. forP enqueue_job js) s = (Inr (), s')" by simp
  then obtain u s1 where "enqueue_job j s = (Inr u, s1)" "forP enqueue_job js s1 = (Inr (), s')" by (rule bindP_returns)
  then show ?case using Cons.IH [of s1] enqueue_job_queue [of j s s1] by simp
qed (simp add: returnP_def)

lemma round_waits:
  assumes "bindP (enqueue_ready cfg) (\<lambda>_. persist_call cfg) s = (Inr (), s1)" "cancels\<^sup>*\<^sup>* s1 s2" "d \<in> set (ready_nodes s)"
  obtains job where "wj_nodeId job = node_id d" "waiting job s2"
proof -
  obtain u t where enq: "enqueue_ready cfg s = (Inr u, t)" and call: "persist_call cfg t = (Inr (), s1)"
    using assms(1) by (rule bindP_returns)
  then obtain js t' where js: "toJobs cfg (ready_nodes s) s = (Inr js, t')" and "forP enqueue_job js t' = (Inr u, t)"
    unfolding enqueue_ready_def by (elim bindP_returns)
  then have "set js \<subseteq> set (ex_queue t)" using enqueue_all_queue [of js t' t] by simp
  moreover have "ex_queue s1 = ex_queue t"
    using call by (auto simp: persist_call_def on_world_def returnP_def split: option.splits prod.splits)
  moreover have "ex_queue s2 = ex_queue s1" using assms(2)
    by (induction rule: rtranclp_induct) (simp_all add: cancels_queue)
  moreover have "node_id d \<in> set (map wj_nodeId js)" using toJobs_nodes [OF js] assms(3) by simp
  ultimately show ?thesis using that by auto
qed

context executor_invariant
begin

lemma one_round_keeps: "one_round cfg s s' \<Longrightarrow> I s \<Longrightarrow> I s'"
proof (elim one_roundE)
  fix s1 s2
  assume "I s" and s: "bindP (enqueue_ready cfg) (\<lambda>_. persist_call cfg) s = (Inr (), s1)" "cancels\<^sup>*\<^sup>* s1 s2"
    "dispatched cfg s2 (Inr ()) s'"
  have "keepsP I (bindP (enqueue_ready cfg) (\<lambda>_. persist_call cfg))" by (intro keeps_intros)
  from keepsP_D [OF this \<open>I s\<close>] have "I s1" by (simp add: s(1))
  then show "I s'" using s cancels_star_keeps dispatched_keeps by blast
qed

end

lemma one_round_parts:
  assumes "one_round cfg s s'"
  obtains s1 s2 where "\<not> ex_cancelled s" "ready_nodes s \<noteq> []" "bindP (enqueue_ready cfg) (\<lambda>_. persist_call cfg) s = (Inr (), s1)"
    "cancels\<^sup>*\<^sup>* s1 s2" "dispatched cfg s2 (Inr ()) s'"
  using assms by (cases rule: one_round.cases) 

lemma one_round_left:
  assumes "one_round cfg s s'" "nodes_named s" "status_of s i = Some WS_READY"
  shows "ex_cancelled s' \<or> left_ready i s'"
proof -
  obtain s1 s2 where start: "\<not> ex_cancelled s" "ready_nodes s \<noteq> []"
    and 1: "bindP (enqueue_ready cfg) (\<lambda>_. persist_call cfg) s = (Inr (), s1)" "cancels\<^sup>*\<^sup>* s1 s2"
    "dispatched cfg s2 (Inr ()) s'"
    using assms(1) by (rule one_round_parts)
  obtain n where n: "map_get (ex_nodes s) i = Some n" "in_status n = WS_READY"
    using assms(3) by (auto simp: status_of_def)
  define d where "d = in_def n"
  have "def_of s i = Some d" using n(1) by (simp add: def_of_def d_def)
  then have i: "node_id d = i" using assms(2) unfolding nodes_named_def by blast
  have "(i, n) \<in> set (ex_nodes s)" using n(1) by (rule map_of_SomeD)
  then have "d \<in> set (ready_nodes s)" using n(2) by (force simp: ready_nodes_def d_def)
  from 1(1,2) this obtain job where job: "wj_nodeId job = node_id d" "waiting job s2" by (rule round_waits)
  have "keepsP (not_planned i d) (bindP (enqueue_ready cfg) (\<lambda>_. persist_call cfg))"
    by (intro keepsP_bind planned.enqueue_ready_keeps planned.persist_call_keeps)
  moreover have "not_planned i d s" using n assms(3) by (simp add: not_planned_def def_of_def d_def)
  ultimately have "not_planned i d s1" using keepsP_D [of "not_planned i d" _ s] 1(1) by fastforce
  then have "not_planned i d s2" using planned.cancels_star_keeps 1(2) by blast
  with 1(3) show ?thesis using i job by (intro dispatched_left) auto
qed

definition unstarted :: "'w exec_state \<Rightarrow> string list" where
  "unstarted s = filter (\<lambda>k. \<not> left_ready k s) (map_keys (ex_nodes s))"

lemma ready_key:
  assumes "ready_nodes s \<noteq> []" "nodes_named s"
  obtains i where "status_of s i = Some WS_READY" "i \<in> set (unstarted s)"
proof -
  obtain k n where n: "(k, n) \<in> set (ex_nodes s)" "in_status n = WS_READY"
    using assms(1) by (auto simp: ready_nodes_def filter_empty_conv)
  then have "map_get (ex_nodes s) k = Some n" using assms(2) by (simp add: nodes_named_def map_wf_get)
  then have "status_of s k = Some WS_READY" "k \<in> set (map_keys (ex_nodes s))"
    using n by (force simp: status_of_def)+
  then show thesis using that by (simp add: unstarted_def left_ready_def)
qed

interpretation same_keys: executor_invariant cfg "\<lambda>s. map_keys (ex_nodes s) = ks" for cfg ks
  by unfold_locales (auto simp: same_progress_def)

lemma one_round_unstarted:
  assumes "one_round cfg s s'" "nodes_named s"
  shows "ex_cancelled s' \<or> length (unstarted s') < length (unstarted s)"
proof (cases "ex_cancelled s'")
  case False
  obtain i where i: "status_of s i = Some WS_READY" "i \<in> set (unstarted s)"
    using assms by (auto elim!: one_roundE intro: ready_key)
  have "left_ready i s'" using one_round_left [OF assms i(1)] False by simp
  then have "i \<notin> set (unstarted s')" by (simp add: unstarted_def)
  moreover have "set (unstarted s') \<subseteq> set (unstarted s)"
    using same_keys.one_round_keeps [OF assms(1)] left.one_round_keeps [OF assms(1)] by (auto simp: unstarted_def)
  ultimately have "card (set (unstarted s')) < card (set (unstarted s))"
    using i(2) by (intro psubset_card_mono) auto
  moreover have "distinct (unstarted s)" "distinct (unstarted s')"
    using assms(2) named.one_round_keeps [OF assms] by (simp_all add: unstarted_def nodes_named_def map_wf_def)
  ultimately show ?thesis by (simp add: distinct_card)
qed simp

lemma rounds_unstarted: "(one_round cfg ^^ n) s s' \<Longrightarrow> nodes_named s \<Longrightarrow> n \<le> length (unstarted s)"
proof (induction n arbitrary: s)
  case (Suc n)
  obtain t where t: "one_round cfg s t" "(one_round cfg ^^ n) t s'" using relpowp_Suc_D2 [OF Suc.prems(1)] by blast
  have some: "0 < length (unstarted s)" using t(1) Suc.prems(2) by (auto elim!: one_roundE elim: ready_key)
  have IH: "n \<le> length (unstarted t)" using Suc.IH [OF t(2)] named.one_round_keeps [OF t(1) Suc.prems(2)] .
  show ?case
  proof (cases n)
    case (Suc m)
    then have "\<not> ex_cancelled t" using t(2) relpowp_Suc_D2 [of m "one_round cfg" t s'] by (auto elim: one_roundE)
    then show ?thesis using one_round_unstarted [OF t(1) Suc.prems(2)] IH by simp
  qed (use some in \<open>simp add: Suc_le_eq\<close>)
qed simp

definition node_map_ok :: "nat \<Rightarrow> (string, internal_node) js_map \<Rightarrow> bool" where
  "node_map_ok c m \<longleftrightarrow> map_wf m \<and> (\<forall>k n. map_get m k = Some n \<longrightarrow> node_id (in_def n) = k) \<and> length m \<le> c"

lemma map_set_length: "length (AList.update k v m) \<le> Suc (length m)"
  by (induction m) auto

lemma node_map_set: "node_map_ok c m \<Longrightarrow> node_map_ok (Suc c) (map_set (node_id d) (makeNode d) m)"
  using map_set_length [of "node_id d" "makeNode d" m] by (auto simp: node_map_ok_def makeNode_def)

lemma node_map_fold: "node_map_ok c m \<Longrightarrow> node_map_ok (c + length graph) (fold (\<lambda>n m. map_set (node_id n) (makeNode n) m) graph m)"
proof (induction graph arbitrary: c m)
  case (Cons d graph)
  show ?case using Cons.IH [OF node_map_set [OF Cons.prems]] by simp
qed simp

lemma make_nodes_ok: "node_map_ok (length graph) (make_nodes graph)"
  using node_map_fold [of 0 "[]" graph] by (simp add: node_map_ok_def make_nodes_def)

lemma start_named:
  assumes "start_run cfg graph opts s = (Inr (), s1)"
  shows "nodes_named s1 \<and> length (ex_nodes s1) \<le> length graph"
proof -
  have call: "persist_call cfg t = (r, t') \<Longrightarrow> ex_nodes t' = ex_nodes t" for t r t'
    by (auto simp: persist_call_def on_world_def returnP_def split: option.splits prod.splits)
  have emitted: "ex_nodes (snd (emit body t)) = ex_nodes t" for body t by (simp add: emit_def modify_def)
  obtain rid w where "bindP (emit (WorkflowRunCreated rid (case ro_taskId opts of None \<Rightarrow> ''task'' | Some t \<Rightarrow> t) graph))
      (\<lambda>_. persist_call cfg) (s\<lparr>ex_graph := graph, ex_taskId := (case ro_taskId opts of None \<Rightarrow> ''task'' | Some t \<Rightarrow> t),
        ex_runId := rid, ex_actor := (case ro_actor opts of None \<Rightarrow> workflowActor | Some a \<Rightarrow> a),
        ex_nodes := make_nodes graph, ex_results := [], ex_completionOrder := [], ex_compensated := [], ex_deduped := 0,
        ex_hydrated := False, ex_world := w\<rparr>) = (Inr (), s1)"
    using assms by (simp add: start_run_def Let_def split: sum.splits prod.splits)
  moreover have "ex_nodes (t\<lparr>ex_nodes := nodes, ex_results := [], ex_completionOrder := [], ex_compensated := [], ex_deduped := 0,
        ex_hydrated := False, ex_world := w\<rparr>) = nodes" for t :: "'a exec_state" and nodes w
    by simp
  ultimately obtain rid tid t where t: "ex_nodes t = make_nodes graph"
    "bindP (emit (WorkflowRunCreated rid tid graph)) (\<lambda>_. persist_call cfg) t = (Inr (), s1)"
    by blast
  from t(2) obtain u t' where "emit (WorkflowRunCreated rid tid graph) t = (Inr u, t')" "persist_call cfg t' = (Inr (), s1)"
    by (rule bindP_returns)
  then have "ex_nodes s1 = make_nodes graph" using call emitted t(1) by (metis snd_conv)
  then show ?thesis using make_nodes_ok [of graph] by (auto simp: node_map_ok_def nodes_named_def def_of_def)
qed

text \<open>The first round of the demonstration.\<close>

definition demo_promoted :: "string list exec_state" where
  "demo_promoted = snd (promoteReady demo_started)"

definition demo_enqueued :: "string list exec_state" where
  "demo_enqueued = snd (bindP (enqueue_ready demo_options) (\<lambda>_. persist_call demo_options) demo_promoted)"

definition demo_served :: "string list exec_state" where
  "demo_served = snd (run_alone (worker demo_options (length (ex_queue demo_enqueued))) demo_enqueued)"

lemma demo_round_runs:
  "\<not> ex_cancelled demo_promoted \<and> ready_nodes demo_promoted \<noteq> [] \<and>
   fst (bindP (enqueue_ready demo_options) (\<lambda>_. persist_call demo_options) demo_promoted) = Inr () \<and>
   fst (run_alone (worker demo_options (length (ex_queue demo_enqueued))) demo_enqueued) = Some (Inr ()) \<and>
   status_of demo_promoted ''a'' = Some WS_READY \<and> \<not> ex_cancelled demo_served"
  by code_simp

lemma demo_round: "one_round demo_options demo_promoted demo_served"
proof (rule one_round.intros)
  show "bindP (enqueue_ready demo_options) (\<lambda>_. persist_call demo_options) demo_promoted = (Inr (), demo_enqueued)"
    using demo_round_runs unfolding demo_enqueued_def by (metis prod.collapse)
  have "run_alone (worker demo_options (length (ex_queue demo_enqueued))) demo_enqueued = (Some (Inr ()), demo_served)"
    using demo_round_runs unfolding demo_served_def by (metis prod.collapse)
  then show "dispatched demo_options demo_enqueued (Inr ()) demo_served" using demo_start by (intro dispatched_alone) simp_all
qed (use demo_round_runs in simp_all)

lemma demo_run_starts:
  "start_run demo_options demo_graph demo_opts (new_executor (Some []) []) = (Inr (), demo_started) \<and>
   promoteReady demo_started = (Inr (), demo_promoted)"
  using demo_start unfolding demo_started_def demo_promoted_def by (metis prod.collapse)

text \<open>C7.  A round of a run that has returned normally has dealt with every node that was ready when it
  began, whatever the handler did, in whatever order the workers ran and whatever the queue held before:
  the node is no longer ready (and not planned again), or the run was cancelled meanwhile.\<close>

theorem round_serves_ready:
  assumes "nodes_named s" "one_round cfg s s'" "status_of s i = Some WS_READY"
  shows "ex_cancelled s' \<or> (\<exists>st. status_of s' i = Some st \<and> st \<noteq> WS_READY \<and> st \<noteq> WS_PLANNED)"
proof -
  have "map_keys (ex_nodes s') = map_keys (ex_nodes s)"
    using same_keys.one_round_keeps [OF assms(2), of "map_keys (ex_nodes s)"] by simp
  then have "dom (map_of (ex_nodes s')) = dom (map_of (ex_nodes s))" by (metis dom_map_of_conv_image_fst list.set_map)
  moreover have "i \<in> dom (map_of (ex_nodes s))" using assms(3) by (auto simp: status_of_def)
  ultimately obtain n where "map_get (ex_nodes s') i = Some n" by blast
  then show ?thesis using one_round_left [OF assms(2,1,3)] by (auto simp: left_ready_def status_of_def)
qed

theorem round_serves_ready_witness:
  "ex_cancelled demo_served \<or> (\<exists>st. status_of demo_served ''a'' = Some st \<and> st \<noteq> WS_READY \<and> st \<noteq> WS_PLANNED)"
proof -
  have "nodes_named demo_started" using start_named demo_run_starts by blast
  then have "nodes_named demo_promoted" using keepsP_D [OF named.promoteReady_keeps] by (simp add: demo_promoted_def)
  then show ?thesis using round_serves_ready demo_round demo_round_runs by blast
qed

text \<open>C6.  The loop of \<open>drive\<close> ends: a run that starts on a graph makes at most as many rounds as the
  graph has nodes.\<close>

theorem rounds_at_most_nodes:
  assumes "start_run cfg graph opts s = (Inr (), s1)" "promoteReady s1 = (Inr (), s2)" "(one_round cfg ^^ n) s2 s3"
  shows "n \<le> length graph"
proof -
  have "nodes_named s1" "length (ex_nodes s1) \<le> length graph" using start_named [OF assms(1)] by simp_all
  moreover have "nodes_named s2" using keepsP_D [OF named.promoteReady_keeps calculation(1)] by (simp add: assms(2))
  moreover have "map_keys (ex_nodes s2) = map_keys (ex_nodes s1)"
    using keepsP_D [OF same_keys.promoteReady_keeps refl, of s1] by (simp add: assms(2))
  then have "length (unstarted s2) \<le> length (ex_nodes s1)" by (metis length_filter_le length_map unstarted_def)
  ultimately show ?thesis using rounds_unstarted [OF assms(3)] by simp
qed

theorem rounds_at_most_nodes_witness: "(1 :: nat) \<le> length demo_graph"
proof (rule rounds_at_most_nodes)
  show "start_run demo_options demo_graph demo_opts (new_executor (Some []) []) = (Inr (), demo_started)"
    "promoteReady demo_started = (Inr (), demo_promoted)" using demo_run_starts by simp_all
  show "(one_round demo_options ^^ 1) demo_promoted demo_served" using demo_round by (simp only: relpowp_1)
qed

end
