(* ===== verification/Holding.thy ===== *)
theory Holding
  imports Async "HOL-Library.Multiset"
begin

text \<open>
  Resources and deadlock.  A pool can only be stuck at waits whose condition does not hold.  This theory
  has what is needed to exclude that: which conditions a computation waits for (\<open>guardedA\<close>), a calculus
  of triples for computations that take and give back units of a resource (\<open>holdsA\<close>), and the invariant
  of pools that a resource in use is held by some member, at a wait of a kind that is allowed while holding
  it.  Residuals are finite trees, so a pool has no infinite sequence of segments.
\<close>

named_theorems guard_intros \<open>conditions of waits\<close>

abbreviation always :: "'s \<Rightarrow> bool" where
  "always \<equiv> (\<lambda>_. True)"

section \<open>Conditions of waits\<close>

primrec guarded :: "('s \<Rightarrow> bool) set \<Rightarrow> ('s, 'a) res \<Rightarrow> bool" where
  "guarded G (Ret a) = True"
| "guarded G (Throw e) = True"
| "guarded G (Await g k) = (g \<in> G \<and> (\<forall>s. fst (map_prod (guarded G) id (k s))))"

definition guardedA :: "('s \<Rightarrow> bool) set \<Rightarrow> ('s, 'a) async \<Rightarrow> bool" where
  "guardedA G m \<longleftrightarrow> (\<forall>s. guarded G (fst (m s)))"

lemma guarded_Await: "guarded G (Await g k) \<longleftrightarrow> g \<in> G \<and> guardedA G k"
  by (auto simp: guardedA_def)

lemma guardedA_D: "guardedA G m \<Longrightarrow> m s = (r, s') \<Longrightarrow> guarded G r"
  by (metis fst_conv guardedA_def)

lemma guarded_sumR [simp]: "guarded G (sumR r)"
  by (cases r) (simp_all add: sumR_def)

lemma guardedA_return [guard_intros]: "guardedA G (returnA a)"
  by (simp add: guardedA_def returnA_def)

lemma guardedA_throw [guard_intros]: "guardedA G (throwA e)"
  by (simp add: guardedA_def throwA_def)

lemma guardedA_sync [guard_intros]: "guardedA G (syncA p)"
  by (simp add: guardedA_def syncA_def case_prod_beta)

lemma guardedA_await [guard_intros]: "always \<in> G \<Longrightarrow> guardedA G (awaitA p)"
  by (simp add: guardedA_def awaitA_def case_prod_beta)

lemma guardedA_wait: "g \<in> G \<Longrightarrow> guardedA G (waitA g p)"
  by (simp add: guardedA_def waitA_def case_prod_beta)

lemma guarded_bind_res: "guarded G r \<Longrightarrow> (\<And>a. guardedA G (f a)) \<Longrightarrow> guardedA G (bind_res f r)"
proof (induction r)
  case (Await g k)
  have "guardedA G (\<lambda>t. case map_prod (bind_res f) id (k t) of (m, t') \<Rightarrow> m t')"
    unfolding guardedA_def
  proof
    fix t
    obtain r t' where k: "k t = (r, t')" by (cases "k t")
    have mem: "r \<in> Basic_BNFs.fsts (k t)" by (simp add: k prod_set_simps)
    have r: "guarded G r" using Await.prems(1) k unfolding guarded_Await by (blast intro: guardedA_D)
    have "guardedA G (bind_res f r)" using Await.IH [OF rangeI mem r Await.prems(2)] .
    then show "guarded G (fst (case map_prod (bind_res f) id (k t) of (m, t') \<Rightarrow> m t'))"
      by (simp add: k guardedA_def)
  qed
  moreover have "g \<in> G" using Await.prems(1) by simp
  ultimately have "guarded G (Await g (\<lambda>t. case map_prod (bind_res f) id (k t) of (m, t') \<Rightarrow> m t'))"
    by (simp only: guarded_Await)
  then show ?case by (simp add: guardedA_def del: guarded.simps)
qed (simp_all add: guardedA_def)

lemma guardedA_bind [guard_intros]: "guardedA G m \<Longrightarrow> (\<And>a. guardedA G (f a)) \<Longrightarrow> guardedA G (bindA m f)"
  using guarded_bind_res [of G _ f] by (fastforce simp: guardedA_def bindA_def case_prod_beta)

lemma guarded_catch_res: "guarded G r \<Longrightarrow> (\<And>e. guardedA G (h e)) \<Longrightarrow> guardedA G (catch_res h r)"
proof (induction r)
  case (Await g k)
  have "guardedA G (\<lambda>t. case map_prod (catch_res h) id (k t) of (m, t') \<Rightarrow> m t')"
    unfolding guardedA_def
  proof
    fix t
    obtain r t' where k: "k t = (r, t')" by (cases "k t")
    have mem: "r \<in> Basic_BNFs.fsts (k t)" by (simp add: k prod_set_simps)
    have r: "guarded G r" using Await.prems(1) k unfolding guarded_Await by (blast intro: guardedA_D)
    have "guardedA G (catch_res h r)" using Await.IH [OF rangeI mem r Await.prems(2)] .
    then show "guarded G (fst (case map_prod (catch_res h) id (k t) of (m, t') \<Rightarrow> m t'))"
      by (simp add: k guardedA_def)
  qed
  moreover have "g \<in> G" using Await.prems(1) by simp
  ultimately have "guarded G (Await g (\<lambda>t. case map_prod (catch_res h) id (k t) of (m, t') \<Rightarrow> m t'))"
    by (simp only: guarded_Await)
  then show ?case by (simp add: guardedA_def del: guarded.simps)
qed (simp_all add: guardedA_def)

lemma guardedA_catch [guard_intros]: "guardedA G m \<Longrightarrow> (\<And>e. guardedA G (h e)) \<Longrightarrow> guardedA G (catchA m h)"
  using guarded_catch_res [of G _ h] by (fastforce simp: guardedA_def catchA_def case_prod_beta)

lemma guardedA_finally [guard_intros]: "guardedA G m \<Longrightarrow> guardedA G (finallyA m p)"
  unfolding finallyA_def by (intro guardedA_bind guardedA_catch) (simp_all add: guardedA_def)

lemma guardedA_awaited [guard_intros]: "always \<in> G \<Longrightarrow> guardedA G m \<Longrightarrow> guardedA G (awaited m)"
  unfolding awaited_def by (intro guardedA_bind guardedA_catch guardedA_await)

lemma guardedA_for [guard_intros]: "(\<And>x. guardedA G (f x)) \<Longrightarrow> guardedA G (forA f xs)"
  by (induction xs) (auto intro: guardedA_bind guardedA_return)

lemma guardedA_if: "guardedA G m \<Longrightarrow> guardedA G n \<Longrightarrow> guardedA G (\<lambda>s. if b s then m s else n s)"
  by (simp add: guardedA_def)

lemma guardedA_option: "guardedA G m \<Longrightarrow> (\<And>x. guardedA G (n x)) \<Longrightarrow>
    guardedA G (\<lambda>s. case f s of None \<Rightarrow> m s | Some x \<Rightarrow> n x s)"
  by (simp add: guardedA_def split: option.splits)

lemma guardedA_reader: "(\<And>x. guardedA G (m x)) \<Longrightarrow> guardedA G (\<lambda>s. m (f s) s)"
  by (simp add: guardedA_def)

lemma guardedA_moved: "guardedA G m \<Longrightarrow> guardedA G (\<lambda>s. m (f s))"
  by (simp add: guardedA_def)

section \<open>Holding a unit of a resource\<close>

text \<open>\<open>C\<close> counts the units in use.  A segment that starts with a computation holding \<open>b\<close> of them and
  ends with it holding \<open>b'\<close> leaves room for the units of all the others, whatever their number.\<close>

definition shift :: "('s \<Rightarrow> nat) \<Rightarrow> 's \<Rightarrow> bool \<Rightarrow> 's \<Rightarrow> bool \<Rightarrow> bool" where
  "shift C s b s' b' \<longleftrightarrow> (\<forall>n. C s \<le> n + of_bool b \<longrightarrow> C s' \<le> n + of_bool b')"

lemma shift_refl [simp]: "shift C s b s b"
  by (simp add: shift_def)

lemma shift_trans: "shift C s b s' b' \<Longrightarrow> shift C s' b' s'' b'' \<Longrightarrow> shift C s b s'' b''"
  by (simp add: shift_def)

lemma shift_le: "C s' \<le> C s \<Longrightarrow> shift C s b s' b"
  by (simp add: shift_def)

text \<open>While it holds a unit it only waits for conditions in \<open>G\<close>; at its end it holds \<open>q\<close> after a return
  and \<open>t\<close> after a throw.\<close>

primrec holding :: "('s \<Rightarrow> nat) \<Rightarrow> ('s \<Rightarrow> bool) set \<Rightarrow> bool \<Rightarrow> bool \<Rightarrow> ('s, 'a) res \<Rightarrow> bool \<Rightarrow> bool" where
  "holding C G q t (Ret a) = (\<lambda>b. b = q)"
| "holding C G q t (Throw e) = (\<lambda>b. b = t)"
| "holding C G q t (Await g k) = (\<lambda>b. (b \<longrightarrow> g \<in> G) \<and>
     (\<forall>s. case map_prod (holding C G q t) id (k s) of (h, s') \<Rightarrow> \<exists>b'. h b' \<and> shift C s b s' b'))"

definition holds :: "('s \<Rightarrow> nat) \<Rightarrow> ('s \<Rightarrow> bool) set \<Rightarrow> bool \<Rightarrow> bool \<Rightarrow> 's \<Rightarrow> bool \<Rightarrow> ('s, 'a) res \<times> 's \<Rightarrow> bool" where
  "holds C G q t s b x \<longleftrightarrow> (\<exists>b'. holding C G q t (fst x) b' \<and> shift C s b (snd x) b')"

definition holdsA :: "('s \<Rightarrow> nat) \<Rightarrow> ('s \<Rightarrow> bool) set \<Rightarrow> bool \<Rightarrow> ('s, 'a) async \<Rightarrow> bool \<Rightarrow> bool \<Rightarrow> bool" where
  "holdsA C G b m q t \<longleftrightarrow> (\<forall>s. holds C G q t s b (m s))"

lemma holding_Await: "holding C G q t (Await g k) b \<longleftrightarrow> (b \<longrightarrow> g \<in> G) \<and> holdsA C G b k q t"
  by (auto simp: holdsA_def holds_def case_prod_beta)

lemma holdsA_D: "holdsA C G b m q t \<Longrightarrow> m s = (r, s') \<Longrightarrow> \<exists>b'. holding C G q t r b' \<and> shift C s b s' b'"
  unfolding holdsA_def holds_def by (metis fst_conv snd_conv)

lemma holdsI: "holding C G q t r b' \<Longrightarrow> shift C s b s' b' \<Longrightarrow> holds C G q t s b (r, s')"
  by (auto simp: holds_def)

lemma holds_after: "holdsA C G b' m q t \<Longrightarrow> shift C s b s' b' \<Longrightarrow> holds C G q t s b (m s')"
  unfolding holdsA_def holds_def using shift_trans by metis

lemma holdsA_return: "holdsA C G q (returnA a) q t"
  by (auto simp: holdsA_def holds_def returnA_def)

lemma holdsA_throw: "holdsA C G t (throwA e) q t"
  by (auto simp: holdsA_def holds_def throwA_def)

lemma holdsA_awaitP: "always \<in> G \<Longrightarrow> (\<And>s. snd (p s) = s) \<Longrightarrow> holdsA C G b (awaitA p) b b"
  by (auto simp: holdsA_def holds_def awaitA_def case_prod_beta sumR_def split: sum.splits intro!: exI [of _ b])

lemma holds_bind_res:
  "holding C G q t r b \<Longrightarrow> (\<And>a. holdsA C G q (f a) q' t) \<Longrightarrow> holdsA C G b (bind_res f r) q' t"
proof (induction r arbitrary: b)
  case (Await g k)
  have "holdsA C G b (\<lambda>s. case map_prod (bind_res f) id (k s) of (m, s') \<Rightarrow> m s') q' t"
    unfolding holdsA_def
  proof
    fix s
    obtain r s' where k: "k s = (r, s')" by (cases "k s")
    have mem: "r \<in> Basic_BNFs.fsts (k s)" by (simp add: k prod_set_simps)
    obtain b' where b': "holding C G q t r b'" "shift C s b s' b'"
      using Await.prems(1) k unfolding holding_Await by (blast dest: holdsA_D)
    from holds_after [OF Await.IH [OF rangeI mem b'(1) Await.prems(2)] b'(2)]
    show "holds C G q' t s b (case map_prod (bind_res f) id (k s) of (m, s') \<Rightarrow> m s')" by (simp add: k)
  qed
  moreover have "b \<longrightarrow> g \<in> G" using Await.prems(1) unfolding holding_Await by simp
  ultimately have "holding C G q' t (Await g (\<lambda>s. case map_prod (bind_res f) id (k s) of (m, s') \<Rightarrow> m s')) b"
    unfolding holding_Await by simp
  then show ?case by (simp add: holdsA_def holdsI [where b' = b] del: holding.simps)
qed (auto simp: holdsA_def holds_def)

lemma holdsA_bind: "holdsA C G b m q t \<Longrightarrow> (\<And>a. holdsA C G q (f a) q' t) \<Longrightarrow> holdsA C G b (bindA m f) q' t"
  unfolding bindA_def case_prod_beta holdsA_def [of C G b "\<lambda>s. bind_res f (fst (m s)) (snd (m s))"]
  by (metis holdsA_D holds_after holds_bind_res prod.collapse)

lemma holds_catch_res:
  "holding C G q t r b \<Longrightarrow> (\<And>e. holdsA C G t (h e) q t') \<Longrightarrow> holdsA C G b (catch_res h r) q t'"
proof (induction r arbitrary: b)
  case (Await g k)
  have "holdsA C G b (\<lambda>s. case map_prod (catch_res h) id (k s) of (m, s') \<Rightarrow> m s') q t'"
    unfolding holdsA_def
  proof
    fix s
    obtain r s' where k: "k s = (r, s')" by (cases "k s")
    have mem: "r \<in> Basic_BNFs.fsts (k s)" by (simp add: k prod_set_simps)
    obtain b' where b': "holding C G q t r b'" "shift C s b s' b'"
      using Await.prems(1) k unfolding holding_Await by (blast dest: holdsA_D)
    from holds_after [OF Await.IH [OF rangeI mem b'(1) Await.prems(2)] b'(2)]
    show "holds C G q t' s b (case map_prod (catch_res h) id (k s) of (m, s') \<Rightarrow> m s')" by (simp add: k)
  qed
  moreover have "b \<longrightarrow> g \<in> G" using Await.prems(1) unfolding holding_Await by simp
  ultimately have "holding C G q t' (Await g (\<lambda>s. case map_prod (catch_res h) id (k s) of (m, s') \<Rightarrow> m s')) b"
    unfolding holding_Await by simp
  then show ?case by (simp add: holdsA_def holdsI [where b' = b] del: holding.simps)
qed (auto simp: holdsA_def holds_def)

lemma holdsA_catch: "holdsA C G b m q t \<Longrightarrow> (\<And>e. holdsA C G t (h e) q t') \<Longrightarrow> holdsA C G b (catchA m h) q t'"
  unfolding catchA_def case_prod_beta holdsA_def [of C G b "\<lambda>s. catch_res h (fst (m s)) (snd (m s))"]
  by (metis holdsA_D holds_after holds_catch_res prod.collapse)

lemma holdsA_finally:
  assumes "holdsA C G b m q q" "\<And>s. shift C s q (p s) q'"
  shows "holdsA C G b (finallyA m p) q' q'"
proof -
  have "holdsA C G b (catchA m (\<lambda>e s. (Throw e, p s))) q q'"
    using assms(1) by (rule holdsA_catch) (auto simp: holdsA_def intro!: holdsI assms(2))
  then show ?thesis unfolding finallyA_def
    by (rule holdsA_bind) (auto simp: holdsA_def intro!: holdsI assms(2))
qed

lemma holdsA_awaited:
  assumes "always \<in> G" "holdsA C G b m q q"
  shows "holdsA C G b (awaited m) q q"
proof -
  have "holdsA C G q (awaitA (throwP e)) q q" "holdsA C G q (awaitA (returnP a)) q q" for e a
    using assms(1) by (auto intro!: holdsA_awaitP simp: returnP_def throwP_def)
  then show ?thesis unfolding awaited_def by (intro holdsA_bind [OF holdsA_catch [OF assms(2)]])
qed

text \<open>A computation that does not touch the resource.\<close>

lemma holding_untouched: "guarded G r \<Longrightarrow> (\<And>c. keeps (\<lambda>s. C s \<le> c) r) \<Longrightarrow> holding C G b b r b"
proof (induction r)
  case (Await g k)
  have "holdsA C G b k b b"
    unfolding holdsA_def
  proof
    fix s
    obtain r s' where k: "k s = (r, s')" by (cases "k s")
    have mem: "r \<in> Basic_BNFs.fsts (k s)" by (simp add: k prod_set_simps)
    have r: "guarded G r" using Await.prems(1) k unfolding guarded_Await by (blast intro: guardedA_D)
    have kept: "keepsA (\<lambda>s. C s \<le> c) k" for c using Await.prems(2) by (simp only: keeps_Await)
    have "keeps (\<lambda>s. C s \<le> c) r" for c using kept k by (rule keepsA_res)
    from Await.IH [OF rangeI mem r this] have "holding C G b b r b" .
    moreover have "C s' \<le> C s" using keepsA_D [OF kept _ k, of "C s"] by simp
    ultimately show "holds C G b b s b (k s)" by (auto simp: k intro: holdsI shift_le)
  qed
  moreover have "g \<in> G" using Await.prems(1) by simp
  ultimately show ?case by (simp add: holding_Await del: holding.simps)
qed simp_all

lemma holdsA_untouched: "guardedA G m \<Longrightarrow> (\<And>c. keepsA (\<lambda>s. C s \<le> c) m) \<Longrightarrow> holdsA C G b m b b"
  unfolding holdsA_def
proof
  fix s assume m: "guardedA G m" "\<And>c. keepsA (\<lambda>s. C s \<le> c) m"
  obtain r s' where r: "m s = (r, s')" by (cases "m s")
  have "keeps (\<lambda>s. C s \<le> c) r" for c using m(2) r by (rule keepsA_res)
  then have "holding C G b b r b" using guardedA_D [OF m(1) r] by (rule holding_untouched [rotated])
  moreover have "C s' \<le> C s" using keepsA_D [OF m(2) _ r, of "C s"] by simp
  ultimately show "holds C G b b s b (m s)" by (auto simp: r intro: holdsI shift_le)
qed

lemma holdsA_moved: "holdsA C G b' m q t \<Longrightarrow> (\<And>s. shift C s b (f s) b') \<Longrightarrow> holdsA C G b (\<lambda>s. m (f s)) q t"
  unfolding holdsA_def [of C G b "\<lambda>s. m (f s)"] by (intro allI holds_after)

lemma holdsA_wait: "(\<And>s. snd (p s) = s) \<Longrightarrow> holdsA C G False (waitA g p) False False"
  by (auto simp: holdsA_def holds_def waitA_def case_prod_beta sumR_def split: sum.splits intro!: exI [of _ False])

lemma holdsA_if: "holdsA C G b m q t \<Longrightarrow> holdsA C G b n q t \<Longrightarrow> holdsA C G b (\<lambda>s. if c s then m s else n s) q t"
  by (simp add: holdsA_def)

lemma holdsA_option: "holdsA C G b m q t \<Longrightarrow> (\<And>x. holdsA C G b (n x) q t) \<Longrightarrow>
    holdsA C G b (\<lambda>s. case f s of None \<Rightarrow> m s | Some x \<Rightarrow> n x s) q t"
  by (simp add: holdsA_def split: option.splits)

lemma holdsA_reader: "(\<And>x. holdsA C G b (m x) q t) \<Longrightarrow> holdsA C G b (\<lambda>s. m (f s) s) q t"
  by (simp add: holdsA_def)

section \<open>Pools\<close>

definition pool_holds :: "('s \<Rightarrow> nat) \<Rightarrow> ('s \<Rightarrow> bool) set \<Rightarrow> 's \<times> ('s, 'a) res list \<Rightarrow> bool" where
  "pool_holds C G p \<longleftrightarrow>
     (\<exists>bs. list_all2 (holding C G False False) (snd p) bs \<and> C (fst p) \<le> sum_list (map of_bool bs))"

lemma start_holds:
  assumes "\<And>m. m \<in> set ms \<Longrightarrow> holdsA C G False m False False" "C s \<le> n"
  shows "\<exists>bs. list_all2 (holding C G False False) (snd (start_pool ms s)) bs \<and>
    C (fst (start_pool ms s)) \<le> n + sum_list (map of_bool bs)"
  using assms
proof (induction ms arbitrary: s n)
  case (Cons m ms)
  obtain r s1 where m: "m s = (r, s1)" by (cases "m s")
  obtain b where b: "holding C G False False r b" "shift C s False s1 b"
    using holdsA_D [OF Cons.prems(1) [of m] m] by auto
  then have "C s1 \<le> n + of_bool b" using Cons.prems(2) by (simp add: shift_def)
  from Cons.IH [OF Cons.prems(1) this] obtain bs where "list_all2 (holding C G False False) (snd (start_pool ms s1)) bs"
    "C (fst (start_pool ms s1)) \<le> n + of_bool b + sum_list (map of_bool bs)" by auto
  then show ?case using m b(1) by (intro exI [of _ "b # bs"]) (simp add: case_prod_beta)
qed simp

lemma start_pool_holds:
  "(\<And>m. m \<in> set ms \<Longrightarrow> holdsA C G False m False False) \<Longrightarrow> C s = 0 \<Longrightarrow> pool_holds C G (start_pool ms s)"
  using start_holds [of ms C G s 0] by (simp add: pool_holds_def)

lemma sum_of_bool_update:
  "i < length bs \<Longrightarrow>
    sum_list (map of_bool (bs[i := b])) + of_bool (bs ! i) = sum_list (map of_bool bs) + (of_bool b :: nat)"
proof (induction bs arbitrary: i)
  case (Cons c bs)
  show ?case
  proof (cases i)
    case (Suc j)
    then show ?thesis using Cons.IH [of j] Cons.prems by simp
  qed simp
qed simp

lemma pool_step_holds:
  assumes "pool_step outside p q" "pool_holds C G p" "\<And>s s'. outside s s' \<Longrightarrow> C s' \<le> C s"
  shows "pool_holds C G q"
  using assms(1)
proof (cases rule: pool_step.cases)
  case (segment i ts g k s r s')
  obtain bs where bs: "list_all2 (holding C G False False) ts bs" "C s \<le> sum_list (map of_bool bs)"
    using assms(2) segment(1) by (auto simp: pool_holds_def)
  then have i: "i < length bs" "holding C G False False (Await g k) (bs ! i)"
    using segment(3,4) list_all2_lengthD [OF bs(1)] list_all2_nthD [OF bs(1), of i] by (simp_all del: holding.simps)
  then obtain b where b: "holding C G False False r b" "shift C s (bs ! i) s' b"
    using segment(6) unfolding holding_Await by (blast dest: holdsA_D)
  have "of_bool (bs ! i) \<le> sum_list (map of_bool bs :: nat list)"
    using i(1) elem_le_sum_list [of i "map of_bool bs :: nat list"] by simp
  then obtain n where n: "sum_list (map of_bool bs) = n + (of_bool (bs ! i) :: nat)" by (metis le_add_diff_inverse2)
  then have "C s' \<le> sum_list (map of_bool (bs[i := b]))"
    using b(2) bs(2) sum_of_bool_update [OF i(1), of b] n by (simp add: shift_def)
  then show ?thesis using segment(2) bs(1) b(1) by (auto simp: pool_holds_def intro!: exI [of _ "bs[i := b]"] list_all2_update_cong)
next
  case (outside s s' ts)
  then show ?thesis using assms(2) assms(3) [of s s'] by (fastforce simp: pool_holds_def)
qed

lemma pool_step_guarded:
  assumes "pool_step outside p q" "list_all (guarded G) (snd p)"
  shows "list_all (guarded G) (snd q)"
  using assms
proof (induction rule: pool_step.induct)
  case (segment i ts g k s r s')
  then have "guarded G (Await g k)" by (metis list_all_length snd_conv)
  then have "guarded G r" using segment(4) unfolding guarded_Await by (blast intro: guardedA_D)
  then show ?case using segment.prems set_update_subset_insert [of ts i r] by (auto simp: list_all_iff)
qed simp

lemma start_pool_guarded: "(\<And>m. m \<in> set ms \<Longrightarrow> guardedA G m) \<Longrightarrow> list_all (guarded G) (snd (start_pool ms s))"
  by (induction ms arbitrary: s) (auto simp: case_prod_beta guardedA_def)

text \<open>A resource in use is held by a member that waits for a condition of its kind.\<close>

lemma pool_holder:
  assumes "pool_holds C G (s, ts)" "0 < C s"
  obtains i g k where "i < length ts" "ts ! i = Await g k" "g \<in> G"
proof -
  obtain bs where bs: "list_all2 (holding C G False False) ts bs" "C s \<le> sum_list (map of_bool bs)"
    using assms(1) by (auto simp: pool_holds_def)
  have "\<exists>b \<in> set bs. b"
  proof (rule ccontr)
    assume "\<not> (\<exists>b \<in> set bs. b)"
    then have "sum_list (map of_bool bs) = (0 :: nat)" by (induction bs) auto
    then show False using bs(2) assms(2) by linarith
  qed
  then obtain i where i: "i < length bs" "bs ! i" by (auto simp: in_set_conv_nth)
  then have held: "i < length ts" "holding C G False False (ts ! i) True"
    using list_all2_lengthD [OF bs(1)] list_all2_nthD2 [OF bs(1), of i] by simp_all
  then show ?thesis using that [OF held(1)] by (cases "ts ! i") auto
qed

lemma pool_settled_free:
  assumes "pool_holds C G (s, ts)" "list_all (\<lambda>t. \<exists>a. t = Ret a) ts"
  shows "C s = 0"
proof (rule ccontr)
  assume "C s \<noteq> 0"
  then have "0 < C s" by simp
  with assms(1) obtain i g k where "i < length ts" "ts ! i = Await g k" "g \<in> G" by (rule pool_holder)
  moreover from this(1) obtain a where "ts ! i = Ret a" using assms(2) unfolding list_all_length by blast
  ultimately show False by simp
qed

section \<open>Segments end\<close>

text \<open>The residual left by a segment.\<close>

definition continues :: "(('s, 'a) res \<times> ('s, 'a) res) set" where
  "continues = {(r, t). \<exists>g k s. t = Await g k \<and> r = fst (k s)}"

lemma wf_continues: "wf (continues :: (('s, 'a) res \<times> ('s, 'a) res) set)"
proof (rule wfUNIVI)
  fix P :: "('s, 'a) res \<Rightarrow> bool" and t
  assume step: "\<forall>t. (\<forall>r. (r, t) \<in> continues \<longrightarrow> P r) \<longrightarrow> P t"
  show "P t"
  proof (induction t)
    case (Await g k)
    have "P r" if r: "(r, Await g k) \<in> continues" for r
    proof -
      obtain s where "r = fst (k s)" using r unfolding continues_def by blast
      then have "r \<in> Basic_BNFs.fsts (k s)" by (cases "k s") (simp add: prod_set_simps)
      then show ?thesis using Await by blast
    qed
    then show ?case using step by blast
  qed (use step in \<open>auto simp: continues_def\<close>)
qed

abbreviation nobody :: "'s \<Rightarrow> 's \<Rightarrow> bool" where
  "nobody \<equiv> (\<lambda>_ _. False)"

lemma segment_continues:
  "pool_step nobody p q \<Longrightarrow> (mset (snd q), mset (snd p)) \<in> mult1 continues"
proof (induction rule: pool_step.induct)
  case (segment i ts g k s r s')
  have "(r, Await g k) \<in> continues" using segment(4) unfolding continues_def by (auto intro!: exI [of _ s])
  moreover have "mset ts = add_mset (Await g k) (mset ts - {#Await g k#})"
    using segment(1,2) by (metis insert_DiffM nth_mem set_mset_mset)
  moreover have "mset (ts[i := r]) = mset ts - {#Await g k#} + {#r#}"
    using segment(1,2) by (simp add: mset_update)
  ultimately show ?case
    using mult1I [of "mset ts" "Await g k" "mset ts - {#Await g k#}" "mset (ts[i := r])" "{#r#}" continues] by simp
qed simp

lemma wf_segments: "wf {(q, p). pool_step nobody p q}"
proof (rule wf_subset)
  show "wf (inv_image (mult1 continues) (\<lambda>p. mset (snd p)))" using wf_mult1 [OF wf_continues] by (rule wf_inv_image)
  show "{(q, p). pool_step nobody p q} \<subseteq> inv_image (mult1 continues) (\<lambda>p. mset (snd p))"
    using segment_continues by (fastforce simp: inv_image_def)
qed

lemma segments_reach: "pool_step nobody p q \<Longrightarrow> pool_step outside p q"
  by (induction rule: pool_step.induct) (auto intro: pool_step.segment)

text \<open>A pool that is never stuck reaches its end.\<close>

definition settled :: "('s, 'a) res list \<Rightarrow> bool" where
  "settled ts \<longleftrightarrow> list_all (\<lambda>t. \<exists>a. t = Ret a) ts \<or> (\<exists>e. Throw e \<in> set ts)"

lemma pool_ends:
  assumes "I p" "\<And>p q. I p \<Longrightarrow> pool_step nobody p q \<Longrightarrow> I q" "\<And>p. I p \<Longrightarrow> settled (snd p) \<or> (\<exists>q. pool_step nobody p q)"
  shows "\<exists>q. pool_reach outside p q \<and> I q \<and> settled (snd q)"
  using assms(1)
proof (induction p rule: wf_induct_rule [OF wf_segments])
  case (1 p)
  show ?case
  proof (cases "settled (snd p)")
    case True
    then show ?thesis using 1(2) by (intro exI [of _ p]) (simp add: pool_reach_def)
  next
    case False
    then obtain q where q: "pool_step nobody p q" using assms(3) 1(2) by blast
    then obtain q' where "pool_reach outside q q'" and q': "I q'" "settled (snd q')" using 1 assms(2) by blast
    then have "pool_reach outside p q'"
      using converse_rtranclp_into_rtranclp [of "pool_step outside" p q q'] segments_reach [OF q] unfolding pool_reach_def by blast
    then show ?thesis using q' by blast
  qed
qed

end
