(* ===== verification/ExecutorLive.thy ===== *)
theory ExecutorLive
  imports ExecutorRounds Holding
begin

text \<open>
  Liveness of the executor.  With limits that admit a job at all, the workers of a round are never stuck:
  a worker that waits for a seat of the bulkhead or for an execution in flight waits for something another
  worker holds, which that worker gives back without waiting for either.  So every round can end, wherever
  its interleaving stands, and so can every run.  The calculus is that of \<open>Holding\<close>; the interface
  \<open>seat_usage\<close> states what a limit of the bulkhead counts, for the seats and for the three kinds of counters.
\<close>

section \<open>What workers wait for\<close>

definition settles :: "('w exec_state \<Rightarrow> bool) set" where
  "settles = insert always (range (\<lambda>key. idem_settled ex_idempotency key))"

definition free_seats :: "bulkhead_limits \<Rightarrow> ('w exec_state \<Rightarrow> bool) set" where
  "free_seats limits = range (\<lambda>slot t. fst (tryAcquire limits slot (ex_limiter t)))"

abbreviation open_waits :: "('w exec_state \<Rightarrow> bool) set" where
  "open_waits \<equiv> {always}"

lemma guarded_mono: "guarded G r \<Longrightarrow> G \<subseteq> H \<Longrightarrow> guarded H r"
proof (induction r)
  case (Await g k)
  have "guarded H (fst (k s))" for s
  proof -
    have "fst (k s) \<in> Basic_BNFs.fsts (k s)" by (cases "k s") (simp add: prod_set_simps)
    moreover have "guarded G (fst (k s))" using Await.prems(1) by simp
    ultimately show ?thesis using Await.IH [OF rangeI] Await.prems(2) by blast
  qed
  then show ?case using Await.prems by auto
qed simp_all

lemma guardedA_mono: "guardedA G m \<Longrightarrow> G \<subseteq> H \<Longrightarrow> guardedA H m"
  using guarded_mono unfolding guardedA_def by blast

lemma always_open: "always \<in> open_waits"
  by simp

lemmas open_intros = guard_intros always_open

lemma persist_guarded: "guardedA open_waits (persist cfg)"
  unfolding persist_def by (intro open_intros)

lemma runWithTimeout_guarded: "guardedA open_waits (runWithTimeout cfg action input d)"
  unfolding runWithTimeout_def by (intro open_intros)

lemma requestApproval_guarded: "guardedA open_waits (requestApproval cfg d action)"
  unfolding requestApproval_def Let_def by (intro open_intros persist_guarded)

lemma runApproval_guarded: "guardedA open_waits (runApproval cfg d)"
  unfolding runApproval_def Let_def by (auto intro!: open_intros requestApproval_guarded)

lemma condition_source_guarded: "guardedA open_waits (condition_source cfg d cond)"
  unfolding condition_source_def by (auto intro!: open_intros runWithTimeout_guarded)

lemma runConditional_guarded: "guardedA open_waits (runConditional cfg d)"
  unfolding runConditional_def by (auto intro!: open_intros condition_source_guarded split: option.splits)

lemma runNodeAction_guarded: "guardedA open_waits (runNodeAction cfg d)"
  unfolding runNodeAction_def Let_def
  by (auto intro!: open_intros runConditional_guarded runApproval_guarded requestApproval_guarded runWithTimeout_guarded
      split: node_kind.splits option.splits)

lemma run_compensation_guarded: "guardedA open_waits (run_compensation cfg action input d)"
  unfolding run_compensation_def by (intro open_intros)

lemma compensate_one_guarded: "guardedA open_waits (compensate_one cfg failed i)"
proof -
  have "guardedA open_waits (\<lambda>s. case spec of
      CompAction action input \<Rightarrow> bindA (run_compensation cfg action input d) (\<lambda>_.
        syncA (bindP (modify (\<lambda>s. s\<lparr>ex_compensated := ex_compensated s @ [i]\<rparr>)) (\<lambda>_. emit (WorkflowNodeCompensated i action)))) s
    | CompIrreversible \<Rightarrow> returnA () s)" for spec d
    by (cases spec) (auto intro!: open_intros run_compensation_guarded)
  then show ?thesis unfolding compensate_one_def by (intro guardedA_if guardedA_option guardedA_return)
qed

lemma compensateUpstream_guarded: "guardedA open_waits (compensateUpstream cfg failed)"
  unfolding compensateUpstream_def
  by (rule guardedA_reader [of _ "\<lambda>order. forA (compensate_one cfg failed) (rev order)"]) (intro guardedA_for compensate_one_guarded)

lemma failNode_guarded: "guardedA open_waits (failNode cfg d e quarantined)"
  unfolding failNode_def Let_def
  by (auto intro!: open_intros persist_guarded run_compensation_guarded compensateUpstream_guarded
      split: option.splits compensation_spec.splits)

lemma executeWithRetry_guarded: "guardedA open_waits (executeWithRetry cfg d job)"
proof -
  have try_block: "guardedA open_waits (try_attempt cfg d attempt)" for attempt
    unfolding try_attempt_def by (intro open_intros runNodeAction_guarded persist_guarded)
  have catch_block: "guardedA open_waits (after_failure cfg d attempt again e)" if "guardedA open_waits again" for attempt again e
    unfolding after_failure_def Let_def by (auto intro!: open_intros failNode_guarded persist_guarded that)
  have "guardedA open_waits (attempt_node cfg d job attempt again)" if "guardedA open_waits again" for attempt again
    unfolding attempt_node_def by (intro open_intros persist_guarded try_block catch_block that)
  then have "guardedA open_waits (retry_loop cfg d job n attempt)" for n attempt
    by (induction n arbitrary: attempt) (simp_all add: guardedA_throw)
  then show ?thesis by (simp add: executeWithRetry_def)
qed

section \<open>The store of executions in flight\<close>

definition in_flight :: "string \<Rightarrow> 'w exec_state \<Rightarrow> nat" where
  "in_flight key s = of_bool (map_get (id_inFlight (ex_idempotency s)) key = Some None)"

lemma seats_fields [simp]:
  "ex_limiter (set_status i st s) = ex_limiter s" "ex_idempotency (set_status i st s) = ex_idempotency s"
  "ex_limiter (record_completion i r s) = ex_limiter s" "ex_idempotency (record_completion i r s) = ex_idempotency s"
  using same_seats_simps(2) [of s i st] record_completion_simps(9) [of s i r] unfolding same_seats_def by simp_all

interpretation flying: executor_completing cfg "\<lambda>s. P (ex_idempotency s)" for cfg P
  by unfold_locales (auto simp: same_seats_def)

interpretation seated: executor_delivering cfg "\<lambda>s. P (ex_limiter s)" for cfg P
  by unfold_locales (auto simp: same_seats_def put_idempotency_def)

lemma in_flight_untouched: "(\<And>P. keepsA (\<lambda>s. P (ex_idempotency s)) m) \<Longrightarrow> keepsA (\<lambda>s. in_flight key s \<le> c) m"
  unfolding in_flight_def by assumption

text \<open>Who runs the execution of a key holds it until the promise is settled.\<close>

lemma idem_run_holds:
  assumes "guardedA open_waits fn" "\<And>c. keepsA (\<lambda>s. in_flight key s \<le> c) fn"
  shows "holdsA (in_flight key) open_waits False (idem_run ex_idempotency put_idempotency k fn) False False"
proof -
  let ?mine = "k = key"
  let ?run = "catchA
      (bindA fn (\<lambda>r t. let st = ex_idempotency t in
         (Ret r, put_idempotency (st\<lparr>id_completed := map_set k r (id_completed st),
            id_inFlight := map_del k (id_inFlight st)\<rparr>) t)))
      (\<lambda>e t. let st = ex_idempotency t in
         (Throw e, put_idempotency (st\<lparr>id_inFlight := map_set k (Some e) (id_inFlight st)\<rparr>) t))"
  have "holdsA (in_flight key) open_waits ?mine ?run False False"
  proof (rule holdsA_catch)
    show "holdsA (in_flight key) open_waits ?mine (bindA fn (\<lambda>r t. let st = ex_idempotency t in
         (Ret r, put_idempotency (st\<lparr>id_completed := map_set k r (id_completed st),
            id_inFlight := map_del k (id_inFlight st)\<rparr>) t))) False ?mine"
      by (rule holdsA_bind [OF holdsA_untouched [OF assms]])
        (auto simp: holdsA_def holds_def shift_def in_flight_def put_idempotency_def Let_def)
    show "holdsA (in_flight key) open_waits ?mine (\<lambda>t. let st = ex_idempotency t in
         (Throw e, put_idempotency (st\<lparr>id_inFlight := map_set k (Some e) (id_inFlight st)\<rparr>) t)) False False" for e
      by (auto simp: holdsA_def holds_def shift_def in_flight_def put_idempotency_def Let_def)
  qed
  then have "holdsA (in_flight key) open_waits False
      (\<lambda>s. ?run (put_idempotency ((ex_idempotency s)\<lparr>id_inFlight := map_set k None (id_inFlight (ex_idempotency s))\<rparr>) s)) False False"
    by (rule holdsA_moved) (auto simp: shift_def in_flight_def put_idempotency_def)
  then show ?thesis unfolding idem_run_def
    by (intro holdsA_option holdsA_awaitP holdsA_wait) (auto simp: returnP_def idem_join_def split: option.splits)
qed

lemma deliver_job_flying: "holdsA (in_flight key) open_waits False (deliver_job cfg d job) False False"
proof -
  have exec: "keepsA (\<lambda>s. in_flight key s \<le> c) (awaited (executeWithRetry cfg d job))" for c
    unfolding in_flight_def by (intro keepsA_awaited flying.executeWithRetry_keeps)
  have finish: "keepsA (\<lambda>s. in_flight key s \<le> c) (syncA (bindP (modify (\<lambda>s. if dup then s\<lparr>ex_deduped := ex_deduped s + 1\<rparr> else s)) (\<lambda>_ s.
         if node_terminal s (node_id d) then (Inr (), s) else completeNode cfg d result s)))" for c dup result
    unfolding in_flight_def
    by (intro keepsA_sync keepsP_bind keepsP_if flying.completeNode_keeps keepsP_return [unfolded returnP_def])
      (auto simp: keepsP_def modify_def)
  show ?thesis unfolding deliver_job_def Let_def
    by (rule holdsA_reader, rule holdsA_bind [where q = False])
      (intro holdsA_awaited always_open idem_run_holds guardedA_awaited executeWithRetry_guarded exec
        holdsA_untouched guardedA_sync finish)+
qed

lemma runJob_body:
  assumes acquire: "\<And>slot. holdsA C G False (acquire_slot cfg slot) (own slot) False"
    and deliver: "\<And>d slot. holdsA C G (own slot) (deliver_job cfg d job) (own slot) (own slot)"
    and fail: "\<And>d e slot. holdsA C G (own slot) (awaited (failNode cfg d e False)) (own slot) (own slot)"
    and release: "\<And>slot s. shift C s (own slot) (release_slot slot s) False"
  shows "holdsA C G False (runJob cfg job) False False"
  unfolding runJob_def Let_def
proof (intro holdsA_if holdsA_option holdsA_return)
  fix n
  let ?slot = "job_slot job (in_def n)"
  have "holdsA C G (own ?slot) (if is_crash e then throwA e
      else (\<lambda>s. if node_terminal s (node_id (in_def n)) then returnA () s
        else awaited (failNode cfg (in_def n) (err_message e) False) s)) (own ?slot) (own ?slot)" for e
    by (auto intro!: holdsA_throw holdsA_if holdsA_return fail)
  then have "holdsA C G (own ?slot) (catchA (deliver_job cfg (in_def n) job) (\<lambda>e. if is_crash e then throwA e
      else (\<lambda>s. if node_terminal s (node_id (in_def n)) then returnA () s
        else awaited (failNode cfg (in_def n) (err_message e) False) s))) (own ?slot) (own ?slot)"
    by (intro holdsA_catch [OF deliver])
  then show "holdsA C G False (\<lambda>s. bindA (acquire_slot cfg ?slot) (\<lambda>_. finallyA (catchA (deliver_job cfg (in_def n) job) (\<lambda>e.
        if is_crash e then throwA e
        else (\<lambda>s. if node_terminal s (node_id (in_def n)) then returnA () s
          else awaited (failNode cfg (in_def n) (err_message e) False) s))) (release_slot ?slot)) s) False False"
    using release by (intro holdsA_bind [OF acquire] holdsA_finally)
qed

lemma worker_holds:
  assumes "always \<in> G" "\<And>job. holdsA C G False (runJob cfg job) False False" "\<And>s q. C (s\<lparr>ex_queue := q\<rparr>) = C s"
  shows "holdsA C G False (worker cfg n) False False"
proof (induction n)
  case 0
  then show ?case by (simp add: holdsA_return)
next
  case (Suc n)
  have next_job: "holds C G False False s False
      (bindA (awaited (runJob cfg job)) (\<lambda>_. worker cfg n) (s\<lparr>ex_queue := q\<rparr>))" for s q job
    by (rule holds_after [OF holdsA_bind [OF holdsA_awaited [OF assms(1,2)] Suc]]) (simp add: shift_def assms(3))
  show ?case unfolding worker.simps holdsA_def
    using next_job holdsA_return [of C G False "()" False]
    by (auto simp: holdsA_def split: prod.splits option.splits)
qed

lemma acquire_slot_flying: "holdsA (in_flight key) G False (acquire_slot cfg slot) False False"
proof -
  have moved: "in_flight key (s\<lparr>ex_limiter := l\<rparr>) = in_flight key s" for s :: "'a exec_state" and l by (simp add: in_flight_def)
  show ?thesis unfolding acquire_slot_def
    by (intro holdsA_if) (auto simp: holdsA_def holds_def waitA_def modify_def sumR_def shift_def moved intro!: exI [of _ False])
qed

lemma failNode_flying: "holdsA (in_flight key) open_waits False (awaited (failNode cfg d e q)) False False"
proof -
  have "keepsA (\<lambda>s. in_flight key s \<le> c) (failNode cfg d e q)" for c
    unfolding in_flight_def by (rule flying.failNode_keeps)
  then show ?thesis by (intro holdsA_awaited always_open holdsA_untouched failNode_guarded)
qed

lemma worker_flying: "holdsA (in_flight key) open_waits False (worker cfg n) False False"
proof (rule worker_holds)
  show "holdsA (in_flight key) open_waits False (runJob cfg job) False False" for job
    by (rule runJob_body [where own = "\<lambda>_. False"])
      (auto intro: acquire_slot_flying deliver_job_flying failNode_flying simp: shift_def in_flight_def release_slot_def)
qed (simp_all add: in_flight_def)

section \<open>The seats\<close>

lemma idem_run_guarded:
  assumes "guardedA settles fn"
  shows "guardedA settles (idem_run ex_idempotency put_idempotency k fn)"
proof -
  have "guardedA settles (\<lambda>s. (catchA
      (bindA fn (\<lambda>r t. let st = ex_idempotency t in
         (Ret r, put_idempotency (st\<lparr>id_completed := map_set k r (id_completed st),
            id_inFlight := map_del k (id_inFlight st)\<rparr>) t)))
      (\<lambda>e t. let st = ex_idempotency t in
         (Throw e, put_idempotency (st\<lparr>id_inFlight := map_set k (Some e) (id_inFlight st)\<rparr>) t)))
      (put_idempotency ((ex_idempotency s)\<lparr>id_inFlight := map_set k None (id_inFlight (ex_idempotency s))\<rparr>) s))"
    by (rule guardedA_moved, intro guardedA_catch guardedA_bind assms) (auto simp: guardedA_def Let_def)
  then show ?thesis unfolding idem_run_def
    by (intro guardedA_option guardedA_await guardedA_wait) (auto simp: settles_def)
qed

lemma deliver_job_guarded: "guardedA settles (deliver_job cfg d job)"
proof -
  have exec: "guardedA settles (executeWithRetry cfg d job)"
    by (rule guardedA_mono [OF executeWithRetry_guarded]) (simp add: settles_def)
  show ?thesis unfolding deliver_job_def Let_def
    by (rule guardedA_reader, intro guardedA_bind guardedA_awaited idem_run_guarded guardedA_sync exec) (auto simp: settles_def)
qed

text \<open>What a limit counts: taking a seat adds at most the slot's own unit, giving it back takes that away.\<close>

locale seat_usage =
  fixes usage :: "limiter \<Rightarrow> nat" and own :: "bulkhead_slot \<Rightarrow> bool"
  assumes acquired: "usage (snd (tryAcquire limits slot l)) \<le> usage l + of_bool (own slot)"
    and released: "usage (release slot l) \<le> usage l - of_bool (own slot)"
    and unused: "usage new_limiter = 0"
begin

abbreviation used :: "'w exec_state \<Rightarrow> nat" where
  "used s \<equiv> usage (ex_limiter s)"

lemma acquire_slot_holds: "holdsA used G False (acquire_slot cfg slot) (own slot) t"
proof -
  have taken: "shift used s False (s\<lparr>ex_limiter := snd (tryAcquire limits slot (ex_limiter s))\<rparr>) (own slot)" for s :: "'w exec_state" and limits
    using acquired [of limits slot "ex_limiter s"] by (simp add: shift_def)
  show ?thesis unfolding acquire_slot_def
  proof (rule holdsA_if)
    show "holdsA used G False (waitA (\<lambda>t. fst (tryAcquire (exec_limits cfg) slot (ex_limiter t)))
       (modify (\<lambda>t. t\<lparr>ex_limiter := snd (tryAcquire (exec_limits cfg) slot (ex_limiter t))\<rparr>))) (own slot) t"
      using taken by (auto simp: holdsA_def holds_def waitA_def modify_def sumR_def intro!: exI [of _ False])
  qed (use taken in \<open>auto simp: holdsA_def holds_def\<close>)
qed

lemma deliver_job_holds: "holdsA used settles b (deliver_job cfg d job) b b"
  by (intro holdsA_untouched seated.deliver_job_keeps deliver_job_guarded)

lemma worker_seated: "holdsA used settles False (worker cfg n) False False"
proof (rule worker_holds)
  have fail: "guardedA settles (failNode cfg d e False)" for d e
    by (rule guardedA_mono [OF failNode_guarded]) (simp add: settles_def)
  show "holdsA used settles False (runJob cfg job) False False" for job
  proof (rule runJob_body [where own = own])
    show "holdsA used settles (own slot) (awaited (failNode cfg d e False)) (own slot) (own slot)" for d e slot
      by (intro holdsA_awaited holdsA_untouched fail seated.failNode_keeps) (simp add: settles_def)
    show "shift used s (own slot) (release_slot slot s) False" for slot and s :: "'w exec_state"
      using released [of slot "ex_limiter s"] by (auto simp: shift_def release_slot_def of_bool_def split: if_splits)
  qed (rule acquire_slot_holds deliver_job_holds)+
qed (simp_all add: settles_def)

end

interpretation running: seat_usage "\<lambda>l. of_bool (i \<in> set (lm_running l))" "\<lambda>slot. sl_id slot = i" for i
  by unfold_locales (auto simp: tryAcquire_def release_def new_limiter_def)

definition seats_counted :: "(string, int) js_map \<Rightarrow> string \<Rightarrow> nat" where
  "seats_counted m a = (case map_get m a of None \<Rightarrow> 0 | Some c \<Rightarrow> nat c)"

definition names :: "string option \<Rightarrow> string \<Rightarrow> bool" where
  "names s a \<longleftrightarrow> truthy s \<and> s = Some a"

lemma count_up_counted: "seats_counted (count_up s m) a \<le> seats_counted m a + of_bool (names s a)"
  by (cases s) (auto simp: seats_counted_def count_up_def names_def counted_def truthy_def split: option.splits)

lemma count_up_names: "\<not> names s a \<Longrightarrow> seats_counted (count_up s m) a = seats_counted m a"
  by (cases s) (auto simp: seats_counted_def count_up_def names_def counted_def truthy_def split: option.splits)

lemma count_down_counted: "seats_counted (count_down s m) a \<le> seats_counted m a - of_bool (names s a)"
  by (cases s) (auto simp: seats_counted_def count_down_def names_def truthy_def split: option.splits)

interpretation by_agent: seat_usage "\<lambda>l. seats_counted (lm_byAgent l) a" "\<lambda>slot. names (sl_agentId slot) a" for a
  by unfold_locales (use count_up_counted count_down_counted in
    \<open>auto simp: tryAcquire_def release_def new_limiter_def seats_counted_def [of "[]"] trans_le_add1\<close>)

interpretation by_tenant: seat_usage "\<lambda>l. seats_counted (lm_byTenant l) a" "\<lambda>slot. names (sl_tenantId slot) a" for a
  by unfold_locales (use count_up_counted count_down_counted in
    \<open>auto simp: tryAcquire_def release_def new_limiter_def seats_counted_def [of "[]"] trans_le_add1\<close>)

interpretation by_tool: seat_usage "\<lambda>l. seats_counted (lm_byTool l) a" "\<lambda>slot. names (sl_toolId slot) a" for a
  by unfold_locales (use count_up_counted count_down_counted in
    \<open>auto simp: tryAcquire_def release_def new_limiter_def seats_counted_def [of "[]"] trans_le_add1\<close>)

section \<open>No round is stuck\<close>

definition limits_positive :: "bulkhead_limits \<Rightarrow> bool" where
  "limits_positive limits \<longleftrightarrow> 0 < maxConcurrentJobs limits \<and> 0 < maxConcurrentPerAgent limits \<and>
     0 < maxConcurrentPerTenant limits \<and> 0 < maxConcurrentPerTool limits"

definition seats_free :: "'w exec_state \<Rightarrow> bool" where
  "seats_free s \<longleftrightarrow> lm_running (ex_limiter s) = [] \<and>
     (\<forall>a. seats_counted (lm_byAgent (ex_limiter s)) a = 0 \<and> seats_counted (lm_byTenant (ex_limiter s)) a = 0 \<and>
        seats_counted (lm_byTool (ex_limiter s)) a = 0) \<and> (\<forall>key. in_flight key s = 0)"

definition pool_live :: "'w exec_options \<Rightarrow> 'w exec_state \<times> ('w exec_state, unit) res list \<Rightarrow> bool" where
  "pool_live cfg p \<longleftrightarrow>
     list_all (guarded (settles \<union> free_seats (exec_limits cfg))) (snd p) \<and>
     (\<forall>key. pool_holds (in_flight key) open_waits p) \<and>
     (\<forall>i. pool_holds (running.used i) settles p) \<and> (\<forall>a. pool_holds (by_agent.used a) settles p) \<and>
     (\<forall>a. pool_holds (by_tenant.used a) settles p) \<and> (\<forall>a. pool_holds (by_tool.used a) settles p)"

lemma refused_in_use:
  assumes "limits_positive limits" "\<not> fst (tryAcquire limits slot l)"
  shows "(\<exists>i. i \<in> set (lm_running l)) \<or> (\<exists>a. 0 < seats_counted (lm_byAgent l) a) \<or>
    (\<exists>a. 0 < seats_counted (lm_byTenant l) a) \<or> (\<exists>a. 0 < seats_counted (lm_byTool l) a)"
proof -
  have some: "0 < seats_counted m (the s)" if "c \<le> counted m s" "0 < c" for c m s
    using that by (auto simp: seats_counted_def counted_def split: option.splits)
  consider "maxConcurrentJobs limits \<le> int (length (lm_running l))"
    | "maxConcurrentPerAgent limits \<le> counted (lm_byAgent l) (sl_agentId slot)"
    | "maxConcurrentPerTenant limits \<le> counted (lm_byTenant l) (sl_tenantId slot)"
    | "maxConcurrentPerTool limits \<le> counted (lm_byTool l) (sl_toolId slot)"
    using assms(2) by (auto simp: tryAcquire_def split: if_splits)
  then show ?thesis
  proof cases
    case 1
    then have "lm_running l \<noteq> []" using assms(1) by (auto simp: limits_positive_def)
    then show ?thesis by (cases "lm_running l") auto
  qed (use some assms(1) in \<open>unfold limits_positive_def, blast\<close>)+
qed

lemma pool_live_holds:
  assumes "pool_live cfg p"
  shows "pool_holds (in_flight key) open_waits p" "pool_holds (running.used i) settles p"
    "pool_holds (by_agent.used a) settles p" "pool_holds (by_tenant.used a) settles p" "pool_holds (by_tool.used a) settles p"
  using assms by (simp_all add: pool_live_def)

lemma enabled: "i < length ts \<Longrightarrow> ts ! i = Await g k \<Longrightarrow> g s \<Longrightarrow> \<exists>q. pool_step nobody (s, ts) q"
  using pool_step.segment [of i ts g k s] by (cases "k s") blast

lemma settles_enabled:
  assumes "pool_live cfg (s, ts)" "i < length ts" "ts ! i = Await g k" "g \<in> settles"
  shows "\<exists>q. pool_step nobody (s, ts) q"
proof (cases "g s")
  case True
  then show ?thesis by (rule enabled [OF assms(2,3)])
next
  case False
  then obtain key where "g = idem_settled ex_idempotency key" using assms(4) by (auto simp: settles_def)
  then have "0 < in_flight key s" using False by (simp add: idem_settled_def in_flight_def)
  with pool_live_holds(1) [OF assms(1)] show ?thesis
  proof (rule pool_holder)
    fix j g' k' assume "j < length ts" "ts ! j = Await g' k'" "g' \<in> open_waits"
    then show ?thesis using enabled [of j ts g' k' s] by simp
  qed
qed

lemma pool_live_unstuck:
  assumes "limits_positive (exec_limits cfg)" "pool_live cfg p"
  shows "settled (snd p) \<or> (\<exists>q. pool_step nobody p q)"
proof -
  obtain s ts where p: "p = (s, ts)" by (cases p)
  have held: "\<exists>q. pool_step nobody (s, ts) q" if "pool_holds C settles (s, ts)" "0 < C s" for C
    using that by (rule pool_holder) (use settles_enabled assms(2) p in blast)
  show ?thesis
  proof (cases "settled ts")
    case False
    then obtain i where i: "i < length ts" "\<not> (\<exists>a. ts ! i = Ret a)" "\<not> (\<exists>e. ts ! i = Throw e)"
      by (auto simp: settled_def list_all_length) (metis nth_mem)
    then obtain g k where g: "ts ! i = Await g k" by (cases "ts ! i") auto
    have "guarded (settles \<union> free_seats (exec_limits cfg)) (Await g k)"
      using assms(2) i(1) g by (simp add: pool_live_def p list_all_length del: guarded.simps) (metis)
    then consider "g \<in> settles" | slot where "g = (\<lambda>t. fst (tryAcquire (exec_limits cfg) slot (ex_limiter t)))"
      by (auto simp: free_seats_def)
    then show ?thesis
    proof cases
      case 1
      then show ?thesis using settles_enabled assms(2) i(1) g p by blast
    next
      case 2
      show ?thesis
      proof (cases "g s")
        case True
        then show ?thesis using enabled [OF i(1) g] p by simp
      next
        case False
        then have "\<not> fst (tryAcquire (exec_limits cfg) slot (ex_limiter s))" using 2 by simp
        from refused_in_use [OF assms(1) this] consider i where "0 < running.used i s" | a where "0 < by_agent.used a s"
          | a where "0 < by_tenant.used a s" | a where "0 < by_tool.used a s" by auto
        then have "\<exists>q. pool_step nobody (s, ts) q" using pool_live_holds(2-5) [OF assms(2)] unfolding p
          by cases (blast intro: held)+
        then show ?thesis by (simp add: p)
      qed
    qed
  qed (simp add: p)
qed

lemma pool_live_step:
  assumes "pool_step outside p q" "pool_live cfg p" "\<And>s s'. outside s s' \<Longrightarrow> same_seats s s'"
  shows "pool_live cfg q"
proof -
  have same: "ex_limiter s' = ex_limiter s" "ex_idempotency s' = ex_idempotency s" if "outside s s'" for s s'
    using assms(3) [OF that] by (simp_all add: same_seats_def)
  note held = pool_step_holds [OF assms(1) pool_live_holds(1) [OF assms(2)]] pool_step_holds [OF assms(1) pool_live_holds(2) [OF assms(2)]]
    pool_step_holds [OF assms(1) pool_live_holds(3) [OF assms(2)]] pool_step_holds [OF assms(1) pool_live_holds(4) [OF assms(2)]]
    pool_step_holds [OF assms(1) pool_live_holds(5) [OF assms(2)]]
  show ?thesis unfolding pool_live_def
    by (intro conjI allI held pool_step_guarded [OF assms(1)]) (use assms(2) same in \<open>auto simp: pool_live_def in_flight_def\<close>)
qed

lemma worker_guarded: "guardedA (settles \<union> free_seats (exec_limits cfg)) (worker cfg n)"
proof (induction n)
  case 0
  then show ?case by (simp add: guardedA_return)
next
  case (Suc n)
  let ?G = "settles \<union> free_seats (exec_limits cfg)"
  have acquire: "guardedA ?G (acquire_slot cfg slot)" for slot
    unfolding acquire_slot_def by (intro guardedA_if guardedA_wait) (auto simp: guardedA_def free_seats_def)
  have deliver: "guardedA ?G (deliver_job cfg d job)" for d job by (rule guardedA_mono [OF deliver_job_guarded]) simp
  have fail: "guardedA ?G (failNode cfg d e b)" for d e b
    by (rule guardedA_mono [OF failNode_guarded]) (simp add: settles_def)
  have always: "always \<in> ?G" by (simp add: settles_def)
  have "guardedA ?G (runJob cfg job)" for job
    unfolding runJob_def Let_def
    by (auto intro!: guardedA_if guardedA_option guardedA_return guardedA_bind acquire guardedA_finally guardedA_catch deliver
        guardedA_throw guardedA_awaited always fail)
  then have "guardedA ?G (bindA (awaited (runJob cfg job)) (\<lambda>_. worker cfg n))" for job
    by (intro guardedA_bind guardedA_awaited always Suc)
  then show ?case by (auto simp: guardedA_def returnA_def split: prod.splits option.splits)
qed

lemma start_live:
  assumes "seats_free s"
  shows "pool_live cfg (start_pool (workers cfg s) s)"
  unfolding pool_live_def
  using assms
  by (auto simp: seats_free_def workers_def worker_flying intro!: start_pool_guarded start_pool_holds worker_guarded
      running.worker_seated by_agent.worker_seated by_tenant.worker_seated by_tool.worker_seated)

lemma pool_reach_live:
  "pool_reach cancels p q \<Longrightarrow> pool_live cfg p \<Longrightarrow> pool_live cfg q"
  unfolding pool_reach_def
  by (induction rule: rtranclp_induct) (auto elim!: pool_live_step simp: cancels_def cancel_def same_seats_def)

lemma settled_free:
  assumes "pool_live cfg (s, ts)" "list_all (\<lambda>t. t = Ret ()) ts"
  shows "seats_free s"
proof -
  have "list_all (\<lambda>t. \<exists>a. t = Ret a) ts" using assms(2) by (auto simp: list_all_iff)
  note free = pool_live_holds [OF assms(1), THEN pool_settled_free, OF this]
  have "of_bool (i \<in> set (lm_running (ex_limiter s))) = (0 :: nat)" for i by (rule free)
  then have "i \<notin> set (lm_running (ex_limiter s))" for i by (metis of_bool_eq(2) one_neq_zero)
  then have "lm_running (ex_limiter s) = []" by (cases "lm_running (ex_limiter s)") auto
  then show ?thesis using free by (simp add: seats_free_def)
qed

section \<open>No run is stuck\<close>

interpretation queueing: executor_queueing cfg "\<lambda>s. P (ex_limiter s) (ex_idempotency s)" for cfg P
  by unfold_locales (auto simp: same_seats_def)

lemma start_seats:
  assumes "start_run cfg graph opts s = (Inr (), s1)"
  shows "ex_limiter s1 = ex_limiter s \<and> ex_idempotency s1 = ex_idempotency s"
proof -
  have kept: "ex_limiter s1 = ex_limiter t \<and> ex_idempotency s1 = ex_idempotency t"
    if "bindP (emit body) (\<lambda>_. persist_call cfg) t = (Inr (), s1)" for body t
  proof -
    have "keepsP (\<lambda>u. ex_limiter u = ex_limiter t \<and> ex_idempotency u = ex_idempotency t) (bindP (emit body) (\<lambda>_. persist_call cfg))"
      by (intro keepsP_bind queueing.emit_keeps queueing.persist_call_keeps)
    from keepsP_D [OF this, of t] show ?thesis by (simp add: that)
  qed
  show ?thesis using assms by (auto simp: start_run_def Let_def split: sum.splits prod.splits dest!: kept)
qed

lemma round_ends:
  assumes "limits_positive (exec_limits cfg)" "seats_free s" "pool_reach cancels (start_pool (workers cfg s) s) p"
  obtains q where "pool_reach nobody p q" "settled (snd q)" "pool_live cfg q"
proof -
  have "pool_live cfg p" using pool_reach_live [OF assms(3) start_live [OF assms(2)]] .
  then show ?thesis
    using pool_ends [of "pool_live cfg" p nobody] pool_live_step [of nobody] pool_live_unstuck [OF assms(1)] that by blast
qed

lemma nobody_reach: "pool_reach nobody p q \<Longrightarrow> pool_reach outside p q"
  unfolding pool_reach_def using rtranclp_mono [of "pool_step nobody" "pool_step outside"] segments_reach by blast

lemma dispatch_ends:
  assumes "limits_positive (exec_limits cfg)" "seats_free s"
  obtains r s' where "dispatched cfg s r s'" "is_ok r \<longrightarrow> seats_free s'"
proof -
  have "pool_reach cancels (start_pool (workers cfg s) s) (start_pool (workers cfg s) s)" by (simp add: pool_reach_def)
  from round_ends [OF assms this] obtain s' ts where
    q: "pool_reach nobody (start_pool (workers cfg s) s) (s', ts)" "settled ts" "pool_live cfg (s', ts)" by (metis prod.collapse snd_conv)
  show ?thesis
  proof (cases "\<exists>e. Throw e \<in> set ts")
    case True
    then show ?thesis using that dispatched.one_throws [OF nobody_reach [OF q(1)]] by fastforce
  next
    case False
    then have all: "list_all (\<lambda>t. t = Ret ()) ts" using q(2) by (auto simp: settled_def list_all_iff)
    from that [OF dispatched.all_return [OF nobody_reach [OF q(1)] all]] settled_free [OF q(3) all] show ?thesis by simp
  qed
qed

lemma drive_loop_ends:
  assumes "limits_positive (exec_limits cfg)" "nodes_named s" "seats_free s"
  shows "\<exists>r s'. drive_loop cfg s r s'"
  using assms(2,3)
proof (induction "length (unstarted s)" arbitrary: s rule: less_induct)
  case less
  let ?enqueue = "bindP (enqueue_ready cfg) (\<lambda>_. persist_call cfg)"
  consider "ex_cancelled s" | "\<not> ex_cancelled s" "ready_nodes s = []"
    | e s1 where "\<not> ex_cancelled s" "ready_nodes s \<noteq> []" "?enqueue s = (Inl e, s1)"
    | s1 where "\<not> ex_cancelled s" "ready_nodes s \<noteq> []" "?enqueue s = (Inr (), s1)"
    by (cases "?enqueue s") (metis (full_types) old.sum.exhaust old.unit.exhaust)
  then show ?case
  proof cases
    case 1
    then show ?thesis using drive_loop.cancelled [OF 1] by (metis surj_pair)
  next
    case 2
    then show ?thesis using drive_loop.idle by (metis surj_pair)
  next
    case 3
    then show ?thesis using drive_loop.enqueue_throws by blast
  next
    case 4
    have "keepsP (\<lambda>t. ex_limiter t = ex_limiter s \<and> ex_idempotency t = ex_idempotency s) ?enqueue"
      by (intro keepsP_bind queueing.enqueue_ready_keeps queueing.persist_call_keeps)
    from keepsP_D [OF this, of s] have "seats_free s1" using less.prems(2) 4(3) by (simp add: seats_free_def in_flight_def)
    from dispatch_ends [OF assms(1) this] obtain r s3 where r: "dispatched cfg s1 r s3" "is_ok r \<longrightarrow> seats_free s3" .
    show ?thesis
    proof (cases r)
      case (Inl e)
      then show ?thesis using drive_loop.dispatch_throws [OF 4 rtranclp.rtrancl_refl] r(1) by blast
    next
      case (Inr u)
      then have round: "one_round cfg s s3" using one_round.intros [OF 4 rtranclp.rtrancl_refl] r(1) by simp
      have "\<exists>r s'. drive_loop cfg s3 r s'"
      proof (cases "ex_cancelled s3")
        case True
        then show ?thesis using drive_loop.cancelled [OF True] by (metis surj_pair)
      next
        case False
        then show ?thesis using less.hyps one_round_unstarted [OF round less.prems(1)] named.one_round_keeps [OF round less.prems(1)]
          r(2) Inr by auto
      qed
      then obtain r' s' where "drive_loop cfg s3 r' s'" by blast
      moreover have "dispatched cfg s1 (Inr ()) s3" using r(1) Inr by simp
      ultimately have "drive_loop cfg s r' s'" using drive_loop.round [OF 4 rtranclp.rtrancl_refl] by blast
      then show ?thesis by blast
    qed
  qed
qed

text \<open>C5.  A round of workers can always end: in whatever state the interleaving of its workers and of calls
  of \<open>cancel\<close> has reached, running waits that are over, one after the other, leads to a state in which all
  workers have returned or one has thrown, provided the limits admit a job at all and nothing was taken when
  the round began.  (Every such sequence is finite, by \<open>wf_segments\<close>, and none ends earlier.)\<close>

theorem round_can_end:
  assumes "limits_positive (exec_limits cfg)" "seats_free s" "pool_reach cancels (start_pool (workers cfg s) s) p"
  shows "\<exists>q. pool_reach nobody p q \<and> settled (snd q)"
  using round_ends [OF assms] by blast

text \<open>C4.  A run always can end: with limits that admit a job at all, from every state a start leaves when no
  seat is taken and no execution is in flight, \<open>drive\<close> has an outcome, whatever the handler does.\<close>

theorem run_can_end:
  assumes "limits_positive (exec_limits cfg)" "seats_free s" "start_run cfg graph opts s = (Inr (), s1)"
  shows "\<exists>r s'. drive cfg s1 r s'"
proof (cases "promoteReady s1")
  case (Pair r s2)
  have free: "seats_free s1"
    using assms(2,3) start_seats [OF assms(3)] by (simp add: seats_free_def in_flight_def)
  have "keepsP (\<lambda>t. ex_limiter t = ex_limiter s1 \<and> ex_idempotency t = ex_idempotency s1) promoteReady"
    by (rule queueing.promoteReady_keeps)
  from keepsP_D [OF this, of s1] have "seats_free s2" using free Pair by (simp add: seats_free_def in_flight_def)
  moreover have "nodes_named s2" using keepsP_D [OF named.promoteReady_keeps] start_named [OF assms(3)] Pair by fastforce
  ultimately obtain r' s' where loop: "drive_loop cfg s2 r' s'" using drive_loop_ends [OF assms(1)] by blast
  show ?thesis
  proof (cases r)
    case (Inl e)
    then show ?thesis using Pair drive.promote_throws by blast
  next
    case (Inr u)
    then have "promoteReady s1 = (Inr (), s2)" using Pair by simp
    from drive.promoted [OF this loop] show ?thesis by blast
  qed
qed

lemma new_seats_free: "ex_limiter s = new_limiter \<Longrightarrow> ex_idempotency s = new_idempotency \<Longrightarrow> seats_free s"
  by (simp add: seats_free_def new_limiter_def new_idempotency_def in_flight_def seats_counted_def)

lemma demo_limits: "limits_positive (exec_limits demo_options)"
  by (simp add: limits_positive_def exec_limits_def demo_options_def DEFAULT_BULKHEAD_def)

lemma demo_enqueued_free: "seats_free demo_enqueued"
proof (rule new_seats_free)
  show "ex_limiter demo_enqueued = new_limiter" by code_simp
  show "ex_idempotency demo_enqueued = new_idempotency" by code_simp
qed

lemma new_executor_free: "seats_free (new_executor ledger w)"
  by (rule new_seats_free) (simp_all add: new_executor_def)

theorem round_can_end_witness:
  "\<exists>q. pool_reach nobody (start_pool (workers demo_options demo_enqueued) demo_enqueued) q \<and> settled (snd q)"
  by (rule round_can_end [OF demo_limits demo_enqueued_free]) (simp add: pool_reach_def)

theorem run_can_end_witness: "\<exists>r s'. drive demo_options demo_started r s'"
  using run_can_end [OF demo_limits new_executor_free] demo_run_starts by blast

end
