(* ===== verification/RunnerTrace.thy ===== *)
theory RunnerTrace
  imports RunnerCases
begin

text \<open>
  Every execution on the local runner leaves its trace in the ledger: the runner's emitter is an
  \<open>event_sink\<close>.
\<close>

definition rn_trace :: "'x runner_world \<Rightarrow> ledger_event_draft list" where
  "rn_trace w = map draft_of (rn_ledger w)"

text \<open>What the ledger keeps of an event of a run.\<close>

definition kept_of :: "run_ids \<Rightarrow> event_draft \<Rightarrow> ledger_event_draft" where
  "kept_of ids d = \<lparr>ld_actor = \<lparr>actor_kind = ActAgent, actor_id = ri_actorId ids\<rparr>, ld_type = ed_type d,
     ld_taskId = ri_taskId ids, ld_runId = ri_runId ids, ld_payload = ed_payload d, ld_evidence = None\<rparr>"

lemma emit_shape:
  "\<exists>ev h. runner_emit r ids d w = (Inr ev, w\<lparr>rn_immune := (rn_immune w)
     \<lparr>iw_ledger := Some (rn_ledger w @ [fst (append_event (rc_sha r) (kept_of ids d) (iw_host (rn_immune w), rn_ledger w))]),
      iw_host := h\<rparr>\<rparr>)"
  by (auto simp: runner_emit_def kept_of_def rn_append_def bindP_def on_host_def on_immune_def returnP_def case_prod_beta)

interpretation ledger_sink: event_sink rn_trace "kept_of ids" "runner_emit r ids" for r :: "'x local_runner" and ids
proof
  fix d and w :: "'x runner_world"
  show "\<exists>ev w'. runner_emit r ids d w = (Inr ev, w')" using emit_shape [of r ids d w] by blast
  show "runner_emit r ids d w = (x, w') \<Longrightarrow> rn_trace w' = rn_trace w @ [kept_of ids d]" for x w'
    using emit_shape [of r ids d w] by (auto simp: rn_trace_def rn_ledger_def)
qed

section \<open>Property\<close>

text \<open>C27.  Every execution of the runner leaves a trace in its ledger.  A denied action is recorded by exactly
  one new event, the denial; it returns the failure with the policy's reason, whatever executors are
  registered, and touches neither meter nor anything outside.  An allowed one records its request
  before anything else, and if it returns, the last event is its completion with the returned result, or
  the rejection by an executor that cannot execute.  Executors may add to the ledger but not rewrite it.\<close>

theorem execution_leaves_trace:
  assumes "\<forall>ex. map_get reg a = Some ex \<longrightarrow> tame rn_trace ex"
  shows "let ctx = runner_context r ids b; (v, w') = execute a i ctx reg w in
    if pd_allowed (runner_policy r ids a) then
      prefix (rn_trace w @ [kept_of ids (requested_event ctx a i)]) (rn_trace w') \<and>
      (case v of
         Inl _ \<Rightarrow> True
       | Inr res \<Rightarrow> last (rn_trace w') = kept_of ids (completed_event ctx a res) \<or>
           (res = fail_result ''executor cannot execute'' \<and> last (rn_trace w') = kept_of ids (rejected_event ctx a)))
    else
      v = Inr (fail_result (pd_reason (runner_policy r ids a))) \<and>
      rn_trace w' = rn_trace w @ [kept_of ids (denied_event ctx a)] \<and>
      rn_meter w' = rn_meter w \<and> rn_outside w' = rn_outside w \<and> (\<forall>reg'. execute a i ctx reg' w = (v, w'))"
proof -
  let ?ctx = "runner_context r ids b"
  have ctx: "ctx_emit ?ctx = runner_emit r ids" "ctx_policy ?ctx = runner_policy r ids" by (simp_all add: runner_context_def)
  show ?thesis
  proof (cases "pd_allowed (runner_policy r ids a)")
    case True
    then show ?thesis
      using ledger_sink.execute_allowed [OF ctx(1), where a = a and reg = reg and i = i and w = w] assms by (simp add: ctx(2) Let_def case_prod_beta)
  next
    case False
    have run: "execute a i ?ctx reg' w = (bindP (runner_emit r ids (denied_event ?ctx a))
        (\<lambda>_. returnP (fail_result (pd_reason (runner_policy r ids a))))) w" for reg'
      using False by (simp add: execute_def Let_def ctx)
    from ledger_sink.execute_denied [OF ctx(1), where a = a and reg = reg and i = i and w = w] False obtain w' where
      w': "execute a i ?ctx reg w = (Inr (fail_result (pd_reason (runner_policy r ids a))), w')"
      "rn_trace w' = rn_trace w @ [kept_of ids (denied_event ?ctx a)]" by (auto simp: ctx(2))
    moreover have "rn_meter w' = rn_meter w \<and> rn_outside w' = rn_outside w"
      using emit_shape [of r ids "denied_event ?ctx a" w] w'(1) by (auto simp: run bindP_def returnP_def)
    ultimately show ?thesis using False run [of reg] run by (simp add: Let_def)
  qed
qed

theorem execution_leaves_trace_witness:
  "\<exists>w'. execute ''fs.write'' JNull (runner_context demo_stranger \<lparr>ri_taskId = ''t'', ri_runId = ''r'', ri_actorId = ''coder''\<rparr> ''fs.write'')
     [(''fs.write'', smoke_executor ''fs.write'')] demo_rn_world =
     (Inr (fail_result (pd_reason (runner_policy demo_stranger \<lparr>ri_taskId = ''t'', ri_runId = ''r'', ri_actorId = ''coder''\<rparr> ''fs.write''))), w') \<and>
   length (rn_trace w') = 1"
proof -
  let ?ids = "\<lparr>ri_taskId = ''t'', ri_runId = ''r'', ri_actorId = ''coder''\<rparr>"
  have tame: "\<forall>ex. map_get [(''fs.write'', smoke_executor ''fs.write'')] ''fs.write'' = Some ex \<longrightarrow>
      tame (rn_trace :: unit runner_world \<Rightarrow> _) ex"
    by (simp add: tame_def only_appends_def smoke_executor_def returnP_def)
  have denied: "\<not> pd_allowed (runner_policy demo_stranger ?ids ''fs.write'')"
    by (simp add: runner_policy_def demo_stranger_def new_local_runner_def evaluate_def relevant_grants_def Let_def)
  have "rn_trace demo_rn_world = []" by (simp add: rn_trace_def rn_ledger_def demo_rn_world_def new_runner_world_def new_immune_runtime_def)
  then show ?thesis
    using execution_leaves_trace [OF tame, of demo_stranger ?ids "''fs.write''" JNull demo_rn_world] denied
    by (auto simp: Let_def split: prod.splits)
qed

end
