(* ===== verification/Total.thy ===== *)
theory Total
  imports Async
begin

text \<open>
  Total correctness of procedures: from every state in which \<open>P\<close> holds, \<open>p\<close> returns a value, and \<open>Q\<close>
  holds of it and of the state it leaves.
\<close>

definition delivers :: "('w \<Rightarrow> bool) \<Rightarrow> ('w, 'a) proc \<Rightarrow> ('a \<Rightarrow> 'w \<Rightarrow> bool) \<Rightarrow> bool" where
  "delivers P p Q \<longleftrightarrow> (\<forall>w. P w \<longrightarrow> (\<exists>a w'. p w = (Inr a, w') \<and> Q a w'))"

lemma delivers_D:
  assumes "delivers P p Q" "P w"
  obtains a w' where "p w = (Inr a, w')" "Q a w'"
  using assms by (auto simp: delivers_def)

lemma delivers_bind: "delivers P p Q \<Longrightarrow> (\<And>a. delivers (Q a) (f a) R) \<Longrightarrow> delivers P (bindP p f) R"
  unfolding delivers_def bindP_def by fastforce

lemma delivers_return: "(\<And>w. P w \<Longrightarrow> Q a w) \<Longrightarrow> delivers P (returnP a) Q"
  by (simp add: delivers_def returnP_def)

lemma delivers_mono: "delivers P p Q \<Longrightarrow> (\<And>w. P' w \<Longrightarrow> P w) \<Longrightarrow> (\<And>a w. Q a w \<Longrightarrow> Q' a w) \<Longrightarrow> delivers P' p Q'"
  unfolding delivers_def by blast

lemma delivers_ctx: "(c \<Longrightarrow> delivers P p Q) \<Longrightarrow> delivers (\<lambda>w. P w \<and> c) p Q"
  by (auto simp: delivers_def)

text \<open>Results of which \<open>R\<close> holds, with \<open>P\<close> kept.\<close>

abbreviation makes :: "('w \<Rightarrow> bool) \<Rightarrow> ('w, 'a) proc \<Rightarrow> ('a \<Rightarrow> bool) \<Rightarrow> bool" where
  "makes P p R \<equiv> delivers P p (\<lambda>a w. P w \<and> R a)"

lemma makes_bind: "makes P p R \<Longrightarrow> (\<And>a. R a \<Longrightarrow> delivers P (f a) Q) \<Longrightarrow> delivers P (bindP p f) Q"
  by (rule delivers_bind) (auto intro: delivers_ctx)

lemma makes_return: "R a \<Longrightarrow> makes P (returnP a) R"
  by (simp add: delivers_return)

lemma makes_lift: "r = Inr a \<Longrightarrow> R a \<Longrightarrow> makes P (liftE r) R"
  by (simp add: delivers_def liftE_def)

lemma makes_if: "(b \<Longrightarrow> delivers P p Q) \<Longrightarrow> (\<not> b \<Longrightarrow> delivers P q Q) \<Longrightarrow> delivers P (if b then p else q) Q"
  by simp

text \<open>What always returns makes something of every invariant it keeps.\<close>

abbreviation always_returns :: "('w, 'a) proc \<Rightarrow> bool" where
  "always_returns p \<equiv> delivers (\<lambda>_. True) p (\<lambda>_ _. True)"

lemma returns_makes: "always_returns p \<Longrightarrow> keepsP P p \<Longrightarrow> makes P p (\<lambda>_. True)"
  unfolding keepsP_def delivers_def by (metis snd_conv)

lemma returns_bind: "always_returns p \<Longrightarrow> (\<And>a. always_returns (f a)) \<Longrightarrow> always_returns (bindP p f)"
  by (rule delivers_bind)

lemma returns_return: "always_returns (returnP a)"
  by (rule delivers_return) simp

end
