(* ===== verification/RunnerPasses.thy ===== *)
theory RunnerPasses
  imports RunnerCases Total
begin

text \<open>
  What the local runner does with a permitted task: it runs every step and the verdict is PASSED.  The
  calculus of \<open>Total\<close> is applied to each operation of a run; the invariant is that the gate stays open
  and the number of tool calls is known.
\<close>

section \<open>Operations that always return\<close>

lemma append_returns: "always_returns (rn_append r d)"
  by (simp add: delivers_def rn_append_def case_prod_beta)

lemma host_returns: "always_returns (on_host f)"
  by (simp add: delivers_def on_host_def on_immune_def case_prod_beta)

lemma log_returns: "always_returns (rn_log r ids type payload)"
  unfolding rn_log_def by (intro returns_bind append_returns returns_return)

lemma emit_returns: "always_returns (runner_emit r ids e)"
  unfolding runner_emit_def by (intro returns_bind append_returns host_returns returns_return)

lemma record_returns: "always_returns (rn_record r e)"
  by (auto simp: delivers_def rn_record_def Let_def bindP_def returnP_def rn_append_def case_prod_beta)

lemma use_returns: "always_returns (rn_use r ids resource)"
  unfolding rn_use_def by (intro returns_bind host_returns record_returns)

section \<open>A world whose gate is open\<close>

definition gate_open :: "gate_config \<Rightarrow> bool" where
  "gate_open c \<longleftrightarrow> \<not> gc_emergencyLock c \<and> \<not> gc_safeMode c \<and> configured_level c \<le> YELLOW"

definition open_at :: "int \<Rightarrow> 'x runner_world \<Rightarrow> bool" where
  "open_at n w \<longleftrightarrow> tool_calls_are n w \<and> gate_open (imw_gate (rn_immune w))"

text \<open>Nothing a run does reconfigures the gate.\<close>

definition gate_is :: "gate_config \<Rightarrow> immune_world \<Rightarrow> bool" where
  "gate_is g w \<longleftrightarrow> imw_gate w = g"

lemma event_gate [simp]: "imw_gate (snd (incident_record_event sha inc phase payload w)) = imw_gate w"
  by (simp add: incident_record_event_def Let_def case_prod_beta split: option.split)

lemma step_gate: "keepsP (gate_is g) (incident_step sha i event note)"
proof -
  have "imw_gate (snd (incident_step sha i event note w)) = imw_gate w" for w :: immune_world
    by (simp add: incident_step_def Let_def case_prod_beta split: option.split sum.split)
  then show ?thesis by (simp add: keepsP_def gate_is_def)
qed

lemma runtime_gate:
  "keepsP (gate_is g) (runtime_metric f)" "keepsP (gate_is g) (runtime_timed tf)" "keepsP (gate_is g) (runtime_killRequest req)"
  "keepsP (gate_is g) (runtime_quarantine i reason ev)" "keepsP (gate_is g) (runtime_evaluate q)"
  by (auto simp: keepsP_def gate_is_def runtime_metric_def runtime_timed_def runtime_killRequest_def runtime_quarantine_def
      runtime_evaluate_def case_prod_beta split: prod.splits sum.splits)

lemma incident_gate: "keepsP (gate_is g) (openIncident sha d entityId detail)"
proof -
  have "keepsP (gate_is g) (\<lambda>w. case incident_detect sha t sev ds w of (inc, w') \<Rightarrow> (Inr inc, w'))" for t sev ds
    by (auto simp: keepsP_def gate_is_def incident_detect_def Let_def case_prod_beta)
  moreover have "keepsP (gate_is g) (incident_classify sha i sev)" for i sev
    unfolding incident_classify_def
    by (intro keepsP_bind step_gate) (simp add: keepsP_def gate_is_def Let_def)
  moreover have "keepsP (gate_is g) (\<lambda>w. (Inr (), w\<lparr>imw_level := maxLevel (imw_level w) l\<rparr>))" for l
    by (simp add: keepsP_def gate_is_def)
  ultimately show ?thesis unfolding openIncident_def incident_contain_def
    by (intro keepsP_bind runtime_gate step_gate)
qed

lemma apply_gate: "keepsP (gate_is g) (evaluateAndApply sha q)"
  unfolding evaluateAndApply_def apply_decision_def Let_def
  by (auto intro!: keepsP_bind keepsP_return runtime_gate incident_gate)

lemma open_frame: "rn_meter w' = rn_meter w \<Longrightarrow> imw_gate (rn_immune w') = imw_gate (rn_immune w) \<Longrightarrow> open_at n w \<Longrightarrow> open_at n w'"
  by (simp add: open_at_def tool_calls_are_def)

lemma append_gate [simp]: "imw_gate (rn_immune (snd (rn_append r d w))) = imw_gate (rn_immune w)"
  using append_world [of r d w] by auto

interpretation opened: runner_frame r "open_at n" for r :: "'x local_runner" and n
proof
  show "keepsP (open_at n) (rn_append r d)" for d
    by (auto simp: keepsP_def elim!: open_frame [rotated 2])
  show "keepsP (open_at n) (on_immune (evaluateAndApply (rc_sha r) q))" for q
    using keepsP_D [OF apply_gate, unfolded gate_is_def, OF refl]
    by (auto simp: keepsP_def on_immune_def case_prod_beta intro: open_frame [rotated 2])
qed (auto intro: open_frame [rotated 2])

definition trusting :: "trust_state option \<Rightarrow> bool" where
  "trusting t \<longleftrightarrow> t \<in> {None, Some Tr_VERIFIED, Some Tr_TRUSTED}"

lemma trusted_silent:
  assumes "trusting t"
  shows "detect (gate_observation (immune_request_of ids t action)) h = ([], h)"
  using assms
  by (auto simp: trusting_def detect_def detect_checks_def gate_observation_def immune_request_of_def no_observation_def
      principalFor_def check_input_def check_tool_result_def check_memory_def check_privilege_def checkPrivilegeEscalation_def
      check_secret_def check_artifact_def check_integrity_def check_dependency_def check_runstats_def check_usage_def
      check_failures_def check_sequence_def check_transition_def Detector.and_then_def silent_def)

lemma open_allows:
  assumes "trusting t" "gate_open c"
  shows "dec_allowed (fst (gate_evaluate c (immune_request_of ids t action) h)) \<and>
    dec_action (fst (gate_evaluate c (immune_request_of ids t action) h)) \<in> {Act_allow, Act_monitor} \<and>
    snd (gate_evaluate c (immune_request_of ids t action) h) = h"
proof -
  have "configured_level c \<in> {GREEN, YELLOW}" using assms(2) by (cases "configured_level c") (auto simp: gate_open_def less_eq_immunity_level_def)
  then show ?thesis using assms
    by (auto simp: gate_evaluate_def trusted_silent gate_open_def gate_judge_def Let_def firewall_evaluate.simps risk_score_eq
        levelForScore_def maxLevel_max level_decision_def less_eq_immunity_level_def split: immunity_level.splits)
qed

lemma immune_passes:
  assumes "trusting t"
  shows "makes (open_at n) (check_immune r ids t action) (\<lambda>v. v = None)"
proof -
  have "\<exists>d w'. on_immune (evaluateAndApply (rc_sha r) (immune_request_of ids t action)) w = (Inr d, w') \<and> dec_allowed d \<and> open_at n w'"
    if w: "open_at n w" for w :: "'a runner_world"
  proof -
    let ?e = "gate_evaluate (imw_gate (rn_immune w)) (immune_request_of ids t action) (iw_host (rn_immune w))"
    obtain d h where e: "?e = (d, h)" by (cases ?e)
    have d: "dec_allowed d" "dec_action d = Act_allow \<or> dec_action d = Act_monitor"
      using open_allows [OF assms, of "imw_gate (rn_immune w)" ids action "iw_host (rn_immune w)"] w by (auto simp: e open_at_def)
    then have "on_immune (evaluateAndApply (rc_sha r) (immune_request_of ids t action)) w =
        (Inr d, w\<lparr>rn_immune := (rn_immune w)\<lparr>iw_host := h\<rparr>\<rparr>)"
      by (auto simp: on_immune_def evaluateAndApply_def bindP_def runtime_evaluate_def e apply_decision_def Let_def returnP_def)
    then show ?thesis using d w by (simp add: open_at_def tool_calls_are_def)
  qed
  then show ?thesis
    unfolding delivers_def check_immune_def bindP_def pass_def returnP_def by fastforce
qed

section \<open>A permitted step\<close>

text \<open>An executor that accepts every context and delivers results of which \<open>G\<close> holds.\<close>

definition serves :: "'x local_runner \<Rightarrow> (exec_result \<Rightarrow> bool) \<Rightarrow> 'x runner_world executor \<Rightarrow> bool" where
  "serves r G e \<longleftrightarrow> (\<forall>n ids action input.
     makes (open_at n) (ex_canExecute e (runner_context r ids action)) (\<lambda>can. can) \<and>
     makes (open_at n) (ex_execute e input (runner_context r ids action)) G)"

definition permitted :: "'x local_runner \<Rightarrow> string \<Rightarrow> string \<Rightarrow> bool" where
  "permitted r actor action \<longleftrightarrow>
     (case rc_guard r of None \<Rightarrow> True | Some assertRegistered \<Rightarrow> assertRegistered action = Inr ()) \<and>
     pd_allowed (evaluate (rc_policy r) actor action ''*'') \<and>
     \<not> pd_approvalRequired (evaluate (rc_policy r) actor action ''*'')"

definition ready_step :: "'x local_runner \<Rightarrow> string \<Rightarrow> (exec_result \<Rightarrow> bool) \<Rightarrow> run_step \<Rightarrow> bool" where
  "ready_step r actor G s \<longleftrightarrow> permitted r actor (rs_action s) \<and>
     (\<exists>e. map_get (rc_executors r) (rs_action s) = Some e \<and> serves r G e) \<and>
     (\<forall>results. \<exists>v. step_input_of s results = Inr v)"

lemma and_then_makes:
  "makes P p (\<lambda>v. v = None) \<Longrightarrow> makes P q (\<lambda>v. v = None) \<Longrightarrow> makes P (LocalRunner.and_then p q) (\<lambda>v. v = None)"
  unfolding LocalRunner.and_then_def by (erule makes_bind) simp

lemma pass_makes: "makes P pass (\<lambda>v. v = None)"
  unfolding pass_def by (rule makes_return) simp

lemma quota_makes:
  "n + 1 \<le> maxToolCalls (rc_budget r) \<Longrightarrow> makes (open_at n) (check_quota r ids action) (\<lambda>v. v = None)"
  by (auto simp: delivers_def check_quota_def Let_def pass_def returnP_def budget_allows_iff limitFor_def open_at_def tool_calls_are_def)

lemma checks_make:
  assumes "permitted r (ri_actorId ids) action" "trusting t" "n + 1 \<le> maxToolCalls (rc_budget r)"
  shows "makes (open_at n) (LocalRunner.and_then (check_name r ids action) (LocalRunner.and_then (check_policy r ids action)
    (LocalRunner.and_then (check_quota r ids action) (check_immune r ids t action)))) (\<lambda>v. v = None)"
proof (intro and_then_makes immune_passes [OF assms(2)] quota_makes [OF assms(3)])
  show "makes (open_at n) (check_name r ids action) (\<lambda>v. v = None)"
    using assms(1) by (auto simp: check_name_def permitted_def pass_makes split: option.splits)
  show "makes (open_at n) (check_policy r ids action) (\<lambda>v. v = None)"
    using assms(1) by (simp add: check_policy_def Let_def runner_policy_def permitted_def pass_makes)
qed

lemma emit_makes: "makes (open_at n) (ctx_emit (runner_context r ids action) d) (\<lambda>_. True)"
  by (rule returns_makes [OF _ opened.emit_keeps]) (simp add: runner_context_def emit_returns)

lemma execute_makes:
  assumes "permitted r (ri_actorId ids) action" "map_get (rc_executors r) action = Some e" "serves r G e"
  shows "makes (open_at n) (execute action input (runner_context r ids action) (rc_executors r)) G"
proof -
  have allowed: "pd_allowed (ctx_policy (runner_context r ids action) action)"
    using assms(1) by (simp add: runner_context_def runner_policy_def permitted_def)
  have "makes (open_at n) (ex_canExecute e (runner_context r ids action)) (\<lambda>can. can)"
    "makes (open_at n) (ex_execute e input (runner_context r ids action)) G"
    using assms(3) by (simp_all add: serves_def)
  then show ?thesis unfolding execute_def Let_def executor_resolve_def
    by (auto simp: allowed assms(2) bind_lift_ok intro!: makes_bind [OF emit_makes] makes_return
        elim!: makes_bind [where R = G] makes_bind [where R = "\<lambda>can. can"])
qed

lemma use_delivers:
  "delivers (open_at n) (rn_use r ids resource) (\<lambda>_. open_at (n + (if resource = Tool_calls then 1 else 0)))"
  unfolding delivers_def
proof (intro allI impI)
  fix w :: "'a runner_world" assume w: "open_at n w"
  obtain w' where run: "rn_use r ids resource w = (Inr (), w')" using use_returns [of r ids resource] by (auto simp: delivers_def)
  have "imw_gate (rn_immune w') = imw_gate (rn_immune w)"
    using run by (auto simp: rn_use_def bindP_def on_host_def on_immune_def rn_record_def Let_def returnP_def case_prod_beta
        split: sum.splits)
  moreover have "tool_calls_are (n + (if resource = Tool_calls then 1 else 0)) w'"
    using use_calls [of n w resource r ids] w run by (simp add: open_at_def)
  ultimately show "\<exists>a w'. rn_use r ids resource w = (Inr a, w') \<and> open_at (n + (if resource = Tool_calls then 1 else 0)) w'"
    using run w by (auto simp: open_at_def)
qed

lemma step_delivers:
  assumes "ready_step r (ri_actorId ids) G s" "trusting t" "n + 1 \<le> maxToolCalls (rc_budget r)"
  shows "delivers (open_at n) (run_step r ids t s results) (\<lambda>(x, stop) w. open_at (n + 1) w \<and> G x \<and> \<not> stop)"
proof -
  obtain e where e: "map_get (rc_executors r) (rs_action s) = Some e" "serves r G e" and permitted: "permitted r (ri_actorId ids) (rs_action s)"
    using assms(1) by (auto simp: ready_step_def)
  obtain input where input: "step_input_of s results = Inr input" using assms(1) by (auto simp: ready_step_def)
  have after: "delivers (open_at n) (bindP (rn_use r ids Tool_calls) (\<lambda>_. returnP (x, False)))
      (\<lambda>(x, stop) w. open_at (n + 1) w \<and> G x \<and> \<not> stop)" if "G x" for x
    by (rule delivers_bind [OF use_delivers]) (auto intro: delivers_return that)
  show ?thesis unfolding run_step_def Let_def
    by (rule makes_bind [OF checks_make [OF permitted assms(2,3)]])
      (simp add: input bind_lift_ok makes_bind [OF execute_makes [OF permitted e] after])
qed

lemma steps_deliver:
  assumes "list_all (ready_step r (ri_actorId ids) G) ss" "trusting t" "n + int (length ss) \<le> maxToolCalls (rc_budget r)" "list_all G results"
  shows "delivers (open_at n) (run_steps r ids t ss results)
    (\<lambda>rs w. open_at (n + int (length ss)) w \<and> list_all G rs \<and> length rs = length results + length ss)"
  using assms
proof (induction ss arbitrary: n results)
  case Nil
  then show ?case by (simp add: delivers_return)
next
  case (Cons s ss)
  have "delivers (\<lambda>w. open_at (n + 1) w \<and> G x \<and> \<not> stop)
      (if stop then returnP (results @ [x]) else run_steps r ids t ss (results @ [x]))
      (\<lambda>rs w. open_at (n + int (length (s # ss))) w \<and> list_all G rs \<and> length rs = length results + length (s # ss))" for x stop
    using Cons.IH [of "n + 1" "results @ [x]"] Cons.prems
    by (intro delivers_ctx) (simp add: algebra_simps)
  then show ?case using Cons.prems unfolding run_steps.simps
    by (intro delivers_bind [OF step_delivers [where G = G]]) (auto simp: case_prod_beta)
qed

section \<open>A permitted run\<close>

lemma begin_delivers: "delivers (open_at n) (begin_run r intent opts) (\<lambda>ids w. open_at n w \<and> ri_actorId ids = run_actor opts)"
proof -
  have use: "resource \<noteq> Tool_calls \<Longrightarrow> makes (open_at n) (rn_use r ids resource) (\<lambda>_. True)" for ids resource
    using use_delivers [of n r ids resource] by (simp add: delivers_def)
  show ?thesis unfolding begin_run_def Let_def
    by (rule makes_bind [OF returns_makes [OF host_returns opened.host_keeps]])+
      (auto intro!: makes_bind [OF returns_makes [OF log_returns opened.log_keeps]] makes_bind [OF use] makes_return simp: run_actor_def)
qed

lemma verify_makes:
  assumes "rt_onVerify opts = None"
  shows "makes (open_at n) (verify_run r ids intent opts results) (\<lambda>v. \<exists>h. v = fst (verify intent (default_checks results) h))"
proof -
  have check: "makes (open_at n) (on_host (verify intent checks)) (\<lambda>v. \<exists>h. v = fst (verify intent checks h))" for checks
    using opened.host_keeps [of n "verify intent checks"] unfolding delivers_def keepsP_def
    by (auto simp: on_host_def on_immune_def case_prod_beta)
  have log: "makes (open_at n) (if b then rn_log r ids t1 p1 else rn_log r ids t2 p2) (\<lambda>_. True)" for b t1 p1 t2 p2
    by (cases b) (simp_all only: if_True if_False returns_makes [OF log_returns opened.log_keeps])
  show ?thesis unfolding verify_run_def
    by (simp add: assms) (auto intro!: makes_bind [OF check] makes_bind [OF returns_makes [OF log_returns opened.log_keeps]]
        makes_bind [OF log] makes_return)
qed

lemma checks_evidence_results: "checks_evidence (default_checks rs) = concat (map res_evidence rs)"
proof -
  have "concat (map (\<lambda>p. res_evidence (snd p)) (enumerate n xs)) = concat (map res_evidence xs)" for n xs
    by (induction xs arbitrary: n) simp_all
  then show ?thesis by (simp add: checks_evidence_def default_checks_def comp_def case_prod_beta)
qed

definition pays :: "'x local_runner \<Rightarrow> bool" where
  "pays r \<longleftrightarrow> (\<forall>u. always_returns (rc_billing r u)) \<and> (case rc_flush r of None \<Rightarrow> True | Some f \<Rightarrow> always_returns f)"

lemma outside_returns: "always_returns p \<Longrightarrow> always_returns (on_outside p)"
  unfolding delivers_def on_outside_def by (metis (mono_tags, lifting) case_prod_conv)

lemma finish_delivers:
  assumes "pays r"
  shows "makes (open_at n) (finish_run r ids intent results v)
    (\<lambda>out. pco_verdict out = ver_verdict v \<and> pco_results out = results \<and> pco_verification out = v)"
proof -
  have flush: "makes (open_at n) (runner_flush r) (\<lambda>_. True)"
    using assms unfolding runner_flush_def pays_def
    by (cases "rc_flush r") (simp_all only: option.case returns_makes outside_returns opened.outside_keeps makes_return TrueI)
  have bill: "makes (open_at n) (on_outside (rc_billing r u)) (\<lambda>_. True)" for u
    using assms unfolding pays_def by (intro returns_makes outside_returns opened.outside_keeps) auto
  have report: "makes (open_at n) (\<lambda>w'. (Inr (g w'), w')) R" if "\<And>w'. R (g w')" for g and R :: "proof_carrying_outcome \<Rightarrow> bool"
    using that by (simp add: delivers_def)
  have "makes (open_at n) (bindP (on_outside (rc_billing r u)) (\<lambda>_. bindP (runner_flush r) (\<lambda>_ w'. (Inr (g w'), w')))) R"
    if "\<And>w'. R (g w')" for u g and R :: "proof_carrying_outcome \<Rightarrow> bool"
    by (intro makes_bind [OF bill] makes_bind [OF flush] report that)
  then show ?thesis unfolding delivers_def finish_run_def Let_def by (intro allI impI) simp
qed

lemma permitted_run:
  assumes "list_all (ready_step r (run_actor opts) G) (steps_of opts)" "steps_of opts \<noteq> []"
    and "\<forall>x. G x \<longrightarrow> res_status x = Success \<and> res_evidence x \<noteq> []"
    and "trusting (rt_actorTrust opts)" "rt_onVerify opts = None" "pays r"
    and "open_at n w" "n + int (length (steps_of opts)) \<le> maxToolCalls (rc_budget r)"
  shows "\<exists>out w'. runner_run r intent opts w = (Inr out, w') \<and> pco_verdict out = V_PASSED \<and>
    length (pco_results out) = length (steps_of opts) \<and> list_all G (pco_results out) \<and>
    ver_evidence (pco_verification out) = concat (map res_evidence (pco_results out)) \<and>
    open_at (n + int (length (steps_of opts))) w'"
proof -
  let ?n = "n + int (length (steps_of opts))"
  let ?done = "\<lambda>out w. open_at ?n w \<and> pco_verdict out = V_PASSED \<and> length (pco_results out) = length (steps_of opts) \<and>
    list_all G (pco_results out) \<and> ver_evidence (pco_verification out) = concat (map res_evidence (pco_results out))"
  have ending: "delivers (open_at ?n) (bindP (verify_run r ids intent opts rs) (\<lambda>v. finish_run r ids intent rs v)) ?done"
    if rs: "list_all G rs" "length rs = length (steps_of opts)" for ids rs
  proof (rule makes_bind [OF verify_makes [OF assms(5)]])
    fix v assume v: "\<exists>h. v = fst (verify intent (default_checks rs) h)"
    then have ev: "ver_evidence v = concat (map res_evidence rs)"
      by (auto simp: verify_def Let_def case_prod_beta checks_evidence_results)
    have "list_all (\<lambda>x. res_status x = Success) rs" "list_ex (\<lambda>x. res_evidence x \<noteq> []) rs"
      using rs assms(2,3) by (auto simp: list_all_iff list_ex_iff) (metis assms(2) length_0_conv list.set_intros(1) neq_Nil_conv)
    then have "ver_verdict v = V_PASSED" using v by (auto simp: default_verdict)
    then show "delivers (open_at ?n) (finish_run r ids intent rs v) ?done"
      by (intro delivers_mono [OF finish_delivers [OF assms(6)]]) (use rs ev in auto)
  qed
  have "delivers (open_at n) (runner_run r intent opts) ?done"
    unfolding runner_run_def
  proof (rule delivers_bind [OF begin_delivers], rule delivers_ctx)
    fix ids :: run_ids assume "ri_actorId ids = run_actor opts"
    then show "delivers (open_at n) (bindP (run_steps r ids (rt_actorTrust opts) (steps_of opts) []) (\<lambda>results.
        bindP (verify_run r ids intent opts results) (\<lambda>v. finish_run r ids intent results v))) ?done"
      using assms(1,4,8) by (intro delivers_bind [OF steps_deliver [where G = G]]) (auto intro: delivers_ctx ending)
  qed
  from delivers_D [OF this assms(7)] show ?thesis by blast
qed

section \<open>The smoke runner\<close>

definition smoke_result :: "exec_result \<Rightarrow> bool" where
  "smoke_result x \<longleftrightarrow> res_status x = Success \<and> length (res_evidence x) = 1"

lemma smoke_runner:
  assumes "createLocalSmokeRunner sha mode = Inr (r :: 'x local_runner)"
  shows "rc_executors r = map (\<lambda>a. (a, smoke_executor a)) LOCAL_SMOKE_ACTIONS" "rc_budget r = FREE_BUDGET" "rc_guard r = None"
    "rc_billing r = noop_billing" "rc_flush r = None"
    "rc_policy r = \<lparr>pe_grants = map (\<lambda>a. \<lparr>grant_id = ''local-smoke-'' @ a, grant_principal = ''coder'', grant_capability = a,
       grant_scope = ''*'', grant_effect = Allow\<rparr>) LOCAL_SMOKE_ACTIONS, pe_approvalPolicy = map (\<lambda>a. (a, Auto)) LOCAL_SMOKE_ACTIONS\<rparr>"
  using assms
  by (auto simp: createLocalSmokeRunner_def LOCAL_SMOKE_ACTIONS_def add_smoke_action_def runner_grant_def
      addGrant_def registerExecutor_def executor_register_def new_local_runner_def)

lemma smoke_serves: "serves r smoke_result (smoke_executor action)"
  unfolding serves_def smoke_executor_def by (auto intro!: makes_return simp: smoke_result_def)

lemma smoke_ready:
  assumes "createLocalSmokeRunner sha mode = Inr (r :: 'x local_runner)" "a \<in> set LOCAL_SMOKE_ACTIONS" "rs_action s = a" "rs_input s = Input_value v"
  shows "ready_step r ''coder'' smoke_result s"
proof -
  have "permitted r ''coder'' a"
    using assms(2)
    by (auto simp: permitted_def smoke_runner [OF assms(1)] LOCAL_SMOKE_ACTIONS_def evaluate_def relevant_grants_def
        scopeMatches_def requires_approval_def Let_def)
  moreover have "\<exists>e. map_get (rc_executors r) a = Some e \<and> serves r smoke_result e"
    using assms(2) smoke_serves [of r] by (auto simp: smoke_runner [OF assms(1)] LOCAL_SMOKE_ACTIONS_def)
  ultimately show ?thesis by (simp add: ready_step_def assms(3,4) step_input_of_def)
qed

text \<open>Whatever the intent, the smoke runner's run passes with one piece of evidence per action.\<close>

lemma smoke_run_passes:
  assumes "createLocalSmokeRunner sha mode = Inr (r :: 'x local_runner)"
    and "rt_actorId opts = None" "trusting (rt_actorTrust opts)" "rt_plan opts = None" "rt_steps opts = None" "rt_onVerify opts = None"
    and "open_at 0 w"
  shows "\<exists>out w'. runner_run r intent opts w = (Inr out, w') \<and> pco_verdict out = V_PASSED \<and>
    length (ver_evidence (pco_verification out)) = 3"
proof -
  have steps: "steps_of opts = map (\<lambda>a. \<lparr>rs_action = a, rs_input = Input_value (JObj [])\<rparr>) LOCAL_SMOKE_ACTIONS"
    by (simp add: steps_of_def assms(4,5) planWithMock_def LOCAL_SMOKE_ACTIONS_def)
  have ready: "list_all (ready_step r (run_actor opts) smoke_result) (steps_of opts)"
    using smoke_ready [OF assms(1)] by (simp add: steps list.pred_map comp_def list_all_iff run_actor_def assms(2))
  have result: "\<forall>x. smoke_result x \<longrightarrow> res_status x = Success \<and> res_evidence x \<noteq> []" by (auto simp: smoke_result_def)
  have pays: "pays r" unfolding pays_def by (simp add: smoke_runner [OF assms(1)] noop_billing_def returns_return)
  have within: "steps_of opts \<noteq> []" "0 + int (length (steps_of opts)) \<le> maxToolCalls (rc_budget r)"
    by (simp_all add: steps LOCAL_SMOKE_ACTIONS_def smoke_runner [OF assms(1)] FREE_BUDGET_def)
  obtain out w' where out: "runner_run r intent opts w = (Inr out, w')" "pco_verdict out = V_PASSED"
      "length (pco_results out) = length (steps_of opts)" "list_all smoke_result (pco_results out)"
      "ver_evidence (pco_verification out) = concat (map res_evidence (pco_results out))"
    using permitted_run [OF ready within(1) result assms(3,6) pays assms(7) within(2), of intent] by blast
  have "list_all smoke_result xs \<Longrightarrow> length (concat (map res_evidence xs)) = length xs" for xs
    by (induction xs) (auto simp: smoke_result_def)
  from this [OF out(4)] have "length (ver_evidence (pco_verification out)) = length (steps_of opts)" using out(3,5) by simp
  then show ?thesis using out(1,2) by (simp add: steps LOCAL_SMOKE_ACTIONS_def)
qed

section \<open>Property\<close>

text \<open>C8.  A permitted task passes.  Let a task have at least one step and no verifier of its own
  (\<open>onVerify\<close>), let each of its steps pass the naming guard, be allowed to its actor without approval, have
  an input that can be computed and an executor that accepts it and succeeds with evidence; let the
  trust of the actor be absent, VERIFIED or TRUSTED, the immune gate open (no emergency lock, no safe mode,
  level at most YELLOW), billing and flushing not fail, and the steps fit into the tool calls that are left.
  Then the run returns, with a result for every step and verdict PASSED, and leaves the gate open.\<close>

theorem permitted_run_passes:
  assumes "list_all (ready_step r (run_actor opts) G) (steps_of opts)" "steps_of opts \<noteq> []"
    and "\<forall>x. G x \<longrightarrow> res_status x = Success \<and> res_evidence x \<noteq> []"
    and "trusting (rt_actorTrust opts)" "rt_onVerify opts = None" "pays r"
    and "open_at n w" "n + int (length (steps_of opts)) \<le> maxToolCalls (rc_budget r)"
  shows "\<exists>out w'. runner_run r intent opts w = (Inr out, w') \<and> pco_verdict out = V_PASSED \<and>
    length (pco_results out) = length (steps_of opts) \<and> list_all G (pco_results out) \<and>
    ver_evidence (pco_verification out) = concat (map res_evidence (pco_results out)) \<and>
    open_at (n + int (length (steps_of opts))) w'"
  using assms by (rule permitted_run)

theorem permitted_run_passes_witness:
  "\<exists>out w'. runner_run demo_runner ''read'' (demo_task [''repo.read'']) demo_rn_world = (Inr out, w') \<and> pco_verdict out = V_PASSED"
proof -
  have demo: "createLocalSmokeRunner demo_sha ''local'' = Inr demo_runner"
    by (simp add: demo_runner_def createLocalSmokeRunner_def LOCAL_SMOKE_ACTIONS_def add_smoke_action_def runner_grant_def
        addGrant_def registerExecutor_def executor_register_def new_local_runner_def)
  have "\<exists>out w'. runner_run demo_runner ''read'' (demo_task [''repo.read'']) demo_rn_world = (Inr out, w') \<and> pco_verdict out = V_PASSED \<and>
    length (pco_results out) = length (steps_of (demo_task [''repo.read''])) \<and> list_all smoke_result (pco_results out) \<and>
    ver_evidence (pco_verification out) = concat (map res_evidence (pco_results out)) \<and>
    open_at (0 + int (length (steps_of (demo_task [''repo.read''])))) w'"
  proof (rule permitted_run_passes)
    show "list_all (ready_step demo_runner (run_actor (demo_task [''repo.read''])) smoke_result) (steps_of (demo_task [''repo.read'']))"
      by (simp add: demo_task_def steps_of_def run_actor_def smoke_ready [OF demo, of "''repo.read''"] LOCAL_SMOKE_ACTIONS_def)
    show "pays demo_runner" by (simp add: pays_def smoke_runner [OF demo] noop_billing_def returns_return)
    show "open_at 0 demo_rn_world"
      by (simp add: open_at_def tool_calls_are_def gate_open_def demo_rn_world_def new_runner_world_def new_usage_meter_def
          meter_usage_def EMPTY_USAGE_def new_immune_runtime_def configured_level_def less_eq_immunity_level_def)
  qed (auto simp: demo_task_def steps_of_def trusting_def smoke_result_def demo_executors FREE_BUDGET_def)
  then show ?thesis by blast
qed

end
