(* ===== verification/JsonPretty.thy ===== *)
theory JsonPretty
  imports JsonParse
begin

text \<open>
  \<open>JSON.stringify(v, null, 2)\<close>: the indented text of a value.  It reads back as its normal form, as the
  compact text does.
\<close>

definition newline :: string where
  "newline = [CHR 0x0A]"

definition spaces :: "nat \<Rightarrow> string" where
  "spaces n = replicate n (CHR '' '')"

text \<open>\<open>items\<close> are the texts of the members, without their indentation.\<close>

definition bracket :: "char \<Rightarrow> char \<Rightarrow> nat \<Rightarrow> string list \<Rightarrow> string" where
  "bracket opening closing level items =
     (if items = [] then [opening, closing]
      else opening # newline @ join_with ('','' @ newline) (map (\<lambda>t. spaces (level + 2) @ t) items) @
        newline @ spaces level @ [closing])"

function json_text_indented :: "nat \<Rightarrow> jsv \<Rightarrow> string option" where
  "json_text_indented level (JArr vs) = Some (bracket (CHR ''['') (CHR '']'') level
     (map (\<lambda>v. case json_text_indented (level + 2) v of None \<Rightarrow> ''null'' | Some t \<Rightarrow> t) vs))"
| "json_text_indented level (JObj kvs) = Some (bracket (CHR ''{'') (CHR ''}'') level
     (concat (map (\<lambda>(k, v). case json_text_indented (level + 2) v of None \<Rightarrow> [] | Some t \<Rightarrow> [json_string k @ '': '' @ t]) kvs)))"
| "json_text_indented level JUndefined = json_text JUndefined"
| "json_text_indented level (JOther s) = json_text (JOther s)"
| "json_text_indented level (JBigInt n) = json_text (JBigInt n)"
| "json_text_indented level JNull = json_text JNull"
| "json_text_indented level JNonFinite = json_text JNonFinite"
| "json_text_indented level (JBool b) = json_text (JBool b)"
| "json_text_indented level (JNum n) = json_text (JNum n)"
| "json_text_indented level (JStr s) = json_text (JStr s)"
  by pat_completeness auto
termination
  by (relation "measure (size \<circ> snd)") (auto dest: size_snd_member size_member)

definition json_stringify_indented :: "jsv \<Rightarrow> js_error + string option" where
  "json_stringify_indented v =
     (if has_bigint v then Inl (JsError ''TypeError'' ''Do not know how to serialize a BigInt'')
      else Inr (json_text_indented 0 v))"

section \<open>The indented text of JSON data\<close>

function render_indented :: "nat \<Rightarrow> jsv \<Rightarrow> string" where
  "render_indented level (JArr vs) = bracket (CHR ''['') (CHR '']'') level (map (render_indented (level + 2)) vs)"
| "render_indented level (JObj kvs) =
     bracket (CHR ''{'') (CHR ''}'') level (map (\<lambda>(k, v). json_string k @ '': '' @ render_indented (level + 2) v) kvs)"
| "render_indented level JUndefined = render JUndefined"
| "render_indented level (JOther s) = render (JOther s)"
| "render_indented level (JBigInt n) = render (JBigInt n)"
| "render_indented level JNull = render JNull"
| "render_indented level JNonFinite = render JNonFinite"
| "render_indented level (JBool b) = render (JBool b)"
| "render_indented level (JNum n) = render (JNum n)"
| "render_indented level (JStr s) = render (JStr s)"
  by pat_completeness auto
termination
  by (relation "measure (size \<circ> snd)") (auto dest: size_snd_member size_member)

abbreviation member_indented :: "nat \<Rightarrow> string \<times> jsv \<Rightarrow> string" where
  "member_indented level \<equiv> \<lambda>(k, v). json_string k @ '': '' @ render_indented level v"

lemma json_text_indented_render: "json_text_indented level v = map_option (render_indented level) (json_norm v)"
proof (induction level v rule: json_text_indented.induct)
  case (1 level vs)
  have "(case json_text_indented (level + 2) v of None \<Rightarrow> ''null'' | Some t \<Rightarrow> t) =
      render_indented (level + 2) (case json_norm v of None \<Rightarrow> JNull | Some u \<Rightarrow> u)"
    if "v \<in> set vs" for v
    using 1 [OF that] by (cases "json_norm v") simp_all
  then show ?case by (simp cong: map_cong)
next
  case (2 level kvs)
  have "map (member_indented (level + 2)) (case json_norm v of None \<Rightarrow> [] | Some u \<Rightarrow> [(k, u)]) =
      (case json_text_indented (level + 2) v of None \<Rightarrow> [] | Some t \<Rightarrow> [json_string k @ '': '' @ t])" if "(k, v) \<in> set kvs" for k v
    using 2 [OF that refl] by (cases "json_norm v") simp_all
  then show ?case
    by (auto simp: map_concat comp_def intro!: arg_cong [where f = "bracket (CHR ''{'') (CHR ''}'') level"] arg_cong [where f = concat] map_cong)
qed simp_all

text \<open>White space before a token.\<close>

lemma json_read_ws: "is_ws c \<Longrightarrow> json_read other (c # s) = json_read other s"
  by (simp add: json_read_eq)

lemma ws_members [simp]: "is_ws (CHR '' '')" "is_ws (CHR 0x0A)"
  by (simp_all add: is_ws_def)

lemma next_tok_spaces: "next_tok (spaces n @ s) = next_tok s"
  by (induction n) (simp_all add: spaces_def)

lemma next_tok_newline: "next_tok (newline @ s) = next_tok s"
  by (simp add: newline_def)

lemma json_read_spaces: "json_read other (spaces n @ s) = json_read other s"
  by (induction n) (simp_all add: spaces_def json_read_ws)

lemma json_read_newline: "json_read other (newline @ s) = json_read other s"
  by (simp add: newline_def json_read_ws)

lemma json_items_skip: "json_items other (newline @ spaces n @ s) = json_items other s"
  by (subst (1 2) json_items_eq) (simp add: json_read_newline json_read_spaces)

lemma json_members_skip: "json_members other acc (newline @ spaces n @ s) = json_members other acc s"
  by (subst (1 2) json_members_eq) (simp add: next_tok_newline next_tok_spaces)

section \<open>Reading it back\<close>

definition value_end :: "string \<Rightarrow> bool" where
  "value_end r \<longleftrightarrow> delim r \<or> hd r = CHR 0x0A"

lemma value_end_simps [simp]: "value_end (newline @ r)" "value_end (CHR '','' # r)" "value_end []"
  by (simp_all add: value_end_def newline_def)

lemma value_end_numeral: "value_end r \<Longrightarrow> numeral_end r"
  unfolding value_end_def using delim_numeral_end by (auto simp: numeral_end_def is_digit_def)

definition reads_indented :: "(string \<Rightarrow> jsv) \<Rightarrow> nat \<Rightarrow> jsv \<Rightarrow> bool" where
  "reads_indented other level v \<longleftrightarrow> (\<forall>r. value_end r \<longrightarrow> json_read other (render_indented level v @ r) = Some (v, r))"

lemma items_read_indented:
  "vs \<noteq> [] \<Longrightarrow> list_all (reads_indented other level) vs \<Longrightarrow>
    json_items other (join_with ('','' @ newline) (map (\<lambda>t. spaces level @ t) (map (render_indented level) vs)) @
      newline @ spaces n @ CHR '']'' # r) = Some (vs, r)"
proof (induction vs)
  case Nil
  then show ?case by simp
next
  case (Cons v vs)
  have read: "json_read other (spaces level @ render_indented level v @ q) = Some (v, q)" if "value_end q" for q
    using Cons.prems(2) that by (simp add: reads_indented_def json_read_spaces)
  show ?case
  proof (cases vs)
    case Nil
    then show ?thesis by (subst json_items_eq) (simp add: read next_tok_newline next_tok_spaces)
  next
    case (Cons w ws)
    let ?more = "join_with ('','' @ newline) (map (\<lambda>t. spaces level @ t) (map (render_indented level) vs)) @
      newline @ spaces n @ CHR '']'' # r"
    have "join_with ('','' @ newline) (map (\<lambda>t. spaces level @ t) (map (render_indented level) (v # vs))) @
      newline @ spaces n @ CHR '']'' # r = spaces level @ render_indented level v @ CHR '','' # newline @ ?more"
      using Cons by simp
    moreover have "json_items other (newline @ ?more) = Some (vs, r)"
      using json_items_skip [of other 0 ?more] Cons.IH Cons.prems Cons by (simp add: spaces_def)
    ultimately show ?thesis by (simp only:) (subst json_items_eq, simp add: read)
  qed
qed

lemma members_read_indented:
  "kvs \<noteq> [] \<Longrightarrow> list_all (\<lambda>(k, v). reads_indented other level v) kvs \<Longrightarrow> distinct (map fst (acc @ kvs)) \<Longrightarrow>
    json_members other acc (join_with ('','' @ newline) (map (\<lambda>t. spaces level @ t) (map (member_indented level) kvs)) @
      newline @ spaces n @ CHR ''}'' # r) = Some (acc @ kvs, r)"
proof (induction kvs arbitrary: acc)
  case Nil
  then show ?case by simp
next
  case (Cons p kvs)
  obtain k v where p: "p = (k, v)" by (cases p)
  have new: "map_set k v acc = acc @ [(k, v)]"
    using Cons.prems(3) p by (intro map_set_new) (auto simp: map_of_eq_None_iff)
  have key: "json_members other acc (spaces level @ member_indented level (k, v) @ q) =
      Option.bind (next_tok q) (\<lambda>(e, t).
        if e = CHR '','' then json_members other (acc @ [(k, v)]) t
        else if e = CHR ''}'' then Some (acc @ [(k, v)], t) else None)"
    if "value_end q" for q
  proof -
    have "json_read other (CHR '' '' # render_indented level v @ q) = Some (v, q)"
      using Cons.prems(2) p that by (simp add: reads_indented_def json_read_ws)
    then show ?thesis unfolding new [symmetric]
      by (subst json_members_eq) (simp add: next_tok_spaces json_string_def read_chars_string)
  qed
  show ?case
  proof (cases kvs)
    case Nil
    then show ?thesis using key [of "newline @ spaces n @ CHR ''}'' # r"] p by (simp add: next_tok_newline next_tok_spaces)
  next
    case more: (Cons m ms)
    let ?more = "join_with ('','' @ newline) (map (\<lambda>t. spaces level @ t) (map (member_indented level) kvs)) @
      newline @ spaces n @ CHR ''}'' # r"
    have "json_members other (acc @ [(k, v)]) ?more = Some ((acc @ [(k, v)]) @ kvs, r)"
      by (rule Cons.IH) (use Cons.prems more p in auto)
    then have "json_members other (acc @ [(k, v)]) (newline @ ?more) = Some ((acc @ [(k, v)]) @ kvs, r)"
      using json_members_skip [of other "acc @ [(k, v)]" 0 ?more] by (simp add: spaces_def)
    moreover have "join_with ('','' @ newline) (map (\<lambda>t. spaces level @ t) (map (member_indented level) (p # kvs))) @
        newline @ spaces n @ CHR ''}'' # r = spaces level @ member_indented level (k, v) @ CHR '','' # newline @ ?more"
      using more p by simp
    ultimately show ?thesis using key [of "CHR '','' # newline @ ?more"] p by simp
  qed
qed

lemma bracket_read:
  assumes "items \<noteq> []" "\<And>q. next_tok (hd items @ q) = Some (c, tl (hd items) @ q)"
  shows "next_tok (join_with ('','' @ newline) (map (\<lambda>t. spaces n @ t) items) @ r) \<noteq> None"
    "fst (the (next_tok (join_with ('','' @ newline) (map (\<lambda>t. spaces n @ t) items) @ r))) = c"
proof -
  obtain x xs where "items = x # xs" using assms(1) by (cases items) auto
  then have "\<exists>q. join_with ('','' @ newline) (map (\<lambda>t. spaces n @ t) items) @ r = spaces n @ hd items @ q"
    by (cases xs) auto
  then obtain q where "join_with ('','' @ newline) (map (\<lambda>t. spaces n @ t) items) @ r = spaces n @ hd items @ q" by blast
  then show "next_tok (join_with ('','' @ newline) (map (\<lambda>t. spaces n @ t) items) @ r) \<noteq> None"
    "fst (the (next_tok (join_with ('','' @ newline) (map (\<lambda>t. spaces n @ t) items) @ r))) = c"
    by (simp_all add: next_tok_spaces assms(2))
qed

lemma render_indented_start:
  assumes "json_pure v"
  shows "\<exists>c cs. render_indented level v = c # cs \<and> \<not> is_ws c \<and> c \<noteq> CHR '']'' \<and> c \<noteq> CHR ''}''"
  using assms
proof (cases v)
  case (JNum n)
  then show ?thesis using render_start [OF assms] by simp
qed (auto simp: json_string_def bracket_def)

lemma indented_reads_back: "json_pure v \<Longrightarrow> keys_distinct v \<Longrightarrow> reads_indented other level v"
proof (induction v arbitrary: level)
  case (JArr vs)
  show ?case
  proof (cases vs)
    case Nil
    then show ?thesis by (simp add: reads_indented_def bracket_def json_read_eq [of other "CHR ''['' # s" for s])
  next
    case (Cons w ws)
    let ?items = "map (render_indented (level + 2)) vs"
    have all: "list_all (reads_indented other (level + 2)) vs" using JArr by (simp add: list_all_iff)
    have "json_pure w" using JArr.prems Cons by simp
    from render_indented_start [OF this, of "level + 2"] obtain c cs
      where c: "render_indented (level + 2) w = c # cs" "\<not> is_ws c" "c \<noteq> CHR '']''" by blast
    have first: "next_tok (hd ?items @ q) = Some (c, tl (hd ?items) @ q)" for q using Cons c(1,2) by simp
    have items: "?items \<noteq> []" using Cons by simp
    show ?thesis unfolding reads_indented_def
    proof (intro allI impI)
      fix r
      let ?body = "join_with ('','' @ newline) (map (\<lambda>t. spaces (level + 2) @ t) ?items) @ newline @ spaces level @ CHR '']'' # r"
      obtain q where q: "next_tok ?body = Some (c, q)" using bracket_read [OF items first, of "level + 2"] by (metis option.collapse prod.collapse)
      have "json_items other (newline @ ?body) = Some (vs, r)"
        using items_read_indented [OF _ all, of level r] Cons json_items_skip [of other 0 ?body] by (simp add: spaces_def)
      then have "json_read other (CHR ''['' # newline @ ?body) = Some (JArr vs, r)"
        using q c(3) by (simp add: json_read_eq next_tok_newline)
      then show "json_read other (render_indented level (JArr vs) @ r) = Some (JArr vs, r)"
        using items by (simp add: bracket_def)
    qed
  qed
next
  case (JObj kvs)
  show ?case
  proof (cases kvs)
    case Nil
    then show ?thesis by (simp add: reads_indented_def bracket_def json_read_eq [of other "CHR ''{'' # s" for s])
  next
    case (Cons p ps)
    let ?items = "map (member_indented (level + 2)) kvs"
    have all: "list_all (\<lambda>(k, v). reads_indented other (level + 2) v) kvs" using JObj by (fastforce simp: list_all_iff)
    have first: "next_tok (hd ?items @ q) = Some (CHR 0x22, tl (hd ?items) @ q)" for q
      using Cons by (cases p) (simp add: json_string_def)
    have items: "?items \<noteq> []" using Cons by simp
    show ?thesis unfolding reads_indented_def
    proof (intro allI impI)
      fix r
      let ?body = "join_with ('','' @ newline) (map (\<lambda>t. spaces (level + 2) @ t) ?items) @ newline @ spaces level @ CHR ''}'' # r"
      obtain q where q: "next_tok ?body = Some (CHR 0x22, q)" using bracket_read [OF items first, of "level + 2"] by (metis option.collapse prod.collapse)
      have "json_members other [] (newline @ ?body) = Some (kvs, r)"
        using members_read_indented [OF _ all, of "[]" level r] Cons JObj.prems json_members_skip [of other "[]" 0 ?body]
        by (simp add: spaces_def)
      then have "json_read other (CHR ''{'' # newline @ ?body) = Some (JObj kvs, r)"
        using q by (simp add: json_read_eq next_tok_newline)
      then show "json_read other (render_indented level (JObj kvs) @ r) = Some (JObj kvs, r)"
        using items by (simp add: bracket_def)
    qed
  qed
next
  case (JNum n)
  obtain c cs where s: "show_int n = c # cs" by (cases "show_int n") simp_all
  then have c: "c = CHR ''-'' \<or> is_digit c" by (rule show_int_cons)
  have "json_read other (show_int n @ r) = read_number other (show_int n @ r)" for r
    unfolding s using digit_not_ws [OF c] number_start [OF c] c by (simp add: json_read_eq)
  then show ?case by (simp add: reads_indented_def read_number_show value_end_numeral)
next
  case (JStr s)
  then show ?case by (simp add: reads_indented_def json_string_def json_read_eq [of other "CHR 0x22 # s" for s] read_chars_string)
next
  case (JBool b)
  then show ?case by (simp add: reads_indented_def json_read_eq read_literal_def is_digit_def)
next
  case JNull
  then show ?case by (simp add: reads_indented_def json_read_eq read_literal_def is_digit_def)
qed simp_all

lemma indented_text_reads_back:
  assumes "json_text_indented 0 v = Some t" "keys_distinct v"
  shows "\<exists>u. json_norm v = Some u \<and> JSON_parse other t = Inr u"
proof -
  from assms(1) obtain u where u: "json_norm v = Some u" "t = render_indented 0 u" by (auto simp: json_text_indented_render)
  have "reads_indented other 0 u"
    using indented_reads_back json_norm_idem [OF u(1)] json_norm_distinct [OF u(1) assms(2)] by blast
  then have "json_read other (t @ []) = Some (u, [])" unfolding u(2) reads_indented_def using value_end_simps(3) by blast
  then show ?thesis using u(1) by (simp add: JSON_parse_def)
qed

end
