(* ===== verification/Ownership.thy ===== *)
theory Ownership
  imports Provenance Encoding Http JsonPretty Total
begin

text \<open>
  The provenance bundle of \<open>celia ownership prove\<close>: \<open>apps/cli/src/ownership-prove.ts\<close>.  The state is the
  file system, a map from paths to contents, with the directories made, and the host's identifiers and
  clock.  The YAML parser, the hash function and the commands the program runs are parameters.  The
  identity is what the parser returns; the program reads it without checking it.
\<close>

section \<open>Paths\<close>

text \<open>\<open>join\<close> of \<open>node:path\<close> (POSIX): the non-empty parts joined by slashes and normalised.\<close>

definition is_absolute :: "string \<Rightarrow> bool" where
  "is_absolute p \<longleftrightarrow> prefix ''/'' p"

fun push_segment :: "bool \<Rightarrow> string \<Rightarrow> string list \<Rightarrow> string list" where
  "push_segment absolute seg stack =
     (if seg = [] \<or> seg = ''.'' then stack
      else if seg = ''..'' then
        (if stack \<noteq> [] \<and> last stack \<noteq> ''..'' then butlast stack else if absolute then stack else stack @ [''..''])
      else stack @ [seg])"

definition path_normalize :: "string \<Rightarrow> string" where
  "path_normalize p =
     (if p = [] then ''.''
      else
        let absolute = is_absolute p;
            body = join_with ''/'' (fold (push_segment absolute) (split_on (CHR ''/'') p) []);
            body1 = (if body = [] \<and> \<not> absolute then ''.'' else body);
            body2 = (if body1 \<noteq> [] \<and> suffix ''/'' p then body1 @ ''/'' else body1)
        in (if absolute then ''/'' @ body2 else body2))"

definition path_join :: "string list \<Rightarrow> string" where
  "path_join parts = path_normalize (join_with ''/'' (filter (\<lambda>p. p \<noteq> []) parts))"

section \<open>The file system\<close>

record repo_world =
  rp_files :: "(string, string) js_map"
  rp_dirs :: "string list"
  rp_host :: host

record prove_env =
  pe_sha :: "string \<Rightarrow> string"
  pe_yaml :: "string \<Rightarrow> js_error + jsv"
  pe_other :: "string \<Rightarrow> jsv"
  pe_exec :: "string \<Rightarrow> string \<Rightarrow> repo_world \<Rightarrow> js_error + string"

definition readFileSync :: "string \<Rightarrow> (repo_world, string) proc" where
  "readFileSync path = (\<lambda>w.
     case map_get (rp_files w) path of
       None \<Rightarrow> (Inl (plain_error (''ENOENT: no such file or directory, open '' @ quoted path)), w)
     | Some text \<Rightarrow> (Inr text, w))"

definition writeFileSync :: "string \<Rightarrow> string option \<Rightarrow> (repo_world, unit) proc" where
  "writeFileSync path text = (\<lambda>w.
     case text of
       None \<Rightarrow> (Inl (JsError ''TypeError'' ''The data argument must be of type string''), w)
     | Some t \<Rightarrow> (Inr (), w\<lparr>rp_files := map_set path t (rp_files w)\<rparr>))"

definition mkdirSync :: "string \<Rightarrow> (repo_world, unit) proc" where
  "mkdirSync path = (\<lambda>w.
     if map_has (rp_files w) path then (Inl (plain_error (''EEXIST: file already exists, mkdir '' @ quoted path)), w)
     else (Inr (), w\<lparr>rp_dirs := rp_dirs w @ [path]\<rparr>))"

definition execSync :: "prove_env \<Rightarrow> string \<Rightarrow> string \<Rightarrow> (repo_world, string) proc" where
  "execSync env command cwd = (\<lambda>w. (pe_exec env command cwd w, w))"

definition sha256File :: "prove_env \<Rightarrow> string \<Rightarrow> (repo_world, string) proc" where
  "sha256File env path = bindP (readFileSync path) (\<lambda>text. returnP (pe_sha env text))"

definition writeJson :: "string \<Rightarrow> jsv \<Rightarrow> (repo_world, unit) proc" where
  "writeJson path v = bindP (liftE (json_stringify_indented v)) (writeFileSync path)"

section \<open>The parts of the bundle\<close>

definition unit_separator :: char where
  "unit_separator = CHR 0x01"

text \<open>\<open>parts[i]\<close>, which is \<open>undefined\<close> beyond the end.\<close>

definition part_at :: "nat \<Rightarrow> string list \<Rightarrow> jsv" where
  "part_at i ps = (if i < length ps then JStr (ps ! i) else JUndefined)"

definition commit_entry :: "string \<Rightarrow> jsv" where
  "commit_entry line =
     (let ps = split_on unit_separator line in
      JObj [(''commit'', part_at 0 ps), (''author'', part_at 1 ps), (''email'', part_at 2 ps), (''date'', part_at 3 ps),
        (''subject'', part_at 4 ps)])"

definition git_log_command :: string where
  "git_log_command = ''git log --format='' @ quoted (''%H'' @ unit_separator # ''%an'' @ unit_separator # ''%ae'' @
     unit_separator # ''%aI'' @ unit_separator # ''%s'') @ '' -n 500''"

definition gitHistory :: "prove_env \<Rightarrow> string \<Rightarrow> (repo_world, jsv list) proc" where
  "gitHistory env repo =
     bindP (execSync env git_log_command repo) (\<lambda>out.
       returnP (map commit_entry (filter (\<lambda>l. js_trim l \<noteq> []) (split_on (CHR 0x0A) out))))"

definition TOP_CONTRACTS :: "string list" where
  "TOP_CONTRACTS = [''KERNEL_CONSTITUTION.md'', ''ATOMIC_KERNEL_CONTRACT.md'', ''ZERO_COST_ECONOMIC_CONTRACT.md'',
     ''SECURITY_CONTRACT.md'', ''OWNERSHIP_CONTRACT.md'', ''PROVENANCE_CONTRACT.md'']"

definition loadIdentity :: "prove_env \<Rightarrow> string \<Rightarrow> (repo_world, jsv) proc" where
  "loadIdentity env repo =
     bindP (readFileSync (path_join [repo, ''PROJECT_IDENTITY.yaml''])) (\<lambda>raw. liftE (pe_yaml env raw))"

text \<open>\<open>computeGenesisHash\<close> on what the parser returned.\<close>

definition computeGenesisHash_read :: "(string \<Rightarrow> string) \<Rightarrow> jsv list \<Rightarrow> js_error + string" where
  "computeGenesisHash_read sha parts =
     bindE (json_stringify (JArr parts)) (\<lambda>text. Inr (sha (case text of None \<Rightarrow> [] | Some t \<Rightarrow> t)))"

record project_identity =
  pi_id :: jsv
  pi_name :: jsv
  pi_namespace :: jsv
  pi_primaryOwner :: jsv
  pi_repositoryOwner :: jsv
  pi_genesisCommit :: jsv

text \<open>The reads of the argument of \<open>computeGenesisHash\<close>.\<close>

definition genesis_input :: "jsv \<Rightarrow> js_error + project_identity" where
  "genesis_input v =
     bindE (js_path [''project'', ''id''] v) (\<lambda>i.
     bindE (js_path [''project'', ''name''] v) (\<lambda>n.
     bindE (js_path [''project'', ''namespace''] v) (\<lambda>ns.
     bindE (js_path [''ownership'', ''primary_owner''] v) (\<lambda>po.
     bindE (js_path [''ownership'', ''repository_owner''] v) (\<lambda>ro.
     bindE (js_path [''project'', ''genesis_commit''] v) (\<lambda>gc.
       Inr \<lparr>pi_id = i, pi_name = n, pi_namespace = ns, pi_primaryOwner = po, pi_repositoryOwner = ro, pi_genesisCommit = gc\<rparr>))))))"

definition identity_hash :: "(string \<Rightarrow> string) \<Rightarrow> project_identity \<Rightarrow> js_error + string" where
  "identity_hash sha p = computeGenesisHash_read sha
     [pi_id p, pi_name p, pi_namespace p, pi_primaryOwner p, pi_repositoryOwner p, pi_genesisCommit p]"

definition genesis_json :: "project_identity \<Rightarrow> jsv \<Rightarrow> jsv \<Rightarrow> jsv \<Rightarrow> jsv \<Rightarrow> string \<Rightarrow> bool \<Rightarrow> jsv" where
  "genesis_json p timestamp architecture license declared computed valid =
     JObj [(''projectId'', pi_id p), (''name'', pi_name p), (''namespace'', pi_namespace p), (''primaryOwner'', pi_primaryOwner p),
       (''repositoryOwner'', pi_repositoryOwner p), (''repository'', JStr ''github.com/elazamey/chat.ai''),
       (''genesisCommit'', pi_genesisCommit p), (''genesisTimestamp'', timestamp),
       (''architectureGenesisCommit'', architecture), (''license'', license), (''genesisHash'', declared),
       (''genesisHashComputed'', JStr computed), (''genesisValid'', JBool valid)]"

definition contract_hash :: "prove_env \<Rightarrow> string \<Rightarrow> string \<Rightarrow> (repo_world, string) proc" where
  "contract_hash env repo doc =
     catchP (sha256File env (path_join [repo, ''docs'', doc])) (\<lambda>_. returnP ''MISSING'')"

fun mapP :: "('x \<Rightarrow> ('w, 'a) proc) \<Rightarrow> 'x list \<Rightarrow> ('w, 'a list) proc" where
  "mapP f [] = returnP []"
| "mapP f (x # xs) = bindP (f x) (\<lambda>a. bindP (mapP f xs) (\<lambda>as. returnP (a # as)))"

definition package_entry :: "prove_env \<Rightarrow> string \<Rightarrow> string \<Rightarrow> (repo_world, jsv) proc" where
  "package_entry env repo p =
     catchP (bindP (readFileSync (path_join [repo, p])) (\<lambda>text.
         bindP (liftE (JSON_parse (pe_other env) text)) (\<lambda>pkg.
         bindP (liftE (js_get ''name'' pkg)) (\<lambda>name.
         bindP (liftE (js_get ''version'' pkg)) (\<lambda>version.
           returnP (JObj [(''name'', name), (''version'', version)]))))))
       (\<lambda>_. returnP (JObj [(''name'', JStr p), (''version'', JNull)]))"

definition sbom :: "prove_env \<Rightarrow> string \<Rightarrow> (repo_world, jsv list) proc" where
  "sbom env repo =
     bindP (execSync env (''git ls-files '' @ quoted ''*/package.json'' @ '' '' @ quoted ''package.json'') repo) (\<lambda>out.
       mapP (package_entry env repo) (filter (\<lambda>p. p \<noteq> []) (split_on (CHR 0x0A) out)))"

definition actor_type :: "actor_kind \<Rightarrow> string" where
  "actor_type k = (case k of ActUser \<Rightarrow> ''user'' | ActSystem \<Rightarrow> ''system'' | ActAgent \<Rightarrow> ''agent'' | ActTool \<Rightarrow> ''tool'')"

definition ledger_event_json :: "ledger_event \<Rightarrow> jsv" where
  "ledger_event_json e =
     JObj [(''id'', JStr (le_id e)), (''seq'', JNum (int (le_seq e))), (''timestamp'', JStr (le_timestamp e)),
       (''actor'', JObj [(''type'', JStr (actor_type (actor_kind (le_actor e)))), (''id'', JStr (actor_id (le_actor e)))]), (''type'', JStr (le_type e)),
       (''taskId'', JStr (le_taskId e)), (''runId'', JStr (le_runId e)), (''payload'', le_payload e),
       (''prevHash'', (case le_prevHash e of None \<Rightarrow> JUndefined | Some h \<Rightarrow> JStr h)), (''hash'', JStr (le_hash e))]"

section \<open>The bundle\<close>

record ownership_proof =
  op_outputDir :: string
  op_files :: "string list"
  op_genesisHashDeclared :: jsv
  op_genesisHashComputed :: string
  op_genesisValid :: bool
  op_chainValid :: bool

definition bundle_files :: "string list" where
  "bundle_files = [''project-identity.json'', ''genesis.json'', ''git-history.json'', ''commits.json'', ''release.json'',
     ''architecture-hashes.json'', ''artifact-hash.json'', ''sbom.json'', ''ledger-export.json'']"

definition identity_field :: "string list \<Rightarrow> jsv \<Rightarrow> (repo_world, jsv) proc" where
  "identity_field ks v = liftE (js_path ks v)"

definition ownership_log :: "prove_env \<Rightarrow> string \<Rightarrow> jsv \<Rightarrow> host \<times> ledger \<Rightarrow> host \<times> ledger" where
  "ownership_log env type payload s = snd (ownership_append (pe_sha env) type payload None None s)"

text \<open>The new ownership ledger and its three events; the reads of the identity come first.\<close>

definition ownership_ledger :: "prove_env \<Rightarrow> jsv \<Rightarrow> nat \<Rightarrow> (repo_world, ledger) proc" where
  "ownership_ledger env v commits =
     bindP (identity_field [''project'', ''id''] v) (\<lambda>i.
     bindP (identity_field [''project'', ''genesis_commit''] v) (\<lambda>gc.
     bindP (identity_field [''provenance'', ''genesis_hash''] v) (\<lambda>gh.
     bindP (identity_field [''license'', ''core''] v) (\<lambda>core w.
       (case ownership_log env ''ownership.source.authored'' (JObj [(''genesisCommit'', gc), (''commits'', JNum (int commits))])
           (ownership_log env ''ownership.license.declared'' (JObj [(''license'', core)])
           (ownership_log env ''ownership.project.created''
              (JObj [(''id'', i), (''genesisCommit'', gc), (''genesisHash'', gh)]) (rp_host w, []))) of
         (h, l) \<Rightarrow> (Inr l, w\<lparr>rp_host := h\<rparr>))))))"

definition ledger_ok :: "prove_env \<Rightarrow> ledger \<Rightarrow> bool" where
  "ledger_ok env l = (ownership_verifyIntegrity (pe_sha env) l = cv_ok)"

text \<open>What follows the check of the genesis hash: the files, in the order they are written.\<close>

definition writeBundle ::
  "prove_env \<Rightarrow> string \<Rightarrow> string \<Rightarrow> jsv \<Rightarrow> project_identity \<Rightarrow> jsv \<Rightarrow> string \<Rightarrow> bool \<Rightarrow> (repo_world, ownership_proof) proc" where
  "writeBundle env repo dir v p declared computed valid =
     bindP (gitHistory env repo) (\<lambda>history.
     bindP (writeJson (path_join [dir, ''project-identity.json'']) v) (\<lambda>_.
     bindP (identity_field [''project'', ''created_at''] v) (\<lambda>created.
     bindP (identity_field [''project'', ''architecture_genesis_commit''] v) (\<lambda>architecture.
     bindP (identity_field [''license'', ''core''] v) (\<lambda>core.
     bindP (writeJson (path_join [dir, ''genesis.json'']) (genesis_json p created architecture core declared computed valid)) (\<lambda>_.
     bindP (writeJson (path_join [dir, ''git-history.json'']) (JArr history)) (\<lambda>_.
     bindP (writeJson (path_join [dir, ''commits.json'']) (JObj [(''total'', JNum (int (length history))),
        (''commits'', JArr (map (js_maybe ''commit'') history))])) (\<lambda>_.
     bindP (writeJson (path_join [dir, ''release.json'']) (JObj [(''latest'', JNull), (''releases'', JArr [])])) (\<lambda>_.
     bindP (mapP (contract_hash env repo) TOP_CONTRACTS) (\<lambda>hashes.
     bindP (writeJson (path_join [dir, ''architecture-hashes.json'']) (JObj (zip TOP_CONTRACTS (map JStr hashes)))) (\<lambda>_.
     bindP (sha256File env (path_join [repo, ''LICENSE''])) (\<lambda>license.
     bindP (sha256File env (path_join [repo, ''PROJECT_IDENTITY.yaml''])) (\<lambda>identity.
     bindP (sha256File env (path_join [repo, ''PROJECT_GENESIS.md''])) (\<lambda>genesis.
     bindP (writeJson (path_join [dir, ''artifact-hash.json'']) (JObj [(''LICENSE'', JStr license),
        (''PROJECT_IDENTITY_yaml'', JStr identity), (''PROJECT_GENESIS_md'', JStr genesis)])) (\<lambda>_.
     bindP (sbom env repo) (\<lambda>packages.
     bindP (writeJson (path_join [dir, ''sbom.json'']) (JArr packages)) (\<lambda>_.
     bindP (ownership_ledger env v (length history)) (\<lambda>l.
     bindP (writeJson (path_join [dir, ''ledger-export.json'']) (JObj [(''events'', JArr (map ledger_event_json (ownership_events l))),
        (''chainValid'', JBool (ledger_ok env l))])) (\<lambda>_.
       returnP \<lparr>op_outputDir = dir, op_files = bundle_files, op_genesisHashDeclared = declared,
         op_genesisHashComputed = computed, op_genesisValid = valid, op_chainValid = ledger_ok env l\<rparr>)))))))))))))))))))"

definition buildOwnershipProof :: "prove_env \<Rightarrow> string \<Rightarrow> string option \<Rightarrow> (repo_world, ownership_proof) proc" where
  "buildOwnershipProof env repo outputDir =
     bindP (loadIdentity env repo) (\<lambda>v.
     let dir = (case outputDir of None \<Rightarrow> path_join [repo, ''ownership-proof''] | Some d \<Rightarrow> d) in
     bindP (mkdirSync dir) (\<lambda>_.
     bindP (liftE (genesis_input v)) (\<lambda>p.
     bindP (liftE (identity_hash (pe_sha env) p)) (\<lambda>computed.
     bindP (identity_field [''provenance'', ''genesis_hash''] v) (\<lambda>declared.
       writeBundle env repo dir v p declared computed (JStr computed = declared))))))"

section \<open>Paths of the bundle\<close>

definition plain_name :: "string \<Rightarrow> bool" where
  "plain_name f \<longleftrightarrow> CHR ''/'' \<notin> set f \<and> f \<notin> {[], ''.'', ''..''}"

lemma bundle_plain: "f \<in> set bundle_files \<Longrightarrow> plain_name f"
  by (auto simp: bundle_files_def plain_name_def)

lemma split_on_snoc: "c \<notin> set f \<Longrightarrow> split_on c (d @ c # f) = split_on c d @ [f]"
proof (induction d)
  case Nil
  then have "split_on c f = [f]" using split_join [of "[f]" c] by simp
  then show ?case by simp
next
  case (Cons x d)
  obtain p ps where "split_on c d = p # ps" by (cases "split_on c d") auto
  then show ?case using Cons by auto
qed

lemma join_with_snoc: "join_with sep (xs @ [f]) = (if xs = [] then f else join_with sep xs @ sep @ f)"
proof (induction xs)
  case (Cons x xs)
  then show ?case by (cases xs) auto
qed simp

text \<open>Normalising leaves the name of a file where it is.\<close>

lemma path_join_name: "\<exists>pre. \<forall>f. plain_name f \<longrightarrow> path_join [dir, f] = pre @ f"
proof -
  let ?abs = "dir \<noteq> [] \<and> is_absolute dir"
  let ?segs = "if dir = [] then [] else split_on (CHR ''/'') dir"
  let ?stack = "fold (push_segment ?abs) ?segs []"
  let ?pre = "(if ?abs then ''/'' else []) @ (if ?stack = [] then [] else join_with ''/'' ?stack @ ''/'')"
  have "path_join [dir, f] = ?pre @ f" if f: "plain_name f" for f
  proof -
    let ?p = "join_with ''/'' (filter (\<lambda>p. p \<noteq> []) [dir, f])"
    have p: "?p = (if dir = [] then f else dir @ CHR ''/'' # f)" and ne: "f \<noteq> []" "CHR ''/'' \<notin> set f"
      using f by (auto simp: plain_name_def)
    have segs: "split_on (CHR ''/'') ?p = ?segs @ [f]"
      using split_on_snoc [OF ne(2)] split_join [of "[f]" "CHR ''/''"] ne by (simp add: p)
    have abs: "is_absolute ?p = ?abs"
      using ne by (cases dir; cases f) (auto simp: is_absolute_def)
    have stack: "fold (push_segment ?abs) (?segs @ [f]) [] = ?stack @ [f]"
      using f unfolding fold_append comp_apply by (simp add: plain_name_def)
    have "\<not> suffix ''/'' ?p"
    proof
      assume "suffix ''/'' ?p"
      then obtain zs where "?p = zs @ ''/''" by (auto simp only: suffix_def)
      then have "last ?p = CHR ''/''" by simp
      moreover have "last ?p \<in> set f" using ne(1) last_in_set [OF ne(1)] by (simp add: p)
      ultimately show False using ne(2) by simp
    qed
    moreover have "?p \<noteq> []" using ne by (simp add: p)
    moreover have "join_with ''/'' (?stack @ [f]) \<noteq> []" using ne(1) by (simp add: join_with_snoc)
    ultimately have "path_join [dir, f] = (if ?abs then ''/'' else []) @ join_with ''/'' (?stack @ [f])"
      unfolding path_join_def path_normalize_def abs segs stack Let_def by (simp only: if_False if_True simp_thms split: if_split) simp
    then show ?thesis by (simp add: join_with_snoc del: fold_append)
  qed
  then show ?thesis by blast
qed

lemma path_join_inj: "plain_name f \<Longrightarrow> plain_name g \<Longrightarrow> path_join [dir, f] = path_join [dir, g] \<Longrightarrow> f = g"
  using path_join_name [of dir] by auto

section \<open>What a run leaves\<close>

definition yields :: "('w \<Rightarrow> bool) \<Rightarrow> ('w, 'a) proc \<Rightarrow> ('a \<Rightarrow> 'w \<Rightarrow> bool) \<Rightarrow> bool" where
  "yields P p Q \<longleftrightarrow> (\<forall>w a w'. P w \<longrightarrow> p w = (Inr a, w') \<longrightarrow> Q a w')"

lemma yields_D: "yields P p Q \<Longrightarrow> p w = (Inr a, w') \<Longrightarrow> P w \<Longrightarrow> Q a w'"
  by (auto simp: yields_def)

lemma yields_bind: "yields P p Q \<Longrightarrow> (\<And>a. yields (Q a) (f a) R) \<Longrightarrow> yields P (bindP p f) R"
  unfolding yields_def by (fastforce simp: bindP_def split: prod.splits sum.splits)

lemma yields_return: "(\<And>w. P w \<Longrightarrow> Q a w) \<Longrightarrow> yields P (returnP a) Q"
  by (auto simp: yields_def returnP_def)

lemma yields_lift: "yields P (liftE r) (\<lambda>a w. P w \<and> r = Inr a)"
  by (auto simp: yields_def liftE_def)

lemma yields_pre: "yields P p Q \<Longrightarrow> (\<And>w. P' w \<Longrightarrow> P w) \<Longrightarrow> yields P' p Q"
  by (auto simp: yields_def)

lemma yields_ctx: "(c \<Longrightarrow> yields P p Q) \<Longrightarrow> yields (\<lambda>w. P w \<and> c) p Q"
  by (auto simp: yields_def)

text \<open>Operations that only read.\<close>

definition reads_only :: "(repo_world, 'a) proc \<Rightarrow> bool" where
  "reads_only p \<longleftrightarrow> (\<forall>w. rp_files (snd (p w)) = rp_files w)"

lemma reads_only_bind: "reads_only p \<Longrightarrow> (\<And>a. reads_only (f a)) \<Longrightarrow> reads_only (bindP p f)"
  by (auto simp: reads_only_def bindP_def case_prod_beta split: sum.splits)

lemma reads_only_catch: "reads_only p \<Longrightarrow> (\<And>e. reads_only (f e)) \<Longrightarrow> reads_only (catchP p f)"
  by (auto simp: reads_only_def catchP_def case_prod_beta split: sum.splits)

lemma reads_only_prim:
  "reads_only (returnP a)" "reads_only (liftE r)" "reads_only (readFileSync path)" "reads_only (execSync env c repo)"
  "reads_only (mkdirSync path)" "reads_only (identity_field ks v)"
  by (simp_all add: reads_only_def returnP_def liftE_def readFileSync_def execSync_def mkdirSync_def identity_field_def split: option.splits)

lemma reads_only_map: "(\<And>x. reads_only (f x)) \<Longrightarrow> reads_only (mapP f xs)"
  by (induction xs) (auto intro!: reads_only_bind reads_only_prim)

lemmas reads_only_intros = reads_only_bind reads_only_catch reads_only_prim reads_only_map

lemma reads_only_parts:
  "reads_only (loadIdentity env repo)" "reads_only (gitHistory env repo)" "reads_only (sha256File env path)"
  "reads_only (contract_hash env repo doc)" "reads_only (sbom env repo)"
  unfolding loadIdentity_def gitHistory_def sha256File_def contract_hash_def sbom_def package_entry_def
  by (intro reads_only_intros)+

lemma reads_only_ledger: "reads_only (ownership_ledger env v n)"
  unfolding ownership_ledger_def
  by (intro reads_only_bind reads_only_prim) (simp add: reads_only_def case_prod_beta)

text \<open>After the files \<open>D\<close>: each holds JSON of which \<open>G\<close> holds, and no file outside the bundle has changed.\<close>

definition bundle_state :: "(string \<Rightarrow> jsv) \<Rightarrow> string \<Rightarrow> (string, string) js_map \<Rightarrow> (string \<Rightarrow> jsv \<Rightarrow> bool) \<Rightarrow> string list \<Rightarrow> repo_world \<Rightarrow> bool" where
  "bundle_state other dir files G D w \<longleftrightarrow>
     set D \<subseteq> set bundle_files \<and>
     (\<forall>f \<in> set D. \<exists>text u. map_get (rp_files w) (path_join [dir, f]) = Some text \<and> JSON_parse other text = Inr u \<and> G f u) \<and>
     (\<forall>p. p \<notin> (\<lambda>f. path_join [dir, f]) ` set bundle_files \<longrightarrow> map_get (rp_files w) p = map_get files p)"

lemma bundle_state_files: "rp_files w' = rp_files w \<Longrightarrow> bundle_state other dir files G D w' = bundle_state other dir files G D w"
  by (simp add: bundle_state_def)

lemma yields_reads: "reads_only p \<Longrightarrow> yields (bundle_state other dir files G D) p (\<lambda>a. bundle_state other dir files G D)"
  unfolding yields_def reads_only_def by (metis bundle_state_files snd_conv)

lemma yields_write:
  assumes "f \<in> set bundle_files" "f \<notin> set D" "keys_distinct v" "\<And>u. json_norm v = Some u \<Longrightarrow> G f u"
  shows "yields (bundle_state other dir files G D) (writeJson (path_join [dir, f]) v) (\<lambda>_. bundle_state other dir files G (f # D))"
  unfolding yields_def
proof (intro allI impI)
  fix w a w'
  assume w: "bundle_state other dir files G D w" and run: "writeJson (path_join [dir, f]) v w = (Inr a, w')"
  obtain t where t: "json_text_indented 0 v = Some t"
    and w': "w' = w\<lparr>rp_files := map_set (path_join [dir, f]) t (rp_files w)\<rparr>"
    using run by (auto simp: writeJson_def bindP_def liftE_def json_stringify_indented_def writeFileSync_def split: if_splits option.splits)
  obtain u where u: "json_norm v = Some u" "JSON_parse other t = Inr u" using indented_text_reads_back [OF t assms(3)] by blast
  have "path_join [dir, g] \<noteq> path_join [dir, f]" if "g \<in> set D" for g
    using w that assms(1,2) path_join_inj bundle_plain unfolding bundle_state_def by blast
  then show "bundle_state other dir files G (f # D) w'"
    using w assms(1) u assms(4) [OF u(1)] by (auto simp: bundle_state_def w')
qed

section \<open>Properties\<close>

text \<open>A JavaScript object has no key twice, and neither have the values below it.\<close>

lemma js_get_distinct: "js_get k v = Inr u \<Longrightarrow> keys_distinct v \<Longrightarrow> keys_distinct u"
  by (cases v) (auto simp: js_get_def list_all_iff dest: map_of_SomeD split: option.splits)

lemma js_path_distinct: "js_path ks v = Inr u \<Longrightarrow> keys_distinct v \<Longrightarrow> keys_distinct u"
proof (induction ks arbitrary: v)
  case (Cons k ks)
  then show ?case by (auto simp: js_path_def bindE_def split: sum.splits dest: js_get_distinct)
qed (simp add: js_path_def)

definition identity_distinct :: "project_identity \<Rightarrow> bool" where
  "identity_distinct p \<longleftrightarrow> keys_distinct (pi_id p) \<and> keys_distinct (pi_name p) \<and> keys_distinct (pi_namespace p) \<and>
     keys_distinct (pi_primaryOwner p) \<and> keys_distinct (pi_repositoryOwner p) \<and> keys_distinct (pi_genesisCommit p)"

lemma genesis_input_distinct: "genesis_input v = Inr p \<Longrightarrow> keys_distinct v \<Longrightarrow> identity_distinct p"
  by (auto simp: genesis_input_def bindE_def identity_distinct_def split: sum.splits dest: js_path_distinct)

lemma genesis_json_distinct:
  "identity_distinct p \<Longrightarrow> keys_distinct ts \<Longrightarrow> keys_distinct arch \<Longrightarrow> keys_distinct lic \<Longrightarrow> keys_distinct declared \<Longrightarrow>
    keys_distinct (genesis_json p ts arch lic declared computed valid)"
  by (simp add: genesis_json_def identity_distinct_def)

lemma norm_member:
  "distinct (map fst kvs) \<Longrightarrow>
    map_of (concat (map (\<lambda>(k, v). case json_norm v of None \<Rightarrow> [] | Some u \<Rightarrow> [(k, u)]) kvs)) k = Option.bind (map_of kvs k) json_norm"
proof (induction kvs)
  case (Cons p kvs)
  obtain j v where p: "p = (j, v)" by (cases p)
  then have "j = k \<Longrightarrow> map_of kvs k = None" using Cons.prems by (auto simp: map_of_eq_None_iff)
  then show ?case using Cons p by (cases "json_norm v") auto
qed simp

lemma get_normed:
  "json_norm (JObj kvs) = Some u \<Longrightarrow> distinct (map fst kvs) \<Longrightarrow> map_of kvs k = Some v \<Longrightarrow> json_norm v = Some w \<Longrightarrow> js_get k u = Inr w"
  using norm_member [of kvs k] by (auto simp: js_get_def)

lemma genesis_json_norm:
  "json_norm (genesis_json p ts arch lic declared computed valid) = Some u \<Longrightarrow> js_get ''genesisValid'' u = Inr (JBool valid)"
  unfolding genesis_json_def by (erule get_normed [where v = "JBool valid"]) simp_all

lemma commit_entry_distinct: "keys_distinct (commit_entry line) \<and> keys_distinct (js_maybe ''commit'' (commit_entry line))"
  by (simp add: commit_entry_def part_at_def js_maybe_def js_get_def Let_def)

lemma history_distinct:
  assumes "gitHistory env repo w = (Inr h, w')"
  shows "list_all (\<lambda>e. keys_distinct e \<and> keys_distinct (js_maybe ''commit'' e)) h"
proof -
  obtain lines where "h = map commit_entry lines"
    using assms by (auto simp: gitHistory_def bindP_def execSync_def returnP_def split: sum.splits)
  then show ?thesis by (simp add: list_all_iff commit_entry_distinct del: keys_distinct.simps)
qed

lemma json_data_distinct: "json_data v \<Longrightarrow> keys_distinct v"
  by (induction v rule: json_data.induct) (auto simp: list_all_iff)

lemma parsed_data:
  assumes "JSON_parse other s = Inr v" "\<And>n. json_data (other n)"
  shows "json_data v"
proof -
  obtain r where "json_read other s = Some (v, r)" using assms(1) by (auto simp: JSON_parse_def split: option.splits if_splits)
  then show ?thesis unfolding json_read_def
    by (rule reads_data [of other, OF assms(2), THEN conjunct1, rule_format])
qed

lemma parsed_distinct: "JSON_parse other s = Inr v \<Longrightarrow> (\<And>n. json_data (other n)) \<Longrightarrow> keys_distinct v"
  by (rule json_data_distinct) (rule parsed_data)

lemma package_distinct:
  assumes "\<And>n. json_data (pe_other env n)"
  shows "yields P (package_entry env repo p) (\<lambda>e w. keys_distinct e)"
  by (auto simp: yields_def package_entry_def catchP_def bindP_def liftE_def returnP_def split: sum.splits prod.splits
      dest!: parsed_distinct [OF _ assms] js_get_distinct)

lemma mapP_all: "(\<And>x. yields (\<lambda>_. True) (f x) (\<lambda>a w. R a)) \<Longrightarrow> yields (\<lambda>_. True) (mapP f xs) (\<lambda>as w. list_all R as)"
proof (induction xs)
  case (Cons x xs)
  have "yields (\<lambda>_. R a) (bindP (mapP f xs) (\<lambda>as. returnP (a # as))) (\<lambda>as w. list_all R as)" for a
    using Cons.IH [OF Cons.prems] by (auto simp: yields_def bindP_def returnP_def split: prod.splits sum.splits)
  then show ?case by (simp add: yields_bind [OF Cons.prems])
qed (simp add: yields_return)

lemma sbom_distinct:
  assumes "\<And>n. json_data (pe_other env n)"
  shows "yields (\<lambda>_. True) (sbom env repo) (\<lambda>es w. list_all keys_distinct es)"
  unfolding sbom_def by (rule yields_bind [where Q = "\<lambda>_ _. True"]) (auto simp: yields_def [of _ "execSync _ _ _"] intro: mapP_all package_distinct assms)

text \<open>The three events of the ledger.\<close>

lemma ledger_drafts:
  assumes "ownership_ledger env v n w = (Inr l, w')"
  obtains i gc gh core h where "l = snd (append_all (pe_sha env)
      [ownership_draft ''ownership.project.created'' (JObj [(''id'', i), (''genesisCommit'', gc), (''genesisHash'', gh)]) None None,
       ownership_draft ''ownership.license.declared'' (JObj [(''license'', core)]) None None,
       ownership_draft ''ownership.source.authored'' (JObj [(''genesisCommit'', gc), (''commits'', JNum (int n))]) None None] (h, []))"
    "js_path [''project'', ''id''] v = Inr i" "js_path [''project'', ''genesis_commit''] v = Inr gc"
    "js_path [''provenance'', ''genesis_hash''] v = Inr gh" "js_path [''license'', ''core''] v = Inr core"
proof -
  have field: "identity_field ks u s = (Inr x, s') \<Longrightarrow> js_path ks u = Inr x \<and> s' = s" for ks u x and s s' :: repo_world
    by (auto simp: identity_field_def liftE_def)
  obtain i gc gh core where f: "js_path [''project'', ''id''] v = Inr i" "js_path [''project'', ''genesis_commit''] v = Inr gc"
      "js_path [''provenance'', ''genesis_hash''] v = Inr gh" "js_path [''license'', ''core''] v = Inr core"
    using assms by (auto simp: ownership_ledger_def elim!: bindP_returns dest!: field)
  have "l = snd (append_all (pe_sha env)
      [ownership_draft ''ownership.project.created'' (JObj [(''id'', i), (''genesisCommit'', gc), (''genesisHash'', gh)]) None None,
       ownership_draft ''ownership.license.declared'' (JObj [(''license'', core)]) None None,
       ownership_draft ''ownership.source.authored'' (JObj [(''genesisCommit'', gc), (''commits'', JNum (int n))]) None None] (rp_host w, []))"
    using assms f
    by (auto simp: ownership_ledger_def bindP_def identity_field_def liftE_def ownership_log_def ownership_append_def case_prod_beta)
  from that [OF this f] show thesis .
qed

lemma ledger_chain:
  assumes "ownership_ledger env v n w = (Inr l, w')"
  shows "ledger_ok env l"
  using assms
proof (rule ledger_drafts)
  fix ds h assume "l = snd (append_all (pe_sha env) ds (h, []))"
  then have "ledger_wf (pe_sha env) l" using append_all_wf [of "pe_sha env" "(h, [])" ds] by (simp add: ledger_wf_def)
  then show ?thesis
    by (simp add: ledger_ok_def ownership_verifyIntegrity_def ledger_wf_def verifyIntegrity_def verifyChain_def verify_from_ok)
qed

text \<open>The payload of an event of the ledger is made of fields of the identity.\<close>

lemma ledger_payloads:
  assumes "ownership_ledger env v n w = (Inr l, w')"
  shows "list_all (\<lambda>e. \<exists>i gc gh core. js_path [''project'', ''id''] v = Inr i \<and> js_path [''project'', ''genesis_commit''] v = Inr gc \<and>
      js_path [''provenance'', ''genesis_hash''] v = Inr gh \<and> js_path [''license'', ''core''] v = Inr core \<and>
      le_payload e \<in> {JObj [(''id'', i), (''genesisCommit'', gc), (''genesisHash'', gh)], JObj [(''license'', core)],
        JObj [(''genesisCommit'', gc), (''commits'', JNum (int n))]}) l"
  using assms
proof (rule ledger_drafts)
  fix i gc gh core h
  let ?ds = "[ownership_draft ''ownership.project.created'' (JObj [(''id'', i), (''genesisCommit'', gc), (''genesisHash'', gh)]) None None,
     ownership_draft ''ownership.license.declared'' (JObj [(''license'', core)]) None None,
     ownership_draft ''ownership.source.authored'' (JObj [(''genesisCommit'', gc), (''commits'', JNum (int n))]) None None]"
  assume l: "l = snd (append_all (pe_sha env) ?ds (h, []))"
    and f: "js_path [''project'', ''id''] v = Inr i" "js_path [''project'', ''genesis_commit''] v = Inr gc"
      "js_path [''provenance'', ''genesis_hash''] v = Inr gh" "js_path [''license'', ''core''] v = Inr core"
  have "map draft_of l = ?ds" using append_all_drafts [of "pe_sha env" ?ds "(h, [])"] l by simp
  then have "map (ld_payload \<circ> draft_of) l = map ld_payload ?ds" by (metis map_map)
  then have "map le_payload l = map ld_payload ?ds" by (simp add: comp_def draft_of_def)
  then have "le_payload ` set l = set (map ld_payload ?ds)" by (metis set_map)
  then show ?thesis using f by (auto simp: list_all_iff ownership_draft_def)
qed

lemma ledger_distinct:
  assumes "ownership_ledger env v n w = (Inr l, w')" "keys_distinct v"
  shows "list_all (\<lambda>e. keys_distinct (ledger_event_json e)) l"
proof -
  have "list_all (\<lambda>e. keys_distinct (le_payload e)) l"
    by (rule list.pred_mono_strong [OF ledger_payloads [OF assms(1)]]) (auto dest: js_path_distinct [OF _ assms(2)])
  then show ?thesis by (auto simp: list_all_iff ledger_event_json_def split: option.splits)
qed

definition proves :: "jsv \<Rightarrow> bool \<Rightarrow> string \<Rightarrow> jsv \<Rightarrow> bool" where
  "proves v valid f u \<longleftrightarrow> (f = ''project-identity.json'' \<longrightarrow> json_norm v = Some u) \<and> (f = ''genesis.json'' \<longrightarrow> js_get ''genesisValid'' u = Inr (JBool valid)) \<and>
     (f = ''ledger-export.json'' \<longrightarrow> js_get ''chainValid'' u = Inr (JBool True))"

lemma bind_read:
  assumes "reads_only p" "\<And>w a w'. p w = (Inr a, w') \<Longrightarrow> R a"
    and "\<And>a. R a \<Longrightarrow> yields (bundle_state other dir files G D) (f a) Q"
  shows "yields (bundle_state other dir files G D) (bindP p f) Q"
  unfolding yields_def
proof (intro allI impI)
  fix w b w'
  assume w: "bundle_state other dir files G D w" "bindP p f w = (Inr b, w')"
  from w(2) obtain a w1 where a: "p w = (Inr a, w1)" "f a w1 = (Inr b, w')" by (rule bindP_returns)
  have "bundle_state other dir files G D w1" using yields_D [OF yields_reads [OF assms(1)] a(1) w(1)] .
  then show "Q b w'" using yields_D [OF assms(3) [OF assms(2) [OF a(1)]] a(2)] by blast
qed

lemma bind_write:
  assumes "f \<in> set bundle_files" "f \<notin> set D" "keys_distinct v" "\<And>u. json_norm v = Some u \<Longrightarrow> G f u"
    and "\<And>a. yields (bundle_state other dir files G (f # D)) (k a) Q"
  shows "yields (bundle_state other dir files G D) (bindP (writeJson (path_join [dir, f]) v) k) Q"
  by (rule yields_bind [OF yields_write assms(5)]) (use assms in auto)

lemma field_reads: "identity_field ks v w = (Inr a, w') \<Longrightarrow> keys_distinct v \<Longrightarrow> keys_distinct a"
  by (auto simp: identity_field_def liftE_def dest: js_path_distinct)

text \<open>What the operations that only read return.\<close>

lemma bind_history:
  "(\<And>a. list_all (\<lambda>e. keys_distinct e \<and> keys_distinct (js_maybe ''commit'' e)) a \<Longrightarrow> yields (bundle_state other dir files G D) (f a) Q) \<Longrightarrow>
    yields (bundle_state other dir files G D) (bindP (gitHistory env repo) f) Q"
  by (rule bind_read [OF reads_only_parts(2) history_distinct])

lemma bind_field:
  "keys_distinct v \<Longrightarrow> (\<And>a. keys_distinct a \<Longrightarrow> yields (bundle_state other dir files G D) (f a) Q) \<Longrightarrow>
    yields (bundle_state other dir files G D) (bindP (identity_field ks v) f) Q"
  by (rule bind_read [OF reads_only_prim(6) field_reads])

lemma bind_hashes:
  "(\<And>a. yields (bundle_state other dir files G D) (f a) Q) \<Longrightarrow>
    yields (bundle_state other dir files G D) (bindP (mapP (contract_hash env repo) docs) f) Q"
  by (rule bind_read [where R = "\<lambda>_. True"]) (auto intro: reads_only_map reads_only_parts)

lemma bind_sha:
  "(\<And>a. yields (bundle_state other dir files G D) (f a) Q) \<Longrightarrow>
    yields (bundle_state other dir files G D) (bindP (sha256File env path) f) Q"
  by (rule bind_read [where R = "\<lambda>_. True"]) (auto intro: reads_only_parts)

lemma bind_sbom:
  assumes "\<And>n. json_data (pe_other env n)" "\<And>a. list_all keys_distinct a \<Longrightarrow> yields (bundle_state other dir files G D) (f a) Q"
  shows "yields (bundle_state other dir files G D) (bindP (sbom env repo) f) Q"
proof (rule bind_read [OF reads_only_parts(5)])
  show "sbom env repo w = (Inr a, w') \<Longrightarrow> list_all keys_distinct a" for w a w'
    by (rule yields_D [OF sbom_distinct [OF assms(1)] _ TrueI])
qed (rule assms(2))

lemma bind_ledger:
  assumes "keys_distinct v"
    and "\<And>l. list_all (\<lambda>e. keys_distinct (ledger_event_json e)) l \<and> ledger_ok env l \<Longrightarrow> yields (bundle_state other dir files G D) (f l) Q"
  shows "yields (bundle_state other dir files G D) (bindP (ownership_ledger env v n) f) Q"
proof (rule bind_read [OF reads_only_ledger])
  show "ownership_ledger env v n w = (Inr l, w') \<Longrightarrow>
      list_all (\<lambda>e. keys_distinct (ledger_event_json e)) l \<and> ledger_ok env l" for w l w'
    using ledger_distinct [OF _ assms(1)] ledger_chain by blast
qed (rule assms(2))

lemmas bundle_intros = bind_write bind_history bind_field bind_hashes bind_sha bind_sbom bind_ledger yields_return

lemma contracts_distinct: "distinct (map_keys (zip TOP_CONTRACTS (map JStr hs)))"
  by (simp add: map_fst_zip_take TOP_CONTRACTS_def distinct_take)

lemma contracts_values: "(doc, v) \<in> set (zip TOP_CONTRACTS (map JStr hs)) \<Longrightarrow> keys_distinct v"
  by (drule set_zip_rightD) auto

lemma bundle_written:
  assumes "\<And>n. json_data (pe_other env n)" "keys_distinct v" "identity_distinct p" "keys_distinct declared"
  shows "yields (bundle_state other dir files (proves v valid) []) (writeBundle env repo dir v p declared computed valid)
    (\<lambda>a w. bundle_state other dir files (proves v valid) (rev bundle_files) w \<and> op_outputDir a = dir \<and> op_files a = bundle_files \<and>
      op_genesisHashDeclared a = declared \<and> op_genesisHashComputed a = computed \<and> op_genesisValid a = valid \<and> op_chainValid a)"
  unfolding writeBundle_def
  by (intro bundle_intros assms)
    (auto simp: assms bundle_files_def proves_def contracts_distinct ownership_events_def list_all_iff js_get_def [of "''chainValid''"]
      dest: genesis_json_norm contracts_values intro: genesis_json_distinct)

section \<open>A complete checkout gets its bundle\<close>

lemma makes_map: "(\<And>x. makes P (f x) R) \<Longrightarrow> makes P (mapP f xs) (list_all R)"
proof (induction xs)
  case (Cons x xs)
  show ?case unfolding mapP.simps
    by (rule makes_bind [OF Cons.prems], rule makes_bind [OF Cons.IH [OF Cons.prems]], rule makes_return) simp
qed (simp add: makes_return)

definition readable :: "string list \<Rightarrow> repo_world \<Rightarrow> bool" where
  "readable paths w \<longleftrightarrow> list_all (\<lambda>p. map_has (rp_files w) p) paths"

abbreviation no_bigint :: "jsv \<Rightarrow> bool" where
  "no_bigint v \<equiv> \<not> has_bigint v"

text \<open>The sections the command reads are objects.\<close>

definition identity_ready :: "jsv \<Rightarrow> bool" where
  "identity_ready v \<longleftrightarrow> no_bigint v \<and>
     (case v of
        JObj kvs \<Rightarrow> list_all (\<lambda>k. case map_of kvs k of Some (JObj _) \<Rightarrow> True | _ \<Rightarrow> False)
          [''project'', ''ownership'', ''license'', ''provenance'']
      | _ \<Rightarrow> False)"

lemma js_get_no_bigint: "js_get k v = Inr u \<Longrightarrow> no_bigint v \<Longrightarrow> no_bigint u"
  by (cases v) (auto simp: js_get_def list_ex_iff dest: map_of_SomeD split: option.splits)

lemma ready_path:
  assumes "identity_ready v" "k \<in> {''project'', ''ownership'', ''license'', ''provenance''}"
  shows "\<exists>x. js_path [k, f] v = Inr x \<and> no_bigint x"
proof -
  obtain kvs where v: "v = JObj kvs" using assms(1) by (auto simp: identity_ready_def split: jsv.splits)
  obtain us where us: "js_get k v = Inr (JObj us)"
    using assms by (auto simp: v identity_ready_def js_get_def split: option.splits jsv.splits)
  have "no_bigint (JObj us)" using js_get_no_bigint [OF us] assms(1) by (simp add: identity_ready_def)
  then have "no_bigint (case map_of us f of None \<Rightarrow> JUndefined | Some u \<Rightarrow> u)"
    using js_get_no_bigint [of f "JObj us"] by (simp add: js_get_def)
  then show ?thesis by (simp add: js_path_def us bindE_def) (simp add: js_get_def)
qed

lemma makes_field:
  "identity_ready v \<Longrightarrow> k \<in> {''project'', ''ownership'', ''license'', ''provenance''} \<Longrightarrow> makes P (identity_field [k, f] v) no_bigint"
  using ready_path [of v k f] by (auto simp: identity_field_def delivers_def liftE_def)

lemma makes_genesis_input:
  assumes "identity_ready v"
  shows "makes P (liftE (genesis_input v)) (\<lambda>p. no_bigint (pi_id p) \<and> no_bigint (pi_name p) \<and> no_bigint (pi_namespace p) \<and>
    no_bigint (pi_primaryOwner p) \<and> no_bigint (pi_repositoryOwner p) \<and> no_bigint (pi_genesisCommit p))"
proof -
  obtain x1 where "js_path [''project'', ''id''] v = Inr x1" "no_bigint x1" using ready_path [OF assms, of "''project''" "''id''"] by auto
  moreover obtain x2 where "js_path [''project'', ''name''] v = Inr x2" "no_bigint x2" using ready_path [OF assms, of "''project''" "''name''"] by auto
  moreover obtain x3 where "js_path [''project'', ''namespace''] v = Inr x3" "no_bigint x3" using ready_path [OF assms, of "''project''" "''namespace''"] by auto
  moreover obtain x4 where "js_path [''ownership'', ''primary_owner''] v = Inr x4" "no_bigint x4" using ready_path [OF assms, of "''ownership''" "''primary_owner''"] by auto
  moreover obtain x5 where "js_path [''ownership'', ''repository_owner''] v = Inr x5" "no_bigint x5" using ready_path [OF assms, of "''ownership''" "''repository_owner''"] by auto
  moreover obtain x6 where "js_path [''project'', ''genesis_commit''] v = Inr x6" "no_bigint x6" using ready_path [OF assms, of "''project''" "''genesis_commit''"] by auto
  ultimately show ?thesis by (simp add: genesis_input_def bindE_def delivers_def liftE_def)
qed

lemma makes_hash:
  "no_bigint (pi_id p) \<and> no_bigint (pi_name p) \<and> no_bigint (pi_namespace p) \<and> no_bigint (pi_primaryOwner p) \<and>
    no_bigint (pi_repositoryOwner p) \<and> no_bigint (pi_genesisCommit p) \<Longrightarrow> makes P (liftE (identity_hash sha p)) (\<lambda>_. True)"
  by (simp add: identity_hash_def computeGenesisHash_read_def json_stringify_def bindE_def delivers_def liftE_def)

lemma makes_write: "no_bigint v \<Longrightarrow> json_norm v \<noteq> None \<Longrightarrow> makes (readable paths) (writeJson path v) (\<lambda>_. True)"
  by (auto simp: delivers_def writeJson_def bindP_def liftE_def json_stringify_indented_def json_text_indented_render writeFileSync_def
      readable_def list_all_iff)

lemma makes_sha: "path \<in> set paths \<Longrightarrow> makes (readable paths) (sha256File env path) (\<lambda>_. True)"
  by (auto simp: delivers_def sha256File_def bindP_def readFileSync_def returnP_def readable_def list_all_iff split: option.split)

lemma makes_contract: "makes P (contract_hash env repo doc) (\<lambda>_. True)"
  by (auto simp: delivers_def contract_hash_def catchP_def sha256File_def bindP_def readFileSync_def returnP_def split: option.splits)

lemma json_data_no_bigint: "json_data v \<Longrightarrow> no_bigint v"
  by (induction v rule: json_data.induct) (auto simp: list_all_iff list_ex_iff)

definition git_works :: "prove_env \<Rightarrow> string \<Rightarrow> bool" where
  "git_works env repo \<longleftrightarrow> (\<forall>c w. \<exists>out. pe_exec env c repo w = Inr out)"

lemma makes_exec: "git_works env repo \<Longrightarrow> makes P (execSync env c repo) (\<lambda>_. True)"
  by (auto simp: delivers_def git_works_def execSync_def)

lemma makes_history:
  "git_works env repo \<Longrightarrow> makes P (gitHistory env repo) (list_all (\<lambda>e. no_bigint e \<and> no_bigint (js_maybe ''commit'' e)))"
  unfolding gitHistory_def
  by (rule makes_bind [OF makes_exec]) (auto simp: delivers_def returnP_def list_all_iff commit_entry_def part_at_def js_maybe_def js_get_def Let_def)

lemma parsed_no_bigint: "JSON_parse other s = Inr v \<Longrightarrow> (\<And>n. json_data (other n)) \<Longrightarrow> no_bigint v"
  by (rule json_data_no_bigint) (rule parsed_data)

lemma makes_package:
  assumes "\<And>n. json_data (pe_other env n)"
  shows "makes (readable paths) (package_entry env repo p) no_bigint"
  by (auto simp: delivers_def package_entry_def catchP_def bindP_def liftE_def returnP_def readFileSync_def split: sum.splits option.splits
      dest!: parsed_no_bigint [OF _ assms] js_get_no_bigint)

lemma makes_sbom:
  "git_works env repo \<Longrightarrow> (\<And>n. json_data (pe_other env n)) \<Longrightarrow> makes (readable paths) (sbom env repo) (list_all no_bigint)"
  unfolding sbom_def by (rule makes_bind [OF makes_exec]) (auto intro: makes_map makes_package)

lemma makes_ledger:
  assumes "identity_ready v"
  shows "makes (readable paths) (ownership_ledger env v n) (list_all (\<lambda>e. no_bigint (ledger_event_json e)))"
proof -
  obtain i where i: "js_path [''project'', ''id''] v = Inr i" "no_bigint i" using ready_path [OF assms, of "''project''" "''id''"] by auto
  obtain gc where gc: "js_path [''project'', ''genesis_commit''] v = Inr gc" "no_bigint gc" using ready_path [OF assms, of "''project''" "''genesis_commit''"] by auto
  obtain gh where gh: "js_path [''provenance'', ''genesis_hash''] v = Inr gh" "no_bigint gh" using ready_path [OF assms, of "''provenance''" "''genesis_hash''"] by auto
  obtain core where core: "js_path [''license'', ''core''] v = Inr core" "no_bigint core" using ready_path [OF assms, of "''license''" "''core''"] by auto
  show ?thesis unfolding delivers_def
  proof (intro allI impI)
    fix w assume w: "readable paths w"
    obtain l w' where run: "ownership_ledger env v n w = (Inr l, w')" and files: "rp_files w' = rp_files w"
      using i gc gh core
      by (auto simp: ownership_ledger_def bindP_def identity_field_def liftE_def case_prod_beta)
    have "list_all (\<lambda>e. no_bigint (le_payload e)) l" by (rule list.pred_mono_strong [OF ledger_payloads [OF run]]) (use i gc gh core in auto)
    then have "list_all (\<lambda>e. no_bigint (ledger_event_json e)) l"
      by (auto simp: list_all_iff ledger_event_json_def split: option.splits)
    then show "\<exists>l w'. ownership_ledger env v n w = (Inr l, w') \<and> readable paths w' \<and> list_all (\<lambda>e. no_bigint (ledger_event_json e)) l"
      using run files w by (auto simp: readable_def)
  qed
qed

lemmas issue_intros = makes_bind [OF makes_history] makes_bind [OF makes_write] makes_bind [OF makes_field]
  makes_bind [OF makes_map [OF makes_contract]] makes_bind [OF makes_sha] makes_bind [OF makes_sbom] makes_bind [OF makes_ledger] makes_return

lemma json_norm_container: "json_norm (JObj kvs) \<noteq> None" "json_norm (JArr vs) \<noteq> None"
  by simp_all

lemma contracts_no_bigint: "no_bigint (JObj (zip TOP_CONTRACTS (map JStr hs)))"
  by (auto simp: list_ex_iff dest!: set_zip_rightD)

lemma genesis_json_no_bigint:
  "no_bigint (pi_id p) \<and> no_bigint (pi_name p) \<and> no_bigint (pi_namespace p) \<and> no_bigint (pi_primaryOwner p) \<and>
    no_bigint (pi_repositoryOwner p) \<and> no_bigint (pi_genesisCommit p) \<Longrightarrow> no_bigint declared \<Longrightarrow>
    no_bigint ts \<Longrightarrow> no_bigint arch \<Longrightarrow> no_bigint lic \<Longrightarrow>
    no_bigint (genesis_json p ts arch lic declared computed valid) \<and> json_norm (genesis_json p ts arch lic declared computed valid) \<noteq> None"
  by (simp add: genesis_json_def)

lemma ready_value: "identity_ready v \<Longrightarrow> no_bigint v \<and> json_norm v \<noteq> None"
  by (auto simp: identity_ready_def split: jsv.splits)

lemma makes_bundle:
  assumes "identity_ready v" "git_works env repo" "\<And>n. json_data (pe_other env n)"
    and "no_bigint (pi_id p) \<and> no_bigint (pi_name p) \<and> no_bigint (pi_namespace p) \<and> no_bigint (pi_primaryOwner p) \<and>
      no_bigint (pi_repositoryOwner p) \<and> no_bigint (pi_genesisCommit p)" "no_bigint declared"
  shows "makes (readable (map (\<lambda>f. path_join [repo, f]) [''LICENSE'', ''PROJECT_IDENTITY.yaml'', ''PROJECT_GENESIS.md'']))
    (writeBundle env repo dir v p declared computed valid) (\<lambda>_. True)"
  unfolding writeBundle_def
  by (intro issue_intros assms genesis_json_no_bigint [OF assms(4,5), THEN conjunct1] genesis_json_no_bigint [OF assms(4,5), THEN conjunct2]
        ready_value [OF assms(1), THEN conjunct1] ready_value [OF assms(1), THEN conjunct2] contracts_no_bigint json_norm_container)
    (auto simp: list_all_iff list_ex_iff ownership_events_def)

text \<open>A checkout with an identity, a licence and a genesis document, in which git works and whose output
  directory is not a file, gets its bundle: an unreadable contract or package is recorded, not fatal.\<close>

lemma bundle_is_issued:
  assumes "map_get (rp_files w) (path_join [repo, ''PROJECT_IDENTITY.yaml'']) = Some raw" "pe_yaml env raw = Inr v" "identity_ready v"
    and "map_has (rp_files w) (path_join [repo, ''LICENSE''])" "map_has (rp_files w) (path_join [repo, ''PROJECT_GENESIS.md''])"
    and "\<not> map_has (rp_files w) (case outputDir of None \<Rightarrow> path_join [repo, ''ownership-proof''] | Some d \<Rightarrow> d)"
    and "git_works env repo" "\<And>n. json_data (pe_other env n)"
  shows "\<exists>proof w'. buildOwnershipProof env repo outputDir w = (Inr proof, w')"
proof -
  let ?P = "readable (map (\<lambda>f. path_join [repo, f]) [''LICENSE'', ''PROJECT_IDENTITY.yaml'', ''PROJECT_GENESIS.md''])"
  define dir where "dir = (case outputDir of None \<Rightarrow> path_join [repo, ''ownership-proof''] | Some d \<Rightarrow> d)"
  have load: "loadIdentity env repo w = (Inr v, w)"
    using assms(1,2) by (simp add: loadIdentity_def readFileSync_def bindP_def liftE_def)
  have "makes ?P (bindP (liftE (genesis_input v)) (\<lambda>p. bindP (liftE (identity_hash (pe_sha env) p)) (\<lambda>computed.
      bindP (identity_field [''provenance'', ''genesis_hash''] v) (\<lambda>declared.
        writeBundle env repo dir v p declared computed (JStr computed = declared))))) (\<lambda>_. True)"
    by (rule makes_bind [OF makes_genesis_input [OF assms(3)]], rule makes_bind [OF makes_hash], assumption,
        rule makes_bind [OF makes_field [OF assms(3)]], simp, rule makes_bundle [OF assms(3,7,8)])
  moreover have "?P (w\<lparr>rp_dirs := rp_dirs w @ [dir]\<rparr>)" using assms(1,4,5) by (simp add: readable_def)
  ultimately obtain a w' where "bindP (liftE (genesis_input v)) (\<lambda>p. bindP (liftE (identity_hash (pe_sha env) p)) (\<lambda>computed.
      bindP (identity_field [''provenance'', ''genesis_hash''] v) (\<lambda>declared.
        writeBundle env repo dir v p declared computed (JStr computed = declared))))
      (w\<lparr>rp_dirs := rp_dirs w @ [dir]\<rparr>) = (Inr a, w')"
    by (rule delivers_D)
  moreover have "mkdirSync dir w = (Inr (), w\<lparr>rp_dirs := rp_dirs w @ [dir]\<rparr>)" using assms(6) by (simp add: mkdirSync_def dir_def)
  ultimately show ?thesis
    unfolding buildOwnershipProof_def Let_def dir_def [symmetric] by (simp add: bindP_def [of "loadIdentity _ _"] load bindP_def [of "mkdirSync _"])
qed

text \<open>C20.  A bundle that was issued is what it says.  Its nine files hold JSON: the first is the identity;
  what \<open>genesis.json\<close> says of the genesis hash is what the command prints, namely whether the declared
  hash is the computed one; the exported ledger is declared valid in file and summary; and no other file
  has been touched.  A YAML parser returns objects without repeated keys, and numerals denote numbers.\<close>

theorem bundle_is_what_it_says:
  assumes "buildOwnershipProof env repo outputDir w = (Inr proof, w')"
    and "\<forall>raw v. pe_yaml env raw = Inr v \<longrightarrow> keys_distinct v" "\<And>n. json_data (pe_other env n)"
  shows "op_genesisValid proof = (op_genesisHashDeclared proof = JStr (op_genesisHashComputed proof)) \<and> op_chainValid proof \<and>
    (\<exists>v s. loadIdentity env repo w = (Inr v, s) \<and>
      (\<forall>f \<in> set (op_files proof). \<exists>t u. map_get (rp_files w') (path_join [op_outputDir proof, f]) = Some t \<and>
         JSON_parse other t = Inr u \<and> proves v (op_genesisValid proof) f u)) \<and>
    (\<forall>p. p \<notin> (\<lambda>f. path_join [op_outputDir proof, f]) ` set (op_files proof) \<longrightarrow> map_get (rp_files w') p = map_get (rp_files w) p)"
proof -
  define dir where "dir = (case outputDir of None \<Rightarrow> path_join [repo, ''ownership-proof''] | Some d \<Rightarrow> d)"
  obtain v s1 s2 p computed declared s5 where v: "loadIdentity env repo w = (Inr v, s1)" and "mkdirSync dir s1 = (Inr (), s2)"
    and p: "genesis_input v = Inr p" and declared: "identity_field [''provenance'', ''genesis_hash''] v s2 = (Inr declared, s5)"
    and run: "writeBundle env repo dir v p declared computed (JStr computed = declared) s5 = (Inr proof, w')"
    using assms(1) unfolding buildOwnershipProof_def Let_def dir_def [symmetric]
    by (elim bindP_returns) (auto simp: liftE_def)
  then have files: "rp_files s5 = rp_files w"
    using reads_only_parts(1) [of env repo] reads_only_prim(5) [of dir] reads_only_prim(6) [of "[''provenance'', ''genesis_hash'']" v]
    unfolding reads_only_def by (metis snd_conv)
  have distinct: "keys_distinct v"
    using v assms(2) by (auto simp: loadIdentity_def liftE_def elim!: bindP_returns)
  have "bundle_state other dir (rp_files w) (proves v (JStr computed = declared)) [] s5" using files by (simp add: bundle_state_def)
  from yields_D [OF bundle_written [OF assms(3) distinct genesis_input_distinct [OF p distinct] field_reads [OF declared distinct]] run this]
  show ?thesis using v by (auto simp: bundle_state_def)
qed

definition demo_project :: jsv where
  "demo_project = JObj
     [(''project'', JObj [(''id'', JStr ''p''), (''genesis_commit'', JStr ''c'')]),
      (''ownership'', JObj [(''primary_owner'', JStr ''o'')]), (''license'', JObj [(''core'', JStr ''L'')]),
      (''provenance'', JObj [(''genesis_hash'', JStr ''#'')])]"

definition demo_prove_env :: prove_env where
  "demo_prove_env = \<lparr>pe_sha = (\<lambda>_. ''#''), pe_yaml = (\<lambda>_. Inr demo_project), pe_other = (\<lambda>_. JNonFinite),
     pe_exec = (\<lambda>c cwd w. Inr [])\<rparr>"

definition demo_checkout :: repo_world where
  "demo_checkout = \<lparr>rp_files = [(''/r/PROJECT_IDENTITY.yaml'', []), (''/r/LICENSE'', []), (''/r/PROJECT_GENESIS.md'', [])],
     rp_dirs = [], rp_host = demo_host\<rparr>"

lemma demo_bundle_ok: "\<exists>proof w'. buildOwnershipProof demo_prove_env ''/r'' None demo_checkout = (Inr proof, w')"
proof (rule bundle_is_issued [where raw = "[]" and v = demo_project])
  show "identity_ready demo_project" "git_works demo_prove_env ''/r''"
    by (simp_all add: identity_ready_def demo_project_def git_works_def demo_prove_env_def)
  show "map_get (rp_files demo_checkout) (path_join [''/r'', ''PROJECT_IDENTITY.yaml'']) = Some []"
    "map_has (rp_files demo_checkout) (path_join [''/r'', ''LICENSE''])"
    "map_has (rp_files demo_checkout) (path_join [''/r'', ''PROJECT_GENESIS.md''])"
    "\<not> map_has (rp_files demo_checkout) (case None of None \<Rightarrow> path_join [''/r'', ''ownership-proof''] | Some d \<Rightarrow> d)"
    by code_simp+
qed (simp_all add: demo_prove_env_def)

theorem bundle_is_what_it_says_witness:
  "\<exists>proof w'. buildOwnershipProof demo_prove_env ''/r'' None demo_checkout = (Inr proof, w') \<and> op_chainValid proof \<and>
     op_genesisValid proof = (op_genesisHashDeclared proof = JStr (op_genesisHashComputed proof))"
proof -
  obtain proof' w' where run: "buildOwnershipProof demo_prove_env ''/r'' None demo_checkout = (Inr proof', w')"
    using demo_bundle_ok by blast
  have yaml: "\<forall>raw v. pe_yaml demo_prove_env raw = Inr v \<longrightarrow> keys_distinct v"
    by (auto simp: demo_prove_env_def demo_project_def)
  have "json_data (pe_other demo_prove_env n)" for n by (simp add: demo_prove_env_def)
  note says = bundle_is_what_it_says [where env = demo_prove_env, OF run yaml this]
  show ?thesis using run says [THEN conjunct1] says [THEN conjunct2, THEN conjunct1] by blast
qed

end
