(* ===== verification/Cli.thy ===== *)
theory Cli
  imports Ownership RunnerPasses ConsoleApi
begin

text \<open>
  The command line: \<open>apps/cli/src/cli.ts\<close>.  The world is the checkout with the lines printed so far.
  Each invocation makes a runner of its own, so nothing of an earlier one is seen.  The text of a
  fraction, which only \<open>health\<close> and \<open>models\<close> could print, is a parameter.
\<close>

record cli_env =
  ce_prove :: prove_env
  ce_mode :: "string option"
  ce_cwd :: string
  ce_fraction :: "rat \<Rightarrow> jsv"

record cli_world =
  cw_repo :: repo_world
  cw_printed :: "string list"

definition console_log :: "string \<Rightarrow> (cli_world, unit) proc" where
  "console_log line = (\<lambda>w. (Inr (), w\<lparr>cw_printed := cw_printed w @ [line]\<rparr>))"

definition on_repo :: "(repo_world, 'a) proc \<Rightarrow> (cli_world, 'a) proc" where
  "on_repo p = (\<lambda>w. case p (cw_repo w) of (r, repo) \<Rightarrow> (r, w\<lparr>cw_repo := repo\<rparr>))"

definition rat_json :: "(rat \<Rightarrow> jsv) \<Rightarrow> rat \<Rightarrow> jsv" where
  "rat_json fraction q = (if of_int \<lfloor>q\<rfloor> = q then JNum \<lfloor>q\<rfloor> else fraction q)"

section \<open>What the commands print\<close>

fun health_status_string :: "health_status \<Rightarrow> string" where
  "health_status_string He_healthy = ''healthy''"
| "health_status_string He_degraded = ''degraded''"
| "health_status_string He_critical = ''critical''"
| "health_status_string He_locked = ''locked''"

fun immune_status_string :: "immune_status \<Rightarrow> string" where
  "immune_status_string Im_watch = ''watch''"
| "immune_status_string Im_active = ''active''"
| "immune_status_string Im_quarantined = ''quarantined''"
| "immune_status_string Im_locked = ''locked''"

fun part_status_string :: "part_status \<Rightarrow> string" where
  "part_status_string Pt_healthy = ''healthy''"
| "part_status_string Pt_degraded = ''degraded''"

definition metrics_json :: "(rat \<Rightarrow> jsv) \<Rightarrow> immunity_metrics \<Rightarrow> jsv" where
  "metrics_json fraction m =
     JObj [(''mttdMs'', JNum (im_mttdMs m)), (''mttcMs'', JNum (im_mttcMs m)), (''mttrMs'', JNum (im_mttrMs m)),
       (''incidentCount'', JNum (int (im_incidentCount m))), (''falsePositiveRate'', rat_json fraction (im_falsePositiveRate m)),
       (''policyViolations'', JNum (int (im_policyViolations m))), (''quarantineCount'', JNum (int (im_quarantineCount m))),
       (''recoverySuccess'', JNum (int (im_recoverySuccess m))), (''recoveryAttempts'', JNum (int (im_recoveryAttempts m))),
       (''integrityFailures'', JNum (int (im_integrityFailures m))),
       (''credentialRevocations'', JNum (int (im_credentialRevocations m))), (''kills'', JNum (int (im_kills m)))]"

definition health_json :: "system_health \<Rightarrow> jsv \<Rightarrow> jsv" where
  "health_json h metrics =
     JObj [(''status'', JStr (health_status_string (sh_status h))), (''kernel'', JStr (part_status_string (sh_kernel h))),
       (''immune'', JStr (immune_status_string (sh_immune h))), (''ledger'', JStr (part_status_string (sh_ledger h))),
       (''storage'', JStr (part_status_string (sh_storage h))),
       (''runners'', JObj [(''healthy'', JNum (rh_healthy (sh_runners h))), (''quarantined'', JNum (rh_quarantined (sh_runners h)))]),
       (''incidents'', JNum (int (sh_incidents h))), (''level'', JStr (level_string (sh_level h))), (''metrics'', metrics)]"

definition model_line :: "(rat \<Rightarrow> jsv) \<Rightarrow> model_info \<Rightarrow> string" where
  "model_line fraction m = model_providerId m @ ''/'' @ model_id m @ '' ($'' @
     template_text (rat_json fraction (costPer1kInputUsd m)) @ ''/1k)''"

definition ledger_line :: "ledger_event \<Rightarrow> string" where
  "ledger_line e = show_nat (le_seq e) @ [CHR 0x09] @ le_type e @ [CHR 0x09] @ slice_units 8 (le_hash e)"

definition switch_text :: "string \<Rightarrow> string \<Rightarrow> bool \<Rightarrow> string" where
  "switch_text on off b = (if b then on else off)"

text \<open>The immune runtimes of \<open>safe-mode\<close> and \<open>emergency-lock\<close>, and the one of a new runner.\<close>

definition cli_immune :: "ledger option \<Rightarrow> bool \<Rightarrow> bool \<Rightarrow> host \<Rightarrow> immune_world" where
  "cli_immune l safe lock h = new_immune_runtime \<lparr>ro_ledger = l, ro_level = None, ro_cascade = None, ro_safeMode = safe,
     ro_emergencyLock = lock, ro_policy = None\<rparr> h"

definition no_runners :: runner_health where
  "no_runners = \<lparr>rh_healthy = 0, rh_quarantined = 0\<rparr>"

definition print_safe_mode :: "cli_env \<Rightarrow> (cli_world, unit) proc" where
  "print_safe_mode env = (\<lambda>w.
     let immune = cli_immune None True False (rp_host (cw_repo w)); h = healthSnapshot (pe_sha (ce_prove env)) no_runners immune in
     bindP (console_log (''safe-mode: '' @ switch_text ''ON'' ''OFF'' (runtime_isSafeMode immune) @
         '' (level '' @ level_string (sh_level h) @ '')'')) (\<lambda>_.
       console_log (''posture: read-only '' @ u_text [183] @ '' no external network '' @ u_text [183] @ '' no deployments '' @
         u_text [183] @ '' no secrets '' @ u_text [183] @ '' no plugin install '' @ u_text [183] @ '' no writes'')) w)"

definition print_emergency_lock :: "(cli_world, unit) proc" where
  "print_emergency_lock = (\<lambda>w.
     let immune = cli_immune None False True (rp_host (cw_repo w)) in
     bindP (console_log (''emergency-lock: '' @ switch_text ''ENGAGED'' ''OFF'' (runtime_isEmergencyLock immune) @
         '' (level '' @ level_string (runtime_level immune) @ '')'')) (\<lambda>_.
     bindP (console_log (''posture: STOP '' @ u_text [8212] @ '' ledger preservation '' @ u_text [183] @ '' evidence capture '' @
         u_text [183] @ '' credential revocation '' @ u_text [183] @ '' runner isolation'')) (\<lambda>_.
       console_log ''exit requires an independent authorization (not available in this shell)'')) w)"

definition print_health :: "cli_env \<Rightarrow> unit runner_world \<Rightarrow> (cli_world, unit) proc" where
  "print_health env rw =
     bindP (liftE (json_stringify_indented (health_json (healthSnapshot (pe_sha (ce_prove env)) no_runners (rn_immune rw))
         (metrics_json (ce_fraction env) (metrics_compute (imw_metrics (rn_immune rw))))))) (\<lambda>text.
       console_log (case text of None \<Rightarrow> ''undefined'' | Some t \<Rightarrow> t))"

text \<open>\<open>run\<close>: the intent is the rest of the line.\<close>

definition cli_intent :: "string list \<Rightarrow> string" where
  "cli_intent args = (let s = join_with '' '' args in if s \<noteq> [] then s else ''demo task'')"

definition plain_run :: "unit run_task_options" where
  "plain_run = \<lparr>rt_actorId = None, rt_actorTrust = None, rt_plan = None, rt_steps = None, rt_onVerify = None\<rparr>"

definition cli_runTask :: "unit local_runner \<Rightarrow> string \<Rightarrow> (cli_world, proof_carrying_outcome) proc" where
  "cli_runTask r intent = (\<lambda>w.
     case runner_run r intent plain_run (new_runner_world [] (rp_host (cw_repo w)) ()) of
       (out, rw) \<Rightarrow> (out, w\<lparr>cw_repo := (cw_repo w)\<lparr>rp_host := iw_host (rn_immune rw)\<rparr>\<rparr>))"

definition print_outcome :: "proof_carrying_outcome \<Rightarrow> (cli_world, unit) proc" where
  "print_outcome out =
     bindP (console_log (''verdict: '' @ verdict_text (pco_verdict out))) (\<lambda>_.
     bindP (liftE (json_stringify (js_maybe ''total'' (usage_jsv (pco_usage out))))) (\<lambda>text.
     bindP (console_log (''usage: '' @ (case text of None \<Rightarrow> ''undefined'' | Some t \<Rightarrow> t))) (\<lambda>_.
       console_log (''evidence: '' @ show_nat (length (ver_evidence (pco_verification out))) @ '' item(s)''))))"

definition print_proof :: "ownership_proof \<Rightarrow> (cli_world, unit) proc" where
  "print_proof p =
     bindP (console_log (''genesis valid: '' @ template_text (JBool (op_genesisValid p)))) (\<lambda>_.
     bindP (console_log (''ledger chain valid: '' @ template_text (JBool (op_chainValid p)))) (\<lambda>_.
     bindP (console_log (''output: '' @ op_outputDir p)) (\<lambda>_.
       forP (\<lambda>f. console_log (''  - '' @ f)) (op_files p))))"

section \<open>The commands\<close>

definition cli_command ::
  "cli_env \<Rightarrow> string option \<Rightarrow> string list \<Rightarrow> unit local_runner \<Rightarrow> unit runner_world \<Rightarrow> (cli_world, unit) proc" where
  "cli_command env command args runner rw =
     (if command = Some ''mode'' then console_log (''CELIA_MODE='' @ modeFromEnv (ce_mode env))
      else if command = Some ''health'' then print_health env rw
      else if command = Some ''safe-mode'' then print_safe_mode env
      else if command = Some ''emergency-lock'' then print_emergency_lock
      else if command = Some ''models'' then
        console_log (join_with [CHR 0x0A] (map (model_line (ce_fraction env)) (discover [mockProvider :: unit model_provider])))
      else if command = Some ''tools'' then
        (let s = join_with [CHR 0x0A] (executor_list (rc_executors runner)) in
         console_log (if s \<noteq> [] then s else ''(no executors registered)''))
      else if command = Some ''run'' then bindP (cli_runTask runner (cli_intent args)) print_outcome
      else if command = Some ''ledger'' then forP (\<lambda>e. console_log (ledger_line e)) (rn_ledger rw)
      else if command = Some ''runner'' then
        (if args \<noteq> [] \<and> hd args = ''start'' then console_log (''celia runner started (local) '' @ u_text [8212] @ '' $0'')
         else console_log ''celia runner install | connect | start'')
      else if command = Some ''ownership'' then
        (if args \<noteq> [] \<and> hd args = ''prove'' then
           bindP (on_repo (buildOwnershipProof (ce_prove env) (ce_cwd env) None)) print_proof
         else console_log ''usage: celia ownership prove'')
      else console_log (''usage: celia <mode|run|ledger|tools|models|runner|health|safe-mode|emergency-lock|ownership prove>''))"

definition cli_runner :: "cli_env \<Rightarrow> string option \<Rightarrow> js_error + unit local_runner" where
  "cli_runner env command =
     (if command = Some ''run'' then createLocalSmokeRunner (pe_sha (ce_prove env)) (modeFromEnv (ce_mode env))
      else Inr (new_local_runner (pe_sha (ce_prove env)) (ce_mode env) None None None None None None None None))"

definition cli_main :: "cli_env \<Rightarrow> string list \<Rightarrow> (cli_world, unit) proc" where
  "cli_main env argv = (\<lambda>w.
     bindP (liftE (cli_runner env (case argv of [] \<Rightarrow> None | c # _ \<Rightarrow> Some c))) (\<lambda>runner.
       cli_command env (case argv of [] \<Rightarrow> None | c # _ \<Rightarrow> Some c) (tl argv) runner
         (new_runner_world [] (rp_host (cw_repo w)) ())) w)"

text \<open>The exit code, with the error printed when there is one.\<close>

definition celia :: "cli_env \<Rightarrow> string list \<Rightarrow> cli_world \<Rightarrow> (nat \<times> js_error option) \<times> cli_world" where
  "celia env argv w = (case cli_main env argv w of (Inl e, w') \<Rightarrow> ((1, Some e), w') | (Inr _, w') \<Rightarrow> ((0, None), w'))"

section \<open>What a command does\<close>

text \<open>The files of the checkout are \<open>F\<close>, the lines \<open>ls\<close> have been printed.\<close>

definition at_files :: "(string, string) js_map \<Rightarrow> cli_world \<Rightarrow> bool" where
  "at_files F w \<longleftrightarrow> rp_files (cw_repo w) = F"

lemma log_makes: "makes (at_files F) (console_log line) (\<lambda>_. True)"
  by (simp add: delivers_def console_log_def at_files_def)

lemma for_log_makes: "makes (at_files F) (forP (\<lambda>x. console_log (f x)) xs) (\<lambda>_. True)"
proof (induction xs)
  case (Cons x xs)
  then show ?case unfolding forP.simps by (intro makes_bind [OF log_makes])
qed (simp add: delivers_return)

lemma usage_text: "\<exists>t. json_stringify (js_maybe ''total'' (usage_jsv u)) = Inr (Some t)"
  by (simp add: js_maybe_def js_get_def usage_jsv_def json_stringify_def)

lemma outcome_makes: "makes (at_files F) (print_outcome out) (\<lambda>_. True)"
proof -
  obtain t where t: "json_stringify (js_maybe ''total'' (usage_jsv (pco_usage out))) = Inr (Some t)" using usage_text by blast
  show ?thesis unfolding print_outcome_def t bind_lift_ok by (intro makes_bind [OF log_makes] log_makes)
qed

lemma health_makes:
  assumes "imw_metrics (rn_immune rw) = new_metrics"
  shows "makes (at_files F) (print_health env rw) (\<lambda>_. True)"
proof -
  have "no_bigint (metrics_json f (metrics_compute new_metrics))" for f
    by (simp add: metrics_json_def metrics_compute_def new_metrics_def rat_json_def)
  then have "\<exists>t. json_stringify_indented (health_json h (metrics_json f (metrics_compute (imw_metrics (rn_immune rw))))) = Inr t" for h f
    by (simp add: json_stringify_indented_def health_json_def assms)
  then obtain t where "json_stringify_indented (health_json (healthSnapshot (pe_sha (ce_prove env)) no_runners (rn_immune rw))
      (metrics_json (ce_fraction env) (metrics_compute (imw_metrics (rn_immune rw))))) = Inr t" by blast
  then show ?thesis unfolding print_health_def by (simp only: bind_lift_ok log_makes)
qed

lemma new_world_open: "open_at 0 (new_runner_world l h x)"
  by (simp add: open_at_def tool_calls_are_def gate_open_def new_runner_world_def new_usage_meter_def meter_usage_def
      EMPTY_USAGE_def new_immune_runtime_def configured_level_def less_eq_immunity_level_def)

lemma runTask_makes:
  assumes "createLocalSmokeRunner sha mode = Inr r"
  shows "makes (at_files F) (cli_runTask r intent) (\<lambda>out. pco_verdict out = V_PASSED \<and> length (ver_evidence (pco_verification out)) = 3)"
  unfolding delivers_def cli_runTask_def
proof (intro allI impI)
  fix w assume w: "at_files F w"
  have "rt_actorId plain_run = None" "trusting (rt_actorTrust plain_run)" "rt_plan plain_run = None" "rt_steps plain_run = None"
    "rt_onVerify plain_run = None" by (simp_all add: plain_run_def trusting_def)
  from smoke_run_passes [OF assms this new_world_open] obtain out rw
    where "runner_run r intent plain_run (new_runner_world [] (rp_host (cw_repo w)) ()) = (Inr out, rw)"
      "pco_verdict out = V_PASSED" "length (ver_evidence (pco_verification out)) = 3" by blast
  then show "\<exists>a w'. (case runner_run r intent plain_run (new_runner_world [] (rp_host (cw_repo w)) ()) of
      (out, rw) \<Rightarrow> (out, w\<lparr>cw_repo := (cw_repo w)\<lparr>rp_host := iw_host (rn_immune rw)\<rparr>\<rparr>)) = (Inr a, w') \<and>
      at_files F w' \<and> pco_verdict a = V_PASSED \<and> length (ver_evidence (pco_verification a)) = 3"
    using w by (simp add: at_files_def)
qed

lemma posture_makes:
  "makes (at_files F) (print_safe_mode env) (\<lambda>_. True)" "makes (at_files F) print_emergency_lock (\<lambda>_. True)"
  by (simp_all add: delivers_def print_safe_mode_def print_emergency_lock_def Let_def bindP_def console_log_def at_files_def)

definition proves_ownership :: "string list \<Rightarrow> bool" where
  "proves_ownership argv \<longleftrightarrow> take 2 argv = [''ownership'', ''prove'']"

lemma proves_ownership_Cons: "proves_ownership (c # args) \<longleftrightarrow> c = ''ownership'' \<and> args \<noteq> [] \<and> hd args = ''prove''"
  by (cases args) (auto simp: proves_ownership_def)

lemma command_makes:
  assumes "cli_runner env command = Inr runner" "\<not> (command = Some ''ownership'' \<and> args \<noteq> [] \<and> hd args = ''prove'')"
  shows "makes (at_files F) (cli_command env command args runner (new_runner_world [] h ())) (\<lambda>_. True)"
proof -
  have metrics: "imw_metrics (rn_immune (new_runner_world [] h ())) = new_metrics"
    by (simp add: new_runner_world_def new_immune_runtime_def)
  have run: "makes (at_files F) (bindP (cli_runTask runner intent) print_outcome) (\<lambda>_. True)" if "command = Some ''run''" for intent
    using assms(1) that by (intro makes_bind [OF runTask_makes] outcome_makes) (simp add: cli_runner_def)
  show ?thesis
    unfolding cli_command_def Let_def
    by (intro makes_if log_makes for_log_makes posture_makes health_makes metrics run) (use assms(2) in auto)
qed

lemma runner_exists: "\<exists>r. cli_runner env command = Inr r"
  by (auto simp: cli_runner_def createLocalSmokeRunner_def LOCAL_SMOKE_ACTIONS_def add_smoke_action_def runner_grant_def
      addGrant_def registerExecutor_def executor_register_def new_local_runner_def)

lemma main_makes: "\<not> proves_ownership argv \<Longrightarrow> makes (at_files F) (cli_main env argv) (\<lambda>_. True)"
proof -
  let ?command = "case argv of [] \<Rightarrow> None | c # _ \<Rightarrow> Some c"
  assume "\<not> proves_ownership argv"
  then have "\<not> (?command = Some ''ownership'' \<and> tl argv \<noteq> [] \<and> hd (tl argv) = ''prove'')"
    by (cases argv) (auto simp: proves_ownership_Cons)
  moreover obtain r where r: "cli_runner env ?command = Inr r" using runner_exists by blast
  ultimately have "makes (at_files F) (cli_command env ?command (tl argv) r (new_runner_world [] h ())) (\<lambda>_. True)" for h
    by (intro command_makes)
  then show ?thesis by (simp add: delivers_def cli_main_def r bind_lift_ok)
qed

text \<open>Printing the summary of a bundle never fails.\<close>

lemma proof_makes: "makes (at_files F) (print_proof p) (\<lambda>_. True)"
  unfolding print_proof_def by (intro makes_bind [OF log_makes] for_log_makes)

lemma main_ownership:
  assumes "proves_ownership argv"
  shows "cli_main env argv w = bindP (on_repo (buildOwnershipProof (ce_prove env) (ce_cwd env) None)) print_proof w"
proof -
  obtain args where argv: "argv = ''ownership'' # ''prove'' # args"
    using assms by (cases argv; cases "tl argv") (auto simp: proves_ownership_def)
  show ?thesis by (simp add: cli_main_def argv cli_runner_def bind_lift_ok cli_command_def)
qed

text \<open>\<open>celia run\<close> runs the smoke task: it passes with three pieces of evidence whatever is asked of it.\<close>

lemma outcome_prints:
  "\<exists>t. print_outcome out w = (Inr (), w\<lparr>cw_printed := cw_printed w @ [''verdict: '' @ verdict_text (pco_verdict out), ''usage: '' @ t,
     ''evidence: '' @ show_nat (length (ver_evidence (pco_verification out))) @ '' item(s)'']\<rparr>)"
proof -
  obtain t where t: "json_stringify (js_maybe ''total'' (usage_jsv (pco_usage out))) = Inr (Some t)" using usage_text by blast
  then show ?thesis unfolding print_outcome_def t bind_lift_ok by (auto simp: bindP_def console_log_def)
qed

lemma celia_run:
  "\<exists>t w'. celia env (''run'' # args) w = ((0, None), w') \<and>
     cw_printed w' = cw_printed w @ [''verdict: PASSED'', ''usage: '' @ t, ''evidence: 3 item(s)'']"
proof -
  obtain r where r: "cli_runner env (Some ''run'') = Inr r" using runner_exists by blast
  obtain out w1 where run: "cli_runTask r (cli_intent args) w = (Inr out, w1)" and out: "pco_verdict out = V_PASSED"
      "length (ver_evidence (pco_verification out)) = 3"
    using runTask_makes [of "pe_sha (ce_prove env)" "modeFromEnv (ce_mode env)" r "rp_files (cw_repo w)" "cli_intent args"] r
    by (auto simp: cli_runner_def delivers_def at_files_def)
  have "cw_printed w1 = cw_printed w" using run by (auto simp: cli_runTask_def split: prod.splits)
  moreover have "show_nat 3 = ''3''" by code_simp
  moreover obtain t where "print_outcome out w1 = (Inr (), w1\<lparr>cw_printed := cw_printed w1 @ [''verdict: PASSED'', ''usage: '' @ t,
      ''evidence: '' @ show_nat 3 @ '' item(s)'']\<rparr>)"
    using outcome_prints [of out w1] out by auto
  ultimately show ?thesis by (simp add: celia_def cli_main_def r liftE_def cli_command_def bindP_def run)
qed

section \<open>Properties\<close>

text \<open>C21.  The exit code of \<open>celia\<close>.  Every command line but \<open>ownership prove\<close> ends with exit code 0, prints no
  error and leaves the files of the checkout as they are, whatever its arguments; \<open>ownership prove\<close> ends
  with 0 exactly when the bundle is issued, and otherwise prints the error that stopped it.\<close>

theorem celia_exits:
  "if proves_ownership argv then
     fst (celia env argv w) =
       (case fst (buildOwnershipProof (ce_prove env) (ce_cwd env) None (cw_repo w)) of Inl e \<Rightarrow> (1, Some e) | Inr _ \<Rightarrow> (0, None))
   else fst (celia env argv w) = (0, None) \<and> rp_files (cw_repo (snd (celia env argv w))) = rp_files (cw_repo w)"
proof (cases "proves_ownership argv")
  case False
  from main_makes [OF this, of "rp_files (cw_repo w)" env]
  obtain w' where "cli_main env argv w = (Inr (), w')" "rp_files (cw_repo w') = rp_files (cw_repo w)"
    by (auto simp: delivers_def at_files_def)
  with False show ?thesis by (simp add: celia_def)
next
  case True
  obtain b repo where build: "buildOwnershipProof (ce_prove env) (ce_cwd env) None (cw_repo w) = (b, repo)"
    by (cases "buildOwnershipProof (ce_prove env) (ce_cwd env) None (cw_repo w)")
  show ?thesis
  proof (cases b)
    case (Inl e)
    then show ?thesis using True by (simp add: celia_def main_ownership bindP_def on_repo_def build)
  next
    case (Inr p)
    obtain w' where "print_proof p (w\<lparr>cw_repo := repo\<rparr>) = (Inr (), w')"
      using proof_makes [of repo_files p for repo_files] by (auto simp: delivers_def at_files_def)
    then show ?thesis using True Inr by (simp add: celia_def main_ownership bindP_def on_repo_def build)
  qed
qed

end
