(* ===== verification/Scheduling.thy ===== *)
theory Scheduling
  imports Total Contracts Host
begin

text \<open>
  The in-process scheduler (\<open>runtime/scheduler/src/scheduler.ts\<close>) and the in-process sandboxes with
  their manager (\<open>runtime/sandbox/src/sandbox-manager.ts\<close>).
\<close>

section \<open>The scheduler\<close>

type_synonym scheduler = "job list"

definition enqueue :: "job \<Rightarrow> scheduler \<Rightarrow> scheduler" where
  "enqueue j q = q @ [j]"

fun dequeue :: "scheduler \<Rightarrow> job option \<times> scheduler" where
  "dequeue [] = (None, [])"
| "dequeue (j # q) = (Some j, q)"

definition peek :: "scheduler \<Rightarrow> job option" where
  "peek q = (case q of [] \<Rightarrow> None | j # _ \<Rightarrow> Some j)"

definition scheduler_size :: "scheduler \<Rightarrow> nat" where
  "scheduler_size q = length q"

definition canDispatch :: "int \<Rightarrow> int \<Rightarrow> bool" where
  "canDispatch concurrency running \<longleftrightarrow> running < concurrency"

datatype scheduler_op = Sch_enqueue job | Sch_dequeue

text \<open>A sequence of operations: the jobs handed out, and the queue left.\<close>

fun scheduler_run :: "scheduler_op list \<Rightarrow> scheduler \<Rightarrow> job list \<times> scheduler" where
  "scheduler_run [] q = ([], q)"
| "scheduler_run (Sch_enqueue j # ops) q = scheduler_run ops (enqueue j q)"
| "scheduler_run (Sch_dequeue # ops) q =
     (case dequeue q of
        (None, q') \<Rightarrow> scheduler_run ops q'
      | (Some j, q') \<Rightarrow> (case scheduler_run ops q' of (js, r) \<Rightarrow> (j # js, r)))"

fun enqueued :: "scheduler_op list \<Rightarrow> job list" where
  "enqueued [] = []"
| "enqueued (Sch_enqueue j # ops) = j # enqueued ops"
| "enqueued (Sch_dequeue # ops) = enqueued ops"

text \<open>Jobs leave in the order in which they came, none is lost and none is made up, whatever the order of
  the operations.\<close>

lemma scheduler_fifo: "scheduler_run ops q = (js, r) \<Longrightarrow> js @ r = q @ enqueued ops"
proof (induction ops q arbitrary: js rule: scheduler_run.induct)
  case (3 ops q)
  then show ?case by (cases q) (auto split: prod.splits)
qed (auto simp: enqueue_def)

lemma dequeue_peek: "fst (dequeue q) = peek q" "peek q = None \<longleftrightarrow> scheduler_size q = 0"
  by (cases q; simp add: peek_def scheduler_size_def)+

section \<open>Sandboxes\<close>

record sandbox =
  sx_id :: string
  sx_limits :: sandbox_limits

record sandbox_world =
  sw_host :: host
  sw_active :: "(string, sandbox) js_map"

definition new_sandbox :: "sandbox_limits \<Rightarrow> host \<Rightarrow> sandbox \<times> host" where
  "new_sandbox limits h = (case randomUUID h of (i, h') \<Rightarrow> (\<lparr>sx_id = i, sx_limits = limits\<rparr>, h'))"

definition sandbox_allocate :: "sandbox_limits \<Rightarrow> (sandbox_world, sandbox) proc" where
  "sandbox_allocate limits = (\<lambda>w.
     case new_sandbox limits (sw_host w) of
       (sb, h) \<Rightarrow> (Inr sb, w\<lparr>sw_host := h, sw_active := map_set (sx_id sb) sb (sw_active w)\<rparr>))"

definition sandbox_release :: "string \<Rightarrow> (sandbox_world, unit) proc" where
  "sandbox_release i = (\<lambda>w. (Inr (), w\<lparr>sw_active := map_del i (sw_active w)\<rparr>))"

definition activeCount :: "sandbox_world \<Rightarrow> nat" where
  "activeCount w = length (sw_active w)"

text \<open>\<open>Promise.race\<close> with the timer: \<open>settled\<close> is what the function's promise settles with before the
  timer fires, if it does.  The function is not stopped when the timer wins.\<close>

definition sandbox_timeout :: "sandbox \<Rightarrow> js_error" where
  "sandbox_timeout sb = plain_error (''sandbox '' @ quoted (sx_id sb) @ '' exceeded timeout '' @
     show_int (sb_timeoutMs (sx_limits sb)) @ ''ms'')"

definition sandbox_run :: "sandbox \<Rightarrow> (js_error + 'a) option \<Rightarrow> js_error + 'a" where
  "sandbox_run sb settled = (case settled of Some r \<Rightarrow> r | None \<Rightarrow> Inl (sandbox_timeout sb))"

text \<open>A sandbox that is allocated under a fresh identifier is one more, and releasing it restores the others.\<close>

lemma allocate_release:
  assumes "map_get (sw_active w) (uuid_of (sw_host w) (uuid_calls (sw_host w))) = None"
  shows "\<exists>sb w1 w2. sandbox_allocate limits w = (Inr sb, w1) \<and> activeCount w1 = Suc (activeCount w) \<and>
    sandbox_release (sx_id sb) w1 = (Inr (), w2) \<and> sw_active w2 = sw_active w"
proof -
  let ?i = "uuid_of (sw_host w) (uuid_calls (sw_host w))"
  have "filter (\<lambda>(k, v). ?i \<noteq> k) (sw_active w) = sw_active w"
    using assms by (force simp: map_of_eq_None_iff filter_id_conv)
  then show ?thesis using assms
    by (simp add: sandbox_allocate_def new_sandbox_def randomUUID_def activeCount_def sandbox_release_def map_set_new
        AList.delete_eq)
qed

end
