(* ===== verification/Spec2Isabelle.thy ===== *)
theory Spec2Isabelle
  imports Provenance Registry Transition Dag Economics Projection Execution Verifier Tools Models
    Vault Identity ImmuneRuntime ExecutorRecovery ExecutorCases RunnerCases Storage Github
    JsonParse Http Worker GithubE2E ConsoleKernel Console ConsoleApi ConsoleStack ExecutorLive
    RunnerTrace RunnerPasses Ownership Cli Scheduling
begin

text \<open>
  The Agent Operating Kernel: a TypeScript monorepo in which agents act only through a kernel of
  contracts, policy, quotas, an immune system, a hash-chained ledger and a verification step.  This
  library models its packages and proves what they promise.  Paths below are under \<open>src/\<close>.

  \<^bold>\<open>The program.\<close>  \<open>kernel/\<close> holds the contracts and the small engines (events and ledger, registry,
  transition tables, policy, capability sets, economics, identity, provenance, execution, immune
  system); \<open>plugins/\<close> what can be exchanged (agents, tools, models, verification, GitHub);
  \<open>adapters/\<close> billing and vault; \<open>storage/store\<close> the durable stores; \<open>runtime/orchestrator\<close> the
  executor of workflow graphs; \<open>apps/\<close> the programs.  A task of the local runner
  (\<open>apps/cli/src/local-runner.ts\<close>) passes, step by step, the name guard, the policy engine and the
  approval, the quota, the immune gate, \<open>execute\<close> with a registered executor, and the meter; each stage
  appends to one ledger, and a verification of the results closes the run.  The orchestrator runs a
  graph of nodes as concurrent jobs, logs their progress and can restore a run from its log.

  \<^bold>\<open>Conventions.\<close>  An interface is a record, a union of strings or a tagged union a datatype, both with
  the source's names.  A function that throws returns \<open>js_error + 'a\<close>; one that also changes state is a
  \<open>('s, 'a) proc\<close>, which takes the state and gives the result and the state after, the state of an
  exception included; an async function whose interleavings matter is a resumption (Async).  A \<open>Map\<close> is
  the list of its entries in insertion order.  An untyped value is a \<open>jsv\<close>; its numbers are the
  integers (\<open>-0\<close> is \<open>0\<close>), its objects keep the order in which keys were set (JavaScript lists keys that
  look like indices first); a string is the list of the bytes of its UTF-8 form, and where the code cuts a
  text at a number of UTF-16 units the model does so too (\<open>slice_units\<close>, \<open>drop_units\<close>).  Hash functions, zod schemas (as parse
  functions), the network, executors, handlers and other callbacks are parameters; the host supplies
  fresh identifiers and clock readings as streams.  SHA-256 is never assumed injective: where a theorem
  rests on it the conclusion names the collision.

  \<^bold>\<open>Theories.\<close>
  \<^item> Prelude: exceptions, \<open>Map\<close>s, decimal numerals, splitting and joining, the interface \<open>registry\<close>;
    Host: identifiers, clock, ISO dates, rounding; Async: resumptions, pools of interleaved threads and
    the invariants of both; Encoding: base64, percent encoding, untyped reads; JsString: UTF-8, slices, blanks; Json and JsonParse:
    \<open>JSON.stringify\<close> and \<open>JSON.parse\<close> of the standard library; JsonPretty: the indented text; Total: total correctness.
  \<^item> Contracts: the data of \<open>kernel/contracts\<close>.  Canonicalize, Ledger, Projection: \<open>kernel/events\<close>
    (\<open>canonicalize\<close>, \<open>eventHash\<close>, \<open>Ledger.append\<close>, \<open>verifyChain\<close>, \<open>merkleRoot\<close>, replay).  Provenance:
    genesis hash and ownership ledger.
  \<^item> Registry: naming rules and \<open>SchemaRegistry\<close>.  Transition and Dag: the state machine tables, the graph
    checks.  Policy, Economics, Identity: \<open>PolicyEngine\<close>, \<open>UsageMeter\<close> and quotas, \<open>IdentityService\<close>.
    Execution: \<open>execute\<close> and its registry.
  \<^item> Verifier, Tools, Models, Vault, Github: the plugins and adapters.
  \<^item> ImmuneTypes, Detector, ImmuneGate, ImmuneOrgans, ImmuneResponse, ImmuneRuntime: \<open>kernel/immune\<close>, from
    the detectors to \<open>evaluateAndApply\<close>.
  \<^item> Workflow, Executor: \<open>runtime/orchestrator\<close>; ExecutorInv, ExecutorRuns, ExecutorRecovery,
    ExecutorCases, Progress, Holding, ExecutorRounds,
    ExecutorLive: its invariants, complete runs, recovery from the log, single jobs, the progress every round makes, and
    that no round is stuck.
  \<^item> Storage: \<open>storage/store\<close>.  Scheduling: \<open>runtime/scheduler\<close>, \<open>runtime/sandbox\<close>.  LocalRunner,
    RunnerRuns, RunnerCases, RunnerTrace, RunnerPasses: the local runner.  Ownership, Cli: the provenance bundle and the
    commands of \<open>apps/cli\<close>.
  \<^item> Http, Worker, GithubE2E, ConsoleApi: the programs of \<open>apps/\<close> that serve or call the kernel:
    \<open>apps/api/src/server.ts\<close>, the worker and its table of runs, the end-to-end check on GitHub, the
    client of \<open>apps/console/src/api.ts\<close>.  ConsoleKernel, Console: the console's classification of goals,
    its demonstration kernel and the state of \<open>App.tsx\<close>.  ConsoleStack: console, client and server composed.
  \<^bold>\<open>Interfaces.\<close>  \<open>registry\<close> (register once, then look up) is interpreted on every registry of the
  program; \<open>event_sink\<close> (what an execution emits is kept, in order) on the local runner's ledger
  (RunnerTrace); the executor's locales, from \<open>executor_frame\<close> over \<open>executor_jobs\<close> and
  \<open>executor_queueing\<close> to \<open>executor_invariant\<close>, turn an invariant of a few kinds of state change into one
  of every operation, round and run, under every interleaving; \<open>seat_usage\<close> turns the use of one
  kind of seat into the freedom of that seat at the end; \<open>runner_frame\<close> and \<open>runner_invariant\<close> do the
  same as the executor's for the runs of the local runner.

  \<^bold>\<open>What is proved.\<close>  The graph: nodes complete in dependency order, once, and keep their results
  (ExecutorRuns); a crash and a restart lose and invent nothing (ExecutorRecovery, Storage); retries are
  bounded and a denied approval is final (ExecutorCases); every round deals with the nodes that were
  ready, rounds are at most as many as nodes, and, where the limits admit a job at all and nothing is taken
  at the start, neither a round nor a run is ever stuck (ExecutorRounds, ExecutorLive).  The runner: a permitted task of a trusted actor, behind an open immune gate, runs to its end and passes
  the default verification (RunnerPasses), what the guard, the policy or a missing approval refuses runs nothing, tool calls
  stay within the budget over any number of runs, the verdict is the one the checks, or by default the results, justify and the
  ledger verifies (RunnerCases); every execution leaves its trace in the ledger (RunnerTrace).  The command line: its exit codes, and what a provenance bundle says
  (Cli, Ownership).  The kernel: the chain check finds the first bad event, tenants are isolated, hostile observations are blocked, an isolated
  principal does not act again, budgets hold, the decision of the policy engine is the one of its
  specification.  Several theorems state what the code does where that is not what its comments say;
  the manifest lists these as findings.

  \<^bold>\<open>Bounds and fuel.\<close>  The cycle search carries fuel for its depth, one more than the number of nodes,
  which is proved to be enough (Dag); the retry loop carries one per attempt and the policy's number of
  attempts is proved to be enough (ExecutorCases); a worker of a round carries one per queued job and
  the cascade of skipped nodes one per node, which is the depth it can reach; the JSON
  reader carries fuel for the length of its text, which is proved to be enough (JsonParse).

  \<^bold>\<open>Not modelled.\<close>  Streaming of model answers and fractional numbers; the Postgres driver, \<open>fetch\<close>, the
  parser of dates and YAML, which are parameters or left out; index and start files, which only
  re-export or print; the React components of \<open>apps/console\<close>, whose content is markup; the test
  harness and the architecture tests.  Runs of one runner that overlap in time are not interleaved,
  jobs of one executor are.
\<close>

end
